(* ===== verification/Prelude.thy ===== *)
theory Prelude
  imports Main "HOL-Library.AList"
begin

text \<open>
  Shared vocabulary of the development. It holds

  \<^item> Python dictionaries with their insertion order, as association lists with distinct
    keys: \<open>dict_set\<close> keeps the position of a key that is already present and appends a new
    one, as \<open>dict.__setitem__\<close> does;
  \<^item> results of code that may raise, as sums (\<open>Inl\<close> the exception, \<open>Inr\<close> the value)
    with \<open>bind_res\<close> for "stop at the first exception";
  \<^item> the few string and list functions of the Python library the code calls;
  \<^item> the collections of simplification rules (\<open>dict_simps\<close>, \<open>res_simps\<close>) that carry
    the proofs of the components.
\<close>

named_theorems dict_simps "laws of insertion-ordered dictionaries"
named_theorems res_simps "laws of results of code that may raise"

section \<open>Insertion-ordered dictionaries\<close>

type_synonym ('k, 'v) dict = "('k \<times> 'v) list"

abbreviation dict_get :: "('k, 'v) dict \<Rightarrow> 'k \<Rightarrow> 'v option" where
  "dict_get d k \<equiv> map_of d k"

abbreviation dict_set :: "'k \<Rightarrow> 'v \<Rightarrow> ('k, 'v) dict \<Rightarrow> ('k, 'v) dict" where
  "dict_set k v d \<equiv> AList.update k v d"

abbreviation dict_del :: "'k \<Rightarrow> ('k, 'v) dict \<Rightarrow> ('k, 'v) dict" where
  "dict_del k d \<equiv> AList.delete k d"

abbreviation dict_keys :: "('k, 'v) dict \<Rightarrow> 'k list" where
  "dict_keys d \<equiv> map fst d"

abbreviation dict_values :: "('k, 'v) dict \<Rightarrow> 'v list" where
  "dict_values d \<equiv> map snd d"

definition dict_has :: "('k, 'v) dict \<Rightarrow> 'k \<Rightarrow> bool" where
  "dict_has d k \<longleftrightarrow> k \<in> set (map fst d)"

definition dict_ok :: "('k, 'v) dict \<Rightarrow> bool" where
  "dict_ok d \<longleftrightarrow> distinct (map fst d)"

text \<open>\<open>d.update(e)\<close>: the entries of \<open>e\<close> are stored one after the other.\<close>

definition dict_update :: "('k, 'v) dict \<Rightarrow> ('k, 'v) dict \<Rightarrow> ('k, 'v) dict" where
  "dict_update d e = foldl (\<lambda>acc (k, v). dict_set k v acc) d e"

lemma dict_has_get [dict_simps]: "dict_has d k \<longleftrightarrow> dict_get d k \<noteq> None"
  by (simp add: dict_has_def map_of_eq_None_iff)

lemma dict_get_set [dict_simps]: "dict_get (dict_set k v d) k' = (if k' = k then Some v else dict_get d k')"
  by (simp add: update_conv')

lemma dict_get_del [dict_simps]: "dict_get (dict_del k d) k' = (if k' = k then None else dict_get d k')"
  by (simp add: delete_conv')

lemma dict_ok_set [simp]: "dict_ok d \<Longrightarrow> dict_ok (dict_set k v d)"
  by (simp add: dict_ok_def distinct_update)

lemma dict_ok_del [simp]: "dict_ok d \<Longrightarrow> dict_ok (dict_del k d)"
  by (simp add: dict_ok_def distinct_delete)

lemma dict_ok_Nil [simp]: "dict_ok []"
  by (simp add: dict_ok_def)

lemma dict_keys_set: "dict_keys (dict_set k v d) = (if dict_has d k then dict_keys d else dict_keys d @ [k])"
  by (simp add: dict_has_def update_keys)

lemma dict_set_new: "\<not> dict_has d k \<Longrightarrow> dict_set k v d = d @ [(k, v)]"
  by (induction d) (auto simp: dict_has_def)

lemma length_dict_set: "length (dict_set k v d) = (if dict_has d k then length d else Suc (length d))"
  by (induction d) (auto simp: dict_has_def)

lemma dict_values_mem: "dict_get d k = Some v \<Longrightarrow> v \<in> set (dict_values d)"
  by (auto dest: map_of_SomeD intro: rev_image_eqI)

lemma dict_set_values: "set (dict_values (dict_set k v d)) \<subseteq> insert v (set (dict_values d))"
  by (induction d) auto

lemma dict_ok_get_iff: "dict_ok d \<Longrightarrow> (k, v) \<in> set d \<longleftrightarrow> dict_get d k = Some v"
  by (simp add: dict_ok_def)

lemma dict_update_Nil [simp]: "dict_update d [] = d"
  by (simp add: dict_update_def)

lemma dict_update_Cons [simp]: "dict_update d ((k, v) # e) = dict_update (dict_set k v d) e"
  by (simp add: dict_update_def)

lemma dict_ok_update [simp]: "dict_ok d \<Longrightarrow> dict_ok (dict_update d e)"
proof (induction e arbitrary: d)
  case Nil
  then show ?case by simp
next
  case (Cons p e)
  from Cons.prems have "dict_ok (dict_set (fst p) (snd p) d)" by (rule dict_ok_set)
  then have "dict_ok (dict_update (dict_set (fst p) (snd p) d) e)" by (rule Cons.IH)
  then show ?case by (cases p) simp
qed

lemma dict_get_update [dict_simps]:
  "dict_ok e \<Longrightarrow> dict_get (dict_update d e) k = (case dict_get e k of None \<Rightarrow> dict_get d k | Some v \<Rightarrow> Some v)"
proof (induction e arbitrary: d)
  case Nil
  then show ?case by simp
next
  case (Cons p e)
  then show ?case
    by (cases p) (auto simp: dict_ok_def dict_get_set map_of_eq_None_iff[symmetric] split: option.splits)
qed

lemma dict_update_append: "dict_ok (d @ e) \<Longrightarrow> dict_update d e = d @ e"
proof (induction e arbitrary: d)
  case Nil
  then show ?case by simp
next
  case (Cons p e)
  then have "\<not> dict_has d (fst p)"
    by (auto simp: dict_has_def dict_ok_def)
  then have "dict_set (fst p) (snd p) d = d @ [p]"
    by (simp add: dict_set_new)
  moreover have "dict_update (d @ [p]) e = (d @ [p]) @ e"
    by (rule Cons.IH) (use Cons.prems in simp)
  ultimately show ?case by (cases p) simp
qed

lemma dict_update_fresh: "dict_ok e \<Longrightarrow> dict_update [] e = e"
  using dict_update_append[of "[]" e] by simp

lemma dict_set_mem: "dict_ok d \<Longrightarrow> x \<in> set (dict_set k v d) \<Longrightarrow> x = (k, v) \<or> x \<in> set d"
  by (induction d) (auto simp: dict_ok_def split: if_splits)

lemma dict_update_mem: "dict_ok d \<Longrightarrow> x \<in> set (dict_update d e) \<Longrightarrow> x \<in> set d \<or> x \<in> set e"
proof (induction e arbitrary: d)
  case (Cons p e)
  obtain k v where p: "p = (k, v)" by (cases p)
  with Cons.IH[of "dict_set k v d"] Cons.prems dict_set_mem[OF Cons.prems(1), of x k v] show ?case by auto
qed simp

lemma dict_keys_update: "set (dict_keys (dict_update d e)) = set (dict_keys d) \<union> set (dict_keys e)"
proof (induction e arbitrary: d)
  case (Cons p e)
  obtain k v where p: "p = (k, v)" by (cases p)
  have "set (dict_keys (dict_set k v d)) = insert k (set (dict_keys d))"
    by (auto simp: dict_keys_set dict_has_def)
  with Cons.IH[of "dict_set k v d"] p show ?case by auto
qed simp

lemma dict_del_absent: "dict_get d k = None \<Longrightarrow> dict_del k d = d"
  by (simp add: delete_id map_of_eq_None_iff)

lemma dict_del_last: "dict_get d k = None \<Longrightarrow> dict_del k (d @ [(k, v)]) = d"
  by (induction d) (auto split: if_splits)

section \<open>Code that may raise\<close>

fun bind_res :: "'e + 'a \<Rightarrow> ('a \<Rightarrow> 'e + 'b) \<Rightarrow> 'e + 'b" where
  "bind_res (Inl e) f = Inl e"
| "bind_res (Inr x) f = f x"

lemma bind_res_cong [fundef_cong]:
  "r = r' \<Longrightarrow> (\<And>x. r' = Inr x \<Longrightarrow> f x = f' x) \<Longrightarrow> bind_res r f = bind_res r' f'"
  by (cases r') auto

lemma bind_res_Inr_iff [res_simps]: "bind_res r f = Inr y \<longleftrightarrow> (\<exists>x. r = Inr x \<and> f x = Inr y)"
  by (cases r) auto

lemma bind_res_Inl_iff [res_simps]: "bind_res r f = Inl e \<longleftrightarrow> r = Inl e \<or> (\<exists>x. r = Inr x \<and> f x = Inl e)"
  by (cases r) auto

definition of_option :: "'e \<Rightarrow> 'a option \<Rightarrow> 'e + 'a" where
  "of_option e o' = (case o' of None \<Rightarrow> Inl e | Some x \<Rightarrow> Inr x)"

lemma of_option_simps [simp]: "of_option e None = Inl e" "of_option e (Some x) = Inr x"
  by (simp_all add: of_option_def)

lemma of_option_Inr_iff [res_simps]: "of_option e o' = Inr x \<longleftrightarrow> o' = Some x"
  by (cases o') auto

section \<open>Strings\<close>

text \<open>ASCII \<open>str.lower()\<close>.\<close>

definition char_lower :: "char \<Rightarrow> char" where
  "char_lower c = (let n = of_char c :: nat in if 65 \<le> n \<and> n \<le> 90 then char_of (n + 32) else c)"

definition str_lower :: "string \<Rightarrow> string" where
  "str_lower s = map char_lower s"

definition char_upper :: "char \<Rightarrow> char" where
  "char_upper c = (let n = of_char c :: nat in if 97 \<le> n \<and> n \<le> 122 then char_of (n - 32) else c)"

definition str_upper :: "string \<Rightarrow> string" where
  "str_upper s = map char_upper s"

fun str_startswith :: "string \<Rightarrow> string \<Rightarrow> bool" where
  "str_startswith s [] = True"
| "str_startswith [] (c # p) = False"
| "str_startswith (d # s) (c # p) = (c = d \<and> str_startswith s p)"

definition str_endswith :: "string \<Rightarrow> string \<Rightarrow> bool" where
  "str_endswith s p = str_startswith (rev s) (rev p)"

text \<open>\<open>p in s\<close> for strings.\<close>

fun str_contains :: "string \<Rightarrow> string \<Rightarrow> bool" where
  "str_contains [] p = (p = [])"
| "str_contains (c # s) p = (str_startswith (c # s) p \<or> str_contains s p)"

text \<open>\<open>os.path.join\<close> of two parts, and the split of \<open>rsplit\<close> at the last dot.\<close>

definition path_join :: "string \<Rightarrow> string \<Rightarrow> string" where
  "path_join a b =
     (if str_startswith b ''/'' then b
      else if a = [] \<or> str_endswith a ''/'' then a @ b
      else a @ ''/'' @ b)"

definition rsplit_dot :: "string \<Rightarrow> (string \<times> string) option" where
  "rsplit_dot s =
     (if CHR ''.'' \<in> set s
      then Some (rev (tl (dropWhile (\<lambda>c. c \<noteq> CHR ''.'') (rev s))), rev (takeWhile (\<lambda>c. c \<noteq> CHR ''.'') (rev s)))
      else None)"

lemma str_startswith_iff: "str_startswith s p \<longleftrightarrow> (\<exists>t. s = p @ t)"
  by (induction s p rule: str_startswith.induct) auto

lemma str_endswith_iff: "str_endswith s p \<longleftrightarrow> (\<exists>t. s = t @ p)"
proof -
  have "(\<exists>t. rev s = rev p @ t) \<longleftrightarrow> (\<exists>t. s = t @ p)"
    by (metis rev_append rev_rev_ident)
  then show ?thesis by (simp add: str_endswith_def str_startswith_iff)
qed

lemma str_contains_iff: "str_contains s p \<longleftrightarrow> (\<exists>t u. s = t @ p @ u)"
proof (induction s)
  case Nil
  then show ?case by auto
next
  case (Cons c s)
  have "(\<exists>t u. c # s = t @ p @ u) \<longleftrightarrow> (\<exists>u. c # s = p @ u) \<or> (\<exists>t u. s = t @ p @ u)"
  proof
    assume "\<exists>t u. c # s = t @ p @ u"
    then obtain t u where "c # s = t @ p @ u" by blast
    then show "(\<exists>u. c # s = p @ u) \<or> (\<exists>t u. s = t @ p @ u)"
      by (cases t) auto
  next
    assume "(\<exists>u. c # s = p @ u) \<or> (\<exists>t u. s = t @ p @ u)"
    then show "\<exists>t u. c # s = t @ p @ u"
      by (metis append_Cons append_Nil)
  qed
  with Cons show ?case by (simp add: str_startswith_iff)
qed

section \<open>Lists\<close>

text \<open>\<open>deque.pop()\<close>: the last element is taken.\<close>

lemma butlast_last_sum: "xs \<noteq> [] \<Longrightarrow> sum_list (map f (butlast xs)) + f (last xs) = (sum_list (map f xs) :: nat)"
  by (induction xs) auto

lemma take_length_append: "take (length xs) (xs @ ys) = xs"
  by simp

lemma rsplit_dot_iff:
  "rsplit_dot s = Some (a, b) \<longleftrightarrow> s = a @ ''.'' @ b \<and> CHR ''.'' \<notin> set b"
proof -
  let ?P = "\<lambda>c. c \<noteq> CHR ''.''"
  have "s = a @ ''.'' @ b \<and> CHR ''.'' \<notin> set b \<Longrightarrow> rsplit_dot s = Some (a, b)"
  proof -
    assume s: "s = a @ ''.'' @ b \<and> CHR ''.'' \<notin> set b"
    then have "takeWhile ?P (rev s) = rev b" "dropWhile ?P (rev s) = CHR ''.'' # rev a"
      by (auto simp: takeWhile_append dropWhile_append)
    with s show ?thesis by (simp add: rsplit_dot_def)
  qed
  moreover have "rsplit_dot s = Some (a, b) \<Longrightarrow> s = a @ ''.'' @ b \<and> CHR ''.'' \<notin> set b"
  proof -
    assume r: "rsplit_dot s = Some (a, b)"
    then have "dropWhile ?P (rev s) \<noteq> []" by (auto simp: rsplit_dot_def split: if_splits)
    then obtain t where t: "dropWhile ?P (rev s) = CHR ''.'' # t" by (cases "dropWhile ?P (rev s)") (auto simp: dropWhile_eq_Cons_conv)
    have "rev s = takeWhile ?P (rev s) @ CHR ''.'' # t" using takeWhile_dropWhile_id[of ?P "rev s"] t by simp
    then have "s = rev t @ ''.'' @ rev (takeWhile ?P (rev s))" by (metis append_Cons append_Nil append_assoc rev.simps(2) rev_append rev_rev_ident)
    moreover have "a = rev t" "b = rev (takeWhile ?P (rev s))" using r t by (auto simp: rsplit_dot_def split: if_splits)
    ultimately show ?thesis by (auto dest: set_takeWhileD)
  qed
  ultimately show ?thesis by blast
qed

text \<open>A list cut into pieces of a given length, the last one possibly shorter: repeated \<open>read(n)\<close>.\<close>

function chunks :: "nat \<Rightarrow> 'a list \<Rightarrow> 'a list list" where
  "chunks n xs = (if n = 0 \<or> xs = [] then [] else take n xs # chunks n (drop n xs))"
  by pat_completeness auto
termination
  by (relation "measure (\<lambda>(n, xs). length xs)") auto

declare chunks.simps [simp del]

lemma chunks_Nil [simp]: "chunks n [] = []"
  by (simp add: chunks.simps)

lemma chunks_zero [simp]: "chunks 0 xs = []"
  by (simp add: chunks.simps)

lemma concat_chunks: "0 < n \<Longrightarrow> concat (chunks n xs) = xs"
proof (induction n xs rule: chunks.induct)
  case (1 n xs)
  then show ?case by (cases "xs = []") (simp_all add: chunks.simps[of n xs])
qed

lemma chunks_sizes: "0 < n \<Longrightarrow> b \<in> set (chunks n xs) \<Longrightarrow> b \<noteq> [] \<and> length b \<le> n"
proof (induction n xs rule: chunks.induct)
  case (1 n xs)
  then show ?case by (cases "xs = []") (auto simp: chunks.simps[of n xs])
qed

end
