(* ===== verification/Exceptions.thy ===== *)
theory Exceptions
  imports Prelude
begin

text \<open>
  The exception classes of \<^verbatim>\<open>src/nexus/exceptions.py\<close> and the built-in classes the code
  raises or catches, with their base classes. \<open>is_subclass\<close> is Python's \<open>issubclass\<close>:
  \<open>except C\<close> catches an exception of class \<open>c\<close> exactly when \<open>is_subclass c C\<close>.
  A user-defined exception class is \<open>UserExc name base\<close>.
\<close>

datatype exc_class =
    Exception
  | ValueError | TypeError | KeyError | IndexError | AttributeError | RuntimeError
  | RecursionError | SyntaxError | NotImplementedError | ImportError | ConnectionError
  | StopIteration | CancelledError | TimeoutError
  | ImproperlyConfigured | PipelineError | TaskError | EventDoesNotExist | StateError
  | EventDone | EventNotConfigured | BadPipelineError | MultiValueError
  | StopProcessingError | MaxRetryError | ValidationError | ObjectExistError
  | ObjectDoesNotExist | SwitchTask | TaskSwitchingError | SqlOperationError
  | PipelineExecutionError | PipelineConfigurationError
  | UserExc string exc_class

text \<open>The direct bases, in the order of the class statement. \<open>KeyError\<close> and \<open>IndexError\<close>
  derive from \<open>LookupError\<close>, which the code never names; \<open>TimeoutError\<close> and
  \<open>ConnectionError\<close> from \<open>OSError\<close>, likewise.\<close>

fun bases :: "exc_class \<Rightarrow> exc_class list" where
  "bases Exception = []"
| "bases RecursionError = [RuntimeError]"
| "bases NotImplementedError = [RuntimeError]"
| "bases TaskError = [PipelineError]"
| "bases EventDoesNotExist = [PipelineError, ValueError]"
| "bases StateError = [PipelineError, ValueError]"
| "bases EventDone = [PipelineError]"
| "bases EventNotConfigured = [ImproperlyConfigured]"
| "bases BadPipelineError = [ImproperlyConfigured, PipelineError]"
| "bases MultiValueError = [PipelineError, KeyError]"
| "bases StopProcessingError = [PipelineError, RuntimeError]"
| "bases ValidationError = [PipelineError, ValueError]"
| "bases ObjectExistError = [ValueError]"
| "bases ObjectDoesNotExist = [ValueError]"
| "bases TaskSwitchingError = [PipelineError]"
| "bases SqlOperationError = [ValueError]"
| "bases PipelineExecutionError = [PipelineError]"
| "bases PipelineConfigurationError = [PipelineError]"
| "bases (UserExc n b) = [b]"
| "bases _ = [Exception]"

fun class_rank :: "exc_class \<Rightarrow> nat" where
  "class_rank Exception = 0"
| "class_rank (UserExc n b) = Suc (class_rank b)"
| "class_rank c = (if bases c = [Exception] then 1 else 2)"

lemma bases_rank: "b \<in> set (bases c) \<Longrightarrow> class_rank b < class_rank c"
  by (cases c) auto

function is_subclass :: "exc_class \<Rightarrow> exc_class \<Rightarrow> bool" where
  "is_subclass c d = (c = d \<or> list_ex (\<lambda>b. is_subclass b d) (bases c))"
  by pat_completeness auto
termination
  by (relation "measure (\<lambda>(c, d). class_rank c)") (auto intro: bases_rank)

declare is_subclass.simps [simp del]

lemma is_subclass_refl [simp]: "is_subclass c c"
  by (subst is_subclass.simps) simp

text \<open>Every class derives from \<open>Exception\<close>: \<open>except Exception\<close> catches all of them.\<close>

lemma is_subclass_Exception [simp]: "is_subclass c Exception"
proof (induction "class_rank c" arbitrary: c rule: less_induct)
  case less
  show ?case
  proof (cases "bases c")
    case Nil
    then have "c = Exception" by (cases c) auto
    then show ?thesis by simp
  next
    case (Cons b bs)
    then have "class_rank b < class_rank c" by (simp add: bases_rank)
    then have "is_subclass b Exception" by (rule less)
    with Cons show ?thesis by (subst is_subclass.simps) simp
  qed
qed

lemma is_subclass_trans: "is_subclass c d \<Longrightarrow> is_subclass d e \<Longrightarrow> is_subclass c e"
proof (induction "class_rank c" arbitrary: c rule: less_induct)
  case less
  show ?case
  proof (cases "c = d")
    case True
    with less.prems show ?thesis by simp
  next
    case False
    with less.prems(1) obtain b where b: "b \<in> set (bases c)" "is_subclass b d"
      by (auto simp: is_subclass.simps[of c] list_ex_iff)
    from bases_rank[OF b(1)] b(2) less.prems(2) have "is_subclass b e" by (rule less.hyps)
    with b(1) show ?thesis by (auto simp: is_subclass.simps[of c] list_ex_iff)
  qed
qed

text \<open>\<open>__name__\<close> of a class.\<close>

fun exc_name :: "exc_class \<Rightarrow> string" where
  "exc_name Exception = ''Exception''"
| "exc_name ValueError = ''ValueError''"
| "exc_name TypeError = ''TypeError''"
| "exc_name KeyError = ''KeyError''"
| "exc_name IndexError = ''IndexError''"
| "exc_name AttributeError = ''AttributeError''"
| "exc_name RuntimeError = ''RuntimeError''"
| "exc_name RecursionError = ''RecursionError''"
| "exc_name SyntaxError = ''SyntaxError''"
| "exc_name NotImplementedError = ''NotImplementedError''"
| "exc_name ImportError = ''ImportError''"
| "exc_name ConnectionError = ''ConnectionError''"
| "exc_name StopIteration = ''StopIteration''"
| "exc_name CancelledError = ''CancelledError''"
| "exc_name TimeoutError = ''TimeoutError''"
| "exc_name ImproperlyConfigured = ''ImproperlyConfigured''"
| "exc_name PipelineError = ''PipelineError''"
| "exc_name TaskError = ''TaskError''"
| "exc_name EventDoesNotExist = ''EventDoesNotExist''"
| "exc_name StateError = ''StateError''"
| "exc_name EventDone = ''EventDone''"
| "exc_name EventNotConfigured = ''EventNotConfigured''"
| "exc_name BadPipelineError = ''BadPipelineError''"
| "exc_name MultiValueError = ''MultiValueError''"
| "exc_name StopProcessingError = ''StopProcessingError''"
| "exc_name MaxRetryError = ''MaxRetryError''"
| "exc_name ValidationError = ''ValidationError''"
| "exc_name ObjectExistError = ''ObjectExistError''"
| "exc_name ObjectDoesNotExist = ''ObjectDoesNotExist''"
| "exc_name SwitchTask = ''SwitchTask''"
| "exc_name TaskSwitchingError = ''TaskSwitchingError''"
| "exc_name SqlOperationError = ''SqlOperationError''"
| "exc_name PipelineExecutionError = ''PipelineExecutionError''"
| "exc_name PipelineConfigurationError = ''PipelineConfigurationError''"
| "exc_name (UserExc n b) = n"

end
