(* ===== verification/Pointy_Ast.thy ===== *)
theory Pointy_Ast
  imports Exceptions
begin

text \<open>
  The abstract syntax of the pointy language, \<^verbatim>\<open>src/nexus/parser/ast.py\<close>. A retry factor is a
  bare Python \<open>int\<close> in the tree (\<open>Factor\<close>). \<open>ConditionalGroup\<close> carries the
  dictionary its constructor computes; \<open>mk_group\<close> is that constructor. The predicate
  \<open>wf_ast\<close> describes the trees the grammar can build (operators associate to the left,
  descriptors and retry factors only where the productions allow them).
\<close>

datatype ast =
    TaskName string
  | Descriptor int
  | Factor int
  | BinOp string ast ast
  | ConditionalGroup "(int \<times> ast) list"
  | ConditionalBinOP ast ast

text \<open>\<open>ConditionalGroup.set_value\<close>: walk down the left spine to the descriptor and file the whole
  expression under it. A spine that ends in a task name files nothing. The values of a group are
  expressions with a descriptor on their spine, so \<open>bin_op.left\<close> exists.\<close>

function (sequential) set_value :: "ast \<Rightarrow> ast \<Rightarrow> (int, ast) dict \<Rightarrow> exc_class + (int, ast) dict"
  and set_bin_ops :: "(int \<times> ast) list \<Rightarrow> (int, ast) dict \<Rightarrow> exc_class + (int, ast) dict" where
  "set_value (BinOp op l r) init d = set_value l init d"
| "set_value (ConditionalGroup ds) init d = set_bin_ops ds d"
| "set_value (Descriptor n) init d = Inr (dict_set n init d)"
| "set_value v init d = Inr d"
| "set_bin_ops [] d = Inr d"
| "set_bin_ops ((k, BinOp op l r) # bs) d =
     bind_res (set_value l (BinOp op l r) d) (\<lambda>d'. set_bin_ops bs d')"
| "set_bin_ops (b # bs) d = Inl AttributeError"
  by pat_completeness auto
termination
  by (relation "measure (case_sum (\<lambda>(v, i, d). size v) (\<lambda>(bs, d). size_list (size_prod (\<lambda>_. 0) size) bs))")
     auto

definition mk_group :: "ast \<Rightarrow> ast \<Rightarrow> exc_class + ast" where
  "mk_group expr0 expr1 =
     bind_res (set_value expr0 expr0 []) (\<lambda>d.
     bind_res (set_value expr1 expr1 d) (\<lambda>d'. Inr (ConditionalGroup d')))"

text \<open>\<open>descriptor_dict\<close>, \<open>get_bin_ops\<close> and \<open>get_extra_descriptors\<close> of a group.\<close>

fun descriptor_dict :: "ast \<Rightarrow> (int, ast) dict" where
  "descriptor_dict (ConditionalGroup ds) = ds"
| "descriptor_dict _ = []"

definition get_bin_ops :: "ast \<Rightarrow> ast list" where
  "get_bin_ops g = dict_values (descriptor_dict g)"

definition get_extra_descriptors :: "ast \<Rightarrow> ast list" where
  "get_extra_descriptors g = map snd (filter (\<lambda>(k, v). k \<notin> {1, 0}) (descriptor_dict g))"

text \<open>The properties \<open>descriptors_dict\<close>, \<open>left\<close>, \<open>right\<close> and \<open>extra_descriptors\<close> of
  \<open>ConditionalBinOP\<close>.\<close>

definition cond_left :: "ast \<Rightarrow> ast option" where
  "cond_left g = dict_get (descriptor_dict g) 0"

definition cond_right :: "ast \<Rightarrow> ast option" where
  "cond_right g = dict_get (descriptor_dict g) 1"

definition extra_descriptors :: "ast \<Rightarrow> ast list" where
  "extra_descriptors g = get_extra_descriptors g"

lemma size_group_entry: "x \<in> set ds \<Longrightarrow> size (snd x) < size (ConditionalGroup ds)"
proof (induction ds)
  case (Cons y ds)
  then show ?case by (cases y) auto
qed simp

lemma size_descriptor_dict: "dict_get (descriptor_dict g) k = Some a \<Longrightarrow> size a < size g"
  by (cases g) (auto dest!: map_of_SomeD simp: less_Suc_eq_le intro!: size_list_estimation')

lemma size_cond_branches [simp]:
  "cond_left g = Some a \<Longrightarrow> size a < Suc (size p + size g)"
  "cond_right g = Some a \<Longrightarrow> size a < Suc (size p + size g)"
  using size_descriptor_dict[of g _ a] by (auto simp: cond_left_def cond_right_def less_SucI trans_less_add2)

text \<open>\<open>df_traverse_post_order\<close>: the right operand, the left operand, the node.\<close>

function (sequential) df_traverse_post_order :: "ast option \<Rightarrow> ast list" where
  "df_traverse_post_order None = []"
| "df_traverse_post_order (Some (BinOp op l r)) =
     df_traverse_post_order (Some r) @ df_traverse_post_order (Some l) @ [BinOp op l r]"
| "df_traverse_post_order (Some (ConditionalBinOP p g)) =
     df_traverse_post_order (cond_right g) @ df_traverse_post_order (cond_left g) @ [ConditionalBinOP p g]"
| "df_traverse_post_order (Some a) = [a]"
  by pat_completeness auto
termination
proof (relation "measure (\<lambda>x. case x of None \<Rightarrow> 0 | Some a \<Rightarrow> Suc (size a))", goal_cases)
  case (4 p g)
  then show ?case by (auto split: option.splits)
next
  case (5 p g)
  then show ?case by (auto split: option.splits)
qed auto

section \<open>The trees the grammar builds\<close>

text \<open>The descriptor at the end of the left spine.\<close>

fun spine :: "ast \<Rightarrow> int option" where
  "spine (BinOp op l r) = spine l"
| "spine (Descriptor d) = Some d"
| "spine _ = None"

definition arrow :: "string \<Rightarrow> bool" where
  "arrow s \<longleftrightarrow> s = ''->'' \<or> s = ''|->''"

definition connective :: "string \<Rightarrow> bool" where
  "connective s \<longleftrightarrow> arrow s \<or> s = ''||''"

definition descriptor_range :: "int \<Rightarrow> bool" where
  "descriptor_range d \<longleftrightarrow> 0 \<le> d \<and> d < 10"

text \<open>\<open>KTask\<close>: what \<open>task\<close> derives; \<open>KOperand\<close>: an operand of a connective;
  \<open>KExpr\<close>: what \<open>expression\<close> derives under the declared left associativity.\<close>

datatype kind = KTask | KOperand | KExpr

fun wf_ast :: "kind \<Rightarrow> ast \<Rightarrow> bool" where
  "wf_ast k (TaskName s) = True"
| "wf_ast k (ConditionalBinOP p (ConditionalGroup ds)) =
     (wf_ast KTask p \<and> dict_ok ds \<and> (\<forall>x \<in> set ds. spine (snd x) = Some (fst x) \<and> wf_ast KExpr (snd x)))"
| "wf_ast KTask _ = False"
| "wf_ast k (BinOp op (Descriptor d) r) = (arrow op \<and> descriptor_range d \<and> wf_ast KOperand r)"
| "wf_ast k (BinOp op (Factor n) r) = (op = ''*'' \<and> 2 \<le> n \<and> wf_ast KTask r)"
| "wf_ast k (BinOp op l (Factor n)) = (op = ''*'' \<and> 2 \<le> n \<and> wf_ast KTask l)"
| "wf_ast k (BinOp op l r) = (k = KExpr \<and> connective op \<and> wf_ast KExpr l \<and> wf_ast KOperand r)"
| "wf_ast k _ = False"

section \<open>What the group constructor computes\<close>

definition group_ok :: "(int, ast) dict \<Rightarrow> bool" where
  "group_ok ds \<longleftrightarrow> dict_ok ds \<and> (\<forall>x \<in> set ds. spine (snd x) = Some (fst x) \<and> wf_ast KExpr (snd x))"

lemma wf_ast_conditional [simp]:
  "wf_ast k (ConditionalBinOP p (ConditionalGroup ds)) \<longleftrightarrow> wf_ast KTask p \<and> group_ok ds"
  by (simp add: group_ok_def)

lemma wf_ast_leaf [simp]:
  "\<not> wf_ast k (Descriptor d)" "\<not> wf_ast k (Factor n)" "\<not> wf_ast k (ConditionalGroup ds)"
  by (cases k; simp)+

lemma wf_ast_conditional_iff:
  "wf_ast k (ConditionalBinOP p g) \<longleftrightarrow> (\<exists>ds. g = ConditionalGroup ds \<and> wf_ast KTask p \<and> group_ok ds)"
  by (cases g; cases k) (simp_all add: group_ok_def)

text \<open>The effect of one expression on the dictionary of its group.\<close>

definition file_expr :: "ast \<Rightarrow> (int, ast) dict \<Rightarrow> (int, ast) dict" where
  "file_expr e d = (case spine e of None \<Rightarrow> d | Some k \<Rightarrow> dict_set k e d)"

fun plain_spine :: "ast \<Rightarrow> bool" where
  "plain_spine (BinOp op l r) = plain_spine l"
| "plain_spine (ConditionalGroup ds) = False"
| "plain_spine _ = True"

lemma set_value_plain:
  "plain_spine v \<Longrightarrow> set_value v e d = Inr (case spine v of None \<Rightarrow> d | Some k \<Rightarrow> dict_set k e d)"
  by (induction v rule: plain_spine.induct) auto

lemma wf_ast_KTask_cases:
  "wf_ast KTask a \<Longrightarrow> (\<exists>s. a = TaskName s) \<or> (\<exists>p ds. a = ConditionalBinOP p (ConditionalGroup ds))"
  by (cases a) (auto simp: wf_ast_conditional_iff)

lemma wf_ast_KOperand_KExpr: "wf_ast k a \<Longrightarrow> wf_ast KExpr a"
  by (induction k a rule: wf_ast.induct) (auto simp: wf_ast_conditional_iff)

lemma wf_ast_KTask_KOperand: "wf_ast KTask a \<Longrightarrow> wf_ast KOperand a"
  by (frule wf_ast_KTask_cases) (elim disjE exE; simp del: wf_ast.simps(2))

text \<open>A binary node is one of the four forms of the grammar.\<close>

lemma wf_ast_BinOp_cases:
  assumes "wf_ast k (BinOp op l r)"
  obtains (desc) d where "l = Descriptor d" "arrow op" "descriptor_range d" "wf_ast KOperand r"
    | (prefix) n where "l = Factor n" "op = ''*''" "wf_ast KTask r"
    | (postfix) n where "r = Factor n" "op = ''*''" "wf_ast KTask l" "\<forall>x. l \<noteq> Descriptor x" "\<forall>x. l \<noteq> Factor x"
    | (chain) "k = KExpr" "connective op" "wf_ast KExpr l" "wf_ast KOperand r" "\<not> wf_ast KOperand (BinOp op l r)"
proof (cases l)
  case (Descriptor d)
  then show ?thesis using assms that(1) by (cases k) auto
next
  case (Factor n)
  then show ?thesis using assms that(2) by (cases k) auto
next
  case (TaskName x1)
  then show ?thesis using assms that(3,4) by (cases k; cases r) auto
next
  case (BinOp x1 x2 x3)
  then show ?thesis using assms that(3,4) by (cases k; cases r) auto
next
  case (ConditionalGroup x1)
  then show ?thesis using assms that(3,4) by (cases k; cases r) auto
next
  case (ConditionalBinOP x1 x2)
  then show ?thesis using assms that(3,4) by (cases k; cases r) auto
qed

lemma wf_ast_plain_spine: "wf_ast k a \<Longrightarrow> plain_spine a"
  by (induction k a rule: wf_ast.induct) (auto dest: wf_ast_KTask_cases)

lemma set_value_wf: "wf_ast k e \<Longrightarrow> set_value e e d = Inr (file_expr e d)"
  by (simp add: set_value_plain wf_ast_plain_spine file_expr_def)

lemma wf_ast_spine_BinOp:
  "wf_ast k e \<Longrightarrow> spine e = Some d \<Longrightarrow> \<exists>op l r. e = BinOp op l r \<and> plain_spine l \<and> spine l = Some d"
  using wf_ast_plain_spine[of k e] by (cases e) auto

lemma set_bin_ops_ok:
  "\<forall>x \<in> set ds. spine (snd x) = Some (fst x) \<and> wf_ast KExpr (snd x) \<Longrightarrow>
   set_bin_ops ds d = Inr (dict_update d ds)"
proof (induction ds arbitrary: d)
  case Nil
  then show ?case by simp
next
  case (Cons x ds)
  obtain k e where x: "x = (k, e)" by (cases x)
  from Cons.prems x have e: "wf_ast KExpr e" "spine e = Some k" by auto
  obtain op l r where l: "e = BinOp op l r" "plain_spine l" "spine l = Some k"
    using wf_ast_spine_BinOp[OF e] by blast
  have "set_bin_ops ds (dict_set k e d) = Inr (dict_update (dict_set k e d) ds)"
    by (rule Cons.IH) (use Cons.prems in simp)
  with l x show ?case by (simp add: set_value_plain)
qed

lemma mk_group_exprs:
  "wf_ast KExpr e0 \<Longrightarrow> wf_ast KExpr e1 \<Longrightarrow>
   mk_group e0 e1 = Inr (ConditionalGroup (file_expr e1 (file_expr e0 [])))"
  by (simp add: mk_group_def set_value_wf)

lemma mk_group_extend:
  "group_ok ds \<Longrightarrow> wf_ast KExpr e \<Longrightarrow>
   mk_group (ConditionalGroup ds) e = Inr (ConditionalGroup (file_expr e ds))"
  by (simp add: mk_group_def set_value_wf set_bin_ops_ok group_ok_def dict_update_fresh)

lemma group_ok_Nil [simp]: "group_ok []"
  by (simp add: group_ok_def)

lemma group_ok_file_expr [simp]: "group_ok ds \<Longrightarrow> wf_ast KExpr e \<Longrightarrow> group_ok (file_expr e ds)"
  by (auto simp: group_ok_def file_expr_def split: option.splits dest!: dict_set_mem)

end
