(* ===== verification/Pointy_Lexer.thy ===== *)
theory Pointy_Lexer
  imports Pointy_Ast
begin

text \<open>
  The token rules of \<^verbatim>\<open>src/nexus/parser/lexer.py\<close>. \<open>lexemes\<close> applies them to the input from
  left to right: blanks, newlines and comments produce nothing, an illegal character is skipped
  (\<open>t_error\<close>), and a directive produces no token but may ask for a larger recursion limit
  (\<open>Limit\<close>), after which one more character is skipped, as \<open>t_DIRECTIVE\<close> does.
  The alternatives start with different characters, so the order in which they are tried does
  not matter. \<open>render\<close> prints tokens and \<open>tokens_render\<close> is the round trip.
\<close>

datatype token =
    SEPERATOR | POINTER | PPOINTER | PARALLEL | RETRY | TASKNAME string | LPAREN | RPAREN | NUMBER int

datatype lexeme = Tok token | Limit int

definition is_digit :: "char \<Rightarrow> bool" where
  "is_digit c = (let n = of_char c :: nat in 48 \<le> n \<and> n \<le> 57)"

definition is_letter :: "char \<Rightarrow> bool" where
  "is_letter c = (let n = of_char c :: nat in 65 \<le> n \<and> n \<le> 90 \<or> 97 \<le> n \<and> n \<le> 122)"

definition name_start :: "char \<Rightarrow> bool" where
  "name_start c = (is_letter c \<or> c = CHR ''_'')"

definition name_char :: "char \<Rightarrow> bool" where
  "name_char c = (name_start c \<or> is_digit c)"

definition digit_val :: "char \<Rightarrow> int" where
  "digit_val c = int (of_char c - (48::nat))"

text \<open>\<open>int(t.value)\<close> for a string of digits.\<close>

definition int_of_digits :: "string \<Rightarrow> int" where
  "int_of_digits s = foldl (\<lambda>n c. 10 * n + digit_val c) 0 s"

text \<open>The regular expression of \<open>t_DIRECTIVE\<close> after the leading \<open>@\<close>: name, colon, value, and the
  rest of the input.\<close>

definition match_directive :: "string \<Rightarrow> (string \<times> string \<times> string) option" where
  "match_directive s =
     (let p = (\<lambda>c. is_letter c \<or> is_digit c \<or> c = CHR ''-'');
          q = (\<lambda>c. is_letter c \<or> is_digit c);
          name = takeWhile p s; r = dropWhile p s
      in case r of
           [] \<Rightarrow> None
         | c # r' \<Rightarrow>
             (let val = takeWhile q r'
              in if name \<noteq> [] \<and> c = CHR '':'' \<and> val \<noteq> [] then Some (name, val, dropWhile q r') else None))"

lemma match_directive_length: "match_directive s = Some (n, v, rest) \<Longrightarrow> length rest \<le> length s"
  by (auto simp: match_directive_def Let_def split: list.splits if_splits)
     (metis Suc_leD dual_order.trans length_Cons length_dropWhile_le)

definition t_DIRECTIVE :: "string \<Rightarrow> string \<Rightarrow> lexeme list" where
  "t_DIRECTIVE directive value =
     (if directive \<in> {''recursive-depth''} \<and> list_all is_digit value \<and> directive = ''recursive-depth''
      then [Limit (int_of_digits value)] else [])"

definition t_NUMBER :: "string \<Rightarrow> token" where
  "t_NUMBER s = NUMBER (int_of_digits s)"

function (sequential) lexemes :: "string \<Rightarrow> lexeme list" where
  "lexemes [] = []"
| "lexemes (c # s) =
     (if c = CHR '' '' \<or> c = CHR 0x09 \<or> c = CHR 0x0A then lexemes s
      else if is_digit c then Tok (t_NUMBER (c # takeWhile is_digit s)) # lexemes (dropWhile is_digit s)
      else if c = CHR ''@'' then
        (case match_directive s of
           None \<Rightarrow> lexemes s
         | Some (name, val, rest) \<Rightarrow> t_DIRECTIVE name val @ lexemes (drop 1 rest))
      else if name_start c then
        Tok (TASKNAME (c # takeWhile name_char s)) # lexemes (dropWhile name_char s)
      else if c = CHR ''#'' then lexemes (dropWhile (\<lambda>d. d \<noteq> CHR 0x0A) s)
      else if c = CHR ''('' then Tok LPAREN # lexemes s
      else if c = CHR '')'' then Tok RPAREN # lexemes s
      else if c = CHR ''*'' then Tok RETRY # lexemes s
      else if c = CHR '','' then Tok SEPERATOR # lexemes s
      else if c = CHR ''-'' \<and> str_startswith s ''>'' then Tok POINTER # lexemes (drop 1 s)
      else if c = CHR ''|'' \<and> str_startswith s ''->'' then Tok PPOINTER # lexemes (drop 2 s)
      else if c = CHR ''|'' \<and> str_startswith s ''|'' then Tok PARALLEL # lexemes (drop 1 s)
      else lexemes s)"
  by pat_completeness auto
termination
  by (relation "measure length")
     (auto simp: le_imp_less_Suc length_dropWhile_le dest!: match_directive_length)

declare lexemes.simps(2) [simp del]

fun toks_of :: "lexeme list \<Rightarrow> token list" where
  "toks_of [] = []"
| "toks_of (Tok t # xs) = t # toks_of xs"
| "toks_of (Limit n # xs) = toks_of xs"

definition tokens :: "string \<Rightarrow> token list" where
  "tokens code = toks_of (lexemes code)"

section \<open>Printing tokens\<close>

fun digits :: "nat \<Rightarrow> string" where
  "digits n = (if n < 10 then [char_of (48 + n)] else digits (n div 10) @ [char_of (48 + n mod 10)])"

declare digits.simps [simp del]

fun render_token :: "token \<Rightarrow> string" where
  "render_token SEPERATOR = '',''"
| "render_token POINTER = ''->''"
| "render_token PPOINTER = ''|->''"
| "render_token PARALLEL = ''||''"
| "render_token RETRY = ''*''"
| "render_token (TASKNAME s) = s"
| "render_token LPAREN = ''(''"
| "render_token RPAREN = '')''"
| "render_token (NUMBER n) = digits (nat n)"

definition render :: "token list \<Rightarrow> string" where
  "render ts = concat (map (\<lambda>t. render_token t @ '' '') ts)"

fun is_name :: "string \<Rightarrow> bool" where
  "is_name [] = False"
| "is_name (c # s) = (name_start c \<and> list_all name_char s)"

fun token_ok :: "token \<Rightarrow> bool" where
  "token_ok (TASKNAME s) = is_name s"
| "token_ok (NUMBER n) = (0 \<le> n)"
| "token_ok _ = True"

lemma of_char_48 [simp]: "(m::nat) < 10 \<Longrightarrow> of_char (char_of (48 + m) :: char) = 48 + m"
  by (simp add: of_char_of)

lemma is_digit_char_of [simp]: "(m::nat) < 10 \<Longrightarrow> is_digit (char_of (48 + m))"
  by (simp add: is_digit_def Let_def)

lemma digit_val_char_of [simp]: "(m::nat) < 10 \<Longrightarrow> digit_val (char_of (48 + m)) = int m"
  by (simp add: digit_val_def)

lemma digits_ok: "digits n \<noteq> [] \<and> list_all is_digit (digits n) \<and> int_of_digits (digits n) = int n"
proof (induction n rule: digits.induct)
  case (1 n)
  show ?case
  proof (cases "n < 10")
    case True
    then show ?thesis by (simp add: digits.simps int_of_digits_def)
  next
    case False
    have "10 * int (n div 10) + int (n mod 10) = int n"
      by (metis mult_div_mod_eq of_nat_add of_nat_mult of_nat_numeral)
    with False 1 show ?thesis by (subst (1 2 3) digits.simps) (simp add: int_of_digits_def)
  qed
qed

lemma takeWhile_all_app: "list_all P xs \<Longrightarrow> \<not> P c \<Longrightarrow> takeWhile P (xs @ c # ys) = xs"
  by (simp add: list_all_iff takeWhile_append)

lemma dropWhile_all_app: "list_all P xs \<Longrightarrow> \<not> P c \<Longrightarrow> dropWhile P (xs @ c # ys) = c # ys"
  by (simp add: list_all_iff dropWhile_append)

lemma blank_not [simp]: "\<not> is_digit (CHR '' '')" "\<not> name_char (CHR '' '')"
  by code_simp+

lemma lexemes_blank [simp]: "lexemes (CHR '' '' # s) = lexemes s"
  by (simp add: lexemes.simps(2))

lemma digit_not_blank: "is_digit c \<Longrightarrow> c \<noteq> CHR '' '' \<and> c \<noteq> CHR 0x09 \<and> c \<noteq> CHR 0x0A"
  by (auto simp: is_digit_def)

lemma name_start_not:
  "name_start c \<Longrightarrow> c \<noteq> CHR '' '' \<and> c \<noteq> CHR 0x09 \<and> c \<noteq> CHR 0x0A \<and> \<not> is_digit c \<and> c \<noteq> CHR ''@''"
  by (auto simp: is_digit_def name_start_def is_letter_def Let_def)

lemma lexemes_number:
  assumes "list_all is_digit ds" and "ds \<noteq> []"
  shows "lexemes (ds @ CHR '' '' # s) = Tok (NUMBER (int_of_digits ds)) # lexemes s"
proof -
  obtain c ds' where ds: "ds = c # ds'" using assms(2) by (cases ds) auto
  with assms(1) have "is_digit c" "list_all is_digit ds'" by auto
  with ds show ?thesis
    by (simp add: lexemes.simps(2)[of c] digit_not_blank takeWhile_all_app dropWhile_all_app t_NUMBER_def)
qed

lemma lexemes_name:
  assumes "is_name n"
  shows "lexemes (n @ CHR '' '' # s) = Tok (TASKNAME n) # lexemes s"
proof -
  obtain c n' where n: "n = c # n'" "name_start c" "list_all name_char n'"
    using assms by (cases n) auto
  then show ?thesis
    by (simp add: lexemes.simps(2)[of c] name_start_not takeWhile_all_app dropWhile_all_app)
qed

lemma lexemes_render_token:
  assumes "token_ok t"
  shows "lexemes (render_token t @ CHR '' '' # s) = Tok t # lexemes s"
proof (cases t)
  case (TASKNAME n)
  with assms show ?thesis by (simp add: lexemes_name)
next
  case (NUMBER n)
  with assms show ?thesis using digits_ok[of "nat n"] by (simp add: lexemes_number)
qed (simp_all add: lexemes.simps(2) is_digit_def name_start_def is_letter_def)

lemma tokens_render: "list_all token_ok ts \<Longrightarrow> tokens (render ts) = ts"
proof (induction ts)
  case Nil
  then show ?case by (simp add: tokens_def render_def)
next
  case (Cons t ts)
  then show ?case
    using lexemes_render_token[of t "render ts"] by (simp add: tokens_def render_def)
qed

end
