(* ===== verification/Pointy_Parser.thy ===== *)
theory Pointy_Parser
  imports Pointy_Lexer
begin

text \<open>
  The grammar of \<^verbatim>\<open>src/nexus/parser/grammar.py\<close>. Each semantic action \<open>p_...\<close> is a
  definition. \<open>parser_step\<close> is the shift-reduce parser of the grammar with the declared
  precedence (all connectives on one level, associating to the left, the resolution recorded in
  \<^verbatim>\<open>src/nexus/parser/parser.out\<close>): its configuration holds, for the innermost open parenthesis,
  the task group read so far, the operands still waiting for their right-hand side and the item
  being read, and below it one frame per enclosing parenthesis. Every rejection is one value,
  \<open>SyntaxError\<close>: the grammar raises \<open>SyntaxError\<close> from \<open>p_error\<close>, or \<open>YaccError\<close> from
  an action, which \<open>pointy_parser\<close> turns into \<open>SyntaxError\<close>.

  The main results: what the parser accepts has the shape \<open>wf_ast\<close> (\<open>parse_tokens_wf\<close>), and
  printing a tree and parsing the tokens gives the tree back (\<open>parse_print\<close>).
\<close>

definition p_expression :: "string \<Rightarrow> ast \<Rightarrow> ast \<Rightarrow> ast" where
  "p_expression op l r = BinOp op l r"

definition p_descriptor :: "int \<Rightarrow> exc_class + ast" where
  "p_descriptor n = (if 0 \<le> n \<and> n < 10 then Inr (Descriptor n) else Inl SyntaxError)"

definition p_factor :: "int \<Rightarrow> exc_class + ast" where
  "p_factor n = (if n < 2 then Inl SyntaxError else Inr (Factor n))"

definition p_task_taskname :: "string \<Rightarrow> ast" where
  "p_task_taskname s = TaskName s"

definition p_task_group :: "ast \<Rightarrow> ast \<Rightarrow> exc_class + ast" where
  "p_task_group a b = mk_group a b"

definition p_task_conditional_statement :: "ast \<Rightarrow> ast \<Rightarrow> ast" where
  "p_task_conditional_statement t g = ConditionalBinOP t g"

definition p_error :: "exc_class + 'a" where
  "p_error = Inl SyntaxError"

text \<open>The item being read: nothing yet; a number whose role the next token decides;
  \<open>factor RETRY\<close>; \<open>factor RETRY task\<close>; a task; \<open>task RETRY\<close>; \<open>task RETRY factor\<close>.\<close>

datatype item =
    Start
  | Num int
  | FactorStar ast
  | PreTask ast ast
  | TaskItem ast
  | TaskStar ast
  | Done ast

text \<open>\<open>operand op\<close> with its right-hand side still to come.\<close>

type_synonym pending = "(ast \<times> string) list"

datatype group_acc = GNone | GExpr ast | GGroup ast

type_synonym frame = "group_acc \<times> pending \<times> item"
type_synonym config = "group_acc \<times> pending \<times> item \<times> frame list"

definition init_config :: config where
  "init_config = (GNone, [], Start, [])"

text \<open>The expression an item stands for when the next token ends it.\<close>

fun complete :: "item \<Rightarrow> ast option" where
  "complete (PreTask f t) = Some (p_expression ''*'' f t)"
| "complete (TaskItem t) = Some t"
| "complete (Done e) = Some e"
| "complete _ = None"

text \<open>Reductions by the binary productions, innermost first.\<close>

fun reduce_pending :: "pending \<Rightarrow> ast \<Rightarrow> ast" where
  "reduce_pending [] e = e"
| "reduce_pending ((l, op) # ps) e = reduce_pending ps (p_expression op l e)"

definition join_group :: "group_acc \<Rightarrow> ast \<Rightarrow> exc_class + group_acc" where
  "join_group a e =
     (case a of
        GNone \<Rightarrow> Inr (GExpr e)
      | GExpr e0 \<Rightarrow> bind_res (p_task_group e0 e) (\<lambda>g. Inr (GGroup g))
      | GGroup g0 \<Rightarrow> bind_res (p_task_group g0 e) (\<lambda>g. Inr (GGroup g)))"

fun close_group :: "item \<Rightarrow> ast \<Rightarrow> item" where
  "close_group (TaskItem t) g = TaskItem (p_task_conditional_statement t g)"
| "close_group (PreTask f t) g = PreTask f (p_task_conditional_statement t g)"
| "close_group m g = m"

definition shift_connective :: "string \<Rightarrow> config \<Rightarrow> exc_class + config" where
  "shift_connective op c = (case c of (a, ps, m, fr) \<Rightarrow>
     (case m of
        Num n \<Rightarrow> if op = ''||'' then p_error
                 else bind_res (p_descriptor n) (\<lambda>d. Inr (a, (d, op) # ps, Start, fr))
      | _ \<Rightarrow> (case complete m of
                None \<Rightarrow> p_error
              | Some e \<Rightarrow> Inr (a, [(reduce_pending ps e, op)], Start, fr))))"

fun parser_step :: "config \<Rightarrow> token \<Rightarrow> exc_class + config" where
  "parser_step c POINTER = shift_connective ''->'' c"
| "parser_step c PPOINTER = shift_connective ''|->'' c"
| "parser_step c PARALLEL = shift_connective ''||'' c"
| "parser_step (a, ps, m, fr) (NUMBER n) =
     (case m of
        Start \<Rightarrow> Inr (a, ps, Num n, fr)
      | TaskStar t \<Rightarrow> bind_res (p_factor n) (\<lambda>f. Inr (a, ps, Done (p_expression ''*'' t f), fr))
      | _ \<Rightarrow> p_error)"
| "parser_step (a, ps, m, fr) (TASKNAME s) =
     (case m of
        Start \<Rightarrow> Inr (a, ps, TaskItem (p_task_taskname s), fr)
      | FactorStar f \<Rightarrow> Inr (a, ps, PreTask f (p_task_taskname s), fr)
      | _ \<Rightarrow> p_error)"
| "parser_step (a, ps, m, fr) RETRY =
     (case m of
        Num n \<Rightarrow> bind_res (p_factor n) (\<lambda>f. Inr (a, ps, FactorStar f, fr))
      | TaskItem t \<Rightarrow> Inr (a, ps, TaskStar t, fr)
      | _ \<Rightarrow> p_error)"
| "parser_step (a, ps, m, fr) LPAREN =
     (case m of
        TaskItem t \<Rightarrow> Inr (GNone, [], Start, (a, ps, m) # fr)
      | PreTask f t \<Rightarrow> Inr (GNone, [], Start, (a, ps, m) # fr)
      | _ \<Rightarrow> p_error)"
| "parser_step (a, ps, m, fr) SEPERATOR =
     (case (fr, complete m) of
        (f # fr', Some e) \<Rightarrow> bind_res (join_group a (reduce_pending ps e)) (\<lambda>a'. Inr (a', [], Start, fr))
      | _ \<Rightarrow> p_error)"
| "parser_step (a, ps, m, fr) RPAREN =
     (case (fr, complete m) of
        ((a0, ps0, m0) # fr', Some e) \<Rightarrow>
          bind_res (join_group a (reduce_pending ps e)) (\<lambda>a'.
            case a' of GGroup g \<Rightarrow> Inr (a0, ps0, close_group m0 g, fr') | _ \<Rightarrow> p_error)
      | _ \<Rightarrow> p_error)"

fun parser_run :: "config \<Rightarrow> token list \<Rightarrow> exc_class + config" where
  "parser_run c [] = Inr c"
| "parser_run c (t # ts) = bind_res (parser_step c t) (\<lambda>c'. parser_run c' ts)"

definition parser_accept :: "config \<Rightarrow> exc_class + ast" where
  "parser_accept c = (case c of (a, ps, m, fr) \<Rightarrow>
     (case (fr, complete m) of ([], Some e) \<Rightarrow> Inr (reduce_pending ps e) | _ \<Rightarrow> p_error))"

definition parse_tokens :: "token list \<Rightarrow> exc_class + ast" where
  "parse_tokens ts = bind_res (parser_run init_config ts) parser_accept"

definition pointy_parser :: "string \<Rightarrow> exc_class + ast" where
  "pointy_parser code = parse_tokens (tokens code)"

section \<open>Shape of the accepted trees\<close>

fun item_ok :: "item \<Rightarrow> bool" where
  "item_ok (FactorStar f) = (\<exists>n \<ge> 2. f = Factor n)"
| "item_ok (PreTask f t) = ((\<exists>n \<ge> 2. f = Factor n) \<and> wf_ast KTask t)"
| "item_ok (TaskItem t) = wf_ast KTask t"
| "item_ok (TaskStar t) = wf_ast KTask t"
| "item_ok (Done e) = wf_ast KOperand e"
| "item_ok _ = True"

fun pending_ok :: "pending \<Rightarrow> bool" where
  "pending_ok [] = True"
| "pending_ok ((l, op) # ps) =
     ((\<exists>d. l = Descriptor d \<and> descriptor_range d) \<and> arrow op \<and> pending_ok ps
      \<or> wf_ast KExpr l \<and> connective op \<and> ps = [])"

fun acc_ok :: "group_acc \<Rightarrow> bool" where
  "acc_ok GNone = True"
| "acc_ok (GExpr e) = wf_ast KExpr e"
| "acc_ok (GGroup g) = (\<exists>ds. g = ConditionalGroup ds \<and> group_ok ds)"

fun frame_ok :: "frame \<Rightarrow> bool" where
  "frame_ok (a, ps, m) = (acc_ok a \<and> pending_ok ps \<and> item_ok m)"

fun config_ok :: "config \<Rightarrow> bool" where
  "config_ok (a, ps, m, fr) = (acc_ok a \<and> pending_ok ps \<and> item_ok m \<and> list_all frame_ok fr)"

lemma wf_KTask_not [simp]: "\<not> wf_ast KTask (BinOp op l r)"
  by simp

lemma wf_KTask_mono: "wf_ast KTask a \<Longrightarrow> wf_ast k a"
  by (cases a) (auto simp: wf_ast_conditional_iff)

lemma wf_BinOp_KExpr:
  assumes "wf_ast KExpr l" and "wf_ast KOperand r" and "connective op"
  shows "wf_ast KExpr (BinOp op l r)"
  using assms by (cases l; cases r) simp_all

lemma wf_KOperand_KExpr: "wf_ast KOperand a \<Longrightarrow> wf_ast KExpr a"
proof (cases a)
  case (BinOp op l r)
  assume "wf_ast KOperand a"
  with BinOp show ?thesis by (cases l; cases r) simp_all
qed (auto simp: wf_ast_conditional_iff)

lemma wf_postfix_retry: "wf_ast KTask t \<Longrightarrow> 2 \<le> n \<Longrightarrow> wf_ast KOperand (BinOp ''*'' t (Factor n))"
  by (cases t) auto

lemma complete_ok: "item_ok m \<Longrightarrow> complete m = Some e \<Longrightarrow> wf_ast KOperand e"
  by (cases m) (auto simp: p_expression_def intro: wf_KTask_mono)

lemma reduce_pending_ok: "pending_ok ps \<Longrightarrow> wf_ast KOperand e \<Longrightarrow> wf_ast KExpr (reduce_pending ps e)"
proof (induction ps e rule: reduce_pending.induct)
  case (1 e)
  then show ?case by (simp add: wf_KOperand_KExpr)
next
  case (2 l op ps e)
  from 2(2) consider (desc) d where "l = Descriptor d" "descriptor_range d" "arrow op" "pending_ok ps"
    | (expr) "wf_ast KExpr l" "connective op" "ps = []"
    by auto
  then show ?case
  proof cases
    case desc
    with 2(3) have "wf_ast KOperand (BinOp op l e)" by simp
    with desc(4) show ?thesis using 2(1) by (simp add: p_expression_def)
  next
    case expr
    with 2(3) show ?thesis by (simp add: p_expression_def wf_BinOp_KExpr)
  qed
qed

lemma join_group_ok: "acc_ok a \<Longrightarrow> wf_ast KExpr e \<Longrightarrow> join_group a e = Inr a' \<Longrightarrow> acc_ok a'"
  by (cases a) (auto simp: join_group_def p_task_group_def mk_group_exprs mk_group_extend)

lemma join_group_total: "acc_ok a \<Longrightarrow> wf_ast KExpr e \<Longrightarrow> \<exists>a'. join_group a e = Inr a'"
  by (cases a) (auto simp: join_group_def p_task_group_def mk_group_exprs mk_group_extend)

lemma shift_connective_ok:
  assumes "config_ok c" and "shift_connective op c = Inr c'" and "connective op"
  shows "config_ok c'"
proof -
  obtain a ps m fr where c: "c = (a, ps, m, fr)" by (cases c) auto
  with assms(1) have ok: "acc_ok a" "pending_ok ps" "item_ok m" "list_all frame_ok fr" by auto
  show ?thesis
  proof (cases "\<exists>n. m = Num n")
    case True
    with assms(2,3) c ok show ?thesis
      by (auto simp: shift_connective_def p_error_def p_descriptor_def connective_def arrow_def
            descriptor_range_def split: if_splits)
  next
    case False
    with assms(2) c obtain e where e: "complete m = Some e"
      and c': "c' = (a, [(reduce_pending ps e, op)], Start, fr)"
      by (cases m) (auto simp: shift_connective_def p_error_def)
    have "wf_ast KExpr (reduce_pending ps e)"
      using complete_ok[OF ok(3) e] ok(2) by (rule reduce_pending_ok[rotated])
    with ok c' assms(3) show ?thesis by simp
  qed
qed

lemma close_group_ok: "item_ok m \<Longrightarrow> group_ok ds \<Longrightarrow> item_ok (close_group m (ConditionalGroup ds))"
  by (cases m) (auto simp: p_task_conditional_statement_def wf_ast_conditional_iff)

lemma separator_ok:
  assumes "config_ok (a, ps, m, fr)" and "complete m = Some e"
    and "join_group a (reduce_pending ps e) = Inr a'"
  shows "acc_ok a'"
  using assms complete_ok reduce_pending_ok join_group_ok by (metis config_ok.simps)

lemma step_separator_inv:
  assumes "parser_step (a, ps, m, fr) SEPERATOR = Inr c'"
  obtains e a' where "complete m = Some e" "join_group a (reduce_pending ps e) = Inr a'"
    "fr \<noteq> []" "c' = (a', [], Start, fr)"
  using assms by (cases fr; cases "complete m") (auto simp: p_error_def res_simps)

lemma step_rparen_inv:
  assumes "parser_step (a, ps, m, fr) RPAREN = Inr c'"
  obtains a0 ps0 m0 fr' e g where "fr = (a0, ps0, m0) # fr'" "complete m = Some e"
    "join_group a (reduce_pending ps e) = Inr (GGroup g)" "c' = (a0, ps0, close_group m0 g, fr')"
proof -
  from assms obtain f fr' e where 1: "fr = f # fr'" "complete m = Some e"
    by (cases fr; cases "complete m") (auto simp: p_error_def)
  moreover obtain a0 ps0 m0 where "f = (a0, ps0, m0)" by (cases f)
  moreover from assms calculation obtain g where "join_group a (reduce_pending ps e) = Inr (GGroup g)"
    "c' = (a0, ps0, close_group m0 g, fr')"
    by (cases "join_group a (reduce_pending ps e)") (auto simp: p_error_def split: group_acc.split_asm)
  ultimately show ?thesis using that by blast
qed

lemma parser_accept_inv:
  assumes "parser_accept c = Inr e'"
  obtains a ps m e where "c = (a, ps, m, [])" "complete m = Some e" "e' = reduce_pending ps e"
proof -
  obtain a ps m fr where c: "c = (a, ps, m, fr)" by (cases c)
  with assms show ?thesis
    using that by (cases fr; cases "complete m") (auto simp: parser_accept_def p_error_def)
qed

lemma parser_step_ok: "config_ok c \<Longrightarrow> parser_step c t = Inr c' \<Longrightarrow> config_ok c'"
proof (induction c t rule: parser_step.induct)
  case (8 a ps m fr)
  from 8(2) obtain e a' where "complete m = Some e" "join_group a (reduce_pending ps e) = Inr a'"
    "c' = (a', [], Start, fr)"
    by (rule step_separator_inv)
  with 8(1) show ?case using separator_ok by auto
next
  case (9 a ps m fr)
  from 9(2) obtain a0 ps0 m0 fr' e g where fr: "fr = (a0, ps0, m0) # fr'" and e: "complete m = Some e"
    and j: "join_group a (reduce_pending ps e) = Inr (GGroup g)" and c': "c' = (a0, ps0, close_group m0 g, fr')"
    by (rule step_rparen_inv)
  from separator_ok[OF 9(1) e j] obtain ds where "g = ConditionalGroup ds" "group_ok ds" by auto
  with 9(1) fr c' show ?case by (auto simp: close_group_ok)
qed (auto simp: p_error_def p_factor_def p_expression_def p_task_taskname_def connective_def arrow_def
      res_simps wf_postfix_retry intro: shift_connective_ok split: item.splits if_splits)

lemma parser_run_ok: "config_ok c \<Longrightarrow> parser_run c ts = Inr c' \<Longrightarrow> config_ok c'"
proof (induction ts arbitrary: c)
  case Nil
  then show ?case by simp
next
  case (Cons t ts)
  from Cons.prems(2) obtain d where d: "parser_step c t = Inr d" "parser_run d ts = Inr c'"
    by (auto simp: res_simps)
  from parser_step_ok[OF Cons.prems(1) d(1)] d(2) show ?case by (rule Cons.IH)
qed

lemma parse_tokens_wf:
  assumes "parse_tokens ts = Inr a"
  shows "wf_ast KExpr a"
proof -
  from assms obtain a0 ps m e where run: "parser_run init_config ts = Inr (a0, ps, m, [])"
    and e: "complete m = Some e" and a: "a = reduce_pending ps e"
    by (auto simp: parse_tokens_def res_simps elim: parser_accept_inv)
  have "config_ok (a0, ps, m, [])"
    by (rule parser_run_ok[OF _ run]) (simp add: init_config_def)
  then show ?thesis using a e complete_ok reduce_pending_ok by auto
qed

section \<open>Printing and parsing back\<close>

definition op_token :: "string \<Rightarrow> token" where
  "op_token op = (if op = ''->'' then POINTER else if op = ''|->'' then PPOINTER
                  else if op = ''||'' then PARALLEL else RETRY)"

function (sequential) unparse :: "ast \<Rightarrow> token list"
  and unparse_group :: "(int \<times> ast) list \<Rightarrow> token list" where
  "unparse (TaskName s) = [TASKNAME s]"
| "unparse (Descriptor d) = [NUMBER d]"
| "unparse (Factor n) = [NUMBER n]"
| "unparse (BinOp op l r) = unparse l @ op_token op # unparse r"
| "unparse (ConditionalBinOP p g) = unparse p @ LPAREN # unparse g @ [RPAREN]"
| "unparse (ConditionalGroup ds) = unparse_group ds"
| "unparse_group [] = []"
| "unparse_group [x] = unparse (snd x)"
| "unparse_group (x # y # xs) = unparse (snd x) @ SEPERATOR # unparse_group (y # xs)"
  by pat_completeness auto
termination
  by (relation "measure (case_sum size (size_list (size_prod (\<lambda>_. 0) size)))") auto

text \<open>The concrete syntax has no group with fewer than two branches.\<close>

fun groups_printable :: "ast \<Rightarrow> bool" where
  "groups_printable (BinOp op l r) = (groups_printable l \<and> groups_printable r)"
| "groups_printable (ConditionalBinOP p g) = (groups_printable p \<and> groups_printable g)"
| "groups_printable (ConditionalGroup ds) = (2 \<le> length ds \<and> (\<forall>x \<in> set ds. groups_printable (snd x)))"
| "groups_printable _ = True"

lemma bind_res_assoc: "bind_res (bind_res r f) g = bind_res r (\<lambda>x. bind_res (f x) g)"
  by (cases r) auto

lemma parser_run_append:
  "parser_run c (ts @ us) = bind_res (parser_run c ts) (\<lambda>c'. parser_run c' us)"
  by (induction ts arbitrary: c) (auto split: sum.splits simp: bind_res_assoc)

text \<open>The configuration reached after an operand or an expression: its value is the pending
  reductions applied to the completed item.\<close>

definition reads :: "config \<Rightarrow> token list \<Rightarrow> ast \<Rightarrow> bool" where
  "reads c ts e \<longleftrightarrow> (case c of (a, ps, m, fr) \<Rightarrow>
     (\<exists>ps' m' x. parser_run c ts = Inr (a, ps', m', fr) \<and> (\<forall>n. m' \<noteq> Num n) \<and>
        complete m' = Some x \<and> reduce_pending ps' x = reduce_pending ps e))"

lemma shift_after_read:
  assumes "complete m = Some x" and "\<forall>n. m \<noteq> Num n"
  shows "shift_connective op (a, ps, m, fr) = Inr (a, [(reduce_pending ps x, op)], Start, fr)"
  using assms by (cases m) (auto simp: shift_connective_def)

lemma step_op_token: "connective op \<Longrightarrow> parser_step c (op_token op) = shift_connective op c"
  by (auto simp: connective_def arrow_def op_token_def)

definition acc_of :: "(int \<times> ast) list \<Rightarrow> group_acc" where
  "acc_of ds = (case ds of [] \<Rightarrow> GNone | [x] \<Rightarrow> GExpr (snd x) | _ \<Rightarrow> GGroup (ConditionalGroup ds))"

lemma file_expr_snoc:
  assumes "group_ok (ds @ [x])"
  shows "file_expr (snd x) ds = ds @ [x]"
proof -
  from assms have "spine (snd x) = Some (fst x)" "\<not> dict_has ds (fst x)"
    by (auto simp: group_ok_def dict_ok_def dict_has_def)
  then show ?thesis by (simp add: file_expr_def dict_set_new)
qed

lemma group_ok_append1: "group_ok (ds @ es) \<Longrightarrow> group_ok ds"
  by (auto simp: group_ok_def dict_ok_def)

lemma join_acc_of:
  assumes ok: "group_ok (ds @ [x])"
  shows "join_group (acc_of ds) (snd x) = Inr (acc_of (ds @ [x]))"
proof -
  from ok have x: "wf_ast KExpr (snd x)" by (simp add: group_ok_def)
  show ?thesis
  proof (cases ds)
    case Nil
    then show ?thesis by (simp add: acc_of_def join_group_def)
  next
    case (Cons y ys)
    show ?thesis
    proof (cases ys)
      case Nil
      with Cons ok have y: "wf_ast KExpr (snd y)" "group_ok [y]"
        by (auto simp: group_ok_def dict_ok_def)
      then have "file_expr (snd y) [] = [y]" using file_expr_snoc[of "[]" y] by simp
      with Cons Nil x y ok show ?thesis
        by (simp add: acc_of_def join_group_def p_task_group_def mk_group_exprs file_expr_snoc[of "[y]"])
    next
      case (Cons z zs)
      with \<open>ds = y # ys\<close> x ok group_ok_append1[OF ok] show ?thesis
        by (simp add: acc_of_def join_group_def p_task_group_def mk_group_extend
              file_expr_snoc[of "y # z # zs", simplified])
    qed
  qed
qed

lemma readsE:
  assumes "reads (a, ps, m, fr) ts e"
  obtains ps' m' x where "parser_run (a, ps, m, fr) ts = Inr (a, ps', m', fr)" "\<forall>n. m' \<noteq> Num n"
    "complete m' = Some x" "reduce_pending ps' x = reduce_pending ps e"
  using assms by (auto simp: reads_def)

lemma acc_of_two: "2 \<le> length ds \<Longrightarrow> acc_of ds = GGroup (ConditionalGroup ds)"
  by (auto simp: acc_of_def split: list.splits)

lemma run_group:
  assumes "es \<noteq> []" and "\<forall>x \<in> set es. \<forall>a fr. reads (a, [], Start, fr) (unparse (snd x)) (snd x)"
    and "group_ok (ds @ es)" and "2 \<le> length (ds @ es)"
  shows "parser_run (acc_of ds, [], Start, (a0, ps0, m0) # fr) (unparse_group es @ [RPAREN]) =
         Inr (a0, ps0, close_group m0 (ConditionalGroup (ds @ es)), fr)"
  using assms
proof (induction es arbitrary: ds rule: induct_list012)
  case 1
  then show ?case by simp
next
  case (2 x)
  from 2(2) have "reads (acc_of ds, [], Start, (a0, ps0, m0) # fr) (unparse (snd x)) (snd x)" by simp
  then obtain ps' m' e where run: "parser_run (acc_of ds, [], Start, (a0, ps0, m0) # fr) (unparse (snd x)) =
      Inr (acc_of ds, ps', m', (a0, ps0, m0) # fr)"
    and e: "complete m' = Some e" "reduce_pending ps' e = snd x"
    by (elim readsE) simp
  from 2(3,4) have "join_group (acc_of ds) (snd x) = Inr (GGroup (ConditionalGroup (ds @ [x])))"
    by (simp add: join_acc_of acc_of_two)
  with run e show ?case by (simp add: parser_run_append)
next
  case (3 x y es)
  from 3(4) have "reads (acc_of ds, [], Start, (a0, ps0, m0) # fr) (unparse (snd x)) (snd x)" by simp
  then obtain ps' m' e where run: "parser_run (acc_of ds, [], Start, (a0, ps0, m0) # fr) (unparse (snd x)) =
      Inr (acc_of ds, ps', m', (a0, ps0, m0) # fr)"
    and e: "complete m' = Some e" "reduce_pending ps' e = snd x"
    by (elim readsE) simp
  from 3(5) have "group_ok (ds @ [x])" using group_ok_append1[of "ds @ [x]" "y # es"] by simp
  then have j: "join_group (acc_of ds) (snd x) = Inr (acc_of (ds @ [x]))" by (rule join_acc_of)
  have "parser_run (acc_of (ds @ [x]), [], Start, (a0, ps0, m0) # fr) (unparse_group (y # es) @ [RPAREN]) =
      Inr (a0, ps0, close_group m0 (ConditionalGroup ((ds @ [x]) @ y # es)), fr)"
    by (rule 3(2)) (use 3(4-6) in auto)
  with run e j show ?case by (simp add: parser_run_append)
qed

definition reads_back :: "ast \<Rightarrow> bool" where
  "reads_back e \<longleftrightarrow>
     (wf_ast KTask e \<longrightarrow> (\<forall>a ps fr. parser_run (a, ps, Start, fr) (unparse e) = Inr (a, ps, TaskItem e, fr) \<and>
        (\<forall>f. parser_run (a, ps, FactorStar f, fr) (unparse e) = Inr (a, ps, PreTask f e, fr)))) \<and>
     (wf_ast KOperand e \<longrightarrow> (\<forall>a ps fr. reads (a, ps, Start, fr) (unparse e) e)) \<and>
     (wf_ast KExpr e \<longrightarrow> (\<forall>a fr. reads (a, [], Start, fr) (unparse e) e))"

lemma reads_task:
  assumes "parser_run (a, ps, Start, fr) ts = Inr (a, ps, TaskItem e, fr)"
  shows "reads (a, ps, Start, fr) ts e"
  using assms by (simp add: reads_def)

lemma reads_back_operandI:
  assumes "\<And>a ps fr. reads (a, ps, Start, fr) (unparse (BinOp op l r)) (BinOp op l r)"
  shows "reads_back (BinOp op l r)"
  unfolding reads_back_def using assms by (simp del: unparse.simps wf_ast.simps(4-25))

lemma reads_back_conditional:
  assumes p: "reads_back p" and es: "\<forall>x \<in> set ds. reads_back (snd x)" and two: "2 \<le> length ds"
  shows "reads_back (ConditionalBinOP p (ConditionalGroup ds))"
proof (cases "wf_ast KTask p \<and> group_ok ds")
  case True
  then have "\<forall>x \<in> set ds. \<forall>a fr. reads (a, [], Start, fr) (unparse (snd x)) (snd x)"
    using es by (auto simp: reads_back_def group_ok_def)
  then have grp: "parser_run (GNone, [], Start, (a0, ps0, m0) # fr) (unparse_group ds @ [RPAREN]) =
      Inr (a0, ps0, close_group m0 (ConditionalGroup ds), fr)" for a0 ps0 m0 fr
    using run_group[of ds "[]" a0 ps0 m0 fr] True two by (cases ds) (auto simp: acc_of_def)
  from p True have "parser_run (a, ps, Start, fr) (unparse p) = Inr (a, ps, TaskItem p, fr)"
    "parser_run (a, ps, FactorStar f, fr) (unparse p) = Inr (a, ps, PreTask f p, fr)" for a ps fr f
    by (auto simp: reads_back_def)
  with grp have "parser_run (a, ps, Start, fr) (unparse (ConditionalBinOP p (ConditionalGroup ds))) =
       Inr (a, ps, TaskItem (ConditionalBinOP p (ConditionalGroup ds)), fr)"
    "parser_run (a, ps, FactorStar f, fr) (unparse (ConditionalBinOP p (ConditionalGroup ds))) =
       Inr (a, ps, PreTask f (ConditionalBinOP p (ConditionalGroup ds)), fr)" for a ps fr f
    by (simp_all add: parser_run_append p_task_conditional_statement_def)
  then show ?thesis by (simp add: reads_back_def reads_task)
next
  case False
  then show ?thesis by (auto simp: reads_back_def group_ok_def)
qed

lemma reads_back_descriptor:
  assumes "reads_back r"
  shows "reads_back (BinOp op (Descriptor d) r)"
proof (cases "arrow op \<and> descriptor_range d \<and> wf_ast KOperand r")
  case True
  have "reads (a, ps, Start, fr) (unparse (BinOp op (Descriptor d) r)) (BinOp op (Descriptor d) r)" for a ps fr
  proof -
    from assms True have "reads (a, (Descriptor d, op) # ps, Start, fr) (unparse r) r"
      by (simp add: reads_back_def)
    moreover have "parser_step (a, ps, Num d, fr) (op_token op) = Inr (a, (Descriptor d, op) # ps, Start, fr)"
      using True by (auto simp: step_op_token connective_def arrow_def shift_connective_def p_descriptor_def
            descriptor_range_def)
    ultimately show ?thesis by (simp add: reads_def p_expression_def)
  qed
  then show ?thesis by (simp add: reads_back_def)
next
  case False
  then show ?thesis by (auto simp: reads_back_def)
qed

lemma reads_back_prefix_retry:
  assumes "reads_back r"
  shows "reads_back (BinOp op (Factor n) r)"
proof (cases "op = ''*'' \<and> 2 \<le> n \<and> wf_ast KTask r")
  case True
  with assms have "reads (a, ps, Start, fr) (unparse (BinOp op (Factor n) r)) (BinOp op (Factor n) r)" for a ps fr
    by (simp add: reads_back_def reads_def op_token_def p_factor_def p_expression_def)
  then show ?thesis by (rule reads_back_operandI)
next
  case False
  then show ?thesis by (auto simp: reads_back_def)
qed

lemma reads_back_postfix_retry:
  assumes "reads_back l" and "wf_ast KTask l"
  shows "reads_back (BinOp op l (Factor n))"
proof (cases "op = ''*'' \<and> 2 \<le> n")
  case True
  with assms have "reads (a, ps, Start, fr) (unparse (BinOp op l (Factor n))) (BinOp op l (Factor n))" for a ps fr
    by (simp add: reads_back_def reads_def op_token_def p_factor_def p_expression_def parser_run_append)
  then show ?thesis by (rule reads_back_operandI)
next
  case False
  with assms(2) have "\<not> wf_ast k (BinOp op l (Factor n))" for k
    by (cases k; cases l) auto
  then show ?thesis by (simp add: reads_back_def)
qed

lemma reads_back_chain:
  assumes l: "reads_back l" "wf_ast KExpr l" and r: "reads_back r" "wf_ast KOperand r" and op: "connective op"
  shows "reads (a, [], Start, fr) (unparse (BinOp op l r)) (BinOp op l r)"
proof -
  from l have "reads (a, [], Start, fr) (unparse l) l" by (simp add: reads_back_def)
  then obtain ps' m' x where run: "parser_run (a, [], Start, fr) (unparse l) = Inr (a, ps', m', fr)"
    and x: "\<forall>n. m' \<noteq> Num n" "complete m' = Some x" "reduce_pending ps' x = l"
    by (elim readsE) simp
  from r have "reads (a, [(l, op)], Start, fr) (unparse r) r" by (simp add: reads_back_def)
  then show ?thesis
    using run x op by (simp add: reads_def parser_run_append step_op_token shift_after_read p_expression_def)
qed

lemma unparse_reads_back: "groups_printable e \<Longrightarrow> reads_back e"
proof (induction e rule: measure_induct_rule[of size])
  case (less e)
  show ?case
  proof (cases e)
    case (TaskName s)
    then show ?thesis by (simp add: reads_back_def reads_task p_task_taskname_def)
  next
    case (BinOp op l r)
    with less have IH: "reads_back l" "reads_back r" by auto
    show ?thesis
    proof (cases "\<exists>k. wf_ast k e")
      case True
      then obtain k where "wf_ast k (BinOp op l r)" using BinOp by blast
      then show ?thesis
      proof (cases rule: wf_ast_BinOp_cases)
        case chain
        then have "reads (a, [], Start, fr) (unparse e) e" for a fr
          using IH BinOp reads_back_chain by blast
        with chain(5) BinOp show ?thesis unfolding reads_back_def by (auto simp del: unparse.simps)
      qed (use IH BinOp reads_back_descriptor reads_back_prefix_retry reads_back_postfix_retry in auto)
    qed (simp add: reads_back_def)
  next
    case (ConditionalBinOP p g)
    show ?thesis
    proof (cases g)
      case (ConditionalGroup ds)
      have "reads_back (snd x)" if "x \<in> set ds" for x
      proof (rule less.IH)
        show "size (snd x) < size e"
          using size_group_entry[OF that] ConditionalBinOP ConditionalGroup by simp
        show "groups_printable (snd x)"
          using that less.prems ConditionalBinOP ConditionalGroup by simp
      qed
      moreover have "reads_back p" using less ConditionalBinOP by simp
      ultimately show ?thesis
        using less.prems ConditionalBinOP ConditionalGroup by (simp add: reads_back_conditional)
    qed (simp_all add: ConditionalBinOP reads_back_def wf_ast_conditional_iff)
  qed (simp_all add: reads_back_def)
qed

lemma parse_unparse:
  assumes "wf_ast KExpr e" and "groups_printable e"
  shows "parse_tokens (unparse e) = Inr e"
proof -
  from unparse_reads_back[OF assms(2)] assms(1) have "reads (GNone, [], Start, []) (unparse e) e"
    by (simp add: reads_back_def)
  then obtain ps m x where "parser_run init_config (unparse e) = Inr (GNone, ps, m, [])"
    "complete m = Some x" "reduce_pending ps x = e"
    by (elim readsE) (simp add: init_config_def)
  then show ?thesis by (simp add: parse_tokens_def parser_accept_def)
qed

fun names_ok :: "ast \<Rightarrow> bool" where
  "names_ok (TaskName s) = is_name s"
| "names_ok (Descriptor d) = (0 \<le> d)"
| "names_ok (Factor n) = (0 \<le> n)"
| "names_ok (BinOp op l r) = (names_ok l \<and> names_ok r)"
| "names_ok (ConditionalBinOP p g) = (names_ok p \<and> names_ok g)"
| "names_ok (ConditionalGroup ds) = (\<forall>x \<in> set ds. names_ok (snd x))"

lemma unparse_token_ok:
  "names_ok a \<Longrightarrow> list_all token_ok (unparse a)"
  "\<forall>x \<in> set ds. names_ok (snd x) \<Longrightarrow> list_all token_ok (unparse_group ds)"
  by (induction a and ds rule: unparse_unparse_group.induct) (auto simp: op_token_def)

definition print_pointy :: "ast \<Rightarrow> string" where
  "print_pointy e = render (unparse e)"

lemma parser_print_pointy:
  "wf_ast KExpr e \<Longrightarrow> groups_printable e \<Longrightarrow> names_ok e \<Longrightarrow> pointy_parser (print_pointy e) = Inr e"
  by (simp add: pointy_parser_def print_pointy_def tokens_render unparse_token_ok parse_unparse)

end
