(* ===== verification/Task.thy ===== *)
theory Task
  imports Pointy_Parser
begin

text \<open>
  Pipeline tasks, \<^verbatim>\<open>src/nexus/task.py\<close> (class \<open>PipelineTask\<close> and its configuration classes).
  The tasks are mutable objects that point to each other in both directions, so they live in a
  heap: a list of records, a task being its index. \<open>parse_ast\<close> is \<open>_parse_ast\<close>, which
  allocates the tasks and links them; \<open>build_pipeline_from_execution_code\<close> runs lexer,
  parser and \<open>_parse_ast\<close>. Walks along pointers (\<open>get_root\<close>, \<open>bf_traversal\<close>, the
  parallel chain) carry as fuel the number of tasks, one more step than a walk in an acyclic heap
  can take; \<open>None\<close> stands for Python's unbounded recursion.
\<close>

section \<open>Pipe types and descriptors\<close>

datatype pipe_type = PT_POINTER | PT_PIPE_POINTER | PT_PARALLELISM | PT_RETRY

fun pipe_token :: "pipe_type \<Rightarrow> string" where
  "pipe_token PT_POINTER = ''->''"
| "pipe_token PT_PIPE_POINTER = ''|->''"
| "pipe_token PT_PARALLELISM = ''||''"
| "pipe_token PT_RETRY = ''*''"

definition get_pipe_type_enum :: "string option \<Rightarrow> pipe_type option" where
  "get_pipe_type_enum pipe_str =
     (if pipe_str = Some (pipe_token PT_PIPE_POINTER) then Some PT_PIPE_POINTER
      else if pipe_str = Some (pipe_token PT_PARALLELISM) then Some PT_PARALLELISM
      else if pipe_str = Some (pipe_token PT_RETRY) then Some PT_RETRY
      else if pipe_str = Some (pipe_token PT_POINTER) then Some PT_POINTER
      else None)"

record descriptor_config =
  dc_descriptor :: int
  dc_pipe :: "pipe_type option"
  dc_task :: nat

record extra_config =
  number_of_retries :: "int option"
  descriptors :: "(int, descriptor_config) dict"

definition add_descriptor ::
  "int \<Rightarrow> pipe_type option \<Rightarrow> nat \<Rightarrow> extra_config \<Rightarrow> bool \<times> extra_config" where
  "add_descriptor d pipe task c =
     (if 1 < d \<and> d < 10
      then (True, c\<lparr>descriptors := dict_set d \<lparr>dc_descriptor = d, dc_pipe = pipe, dc_task = task\<rparr> (descriptors c)\<rparr>)
      else (False, c))"

definition get_descriptor_config :: "extra_config \<Rightarrow> int option \<Rightarrow> descriptor_config option" where
  "get_descriptor_config c d = (case d of None \<Rightarrow> None | Some k \<Rightarrow> dict_get (descriptors c) k)"

definition get_descriptors :: "extra_config \<Rightarrow> descriptor_config list" where
  "get_descriptors c = dict_values (descriptors c)"

section \<open>Tasks and the heap\<close>

record pipeline_task =
  event :: string
  parent_node :: "nat option"
  sink_node :: "nat option"
  sink_pipe :: "pipe_type option"
  on_success_event :: "nat option"
  on_failure_event :: "nat option"
  on_success_pipe :: "pipe_type option"
  on_failure_pipe :: "pipe_type option"
  descriptor :: "int option"
  descriptor_pipe :: "string option"
  extra :: extra_config

type_synonym heap = "pipeline_task list"

definition new_task :: "string \<Rightarrow> pipeline_task" where
  "new_task e = \<lparr>event = e, parent_node = None, sink_node = None, sink_pipe = None,
     on_success_event = None, on_failure_event = None, on_success_pipe = None, on_failure_pipe = None,
     descriptor = None, descriptor_pipe = None,
     extra = \<lparr>number_of_retries = None, descriptors = []\<rparr>\<rparr>"

definition upd :: "nat \<Rightarrow> (pipeline_task \<Rightarrow> pipeline_task) \<Rightarrow> heap \<Rightarrow> heap" where
  "upd n f h = h[n := f (h ! n)]"

definition is_conditional :: "pipeline_task \<Rightarrow> bool" where
  "is_conditional t = (get_descriptors (extra t) \<noteq> [] \<or>
     (on_success_event t \<noteq> None \<and> on_failure_event t \<noteq> None))"

definition is_descriptor_task :: "pipeline_task \<Rightarrow> bool" where
  "is_descriptor_task t = (descriptor t \<noteq> None \<or> descriptor_pipe t \<noteq> None)"

definition is_sink :: "heap \<Rightarrow> nat \<Rightarrow> bool" where
  "is_sink h n =
     (case parent_node (h ! n) of
        Some p \<Rightarrow> \<not> is_descriptor_task (h ! n) \<and> sink_node (h ! p) = Some n
      | None \<Rightarrow> False)"

text \<open>The pointer to a task is a pipe type, or, where the parent has no configuration for the
  descriptor, the operator token stored in \<open>_descriptor_pipe\<close>.\<close>

datatype pointer = Pipe pipe_type | RawToken string

definition get_pointer_type_to_this_event :: "heap \<Rightarrow> nat \<Rightarrow> pointer option" where
  "get_pointer_type_to_this_event h n =
     (case parent_node (h ! n) of
        None \<Rightarrow> None
      | Some p \<Rightarrow>
          (if on_success_event (h ! p) = Some n then map_option Pipe (on_success_pipe (h ! p))
           else if on_failure_event (h ! p) = Some n then map_option Pipe (on_failure_pipe (h ! p))
           else if sink_node (h ! p) = Some n then map_option Pipe (sink_pipe (h ! p))
           else (case get_descriptor_config (extra (h ! p)) (descriptor (h ! n)) of
                   Some dc \<Rightarrow> map_option Pipe (dc_pipe dc)
                 | None \<Rightarrow> map_option RawToken (descriptor_pipe (h ! n)))))"

definition is_parallel_execution_node :: "heap \<Rightarrow> nat \<Rightarrow> bool" where
  "is_parallel_execution_node h n =
     (on_success_pipe (h ! n) = Some PT_PARALLELISM \<or>
      get_pointer_type_to_this_event h n = Some (Pipe PT_PARALLELISM))"

definition get_children :: "pipeline_task \<Rightarrow> nat list" where
  "get_children t =
     (case on_failure_event t of Some c \<Rightarrow> [c] | None \<Rightarrow> []) @
     (case sink_node t of Some c \<Rightarrow> [c] | None \<Rightarrow> []) @
     (case on_success_event t of Some c \<Rightarrow> [c] | None \<Rightarrow> []) @
     map dc_task (get_descriptors (extra t))"

fun get_root_fuel :: "nat \<Rightarrow> heap \<Rightarrow> nat \<Rightarrow> nat option" where
  "get_root_fuel 0 h n = None"
| "get_root_fuel (Suc k) h n =
     (case parent_node (h ! n) of None \<Rightarrow> Some n | Some p \<Rightarrow> get_root_fuel k h p)"

definition get_root :: "heap \<Rightarrow> nat \<Rightarrow> nat option" where
  "get_root h n = get_root_fuel (Suc (length h)) h n"

fun those_concat :: "nat list option list \<Rightarrow> nat list option" where
  "those_concat [] = Some []"
| "those_concat (None # xs) = None"
| "those_concat (Some ys # xs) = map_option ((@) ys) (those_concat xs)"

fun bf_traversal_fuel :: "nat \<Rightarrow> heap \<Rightarrow> nat \<Rightarrow> nat list option" where
  "bf_traversal_fuel 0 h n = None"
| "bf_traversal_fuel (Suc k) h n =
     map_option ((#) n) (those_concat (map (bf_traversal_fuel k h) (get_children (h ! n))))"

definition bf_traversal :: "heap \<Rightarrow> nat \<Rightarrow> nat list option" where
  "bf_traversal h n = bf_traversal_fuel (Suc (length h)) h n"

definition get_task_count :: "heap \<Rightarrow> nat \<Rightarrow> nat option" where
  "get_task_count h n =
     (case get_root h n of None \<Rightarrow> None | Some r \<Rightarrow> map_option length (bf_traversal h r))"

definition get_descriptor :: "heap \<Rightarrow> nat \<Rightarrow> int \<Rightarrow> nat option" where
  "get_descriptor h n d =
     (if d \<in> {0, 1} then (if d = 0 then on_failure_event (h ! n) else on_success_event (h ! n))
      else map_option dc_task (get_descriptor_config (extra (h ! n)) (Some d)))"

text \<open>The loop \<open>while task and task.on_success_pipe == PARALLELISM\<close>: the tasks passed and the task
  (or \<open>None\<close>) the loop stops at.\<close>

fun parallel_chain_fuel :: "nat \<Rightarrow> heap \<Rightarrow> nat option \<Rightarrow> (nat list \<times> nat option) option" where
  "parallel_chain_fuel 0 h t = None"
| "parallel_chain_fuel (Suc k) h None = Some ([], None)"
| "parallel_chain_fuel (Suc k) h (Some n) =
     (if on_success_pipe (h ! n) = Some PT_PARALLELISM
      then map_option (apfst ((#) n)) (parallel_chain_fuel k h (on_success_event (h ! n)))
      else Some ([], Some n))"

definition parallel_chain :: "heap \<Rightarrow> nat option \<Rightarrow> (nat list \<times> nat option) option" where
  "parallel_chain h t = parallel_chain_fuel (Suc (length h)) h t"

text \<open>\<open>get_parallel_nodes\<close>: \<open>Some None\<close> is Python's bare \<open>return\<close>.\<close>

definition get_parallel_nodes :: "heap \<Rightarrow> nat \<Rightarrow> nat option list option option" where
  "get_parallel_nodes h n =
     (if \<not> is_parallel_execution_node h n then Some None
      else map_option (\<lambda>(passed, last'). Some (map Some passed @ [last'])) (parallel_chain h (Some n)))"

fun parallel_parent_fuel :: "nat \<Rightarrow> heap \<Rightarrow> nat \<Rightarrow> nat option option" where
  "parallel_parent_fuel 0 h n = None"
| "parallel_parent_fuel (Suc k) h n =
     (if is_parallel_execution_node h n
      then (case parent_node (h ! n) of
              Some p \<Rightarrow> if on_success_pipe (h ! p) = Some PT_PARALLELISM then parallel_parent_fuel k h p
                        else Some (Some n)
            | None \<Rightarrow> Some (Some n))
      else Some None)"

definition get_parallel_execution_parent_node :: "heap \<Rightarrow> nat \<Rightarrow> nat option option" where
  "get_parallel_execution_parent_node h n = parallel_parent_fuel (Suc (length h)) h n"

section \<open>From the syntax tree to tasks\<close>

datatype pval = VNode nat | VInt int | VNone

definition binop_pipe :: "string \<Rightarrow> pipe_type" where
  "binop_pipe op =
     (if op = pipe_token PT_PIPE_POINTER then PT_PIPE_POINTER
      else if op = pipe_token PT_POINTER then PT_POINTER
      else PT_PARALLELISM)"

definition link_nodes :: "string \<Rightarrow> nat \<Rightarrow> nat \<Rightarrow> heap \<Rightarrow> heap" where
  "link_nodes op left right h =
     (let pt = binop_pipe op;
          h1 = (if is_conditional (h ! left)
                then upd left (\<lambda>t. t\<lparr>sink_node := Some right, sink_pipe := Some pt\<rparr>) h
                else upd left (\<lambda>t. t\<lparr>on_success_event := Some right, on_success_pipe := Some pt\<rparr>) h)
      in upd right (\<lambda>t. t\<lparr>parent_node := Some left\<rparr>) h1)"

definition root_or_raise :: "heap \<Rightarrow> nat \<Rightarrow> exc_class + nat" where
  "root_or_raise h n = of_option RecursionError (get_root h n)"

text \<open>The branch for an operand that is an \<open>int\<close>: retry syntax or a descriptor.\<close>

definition apply_int :: "string \<Rightarrow> int \<Rightarrow> pval \<Rightarrow> heap \<Rightarrow> exc_class + (pval \<times> heap)" where
  "apply_int op v node h =
     (case node of
        VNode n \<Rightarrow>
          (if op = pipe_token PT_RETRY
           then Inr (VNode n, upd n (\<lambda>t. t\<lparr>extra := (extra t)\<lparr>number_of_retries := Some v\<rparr>\<rparr>) h)
           else bind_res (root_or_raise h n) (\<lambda>r.
             Inr (VNode r, upd r (\<lambda>t. t\<lparr>descriptor := Some v, descriptor_pipe := Some op\<rparr>) h)))
      | _ \<Rightarrow> Inl SyntaxError)"

definition link_binop :: "string \<Rightarrow> pval \<Rightarrow> pval \<Rightarrow> heap \<Rightarrow> exc_class + (pval \<times> heap)" where
  "link_binop op left_node right_node h =
     (case (left_node, right_node) of
        (VNode a, VNode b) \<Rightarrow> Inr (VNode b, link_nodes op a b h)
      | (VInt x, VInt y) \<Rightarrow> apply_int op y VNone h
      | (VInt x, node) \<Rightarrow> apply_int op x node h
      | (node, VInt y) \<Rightarrow> apply_int op y node h
      | (VNone, node) \<Rightarrow> Inr (node, h)
      | (node, VNone) \<Rightarrow> Inr (node, h))"

text \<open>\<open>if node: node = node.get_root()\<close>.\<close>

definition branch_root :: "pval \<Rightarrow> heap \<Rightarrow> exc_class + pval" where
  "branch_root v h =
     (case v of
        VNode n \<Rightarrow> bind_res (root_or_raise h n) (\<lambda>r. Inr (VNode r))
      | VInt k \<Rightarrow> if k = 0 then Inr v else Inl AttributeError
      | VNone \<Rightarrow> Inr VNone)"

definition attach_branch :: "nat \<Rightarrow> pval \<Rightarrow> heap \<Rightarrow> heap" where
  "attach_branch parent v h =
     (case v of
        VNode n \<Rightarrow>
          (let h1 = upd n (\<lambda>t. t\<lparr>parent_node := Some parent\<rparr>) h;
               pt = get_pipe_type_enum (descriptor_pipe (h1 ! n))
           in if descriptor (h1 ! n) = Some 0
              then upd parent (\<lambda>t. t\<lparr>on_failure_event := Some n, on_failure_pipe := pt\<rparr>) h1
              else upd parent (\<lambda>t. t\<lparr>on_success_event := Some n, on_success_pipe := pt\<rparr>) h1)
      | _ \<Rightarrow> h)"

text \<open>\<open>ast.parent.value\<close>: the production \<open>task LPAREN task_group RPAREN\<close> puts a task name or
  another conditional there, and a conditional has no \<open>value\<close>.\<close>

fun task_value :: "ast \<Rightarrow> exc_class + string" where
  "task_value (TaskName s) = Inr s"
| "task_value _ = Inl AttributeError"

text \<open>\<open>custom_node.left.value\<close> and \<open>custom_node.op\<close>.\<close>

fun custom_key :: "ast \<Rightarrow> exc_class + (int \<times> string)" where
  "custom_key (BinOp op (Descriptor d) r) = Inr (d, op)"
| "custom_key (BinOp op (TaskName s) r) = Inl TypeError"
| "custom_key _ = Inl AttributeError"

definition attach_custom :: "nat \<Rightarrow> ast \<Rightarrow> nat \<Rightarrow> heap \<Rightarrow> exc_class + heap" where
  "attach_custom parent custom_node branch h =
     bind_res (root_or_raise h branch) (\<lambda>head.
       (let h1 = upd head (\<lambda>t. t\<lparr>parent_node := Some parent\<rparr>) h
        in bind_res (custom_key custom_node) (\<lambda>(d, op).
             Inr (upd parent (\<lambda>t. t\<lparr>extra := snd (add_descriptor d (get_pipe_type_enum (Some op)) head (extra t))\<rparr>) h1))))"

lemma size_list_extra_descriptors [simp]:
  "size_list size (extra_descriptors g) < Suc (size p + size g)"
proof -
  have "size_list size (map snd (filter P ds)) \<le> size_list (size_prod (\<lambda>_. 0) size) ds" for P and ds :: "(int \<times> ast) list"
  proof (induction ds)
    case (Cons x ds)
    then show ?case by (cases x) (auto simp: o_def)
  qed simp
  then show ?thesis
    by (cases g) (auto simp: extra_descriptors_def get_extra_descriptors_def le_imp_less_Suc trans_le_add2 less_SucI)
qed

function (sequential) parse_ast :: "ast \<Rightarrow> heap \<Rightarrow> exc_class + (pval \<times> heap)"
  and parse_customs :: "nat \<Rightarrow> ast list \<Rightarrow> heap \<Rightarrow> exc_class + heap" where
  "parse_ast (BinOp op l r) h =
     bind_res (parse_ast l h) (\<lambda>(left_node, h1).
     bind_res (parse_ast r h1) (\<lambda>(right_node, h2).
       link_binop op left_node right_node h2))"
| "parse_ast (TaskName s) h = Inr (VNode (length h), h @ [new_task s])"
| "parse_ast (ConditionalBinOP p g) h =
     bind_res (case cond_left g of None \<Rightarrow> Inr (VNone, h) | Some a \<Rightarrow> parse_ast a h) (\<lambda>(left_node, h1).
     bind_res (case cond_right g of None \<Rightarrow> Inr (VNone, h1) | Some a \<Rightarrow> parse_ast a h1) (\<lambda>(right_node, h2).
     bind_res (branch_root left_node h2) (\<lambda>left_root.
     bind_res (branch_root right_node h2) (\<lambda>right_root.
     bind_res (task_value p) (\<lambda>ev.
       (let parent = length h2;
            h3 = h2 @ [new_task ev];
            h4 = attach_branch parent left_root (attach_branch parent right_root h3)
        in bind_res (parse_customs parent (extra_descriptors g) h4) (\<lambda>h5. Inr (VNode parent, h5))))))))"
| "parse_ast (Descriptor n) h = Inr (VInt n, h)"
| "parse_ast (Factor n) h = Inr (VInt n, h)"
| "parse_ast (ConditionalGroup ds) h = Inr (VNone, h)"
| "parse_customs parent [] h = Inr h"
| "parse_customs parent (c # cs) h =
     bind_res (parse_ast c h) (\<lambda>(custom_branch, h1).
       case custom_branch of
         VNode n \<Rightarrow> bind_res (attach_custom parent c n h1) (\<lambda>h2. parse_customs parent cs h2)
       | VInt k \<Rightarrow> if k = 0 then parse_customs parent cs h1 else Inl AttributeError
       | VNone \<Rightarrow> parse_customs parent cs h1)"
  by pat_completeness auto
termination
  by (relation "measure (case_sum (\<lambda>(a, h). size a) (\<lambda>(p, cs, h). size_list size cs))") auto

definition build_pipeline_from_execution_code :: "string \<Rightarrow> exc_class + (nat \<times> heap)" where
  "build_pipeline_from_execution_code code =
     (if code = [] then Inl IndexError
      else bind_res (pointy_parser code) (\<lambda>ast.
           bind_res (parse_ast ast []) (\<lambda>(tail, h).
             case tail of
               VNode n \<Rightarrow> bind_res (root_or_raise h n) (\<lambda>r. Inr (r, h))
             | _ \<Rightarrow> Inl AttributeError)))"

end
