(* ===== verification/Task_Tree.thy ===== *)
theory Task_Tree
  imports Task
begin

text \<open>
  The shape of the task graph. \<open>repr h p t\<close> says that the heap \<open>h\<close> holds the tree
  \<open>t\<close>: every node has exactly the children the tree gives it, in the order of
  \<open>get_children\<close>, and points back to its parent (\<open>p\<close> for the root). The main results are
  that \<open>parse_ast\<close> always builds such a tree with pairwise different nodes
  (\<open>parse_ast_tree\<close>), and that on a tree the pointer walks of the code return
  (\<open>get_root_tree\<close>, \<open>bf_traversal_tree\<close>).
\<close>

datatype ttree = TNode (tid: nat) (kids: "ttree list")

fun repr :: "heap \<Rightarrow> nat option \<Rightarrow> ttree \<Rightarrow> bool" where
  "repr h p (TNode i ts) =
     (i < length h \<and> parent_node (h ! i) = p \<and> get_children (h ! i) = map tid ts \<and>
      (\<forall>t \<in> set ts. repr h (Some i) t))"

fun ids :: "ttree \<Rightarrow> nat list" where
  "ids (TNode i ts) = i # concat (map ids ts)"

abbreviation ids_list :: "ttree list \<Rightarrow> nat list" where
  "ids_list ts \<equiv> concat (map ids ts)"

lemma tid_in_ids [simp]: "tid t \<in> set (ids t)"
  by (cases t) auto

lemma repr_bound: "repr h p t \<Longrightarrow> i \<in> set (ids t) \<Longrightarrow> i < length h"
  by (induction h p t rule: repr.induct) auto

lemma length_ids_bound: "repr h p t \<Longrightarrow> distinct (ids t) \<Longrightarrow> length (ids t) \<le> length h"
proof -
  assume t: "repr h p t" "distinct (ids t)"
  have "set (ids t) \<subseteq> {..<length h}" using repr_bound[OF t(1)] by auto
  then have "card (set (ids t)) \<le> length h" using card_mono[of "{..<length h}"] by simp
  with t(2) show ?thesis by (simp add: distinct_card)
qed

text \<open>Only the parent and the children of the nodes of the tree matter.\<close>

lemma repr_frame:
  assumes "repr h p t" and "length h \<le> length h'"
    and "\<And>i. i \<in> set (ids t) \<Longrightarrow> parent_node (h' ! i) = parent_node (h ! i) \<and> get_children (h' ! i) = get_children (h ! i)"
  shows "repr h' p t"
  using assms by (induction h p t rule: repr.induct) auto

lemma repr_reroot:
  assumes "repr h p t" and "length h \<le> length h'"
    and "\<And>i. i \<in> set (ids t) \<Longrightarrow> i \<noteq> tid t \<Longrightarrow>
           parent_node (h' ! i) = parent_node (h ! i) \<and> get_children (h' ! i) = get_children (h ! i)"
    and "distinct (ids t)"
    and "parent_node (h' ! tid t) = q" and "get_children (h' ! tid t) = get_children (h ! tid t)"
  shows "repr h' q t"
proof (cases t)
  case (TNode i ts)
  have "repr h' (Some i) u" if "u \<in> set ts" for u
  proof (rule repr_frame)
    show "repr h (Some i) u" using assms(1) TNode that by simp
    fix j assume "j \<in> set (ids u)"
    with that TNode assms(4) have "j \<in> set (ids t)" "j \<noteq> tid t" by auto
    then show "parent_node (h' ! j) = parent_node (h ! j) \<and> get_children (h' ! j) = get_children (h ! j)"
      by (rule assms(3))
  qed (rule assms(2))
  with assms TNode show ?thesis by auto
qed

section \<open>Walks on a tree\<close>

lemma get_root_fuel_climb:
  "repr h p t \<Longrightarrow> n \<in> set (ids t) \<Longrightarrow>
   \<exists>j < length (ids t). \<forall>k. get_root_fuel (Suc (j + k)) h n = get_root_fuel (Suc k) h (tid t)"
proof (induction h p t rule: repr.induct)
  case (1 h p i ts)
  show ?case
  proof (cases "n = i")
    case True
    then show ?thesis by (intro exI[of _ 0]) simp
  next
    case False
    with 1(3) obtain c where c: "c \<in> set ts" "n \<in> set (ids c)" by auto
    with 1(2) have rc: "repr h (Some i) c" by simp
    from 1(1)[OF c(1) rc c(2)] obtain j where j: "j < length (ids c)"
      "\<And>k. get_root_fuel (Suc (j + k)) h n = get_root_fuel (Suc k) h (tid c)"
      by blast
    have "parent_node (h ! tid c) = Some i" using rc by (cases c) auto
    then have "get_root_fuel (Suc (Suc j + k)) h n = get_root_fuel (Suc k) h i" for k
      using j(2)[of "Suc k"] by simp
    moreover have "length (ids c) \<le> length (ids_list ts)"
      using c(1) by (simp add: length_concat member_le_sum_list)
    ultimately show ?thesis using j(1) by (intro exI[of _ "Suc j"]) auto
  qed
qed

lemma get_root_tree:
  assumes "repr h None t" and "distinct (ids t)" and "n \<in> set (ids t)"
  shows "get_root h n = Some (tid t)"
proof -
  obtain j where j: "j < length (ids t)"
    "\<And>k. get_root_fuel (Suc (j + k)) h n = get_root_fuel (Suc k) h (tid t)"
    using get_root_fuel_climb[OF assms(1,3)] by blast
  have "j \<le> length h" using j(1) length_ids_bound[OF assms(1,2)] by simp
  then have "get_root h n = get_root_fuel (Suc (length h - j)) h (tid t)"
    using j(2)[of "length h - j"] by (simp add: get_root_def)
  also have "\<dots> = Some (tid t)" using assms(1) by (cases t) simp
  finally show ?thesis .
qed

lemma those_concat_ids:
  "(\<And>t. t \<in> set ts \<Longrightarrow> f (tid t) = Some (ids t)) \<Longrightarrow> those_concat (map f (map tid ts)) = Some (ids_list ts)"
  by (induction ts) auto

lemma bf_traversal_fuel_tree:
  "repr h p t \<Longrightarrow> length (ids t) \<le> k \<Longrightarrow> bf_traversal_fuel k h (tid t) = Some (ids t)"
proof (induction h p t arbitrary: k rule: repr.induct)
  case (1 h p i ts)
  then obtain k' where k: "k = Suc k'" by (cases k) auto
  have "bf_traversal_fuel k' h (tid c) = Some (ids c)" if "c \<in> set ts" for c
  proof (rule 1(1)[OF that])
    show "repr h (Some i) c" using 1(2) that by simp
    have "length (ids c) \<le> length (ids_list ts)"
      using that by (simp add: length_concat member_le_sum_list)
    then show "length (ids c) \<le> k'" using 1(3) k by simp
  qed
  then show ?case using 1(2) k by (simp add: those_concat_ids del: map_map)
qed

lemma bf_traversal_tree:
  assumes "repr h p t" and "distinct (ids t)"
  shows "bf_traversal h (tid t) = Some (ids t)"
  unfolding bf_traversal_def
  by (rule bf_traversal_fuel_tree[OF assms(1)]) (use length_ids_bound[OF assms] in simp)

section \<open>Replacing the children of a node\<close>

fun set_kids :: "nat \<Rightarrow> ttree list \<Rightarrow> ttree \<Rightarrow> ttree" where
  "set_kids n ks (TNode i ts) = (if i = n then TNode i ks else TNode i (map (set_kids n ks) ts))"

fun find_kids :: "nat \<Rightarrow> ttree \<Rightarrow> ttree list" where
  "find_kids n (TNode i ts) = (if i = n then ts else concat (map (find_kids n) ts))"

lemma tid_set_kids [simp]: "tid (set_kids n ks t) = tid t"
  by (cases t) simp

lemma set_kids_notin: "n \<notin> set (ids t) \<Longrightarrow> set_kids n ks t = t \<and> find_kids n t = []"
proof (induction t rule: ids.induct)
  case (1 i ts)
  then have "map (set_kids n ks) ts = ts" "concat (map (find_kids n) ts) = []"
    by (auto intro: map_idI)
  with 1(2) show ?case by simp
qed

lemma find_kids_sub: "set (ids_list (find_kids n t)) \<subseteq> set (ids t)"
proof (induction t rule: ids.induct)
  case (1 i ts)
  show ?case
  proof (cases "i = n")
    case False
    show ?thesis
    proof
      fix x assume "x \<in> set (ids_list (find_kids n (TNode i ts)))"
      with False obtain t k where "t \<in> set ts" "k \<in> set (find_kids n t)" "x \<in> set (ids k)" by auto
      then show "x \<in> set (ids (TNode i ts))" using 1[of t] by auto
    qed
  qed auto
qed

text \<open>In a tree with different nodes, the node \<open>n\<close> lies in exactly one child.\<close>

lemma child_split:
  assumes "n \<in> set (ids_list ts)" and "distinct (ids_list ts)"
  obtains us c vs where "ts = us @ c # vs" "n \<in> set (ids c)" "n \<notin> set (ids_list us)" "n \<notin> set (ids_list vs)"
proof -
  from assms(1) obtain c where "c \<in> set ts" "n \<in> set (ids c)" by auto
  then obtain us vs where "ts = us @ c # vs" by (meson split_list)
  moreover from this assms(2)
  have "set (ids_list us) \<inter> set (ids c) = {}" "set (ids c) \<inter> set (ids_list vs) = {}"
    unfolding \<open>ts = us @ c # vs\<close> map_append list.map concat_append concat.simps distinct_append set_append by blast+
  then have "n \<notin> set (ids_list us)" "n \<notin> set (ids_list vs)" using \<open>n \<in> set (ids c)\<close> by blast+
  ultimately show ?thesis using \<open>n \<in> set (ids c)\<close> that by blast
qed

lemma set_kids_list_notin:
  assumes "n \<notin> set (ids_list us)"
  shows "map (set_kids n ks) us = us" "concat (map (find_kids n) us) = []"
  using assms by (induction us) (auto simp: set_kids_notin)

text \<open>Below the root, both functions descend into that child.\<close>

lemma kids_descend:
  assumes "distinct (ids (TNode i ts))" and "n \<in> set (ids (TNode i ts))" and "i \<noteq> n"
  obtains us c vs where "ts = us @ c # vs" "n \<in> set (ids c)" "distinct (ids c)"
    "find_kids n (TNode i ts) = find_kids n c"
    "\<forall>ks. set_kids n ks (TNode i ts) = TNode i (us @ set_kids n ks c # vs)"
    "n \<notin> set (ids_list us)" "n \<notin> set (ids_list vs)"
proof -
  have "n \<in> set (ids_list ts)" "distinct (ids_list ts)" using assms by auto
  then obtain us c vs where ts: "ts = us @ c # vs" and n: "n \<in> set (ids c)"
    and nin: "n \<notin> set (ids_list us)" "n \<notin> set (ids_list vs)"
    by (rule child_split)
  show ?thesis
  proof (rule that[OF ts n _ _ _ nin])
    show "distinct (ids c)" using assms(1) ts by simp
    show "find_kids n (TNode i ts) = find_kids n c"
      using assms(3) unfolding ts by (simp add: nin[THEN set_kids_list_notin(2)] del: concat_eq_Nil_conv)
    show "\<forall>ks. set_kids n ks (TNode i ts) = TNode i (us @ set_kids n ks c # vs)"
      using assms(3) unfolding ts by (simp add: nin[THEN set_kids_list_notin(1)])
  qed
qed

lemma set_kids_ids:
  assumes "distinct (ids t)" and "n \<in> set (ids t)" and "distinct (ids_list ks)" and "n \<notin> set (ids_list ks)"
    and "set (ids_list ks) \<inter> (set (ids t) - set (ids_list (find_kids n t))) = {}"
  shows "distinct (ids (set_kids n ks t)) \<and> n \<in> set (ids (set_kids n ks t)) \<and>
         set (ids (set_kids n ks t)) \<subseteq> set (ids t) \<union> set (ids_list ks) \<and>
         set (ids_list ks) \<subseteq> set (ids (set_kids n ks t))"
  using assms
proof (induction t rule: ids.induct)
  case (1 i ts)
  show ?case
  proof (cases "i = n")
    case True
    with 1(4,5) show ?thesis by auto
  next
    case False
    with 1(2,3) obtain us c vs where ts: "ts = us @ c # vs" and n: "n \<in> set (ids c)" and dc: "distinct (ids c)"
      and fk: "find_kids n (TNode i ts) = find_kids n c"
      and eq: "\<forall>ks. set_kids n ks (TNode i ts) = TNode i (us @ set_kids n ks c # vs)"
      by (rule kids_descend)
    have st: "set (ids (TNode i ts)) = insert i (set (ids_list us) \<union> set (ids c) \<union> set (ids_list vs))"
      unfolding ts by auto
    have dj: "insert i (set (ids_list us) \<union> set (ids_list vs)) \<inter> set (ids c) = {}"
      using 1(2) unfolding ts by auto
    note ks = 1(6)[unfolded st fk]
    have fc: "set (ids_list (find_kids n c)) \<subseteq> set (ids c)" by (rule find_kids_sub)
    have "set (ids_list ks) \<inter> (set (ids c) - set (ids_list (find_kids n c))) = {}" using ks by blast
    then have IH: "distinct (ids (set_kids n ks c))" "n \<in> set (ids (set_kids n ks c))"
         "set (ids (set_kids n ks c)) \<subseteq> set (ids c) \<union> set (ids_list ks)"
         "set (ids_list ks) \<subseteq> set (ids (set_kids n ks c))"
      using 1(1)[of c, OF _ dc n 1(4,5)] ts by auto
    have "set (ids_list ks) \<inter> (insert i (set (ids_list us) \<union> set (ids_list vs))) = {}"
      using ks dj fc by blast
    with IH(3) dj have out: "set (ids (set_kids n ks c)) \<inter> insert i (set (ids_list us) \<union> set (ids_list vs)) = {}"
      by blast
    have st': "set (ids (TNode i (us @ set_kids n ks c # vs))) =
        insert i (set (ids_list us) \<union> set (ids (set_kids n ks c)) \<union> set (ids_list vs))" by auto
    have "distinct (ids (TNode i (us @ set_kids n ks c # vs)))"
      using 1(2) out IH(1) unfolding ts by (auto simp del: set_concat)
    then show ?thesis unfolding eq[rule_format] st' st using IH by blast
  qed
qed

lemma repr_find_kids:
  assumes "repr h p t" and "distinct (ids t)" and "n \<in> set (ids t)"
  shows "get_children (h ! n) = map tid (find_kids n t) \<and> (\<forall>k \<in> set (find_kids n t). repr h (Some n) k)"
  using assms
proof (induction h p t rule: repr.induct)
  case (1 h p i ts)
  show ?case
  proof (cases "i = n")
    case True
    with 1(2) show ?thesis by simp
  next
    case False
    with 1(3,4) obtain us c vs where "ts = us @ c # vs" "n \<in> set (ids c)" "distinct (ids c)"
      "find_kids n (TNode i ts) = find_kids n c" by (rule kids_descend)
    then show ?thesis using 1(1)[of c] 1(2) by simp
  qed
qed

lemma repr_find_kids_distinct:
  "distinct (ids t) \<Longrightarrow> n \<in> set (ids t) \<Longrightarrow> distinct (n # ids_list (find_kids n t))"
proof (induction t rule: ids.induct)
  case (1 i ts)
  show ?case
  proof (cases "i = n")
    case True
    with 1(2) show ?thesis by simp
  next
    case False
    with 1(2,3) obtain us c vs where "ts = us @ c # vs" "n \<in> set (ids c)" "distinct (ids c)"
      "find_kids n (TNode i ts) = find_kids n c" by (rule kids_descend)
    then show ?thesis using 1(1)[of c] by simp
  qed
qed

lemma repr_set_kids:
  assumes "repr h p t" and "distinct (ids t)" and "n \<in> set (ids t)" and "length h \<le> length h'"
    and "\<And>i. i \<in> set (ids t) - set (ids_list (find_kids n t)) \<Longrightarrow> i \<noteq> n \<Longrightarrow>
           parent_node (h' ! i) = parent_node (h ! i) \<and> get_children (h' ! i) = get_children (h ! i)"
    and "parent_node (h' ! n) = parent_node (h ! n)" and "get_children (h' ! n) = map tid ks"
    and "\<forall>k \<in> set ks. repr h' (Some n) k"
  shows "repr h' p (set_kids n ks t)"
  using assms
proof (induction h p t rule: repr.induct)
  case (1 h p i ts)
  show ?case
  proof (cases "i = n")
    case True
    with 1 show ?thesis by simp
  next
    case False
    with 1(3,4) obtain us c vs where ts: "ts = us @ c # vs" and n: "n \<in> set (ids c)" and dc: "distinct (ids c)"
      and fk: "find_kids n (TNode i ts) = find_kids n c"
      and eq: "\<forall>ks. set_kids n ks (TNode i ts) = TNode i (us @ set_kids n ks c # vs)"
      and nin: "n \<notin> set (ids_list us)" "n \<notin> set (ids_list vs)"
      by (rule kids_descend)
    have fc: "set (ids_list (find_kids n c)) \<subseteq> set (ids c)" by (rule find_kids_sub)
    have st: "set (ids (TNode i ts)) = insert i (set (ids_list us) \<union> set (ids c) \<union> set (ids_list vs))"
      unfolding ts by auto
    have dj: "insert i (set (ids_list us) \<union> set (ids_list vs)) \<inter> set (ids c) = {}"
      using 1(3) unfolding ts by auto
    note fr = 1(6)[unfolded st fk]
    have c: "repr h' (Some i) (set_kids n ks c)"
    proof (rule 1(1)[of c, OF _ _ dc n 1(5)])
      show "c \<in> set ts" "repr h (Some i) c" using ts 1(2) by auto
    qed (use fr 1(7-9) in auto)
    have o: "repr h' (Some i) u" if "u \<in> set us \<union> set vs" for u
    proof (rule repr_frame[OF _ 1(5)])
      show "repr h (Some i) u" using ts 1(2) that by auto
      fix j assume "j \<in> set (ids u)"
      then have j: "j \<in> set (ids_list us) \<union> set (ids_list vs)" using that by auto
      then have "j \<notin> set (ids c)" "j \<noteq> n" using dj n by blast+
      then show "parent_node (h' ! j) = parent_node (h ! j) \<and> get_children (h' ! j) = get_children (h ! j)"
        using fr[of j] j fc by blast
    qed
    have "i \<notin> set (ids_list (find_kids n c))" using dj fc by blast
    then have "parent_node (h' ! i) = parent_node (h ! i) \<and> get_children (h' ! i) = get_children (h ! i)"
      using fr[of i] False by blast
    with c o 1(2,5) ts have "repr h' p (TNode i (us @ set_kids n ks c # vs))" by auto
    then show ?thesis by (simp only: eq)
  qed
qed

text \<open>A list with one stretch replaced by a single element.\<close>

definition spliced :: "nat list \<Rightarrow> nat \<Rightarrow> nat list \<Rightarrow> bool" where
  "spliced old b new \<longleftrightarrow> (\<exists>xs ms ys. old = xs @ ms @ ys \<and> new = xs @ [b] @ ys)"

definition task_tree :: "nat \<Rightarrow> heap \<Rightarrow> ttree \<Rightarrow> bool" where
  "task_tree lo h t \<longleftrightarrow> repr h None t \<and> distinct (ids t) \<and> set (ids t) \<subseteq> {lo..<length h}"

text \<open>Hanging the root of one tree below a node of another, possibly in the place of some of its children.\<close>

lemma graft:
  assumes t1: "task_tree lo h t1" and n: "n \<in> set (ids t1)" and t2: "task_tree m h t2" and "lo \<le> m"
    and dj: "set (ids t1) \<inter> set (ids t2) = {}" and len: "length h' = length h"
    and sp: "spliced (get_children (h ! n)) (tid t2) (get_children (h' ! n))"
    and pn: "parent_node (h' ! n) = parent_node (h ! n)"
    and pb: "parent_node (h' ! tid t2) = Some n" and cb: "get_children (h' ! tid t2) = get_children (h ! tid t2)"
    and fr: "\<And>i. i \<noteq> n \<Longrightarrow> i \<noteq> tid t2 \<Longrightarrow>
      parent_node (h' ! i) = parent_node (h ! i) \<and> get_children (h' ! i) = get_children (h ! i)"
  shows "\<exists>t'. task_tree lo h' t' \<and> tid t' = tid t1 \<and> n \<in> set (ids t') \<and> set (ids t2) \<subseteq> set (ids t') \<and>
     set (ids t') \<subseteq> set (ids t1) \<union> set (ids t2)"
proof -
  have r1: "repr h None t1" "distinct (ids t1)" and r2: "repr h None t2" "distinct (ids t2)"
    using t1 t2 by (auto simp: task_tree_def)
  from sp obtain xs ms ys where sp': "get_children (h ! n) = xs @ ms @ ys" "get_children (h' ! n) = xs @ [tid t2] @ ys"
    unfolding spliced_def by blast
  note ch = repr_find_kids[OF r1 n]
  then obtain us ws vs where k: "find_kids n t1 = us @ ws @ vs" "xs = map tid us" "ys = map tid vs"
    using sp'(1) by (auto simp: map_eq_append_conv append_eq_map_conv)
  let ?ks = "us @ t2 # vs"
  have n2: "n \<notin> set (ids t2)" "tid t2 \<notin> set (ids t1)" using n dj tid_in_ids[of t2] by blast+
  have dfk: "distinct (n # ids_list (find_kids n t1))"
    using repr_find_kids_distinct[OF r1(2) n] .
  have sub: "set (ids_list (find_kids n t1)) \<subseteq> set (ids t1)" by (rule find_kids_sub)
  then have sub': "set (ids_list us) \<subseteq> set (ids t1)" "set (ids_list vs) \<subseteq> set (ids t1)" using k(1) by auto
  have keep: "repr h' (Some n) c" if "c \<in> set us \<union> set vs" for c
  proof (rule repr_frame)
    show "repr h (Some n) c" using ch k(1) that by auto
    fix j assume j: "j \<in> set (ids c)"
    then have "j \<in> set (ids_list (find_kids n t1))" using that k(1) by auto
    then have "j \<noteq> n" "j \<noteq> tid t2" using dfk sub n2(2) by (auto simp del: set_concat)
    then show "parent_node (h' ! j) = parent_node (h ! j) \<and> get_children (h' ! j) = get_children (h ! j)"
      by (rule fr)
  qed (simp add: len)
  have new: "repr h' (Some n) t2"
  proof (rule repr_reroot[OF r2(1) _ _ r2(2) pb cb])
    fix i assume "i \<in> set (ids t2)" "i \<noteq> tid t2"
    then show "parent_node (h' ! i) = parent_node (h ! i) \<and> get_children (h' ! i) = get_children (h ! i)"
      using fr[of i] n2(1) by blast
  qed (simp add: len)
  have rep: "repr h' None (set_kids n ?ks t1)"
  proof (rule repr_set_kids[OF r1 n])
    fix i assume "i \<in> set (ids t1) - set (ids_list (find_kids n t1))" "i \<noteq> n"
    then show "parent_node (h' ! i) = parent_node (h ! i) \<and> get_children (h' ! i) = get_children (h ! i)"
      using fr[of i] n2(2) by blast
  qed (use len pn sp' k keep new in auto)
  have kset: "set (ids_list ?ks) = set (ids_list us) \<union> set (ids t2) \<union> set (ids_list vs)" by auto
  have "distinct (ids_list ?ks)" using dfk k(1) sub' dj r2(2) by (auto simp del: set_concat)
  moreover have "n \<notin> set (ids_list ?ks)" using dfk k(1) n2(1) by auto
  moreover have "set (ids_list us) \<union> set (ids_list vs) \<subseteq> set (ids_list (find_kids n t1))" using k(1) by auto
  then have "set (ids_list ?ks) \<inter> (set (ids t1) - set (ids_list (find_kids n t1))) = {}"
    using dj unfolding kset by blast
  ultimately have new_ids: "distinct (ids (set_kids n ?ks t1))" "n \<in> set (ids (set_kids n ?ks t1))"
    "set (ids (set_kids n ?ks t1)) \<subseteq> set (ids t1) \<union> set (ids_list ?ks)"
    "set (ids_list ?ks) \<subseteq> set (ids (set_kids n ?ks t1))"
    using set_kids_ids[OF r1(2) n, of ?ks] by blast+
  have up: "set (ids (set_kids n ?ks t1)) \<subseteq> set (ids t1) \<union> set (ids t2)" using new_ids(3) sub' unfolding kset by blast
  also have "\<dots> \<subseteq> {lo..<length h'}" using t1 t2 \<open>lo \<le> m\<close> len by (auto simp: task_tree_def)
  finally show ?thesis using rep new_ids up unfolding kset
    by (intro exI[of _ "set_kids n ?ks t1"]) (simp add: task_tree_def)
qed

section \<open>Linking\<close>

lemma length_upd [simp]: "length (upd n f h) = length h"
  by (simp add: upd_def)

lemma upd_nth: "n < length h \<Longrightarrow> upd n f h ! i = (if i = n then f (h ! n) else h ! i)"
  by (simp add: upd_def)

lemma take_upd [simp]: "lo \<le> n \<Longrightarrow> take lo (upd n f h) = take lo h"
  by (simp add: upd_def)

lemma length_link_nodes [simp]: "length (link_nodes op a b h) = length h"
  by (simp add: link_nodes_def Let_def)

lemma splice_app: "spliced (xs @ ms @ ys) b (xs @ b # ys)"
  unfolding spliced_def by (intro exI[of _ xs] exI[of _ ms] exI[of _ ys]) simp

lemma splice_values:
  "spliced (xs @ map f (dict_values d)) (f v) (xs @ map f (dict_values (dict_set k v d)))"
proof (induction d arbitrary: xs)
  case Nil
  show ?case using splice_app[of xs "[]" "[]"] by simp
next
  case (Cons x d)
  show ?case
  proof (cases "fst x = k")
    case True
    then show ?thesis using splice_app[of xs "[f (snd x)]" "map f (map snd d)"] by (cases x) simp
  next
    case False
    then show ?thesis using Cons[of "xs @ [f (snd x)]"] by (cases x) simp
  qed
qed

lemma get_children_simps [simp]:
  "get_children (t\<lparr>parent_node := p\<rparr>) = get_children t"
  "get_children (t\<lparr>descriptor := d, descriptor_pipe := q\<rparr>) = get_children t"
  "get_children (t\<lparr>extra := (extra t)\<lparr>number_of_retries := r\<rparr>\<rparr>) = get_children t"
  "get_children (new_task e) = []"
  by (simp_all add: get_children_def get_descriptors_def new_task_def)

lemma splice_on_success [simp]:
  "spliced (get_children t) b (get_children (t\<lparr>on_success_event := Some b, on_success_pipe := x\<rparr>))"
  using splice_app[of "(case on_failure_event t of Some c \<Rightarrow> [c] | None \<Rightarrow> []) @ (case sink_node t of Some c \<Rightarrow> [c] | None \<Rightarrow> [])"]
  by (simp add: get_children_def get_descriptors_def)

lemma splice_on_failure [simp]:
  "spliced (get_children t) b (get_children (t\<lparr>on_failure_event := Some b, on_failure_pipe := x\<rparr>))"
  using splice_app[of "[]"] by (simp add: get_children_def get_descriptors_def)

lemma splice_sink [simp]:
  "spliced (get_children t) b (get_children (t\<lparr>sink_node := Some b, sink_pipe := x\<rparr>))"
  using splice_app[of "case on_failure_event t of Some c \<Rightarrow> [c] | None \<Rightarrow> []"]
  by (simp add: get_children_def get_descriptors_def)

lemma splice_descriptor:
  "1 < d \<Longrightarrow> d < 10 \<Longrightarrow>
   spliced (get_children t) b (get_children (t\<lparr>extra := snd (add_descriptor d x b (extra t))\<rparr>))"
  using splice_values[of "(case on_failure_event t of Some c \<Rightarrow> [c] | None \<Rightarrow> []) @
    (case sink_node t of Some c \<Rightarrow> [c] | None \<Rightarrow> []) @ (case on_success_event t of Some c \<Rightarrow> [c] | None \<Rightarrow> [])"
    dc_task "descriptors (extra t)" "\<lparr>dc_descriptor = d, dc_pipe = x, dc_task = b\<rparr>" d]
  by (simp add: get_children_def get_descriptors_def add_descriptor_def)

lemma task_tree_bound: "task_tree lo h t \<Longrightarrow> i \<in> set (ids t) \<Longrightarrow> lo \<le> i \<and> i < length h"
  by (auto simp: task_tree_def)

lemma task_tree_root: "task_tree lo h t \<Longrightarrow> lo \<le> tid t \<and> tid t < length h"
  by (rule task_tree_bound) auto

text \<open>A tree survives every change that leaves parents and children of its nodes alone.\<close>

lemma task_tree_frame:
  assumes "task_tree lo h t" and "length h \<le> length h'"
    and "\<And>i. i \<in> set (ids t) \<Longrightarrow> parent_node (h' ! i) = parent_node (h ! i) \<and> get_children (h' ! i) = get_children (h ! i)"
  shows "task_tree lo h' t"
  using assms repr_frame[of h None t h'] by (fastforce simp: task_tree_def)

lemma task_tree_extend:
  assumes "task_tree lo h t" and "take (length h) h' = h"
  shows "task_tree lo h' t"
proof (rule task_tree_frame[OF assms(1)])
  show "length h \<le> length h'" using arg_cong[OF assms(2), of length] by simp
  fix i assume "i \<in> set (ids t)"
  then have "i < length h" using task_tree_bound[OF assms(1)] by simp
  then have "h' ! i = h ! i" using nth_take[of i "length h" h'] assms(2) by simp
  then show "parent_node (h' ! i) = parent_node (h ! i) \<and> get_children (h' ! i) = get_children (h ! i)" by simp
qed

lemma task_tree_local_update:
  "task_tree lo h t \<Longrightarrow> n < length h \<Longrightarrow> parent_node (f (h ! n)) = parent_node (h ! n) \<Longrightarrow>
   get_children (f (h ! n)) = get_children (h ! n) \<Longrightarrow> task_tree lo (upd n f h) t"
  by (erule task_tree_frame) (simp_all add: upd_nth)

lemma task_tree_weaken: "task_tree m h t \<Longrightarrow> lo \<le> m \<Longrightarrow> task_tree lo h t"
  by (auto simp: task_tree_def)

lemma task_tree_new: "task_tree (length h) (h @ [new_task e]) (TNode (length h) [])"
  by (simp add: task_tree_def) (simp add: new_task_def)

lemma task_tree_get_root: "task_tree lo h t \<Longrightarrow> n \<in> set (ids t) \<Longrightarrow> root_or_raise h n = Inr (tid t)"
  using get_root_tree[of h t n] by (simp add: task_tree_def root_or_raise_def of_option_def)

text \<open>The one way the code links trees: a field of the node \<open>n\<close> and the parent of the other root.\<close>

lemma graft_upd:
  assumes "task_tree lo h t1" and "n \<in> set (ids t1)" and "task_tree m h t2" and "lo \<le> m"
    and "set (ids t1) \<inter> set (ids t2) = {}"
    and "spliced (get_children (h ! n)) (tid t2) (get_children (f (h ! n)))"
    and "parent_node (f (h ! n)) = parent_node (h ! n)"
  shows "\<exists>t'. task_tree lo (upd n f (upd (tid t2) (\<lambda>t. t\<lparr>parent_node := Some n\<rparr>) h)) t' \<and>
     tid t' = tid t1 \<and> n \<in> set (ids t') \<and> set (ids t2) \<subseteq> set (ids t') \<and>
     set (ids t') \<subseteq> set (ids t1) \<union> set (ids t2)"
proof (rule graft[OF assms(1-5)])
  have b: "n < length h" "tid t2 < length h" "n \<noteq> tid t2"
    using assms(1-3,5) task_tree_bound task_tree_root tid_in_ids[of t2] by blast+
  show "spliced (get_children (h ! n)) (tid t2)
     (get_children (upd n f (upd (tid t2) (\<lambda>t. t\<lparr>parent_node := Some n\<rparr>) h) ! n))"
    using b assms(6) by (simp add: upd_nth)
qed (use assms task_tree_bound[OF assms(1,2)] task_tree_root[OF assms(3)] in \<open>auto simp: upd_nth\<close>)

lemma link_nodes_tree:
  assumes "task_tree lo h t1" and "n \<in> set (ids t1)" and "task_tree m h t2" and "lo \<le> m"
    and "set (ids t1) \<inter> set (ids t2) = {}"
  shows "\<exists>t'. task_tree lo (link_nodes op n (tid t2) h) t' \<and> tid t' = tid t1 \<and> tid t2 \<in> set (ids t')"
    and "take lo (link_nodes op n (tid t2) h) = take lo h"
proof -
  define f :: "pipeline_task \<Rightarrow> pipeline_task" where
    "f = (if is_conditional (h ! n)
          then (\<lambda>t. t\<lparr>sink_node := Some (tid t2), sink_pipe := Some (binop_pipe op)\<rparr>)
          else (\<lambda>t. t\<lparr>on_success_event := Some (tid t2), on_success_pipe := Some (binop_pipe op)\<rparr>))"
  have b: "n < length h" "lo \<le> n" "tid t2 < length h" "m \<le> tid t2" "n \<noteq> tid t2"
    using assms task_tree_bound task_tree_root tid_in_ids[of t2] by blast+
  have "link_nodes op n (tid t2) h = upd (tid t2) (\<lambda>t. t\<lparr>parent_node := Some n\<rparr>) (upd n f h)"
    by (simp add: link_nodes_def f_def Let_def)
  also have "\<dots> = upd n f (upd (tid t2) (\<lambda>t. t\<lparr>parent_node := Some n\<rparr>) h)"
    using b by (simp add: upd_def list_update_swap)
  finally have eq: "link_nodes op n (tid t2) h = \<dots>" .
  have "spliced (get_children (h ! n)) (tid t2) (get_children (f (h ! n)))"
    "parent_node (f (h ! n)) = parent_node (h ! n)" by (simp_all add: f_def)
  from graft_upd[where f = f, OF assms this]
  show "\<exists>t'. task_tree lo (link_nodes op n (tid t2) h) t' \<and> tid t' = tid t1 \<and> tid t2 \<in> set (ids t')"
    unfolding eq using tid_in_ids[of t2] by blast
  show "take lo (link_nodes op n (tid t2) h) = take lo h" unfolding eq using b assms(4) by simp
qed

definition branch :: "nat \<Rightarrow> nat \<Rightarrow> heap \<Rightarrow> pval \<Rightarrow> bool" where
  "branch lo hi h v \<longleftrightarrow> v = VNone \<or> (\<exists>t. v = VNode (tid t) \<and> task_tree lo h t \<and> set (ids t) \<subseteq> {lo..<hi})"

lemma attach_branch_tree:
  assumes "task_tree lo h tp" and "tid tp = p" and "branch m hi h v" and "lo \<le> m"
    and "set (ids tp) \<inter> {m..<hi} = {}"
  shows "\<exists>t'. task_tree lo (attach_branch p v h) t' \<and> tid t' = p \<and> set (ids t') \<subseteq> set (ids tp) \<union> {m..<hi}"
    and "take lo (attach_branch p v h) = take lo h" and "length (attach_branch p v h) = length h"
proof -
  have b: "lo \<le> p" "p < length h" "p \<in> set (ids tp)"
    using assms(1,2) task_tree_root tid_in_ids by blast+
  have "(\<exists>t'. task_tree lo (attach_branch p v h) t' \<and> tid t' = p \<and> set (ids t') \<subseteq> set (ids tp) \<union> {m..<hi}) \<and>
    take lo (attach_branch p v h) = take lo h"
  proof (cases "v = VNone")
    case True
    then show ?thesis using assms(1,2) by (auto simp: attach_branch_def)
  next
    case False
    then obtain t where t: "v = VNode (tid t)" "task_tree m h t" "set (ids t) \<subseteq> {m..<hi}"
      using assms(3) by (auto simp: branch_def)
    define f :: "pipeline_task \<Rightarrow> pipeline_task" where
      "f = (if descriptor (upd (tid t) (\<lambda>t. t\<lparr>parent_node := Some p\<rparr>) h ! tid t) = Some 0
        then (\<lambda>u. u\<lparr>on_failure_event := Some (tid t),
          on_failure_pipe := get_pipe_type_enum (descriptor_pipe (upd (tid t) (\<lambda>t. t\<lparr>parent_node := Some p\<rparr>) h ! tid t))\<rparr>)
        else (\<lambda>u. u\<lparr>on_success_event := Some (tid t),
          on_success_pipe := get_pipe_type_enum (descriptor_pipe (upd (tid t) (\<lambda>t. t\<lparr>parent_node := Some p\<rparr>) h ! tid t))\<rparr>))"
    have eq: "attach_branch p v h = upd p f (upd (tid t) (\<lambda>t. t\<lparr>parent_node := Some p\<rparr>) h)"
      by (simp add: attach_branch_def t(1) f_def Let_def)
    have "spliced (get_children (h ! p)) (tid t) (get_children (f (h ! p)))"
      "parent_node (f (h ! p)) = parent_node (h ! p)" by (simp_all add: f_def)
    moreover have "set (ids tp) \<inter> set (ids t) = {}" using assms(5) t(3) by blast
    ultimately obtain t' where "task_tree lo (attach_branch p v h) t'" "tid t' = tid tp"
      "set (ids t') \<subseteq> set (ids tp) \<union> set (ids t)"
      using graft_upd[OF assms(1) b(3) t(2) assms(4), of f] unfolding eq by blast
    moreover have "take lo (attach_branch p v h) = take lo h"
      unfolding eq using b(1) task_tree_root[OF t(2)] assms(4) by simp
    ultimately show ?thesis using t(3) assms(2) by blast
  qed
  then show "\<exists>t'. task_tree lo (attach_branch p v h) t' \<and> tid t' = p \<and> set (ids t') \<subseteq> set (ids tp) \<union> {m..<hi}"
    "take lo (attach_branch p v h) = take lo h" by simp_all
  show "length (attach_branch p v h) = length h"
    by (auto simp: attach_branch_def Let_def split: pval.splits)
qed

lemma attach_branch_other:
  assumes "i \<noteq> p" and "v \<noteq> VNode i"
  shows "attach_branch p v h ! i = h ! i"
  using assms by (cases v) (simp_all add: attach_branch_def Let_def upd_def)

lemma attach_custom_tree:
  assumes "task_tree lo h tp" and "tid tp = p" and "task_tree m h t" and "b \<in> set (ids t)" and "lo \<le> m"
    and "set (ids tp) \<inter> set (ids t) = {}" and "attach_custom p c b h = Inr h'"
    and "wf_ast KExpr c" and "spine c = Some d" and "d \<notin> {0, 1}"
  shows "\<exists>t'. task_tree lo h' t' \<and> tid t' = p"
    and "take lo h' = take lo h" and "length h' = length h"
proof -
  have b: "lo \<le> p" "p < length h" "p \<in> set (ids tp)"
    using assms(1,2) task_tree_root tid_in_ids by blast+
  obtain op r where c: "c = BinOp op (Descriptor d) r"
    using assms(7,9) by (cases c rule: custom_key.cases)
      (auto simp: attach_custom_def Let_def res_simps)
  then have "1 < d" "d < 10" using assms(8,10) by (auto simp: descriptor_range_def)
  note sp = splice_descriptor[OF this]
  have h': "h' = upd p (\<lambda>u. u\<lparr>extra := snd (add_descriptor d (get_pipe_type_enum (Some op)) (tid t) (extra u))\<rparr>)
      (upd (tid t) (\<lambda>t. t\<lparr>parent_node := Some p\<rparr>) h)"
    using assms(7) task_tree_get_root[OF assms(3,4)] by (simp add: attach_custom_def c Let_def)
  show "\<exists>t'. task_tree lo h' t' \<and> tid t' = p"
    using graft_upd[OF assms(1) b(3) assms(3,5,6), where f = "\<lambda>u. u\<lparr>extra := snd (add_descriptor d (get_pipe_type_enum (Some op)) (tid t) (extra u))\<rparr>"] sp assms(2)
    unfolding h' by auto
  show "take lo h' = take lo h" "length h' = length h"
    unfolding h' using b(1) task_tree_root[OF assms(3)] assms(5) by simp_all
qed

section \<open>The parser builds a tree\<close>

definition built :: "heap \<Rightarrow> heap \<Rightarrow> nat \<Rightarrow> ttree \<Rightarrow> bool" where
  "built h h' n t \<longleftrightarrow> take (length h) h' = h \<and> task_tree (length h) h' t \<and> n \<in> set (ids t)"

lemma built_length: "built h h' n t \<Longrightarrow> length h \<le> length h'"
  by (auto simp: built_def dest: arg_cong[of _ _ length])

lemma built_local_update:
  assumes "built h h' n t" and "m \<in> set (ids t)" and "i \<in> set (ids t)"
    and "parent_node (f (h' ! m)) = parent_node (h' ! m)" and "get_children (f (h' ! m)) = get_children (h' ! m)"
  shows "built h (upd m f h') i t"
proof -
  have "length h \<le> m" "m < length h'" using assms(1,2) task_tree_bound by (auto simp: built_def)
  then show ?thesis using assms task_tree_local_update[of "length h" h' t m f] by (simp add: built_def)
qed

lemma apply_int_tree:
  assumes "apply_int op x (VNode n) h' = Inr (v, h'')" and "built h h' n t"
  shows "\<exists>n'. v = VNode n' \<and> built h h'' n' t \<and> (n = tid t \<longrightarrow> n' = tid t)"
proof (cases "op = pipe_token PT_RETRY")
  case True
  then show ?thesis using assms(1) built_local_update[OF assms(2), of n n] assms(2)
    by (auto simp: apply_int_def built_def)
next
  case False
  have "root_or_raise h' n = Inr (tid t)" using assms(2) task_tree_get_root by (auto simp: built_def)
  then show ?thesis using assms(1) False built_local_update[OF assms(2), of "tid t" "tid t"]
    by (auto simp: apply_int_def)
qed

lemma link_binop_tree:
  assumes "built h h1 n t1" and "built h1 h2 (tid t2) t2"
  shows "\<exists>h' t. link_binop op (VNode n) (VNode (tid t2)) h2 = Inr (VNode (tid t2), h') \<and> built h h' (tid t2) t"
proof -
  have l: "length h \<le> length h1" using built_length[OF assms(1)] .
  have t: "task_tree (length h) h2 t1" "n \<in> set (ids t1)" "task_tree (length h1) h2 t2"
    "set (ids t1) \<subseteq> {length h..<length h1}"
    using assms task_tree_extend[of "length h" h1 t1 h2] by (auto simp: built_def task_tree_def)
  then have "set (ids t1) \<inter> set (ids t2) = {}" by (fastforce simp: task_tree_def)
  note lk = link_nodes_tree[OF t(1-3) l this, of op]
  have "take (length h) h2 = take (length h) (take (length h1) h2)" using l by (simp add: min_absorb1)
  also have "\<dots> = h" using assms by (simp add: built_def)
  finally show ?thesis using lk by (auto simp: link_binop_def built_def)
qed

text \<open>The conditional: both branches are trees of their own, hung below a new node.\<close>

lemma attach_both:
  assumes l: "branch (length h) (length h1) h2 l" and r: "branch (length h1) (length h2) h2 r"
    and le: "length h \<le> length h1" "length h1 \<le> length h2" and p: "p = length h2"
  shows "\<exists>t. task_tree (length h) (attach_branch p l (attach_branch p r (h2 @ [new_task e]))) t \<and> tid t = p"
    and "take (length h) (attach_branch p l (attach_branch p r (h2 @ [new_task e]))) = take (length h) h2"
proof -
  let ?h3 = "h2 @ [new_task e]"
  have ext: "branch lo hi ?h3 v" if "branch lo hi h2 v" for lo hi v
    using that task_tree_extend[of lo h2 _ ?h3] by (auto simp: branch_def)
  have n: "task_tree p ?h3 (TNode p [])" "task_tree (length h) ?h3 (TNode p [])"
    using task_tree_new[of h2 e] task_tree_weaken[of p ?h3 _ "length h"] p le by auto
  have dj: "set (ids (TNode p [])) \<inter> {length h1..<length h2} = {}" using p by simp
  obtain t1 where t1: "task_tree (length h) (attach_branch p r ?h3) t1" "tid t1 = p"
    "set (ids t1) \<subseteq> insert p {length h1..<length h2}"
    using attach_branch_tree(1)[OF n(2) _ ext[OF r] le(1) dj] by auto
  have "branch (length h) (length h1) (attach_branch p r ?h3) l"
  proof (cases "l = VNone")
    case False
    then obtain t where t: "l = VNode (tid t)" "task_tree (length h) ?h3 t" "set (ids t) \<subseteq> {length h..<length h1}"
      using ext[OF l] by (auto simp: branch_def)
    have "task_tree (length h) (attach_branch p r ?h3) t"
    proof (rule task_tree_frame[OF t(2)])
      fix i assume i: "i \<in> set (ids t)"
      have "r \<noteq> VNode i"
      proof
        assume "r = VNode i"
        then have "length h1 \<le> i" using r task_tree_root by (auto simp: branch_def)
        with i t(3) show False by auto
      qed
      moreover have "i \<noteq> p" using i t(3) le p by auto
      ultimately show "parent_node (attach_branch p r ?h3 ! i) = parent_node (?h3 ! i) \<and>
          get_children (attach_branch p r ?h3 ! i) = get_children (?h3 ! i)"
        by (simp add: attach_branch_other)
    qed (simp add: attach_branch_tree(3)[OF n(2) _ ext[OF r] le(1) dj])
    with t show ?thesis by (auto simp: branch_def)
  qed (simp add: branch_def)
  moreover have "set (ids t1) \<inter> {length h..<length h1} = {}" using t1(3) le p by auto
  ultimately have "\<exists>t. task_tree (length h) (attach_branch p l (attach_branch p r ?h3)) t \<and> tid t = p"
    "take (length h) (attach_branch p l (attach_branch p r ?h3)) = take (length h) (attach_branch p r ?h3)"
    using attach_branch_tree[OF t1(1,2) _ order_refl, of "length h1" l] by blast+
  moreover have "take (length h) (attach_branch p r ?h3) = take (length h) ?h3"
    by (rule attach_branch_tree(2)[OF n(2) _ ext[OF r] le(1) dj]) simp
  ultimately show "\<exists>t. task_tree (length h) (attach_branch p l (attach_branch p r ?h3)) t \<and> tid t = p"
    "take (length h) (attach_branch p l (attach_branch p r ?h3)) = take (length h) h2"
    using le by auto
qed

lemma group_branches:
  assumes "group_ok ds"
  shows "cond_left (ConditionalGroup ds) = Some a \<Longrightarrow> wf_ast KExpr a"
    and "cond_right (ConditionalGroup ds) = Some a \<Longrightarrow> wf_ast KExpr a"
    and "\<forall>c \<in> set (extra_descriptors (ConditionalGroup ds)). wf_ast KExpr c \<and> (\<exists>d. spine c = Some d \<and> d \<notin> {0, 1})"
  using assms by (auto simp: group_ok_def cond_left_def cond_right_def extra_descriptors_def
      get_extra_descriptors_def dest!: map_of_SomeD)

lemma branch_root_built:
  assumes "built h h1 n t" and "take (length h1) h2 = h1"
  shows "branch_root (VNode n) h2 = Inr (VNode (tid t))" and "branch (length h) (length h1) h2 (VNode (tid t))"
proof -
  have t: "task_tree (length h) h2 t" "n \<in> set (ids t)" "set (ids t) \<subseteq> {length h..<length h1}"
    using assms task_tree_extend[of "length h" h1 t h2] by (auto simp: built_def task_tree_def)
  show "branch_root (VNode n) h2 = Inr (VNode (tid t))"
    using task_tree_get_root[OF t(1,2)] by (simp add: branch_root_def)
  show "branch (length h) (length h1) h2 (VNode (tid t))" using t by (auto simp: branch_def)
qed

text \<open>What the two branches of a conditional leave: nothing, or a tree built from the heap before.\<close>

definition branch_result :: "heap \<Rightarrow> heap \<Rightarrow> pval \<Rightarrow> bool" where
  "branch_result h h' v \<longleftrightarrow> (v = VNone \<and> h' = h) \<or> (\<exists>n t. v = VNode n \<and> built h h' n t)"

lemma branch_result_root:
  assumes "branch_result h h1 v" and "take (length h1) h2 = h1" and "branch_root v h2 = Inr w"
  shows "branch (length h) (length h1) h2 w"
  using assms branch_root_built[of h h1 _ _ h2]
  by (auto simp: branch_result_def branch_root_def[of VNone] branch_def[of _ _ _ VNone])

lemma branch_result_extend: "branch_result h h' v \<Longrightarrow> take (length h) h' = h \<and> length h \<le> length h'"
  using built_length by (auto simp: branch_result_def built_def)

lemma parse_tree:
  "wf_ast KExpr a \<Longrightarrow> parse_ast a h = Inr (v, h') \<Longrightarrow>
     \<exists>n t. v = VNode n \<and> built h h' n t \<and> (wf_ast KOperand a \<longrightarrow> n = tid t)"
  "task_tree lo h t \<Longrightarrow> tid t = parent \<Longrightarrow>
     \<forall>c \<in> set cs. wf_ast KExpr c \<and> (\<exists>d. spine c = Some d \<and> d \<notin> {0, 1}) \<Longrightarrow>
     parse_customs parent cs h = Inr h' \<Longrightarrow>
     (\<exists>t'. task_tree lo h' t' \<and> tid t' = parent) \<and> take lo h' = take lo h"
proof (induction a h and parent cs h arbitrary: v h' and lo t h' rule: parse_ast_parse_customs.induct)
  case (1 op l r h)
  from 1(4) obtain ln h1 rn h2 where p: "parse_ast l h = Inr (ln, h1)" "parse_ast r h1 = Inr (rn, h2)"
    "link_binop op ln rn h2 = Inr (v, h')" by (auto simp: res_simps)
  show ?case using 1(3)
  proof (cases rule: wf_ast_BinOp_cases)
    case (desc d)
    with "1.IH"(2)[OF p(1) refl _ p(2)] wf_ast_KOperand_KExpr obtain n t where
      "rn = VNode n" "built h1 h2 n t" "n = tid t" by blast
    with desc p show ?thesis using apply_int_tree[of op d n h2 v h' h t] by (auto simp: link_binop_def)
  next
    case (prefix x)
    with "1.IH"(2)[OF p(1) refl _ p(2)] wf_ast_KOperand_KExpr wf_ast_KTask_KOperand obtain n t where
      "rn = VNode n" "built h1 h2 n t" "n = tid t" by blast
    with prefix p show ?thesis using apply_int_tree[of op x n h2 v h' h t] by (auto simp: link_binop_def)
  next
    case (postfix x)
    with "1.IH"(1)[OF _ p(1)] wf_ast_KOperand_KExpr wf_ast_KTask_KOperand obtain n t where
      "ln = VNode n" "built h h1 n t" "n = tid t" by blast
    with postfix p show ?thesis using apply_int_tree[of op x n h1 v h' h t] by (auto simp: link_binop_def)
  next
    case chain
    obtain n1 t1 where l: "ln = VNode n1" "built h h1 n1 t1" using "1.IH"(1)[OF chain(3) p(1)] by blast
    obtain t2 where r: "rn = VNode (tid t2)" "built h1 h2 (tid t2) t2"
      using "1.IH"(2)[OF p(1) refl _ p(2)] chain(4) wf_ast_KOperand_KExpr by blast
    from link_binop_tree[OF l(2) r(2), of op] p(3) l(1) r(1) chain(5) show ?thesis by auto
  qed
next
  case (2 s h)
  then show ?case using task_tree_new[of h s] by (intro exI[of _ "length h"] exI[of _ "TNode (length h) []"]) (auto simp: built_def)
next
  case (3 p g h)
  from 3(4) obtain ds where g: "g = ConditionalGroup ds" "group_ok ds" by (auto simp: wf_ast_conditional_iff)
  from 3(5) obtain ln h1 rn h2 lr rr ev h5 where
    p: "(case cond_left g of None \<Rightarrow> Inr (VNone, h) | Some a \<Rightarrow> parse_ast a h) = Inr (ln, h1)"
      "(case cond_right g of None \<Rightarrow> Inr (VNone, h1) | Some a \<Rightarrow> parse_ast a h1) = Inr (rn, h2)"
      "branch_root ln h2 = Inr lr" "branch_root rn h2 = Inr rr" "task_value p = Inr ev" and
    c: "parse_customs (length h2) (extra_descriptors g)
       (attach_branch (length h2) lr (attach_branch (length h2) rr (h2 @ [new_task ev]))) = Inr h5" and
    v: "v = VNode (length h2)" "h' = h5"
    by (auto simp: res_simps Let_def)
  have L: "branch_result h h1 ln"
  proof (cases "cond_left g")
    case (Some a)
    then have "wf_ast KExpr a" using group_branches(1)[OF g(2)] g(1) by simp
    from "3.IH"(1)[OF Some this] p(1) Some show ?thesis by (auto simp: branch_result_def)
  qed (use p(1) in \<open>simp add: branch_result_def\<close>)
  have R: "branch_result h1 h2 rn"
  proof (cases "cond_right g")
    case (Some a)
    then have "wf_ast KExpr a" using group_branches(2)[OF g(2)] g(1) by simp
    from "3.IH"(2)[OF p(1) refl Some this] p(2) Some show ?thesis by (auto simp: branch_result_def)
  qed (use p(2) in \<open>simp add: branch_result_def\<close>)
  note le = branch_result_extend[OF L] branch_result_extend[OF R]
  have bl: "branch (length h) (length h1) h2 lr" using branch_result_root[OF L _ p(3)] le by blast
  have br: "branch (length h1) (length h2) h2 rr" using branch_result_root[OF R _ p(4)] by simp
  obtain t4 where t4: "task_tree (length h) (attach_branch (length h2) lr (attach_branch (length h2) rr (h2 @ [new_task ev]))) t4"
      "tid t4 = length h2"
    and h4: "take (length h) (attach_branch (length h2) lr (attach_branch (length h2) rr (h2 @ [new_task ev]))) = take (length h) h2"
    using attach_both[OF bl br _ _ refl, of ev] le by blast
  have "(\<exists>t'. task_tree (length h) h5 t' \<and> tid t' = length h2) \<and> take (length h) h5 = take (length h) h2"
    using "3.IH"(3)[OF p(1) refl p(2) refl p(3-5) refl refl refl t4 _ c] group_branches(3)[OF g(2)] g(1) h4 by simp
  moreover have "take (length h) h2 = h"
    using le take_take[of "length h" "length h1" h2] by (simp add: min_absorb1)
  ultimately obtain t' where t': "task_tree (length h) h5 t'" "tid t' = length h2" "take (length h) h5 = h" by auto
  then have "length h2 \<in> set (ids t')" by (metis tid_in_ids)
  with t' v show ?case by (intro exI[of _ "length h2"] exI[of _ t']) (simp add: built_def)
next
  case (8 parent c cs h)
  from "8.prems"(4) obtain cb h1 where c: "parse_ast c h = Inr (cb, h1)" by (auto simp: res_simps)
  from "8.prems"(3) have wc: "wf_ast KExpr c" "\<exists>d. spine c = Some d \<and> d \<notin> {0, 1}" by auto
  from "8.IH"(1)[OF wc(1) c] obtain n tc where n: "cb = VNode n" "built h h1 n tc" by blast
  from "8.prems"(4) c n(1) obtain h2 where h2: "attach_custom parent c n h1 = Inr h2" "parse_customs parent cs h2 = Inr h'"
    by (auto simp: res_simps)
  have e: "take (length h) h1 = h" "task_tree (length h) h1 tc" "n \<in> set (ids tc)" using n(2) by (auto simp: built_def)
  have lo: "lo \<le> length h" using task_tree_root[OF "8.prems"(1)] by simp
  have "set (ids t) \<inter> set (ids tc) = {}" using "8.prems"(1) e(2) by (fastforce simp: task_tree_def)
  with attach_custom_tree[OF task_tree_extend[OF "8.prems"(1) e(1)] "8.prems"(2) e(2,3) lo _ h2(1) wc(1)] wc(2)
  obtain t' where t': "task_tree lo h2 t'" "tid t' = parent" and f: "take lo h2 = take lo h1" by blast
  have "take lo h1 = take lo (take (length h) h1)" using lo by (simp add: min_absorb1)
  then have "take lo h1 = take lo h" using e(1) by simp
  with "8.IH"(2)[OF c refl n(1) h2(1) t' _ h2(2)] "8.prems"(3) f show ?case by simp
qed auto

section \<open>Which trees of syntax become tasks\<close>

text \<open>\<open>_parse_ast\<close> takes the event of a conditional from \<open>ast.parent.value\<close>, so a conditional whose
  parent is itself a conditional has none, and takes the key of an extra descriptor from
  \<open>custom_node.left.value\<close>, so the branch behind a descriptor above 1 is a single operand.\<close>

fun single_branch :: "ast \<Rightarrow> bool" where
  "single_branch (BinOp op (Descriptor d) r) = True"
| "single_branch _ = False"

fun is_task_name :: "ast \<Rightarrow> bool" where
  "is_task_name (TaskName s) = True"
| "is_task_name _ = False"

fun buildable :: "ast \<Rightarrow> bool" where
  "buildable (BinOp op l r) = (buildable l \<and> buildable r)"
| "buildable (ConditionalBinOP p (ConditionalGroup ds)) =
     (is_task_name p \<and> (\<forall>x \<in> set ds. buildable (snd x) \<and> (fst x \<notin> {0, 1} \<longrightarrow> single_branch (snd x))))"
| "buildable _ = True"

definition outcome :: "bool \<Rightarrow> exc_class + 'a \<Rightarrow> bool" where
  "outcome ok r \<longleftrightarrow> (if ok then \<exists>x. r = Inr x else r = Inl AttributeError)"

lemma outcome_bind:
  "outcome ok r \<Longrightarrow> (\<And>x. r = Inr x \<Longrightarrow> outcome ok' (f x)) \<Longrightarrow> outcome (ok \<and> ok') (bind_res r f)"
  by (cases r) (auto simp: outcome_def split: if_splits)

lemma outcome_Inr [simp]: "outcome True (Inr x)"
  by (simp add: outcome_def)

lemma outcome_customs_Cons:
  assumes "outcome okc (parse_ast c h)"
    and "\<And>v h1. parse_ast c h = Inr (v, h1) \<Longrightarrow> \<exists>n. v = VNode n \<and> outcome oks (attach_custom p c n h1)"
    and "\<And>n h1 h2. parse_ast c h = Inr (VNode n, h1) \<Longrightarrow> attach_custom p c n h1 = Inr h2 \<Longrightarrow> outcome okr (parse_customs p cs h2)"
  shows "outcome (okc \<and> oks \<and> okr) (parse_customs p (c # cs) h)"
proof -
  have "outcome (oks \<and> okr) (case v of VNode n \<Rightarrow> bind_res (attach_custom p c n h1) (parse_customs p cs)
       | VInt k \<Rightarrow> if k = 0 then parse_customs p cs h1 else Inl AttributeError
       | VNone \<Rightarrow> parse_customs p cs h1)" if e: "parse_ast c h = Inr (v, h1)" for v h1
    using assms(2)[OF e] assms(3)[of _ h1] e by (auto intro!: outcome_bind)
  then show ?thesis by (auto intro!: outcome_bind[OF assms(1)])
qed

lemma custom_key_wf:
  "wf_ast KExpr c \<Longrightarrow> spine c = Some d \<Longrightarrow> outcome (single_branch c) (custom_key c)"
  by (cases c rule: custom_key.cases) (auto simp: outcome_def)

lemma attach_custom_outcome:
  assumes "built h h1 n t" and "wf_ast KExpr c" and "spine c = Some d"
  shows "outcome (single_branch c) (attach_custom p c n h1)"
proof -
  have "root_or_raise h1 n = Inr (tid t)" using assms(1) task_tree_get_root by (auto simp: built_def)
  then show ?thesis using custom_key_wf[OF assms(2,3)]
    by (cases "custom_key c") (auto simp: attach_custom_def Let_def outcome_def)
qed

lemma group_buildable:
  assumes "group_ok ds"
  shows "buildable (ConditionalBinOP p (ConditionalGroup ds)) \<longleftrightarrow>
    (case cond_left (ConditionalGroup ds) of None \<Rightarrow> True | Some a \<Rightarrow> buildable a) \<and>
    (case cond_right (ConditionalGroup ds) of None \<Rightarrow> True | Some a \<Rightarrow> buildable a) \<and> True \<and> True \<and> is_task_name p \<and>
    (\<forall>c \<in> set (extra_descriptors (ConditionalGroup ds)). buildable c \<and> single_branch c) \<and> True"
proof -
  have get: "dict_get ds k = Some a \<longleftrightarrow> (k, a) \<in> set ds" for k a
    using assms by (auto simp: group_ok_def dict_ok_def)
  have br: "(case dict_get ds k of None \<Rightarrow> True | Some a \<Rightarrow> buildable a) \<longleftrightarrow> (\<forall>a. (k, a) \<in> set ds \<longrightarrow> buildable a)" for k
    by (simp add: get[symmetric] split: option.split)
  show ?thesis
    unfolding cond_left_def cond_right_def extra_descriptors_def get_extra_descriptors_def buildable.simps descriptor_dict.simps br
    by (auto simp: image_iff) metis
qed

lemma cond_branch_result:
  assumes "(case c of None \<Rightarrow> Inr (VNone, h) | Some a \<Rightarrow> parse_ast a h) = Inr (v, h')"
    and "\<And>a. c = Some a \<Longrightarrow> wf_ast KExpr a"
  shows "branch_result h h' v"
  using assms parse_tree(1)[of _ h v h'] by (cases c) (fastforce simp: branch_result_def)+

lemma branch_result_root_ok:
  assumes "branch_result h h1 v" and "take (length h1) h2 = h1"
  shows "\<exists>w. branch_root v h2 = Inr w"
  using assms branch_root_built(1)[of h h1 _ _ h2] by (auto simp: branch_result_def branch_root_def[of VNone])

lemma parse_outcome:
  "wf_ast KExpr a \<Longrightarrow> outcome (buildable a) (parse_ast a h)"
  "task_tree lo h t \<Longrightarrow> tid t = parent \<Longrightarrow>
     \<forall>c \<in> set cs. wf_ast KExpr c \<and> (\<exists>d. spine c = Some d \<and> d \<notin> {0, 1}) \<Longrightarrow>
     outcome (\<forall>c \<in> set cs. buildable c \<and> single_branch c) (parse_customs parent cs h)"
proof (induction a h and parent cs h arbitrary: and lo t rule: parse_ast_parse_customs.induct)
  case (1 op l r h)
  have okl: "outcome (buildable l) (parse_ast l h)"
    using "1.prems" "1.IH"(1) by (cases rule: wf_ast_BinOp_cases) (auto dest: wf_ast_KOperand_KExpr)
  have okr: "outcome (buildable r) (parse_ast r h1)" if "parse_ast l h = Inr (ln, h1)" for ln h1
    using "1.prems" "1.IH"(2)[OF that refl] by (cases rule: wf_ast_BinOp_cases) (auto dest: wf_ast_KOperand_KExpr)
  have lk: "\<exists>x. link_binop op ln rn h2 = Inr x"
    if p: "parse_ast l h = Inr (ln, h1)" "parse_ast r h1 = Inr (rn, h2)" for ln rn h1 h2
    using "1.prems"
  proof (cases rule: wf_ast_BinOp_cases)
    case (desc d)
    with parse_tree(1)[OF _ p(2)] wf_ast_KOperand_KExpr obtain n t where "rn = VNode n" "built h1 h2 n t" by blast
    moreover from this have "root_or_raise h2 n = Inr (tid t)" using task_tree_get_root by (auto simp: built_def)
    ultimately show ?thesis using desc p by (auto simp: link_binop_def apply_int_def)
  next
    case (prefix x)
    with parse_tree(1)[OF _ p(2)] wf_ast_KOperand_KExpr obtain n where "rn = VNode n" by blast
    then show ?thesis using prefix p by (auto simp: link_binop_def apply_int_def)
  next
    case (postfix x)
    with parse_tree(1)[OF _ p(1)] wf_ast_KOperand_KExpr obtain n where "ln = VNode n" by blast
    then show ?thesis using postfix p by (auto simp: link_binop_def apply_int_def)
  next
    case chain
    with parse_tree(1)[OF _ p(1)] parse_tree(1)[OF _ p(2)] wf_ast_KOperand_KExpr
    show ?thesis by (fastforce simp: link_binop_def)
  qed
  have "outcome (buildable l \<and> buildable r \<and> True) (parse_ast (BinOp op l r) h)"
    unfolding parse_ast.simps
  proof (rule outcome_bind[OF okl])
    fix x assume "parse_ast l h = Inr x"
    then obtain ln h1 where l: "x = (ln, h1)" "parse_ast l h = Inr (ln, h1)" by (cases x) simp
    show "outcome (buildable r \<and> True)
      (case x of (left_node, h1) \<Rightarrow> bind_res (parse_ast r h1) (\<lambda>(right_node, h2). link_binop op left_node right_node h2))"
      unfolding l(1) prod.case
      by (rule outcome_bind[OF okr[OF l(2)]]) (use lk[OF l(2)] in \<open>auto simp: outcome_def\<close>)
  qed
  then show ?case by simp
next
  case (3 p g h)
  from "3.prems" obtain ds where g: "g = ConditionalGroup ds" "group_ok ds" by (auto simp: wf_ast_conditional_iff)
  define L R where "L = (case cond_left g of None \<Rightarrow> True | Some a \<Rightarrow> buildable a)"
    and "R = (case cond_right g of None \<Rightarrow> True | Some a \<Rightarrow> buildable a)"
  define E where "E = (\<forall>c \<in> set (extra_descriptors g). buildable c \<and> single_branch c)"
  have ok: "buildable (ConditionalBinOP p g) = (L \<and> R \<and> True \<and> True \<and> is_task_name p \<and> E \<and> True)"
    unfolding L_def R_def E_def g(1) by (rule group_buildable[OF g(2)])
  let ?l = "case cond_left g of None \<Rightarrow> Inr (VNone, h) | Some a \<Rightarrow> parse_ast a h"
  let ?r = "\<lambda>h1. case cond_right g of None \<Rightarrow> Inr (VNone, h1) | Some a \<Rightarrow> parse_ast a h1"
  have okl: "outcome L ?l"
  proof (cases "cond_left g")
    case (Some a)
    then show ?thesis using "3.IH"(1)[OF Some] group_branches(1)[OF g(2)] g(1) L_def by simp
  qed (simp add: L_def)
  have okr: "outcome R (?r h1)" if l: "?l = Inr (ln, h1)" for ln h1
  proof (cases "cond_right g")
    case (Some a)
    then show ?thesis using "3.IH"(2)[OF l refl Some] group_branches(2)[OF g(2)] g(1) R_def by simp
  qed (simp add: R_def)
  have rest: "outcome (is_task_name p \<and> E) (parse_ast (ConditionalBinOP p g) h)"
    if l: "?l = Inr (ln, h1)" and r: "?r h1 = Inr (rn, h2)" for ln h1 rn h2
  proof -
    have br: "branch_result h h1 ln" "branch_result h1 h2 rn"
      using cond_branch_result[OF l] cond_branch_result[OF r] group_branches(1,2)[OF g(2)] g(1) by blast+
    note le = branch_result_extend[OF br(1)] branch_result_extend[OF br(2)]
    obtain lr rr where roots: "branch_root ln h2 = Inr lr" "branch_root rn h2 = Inr rr"
      using branch_result_root_ok[OF br(1)] branch_result_root_ok[OF br(2)] le by fastforce
    have "outcome E (parse_customs (length h2) (extra_descriptors g)
         (attach_branch (length h2) lr (attach_branch (length h2) rr (h2 @ [new_task ev]))))" if ev: "task_value p = Inr ev" for ev
    proof -
      obtain t4 where t4: "task_tree (length h) (attach_branch (length h2) lr (attach_branch (length h2) rr (h2 @ [new_task ev]))) t4"
          "tid t4 = length h2"
        using attach_both(1)[OF branch_result_root[OF br(1) _ roots(1)] branch_result_root[OF br(2) _ roots(2)] _ _ refl, of ev] le
        by fastforce
      from "3.IH"(3)[OF l refl r refl roots ev refl refl refl this] group_branches(3)[OF g(2)] g(1)
      show ?thesis by (simp add: E_def)
    qed
    then show ?thesis using l r roots by (cases p) (auto simp: outcome_def Let_def split: if_splits)
  qed
  show ?case
  proof (cases ?l)
    case (Inl e)
    then show ?thesis using okl ok by (auto simp: outcome_def split: if_splits)
  next
    case (Inr x)
    then obtain ln h1 where l: "?l = Inr (ln, h1)" by (cases x) simp
    then show ?thesis
    proof (cases "?r h1")
      case (Inl e)
      then show ?thesis using okr[OF l] l ok by (auto simp: outcome_def split: if_splits)
    next
      case (Inr y)
      then obtain rn h2 where "?r h1 = Inr (rn, h2)" by (cases y) simp
      from rest[OF l this] this l okl okr[OF l] ok show ?thesis by (simp add: outcome_def split: if_splits)
    qed
  qed
next
  case (8 parent c cs h)
  from "8.prems"(3) obtain d where wc: "wf_ast KExpr c" "spine c = Some d" by auto
  have "outcome (buildable c \<and> single_branch c \<and> (\<forall>c \<in> set cs. buildable c \<and> single_branch c)) (parse_customs parent (c # cs) h)"
  proof (rule outcome_customs_Cons[OF "8.IH"(1)[OF wc(1)]])
    fix v h1 assume c: "parse_ast c h = Inr (v, h1)"
    with parse_tree(1)[OF wc(1) this] show "\<exists>n. v = VNode n \<and> outcome (single_branch c) (attach_custom parent c n h1)"
      using attach_custom_outcome[OF _ wc] by blast
  next
    fix n h1 h2 assume c: "parse_ast c h = Inr (VNode n, h1)" "attach_custom parent c n h1 = Inr h2"
    then have "parse_customs parent [c] h = Inr h2" by simp
    from parse_tree(2)[OF "8.prems"(1,2) _ this] "8.prems"(3)
    obtain t' where "task_tree lo h2 t'" "tid t' = parent" by auto
    from "8.IH"(2)[OF c(1) refl refl c(2) this] "8.prems"(3)
    show "outcome (\<forall>c \<in> set cs. buildable c \<and> single_branch c) (parse_customs parent cs h2)" by simp
  qed
  then show ?case by (auto simp: conj_assoc cong: conj_cong)
qed (auto simp: outcome_def)

lemma task_tree_child:
  assumes "task_tree lo h t" and "n \<in> set (ids t)" and "c \<in> set (get_children (h ! n))"
  shows "c \<in> set (ids t) \<and> parent_node (h ! c) = Some n"
proof -
  have t: "repr h None t" "distinct (ids t)" using assms(1) by (auto simp: task_tree_def)
  from repr_find_kids[OF t assms(2)] assms(3) obtain k where k: "k \<in> set (find_kids n t)" "c = tid k" "repr h (Some n) k"
    by auto
  have "set (ids k) \<subseteq> set (ids_list (find_kids n t))" using k(1) by auto
  then have "c \<in> set (ids t)" using find_kids_sub[of n t] tid_in_ids[of k] k(2) by blast
  moreover have "parent_node (h ! tid k) = Some n" using k(3) by (cases k) simp
  ultimately show ?thesis using k(2) by simp
qed

lemma build_task_tree:
  assumes "build_pipeline_from_execution_code code = Inr (r, h)"
  shows "\<exists>t. tid t = r \<and> task_tree 0 h t"
proof -
  from assms obtain ast v h1 where p: "pointy_parser code = Inr ast" "parse_ast ast [] = Inr (v, h1)"
    and r: "(case v of VNode n \<Rightarrow> bind_res (root_or_raise h1 n) (\<lambda>r. Inr (r, h1)) | _ \<Rightarrow> Inl AttributeError) = Inr (r, h)"
    by (auto simp: build_pipeline_from_execution_code_def bind_res_Inr_iff split: if_splits)
  from p(1) have "wf_ast KExpr ast" by (auto simp: pointy_parser_def parse_tokens_wf)
  from parse_tree(1)[OF this p(2)] obtain n t where "v = VNode n" "task_tree 0 h1 t" "n \<in> set (ids t)"
    by (auto simp: built_def)
  moreover from this have "root_or_raise h1 n = Inr (tid t)" using task_tree_get_root by blast
  ultimately show ?thesis using r by auto
qed

end
