(* ===== verification/Task_Props.thy ===== *)
theory Task_Props
  imports Task_Tree
begin

text \<open>
  What a pipeline definition in the pointy language builds: the properties of lexer, parser and
  \<open>_parse_ast\<close> together. The lemmas before them compute the heap of a plain chain of tasks
  and of a conditional.
\<close>

section \<open>Chains\<close>

fun chain_ast :: "ast \<Rightarrow> (string \<times> string) list \<Rightarrow> ast" where
  "chain_ast a [] = a"
| "chain_ast a ((op, s) # xs) = chain_ast (BinOp op a (TaskName s)) xs"

text \<open>Task number \<open>i\<close> of the chain \<open>s op\<^sub>0 s\<^sub>0 op\<^sub>1 s\<^sub>1 \<dots>\<close>.\<close>

definition chain_task :: "string \<Rightarrow> (string \<times> string) list \<Rightarrow> nat \<Rightarrow> pipeline_task" where
  "chain_task s xs i =
     (new_task ((s # map snd xs) ! i))\<lparr>
        parent_node := (if i = 0 then None else Some (i - 1)),
        on_success_event := (if i < length xs then Some (Suc i) else None),
        on_success_pipe := (if i < length xs then Some (binop_pipe (fst (xs ! i))) else None)\<rparr>"

definition chain_heap :: "string \<Rightarrow> (string \<times> string) list \<Rightarrow> heap" where
  "chain_heap s xs = map (chain_task s xs) [0..<Suc (length xs)]"

lemma chain_ast_snoc: "chain_ast a (xs @ [(op, s)]) = BinOp op (chain_ast a xs) (TaskName s)"
  by (induction a xs rule: chain_ast.induct) auto

lemma length_chain_heap [simp]: "length (chain_heap s xs) = Suc (length xs)"
  by (simp add: chain_heap_def)

lemma chain_heap_nth: "i \<le> length xs \<Longrightarrow> chain_heap s xs ! i = chain_task s xs i"
  by (simp add: chain_heap_def del: upt_Suc)

lemma chain_heap_snoc:
  "link_nodes op (length xs) (Suc (length xs)) (chain_heap s xs @ [new_task t]) = chain_heap s (xs @ [(op, t)])"
proof (rule nth_equalityI)
  let ?h = "link_nodes op (length xs) (Suc (length xs)) (chain_heap s xs @ [new_task t])"
  show "length ?h = length (chain_heap s (xs @ [(op, t)]))" by simp
  have nc: "\<not> is_conditional (chain_heap s xs ! length xs)"
    by (simp add: chain_heap_nth chain_task_def is_conditional_def new_task_def get_descriptors_def)
  fix i assume "i < length ?h"
  then have "i \<le> Suc (length xs)" by simp
  then consider "i < length xs" | "i = length xs" | "i = Suc (length xs)" by linarith
  then show "?h ! i = chain_heap s (xs @ [(op, t)]) ! i"
    by cases (use nc in \<open>simp_all add: link_nodes_def Let_def upd_nth chain_heap_nth nth_append chain_task_def new_task_def nth_Cons' less_imp_diff_less\<close>)
qed

lemma parse_chain:
  "parse_ast (chain_ast (TaskName s) xs) [] = Inr (VNode (length xs), chain_heap s xs)"
proof (induction xs rule: rev_induct)
  case Nil
  then show ?case by (simp add: chain_heap_def chain_task_def new_task_def)
next
  case (snoc x xs)
  obtain op t where "x = (op, t)" by (cases x)
  with snoc show ?case by (simp add: chain_ast_snoc link_binop_def chain_heap_snoc)
qed

lemma wf_link: "wf_ast KExpr a \<Longrightarrow> connective op \<Longrightarrow> wf_ast KExpr (BinOp op a (TaskName t))"
  by (cases a) auto

lemma chain_ok:
  "\<forall>x \<in> set xs. connective (fst x) \<and> is_name (snd x) \<Longrightarrow> is_name s \<Longrightarrow>
   wf_ast KExpr (chain_ast (TaskName s) xs) \<and> groups_printable (chain_ast (TaskName s) xs) \<and> names_ok (chain_ast (TaskName s) xs)"
proof (induction xs rule: rev_induct)
  case (snoc x xs)
  obtain op t where "x = (op, t)" by (cases x)
  with snoc show ?case by (simp add: chain_ast_snoc wf_link)
qed simp

lemma get_root_chain:
  "i \<le> length xs \<Longrightarrow> i \<le> k \<Longrightarrow> get_root_fuel (Suc k) (chain_heap s xs) i = Some 0"
proof (induction i arbitrary: k)
  case (Suc i)
  then obtain k' where "k = Suc k'" by (cases k) auto
  with Suc show ?case by (simp add: chain_heap_nth chain_task_def)
qed (simp add: chain_heap_nth chain_task_def new_task_def)

lemma pointy_parser_Nil: "\<exists>e. pointy_parser [] = Inl e"
proof -
  have "case pointy_parser [] of Inl e \<Rightarrow> True | Inr a \<Rightarrow> False" by code_simp
  then show ?thesis by (auto split: sum.splits)
qed

section \<open>Conditionals\<close>

definition cond_ast :: "string \<Rightarrow> string \<Rightarrow> string \<Rightarrow> string \<Rightarrow> string \<Rightarrow> ast" where
  "cond_ast s op0 a op1 b = ConditionalBinOP (TaskName s)
     (ConditionalGroup [(0, BinOp op0 (Descriptor 0) (TaskName a)), (1, BinOp op1 (Descriptor 1) (TaskName b))])"

definition cond_heap :: "string \<Rightarrow> string \<Rightarrow> string \<Rightarrow> string \<Rightarrow> string \<Rightarrow> string \<Rightarrow> string \<Rightarrow> heap" where
  "cond_heap s op0 a op1 b op c =
    [(new_task a)\<lparr>parent_node := Some 2, descriptor := Some 0, descriptor_pipe := Some op0\<rparr>,
     (new_task b)\<lparr>parent_node := Some 2, descriptor := Some 1, descriptor_pipe := Some op1\<rparr>,
     (new_task s)\<lparr>on_failure_event := Some 0, on_failure_pipe := Some (binop_pipe op0),
        on_success_event := Some 1, on_success_pipe := Some (binop_pipe op1),
        sink_node := Some 3, sink_pipe := Some (binop_pipe op)\<rparr>,
     (new_task c)\<lparr>parent_node := Some 2\<rparr>]"

lemma get_pipe_type_enum_arrow: "arrow op \<Longrightarrow> get_pipe_type_enum (Some op) = Some (binop_pipe op)"
  by (auto simp: arrow_def get_pipe_type_enum_def binop_pipe_def)

lemma parse_cond_ast:
  assumes "arrow op0" and "arrow op1"
  shows "parse_ast (BinOp op (cond_ast s op0 a op1 b) (TaskName c)) [] = Inr (VNode 3, cond_heap s op0 a op1 b op c)"
proof -
  have "op0 \<noteq> ''*''" "op1 \<noteq> ''*''" using assms by (auto simp: arrow_def)
  then show ?thesis
    using assms
    by (simp add: cond_ast_def cond_heap_def cond_left_def cond_right_def extra_descriptors_def get_extra_descriptors_def
        link_binop_def apply_int_def root_or_raise_def get_root_def new_task_def upd_def branch_root_def attach_branch_def
        Let_def link_nodes_def is_conditional_def get_pipe_type_enum_arrow numeral_2_eq_2 numeral_3_eq_3 split: pval.splits)
qed

section \<open>Properties\<close>

text \<open>C2. Printing a syntax tree that the grammar can derive and reading it back with lexer and
  parser gives the same tree, for every tree whose conditional groups have at least two branches
  and whose names are lexically task names.\<close>

theorem pointy_round_trip:
  assumes "wf_ast KExpr e" and "groups_printable e" and "names_ok e"
  shows "pointy_parser (print_pointy e) = Inr e"
  using assms by (rule parser_print_pointy)

theorem pointy_round_trip_witness:
  "pointy_parser (print_pointy (BinOp ''->'' (cond_ast ''A'' ''->'' ''B'' ''|->'' ''C'') (TaskName ''D''))) =
     Inr (BinOp ''->'' (cond_ast ''A'' ''->'' ''B'' ''|->'' ''C'') (TaskName ''D''))"
  by (rule pointy_round_trip)
     (simp_all add: cond_ast_def group_ok_def arrow_def connective_def descriptor_range_def dict_ok_def
       name_start_def name_char_def is_letter_def is_digit_def)

text \<open>C4. Whatever the parser accepts is a tree of the declared grammar: operators associate to
  the left, a descriptor (0 to 9) only stands before an arrow, a retry factor (at least 2) only
  beside one task, and every entry of a conditional group is filed under the descriptor its
  expression starts with.\<close>

theorem parser_accepts_wf:
  assumes "pointy_parser code = Inr e"
  shows "wf_ast KExpr e"
  using assms by (auto simp: pointy_parser_def parse_tokens_wf)

theorem parser_accepts_wf_witness: "\<exists>e. pointy_parser ''A(0->B,1->2*C)||D'' = Inr e \<and> wf_ast KExpr e"
proof -
  have "\<not> (case pointy_parser ''A(0->B,1->2*C)||D'' of Inl _ \<Rightarrow> True | Inr _ \<Rightarrow> False)" by code_simp
  then obtain e where "pointy_parser ''A(0->B,1->2*C)||D'' = Inr e" by (auto split: sum.splits)
  with parser_accepts_wf[OF this] show ?thesis by blast
qed

text \<open>C1. The tasks a pipeline definition builds form a finite tree: the traversal from the root
  returns, visits every task once, each child points back to the task that lists it, the
  root is the root of all of them, and \<open>get_task_count\<close> is the number of tasks visited.\<close>

theorem pipeline_is_tree:
  assumes "build_pipeline_from_execution_code code = Inr (r, h)"
  shows "\<exists>ts. bf_traversal h r = Some ts \<and> distinct ts \<and> r \<in> set ts \<and> parent_node (h ! r) = None \<and>
     get_task_count h r = Some (length ts) \<and>
     (\<forall>n \<in> set ts. n < length h \<and> get_root h n = Some r \<and>
        (\<forall>c \<in> set (get_children (h ! n)). c \<in> set ts \<and> parent_node (h ! c) = Some n))"
proof -
  obtain t where t: "tid t = r" "task_tree 0 h t" using build_task_tree[OF assms] by blast
  then have rp: "repr h None t" "distinct (ids t)" by (auto simp: task_tree_def)
  have bf: "bf_traversal h r = Some (ids t)" using bf_traversal_tree[OF rp] t(1) by simp
  have root: "get_root h n = Some r" if "n \<in> set (ids t)" for n using get_root_tree[OF rp that] t(1) by simp
  have r: "r \<in> set (ids t)" "parent_node (h ! r) = None" using t(1) rp(1) by (cases t; auto)+
  have "get_task_count h r = Some (length (ids t))" using bf root[OF r(1)] by (simp add: get_task_count_def)
  with bf root r rp(2) task_tree_child[OF t(2)] task_tree_bound[OF t(2)] show ?thesis by blast
qed

theorem pipeline_is_tree_witness:
  "\<exists>r h ts. build_pipeline_from_execution_code ''A(0->B,1->C||D)|->E'' = Inr (r, h) \<and> bf_traversal h r = Some ts \<and> distinct ts"
proof -
  have "\<not> (case build_pipeline_from_execution_code ''A(0->B,1->C||D)|->E'' of Inl _ \<Rightarrow> True | Inr _ \<Rightarrow> False)" by code_simp
  then obtain r h where b: "build_pipeline_from_execution_code ''A(0->B,1->C||D)|->E'' = Inr (r, h)"
    by (auto split: sum.splits)
  with pipeline_is_tree[OF b] show ?thesis by blast
qed



text \<open>A chain of tasks joined by the operators becomes a doubly linked list: task \<open>i\<close> carries
  the \<open>i\<close>-th name, points to task \<open>i + 1\<close> through the pipe of the operator between them, and back
  to task \<open>i - 1\<close>; the first task is the root.\<close>

lemma build_chain:
  assumes "\<forall>x \<in> set xs. connective (fst x) \<and> is_name (snd x)" and "is_name s"
  shows "build_pipeline_from_execution_code (print_pointy (chain_ast (TaskName s) xs)) = Inr (0, chain_heap s xs)"
proof -
  have ok: "wf_ast KExpr (chain_ast (TaskName s) xs)" "groups_printable (chain_ast (TaskName s) xs)" "names_ok (chain_ast (TaskName s) xs)"
    using chain_ok[OF assms] by simp_all
  have "print_pointy (chain_ast (TaskName s) xs) \<noteq> []"
    using parser_print_pointy[OF ok] pointy_parser_Nil by force
  moreover have "get_root (chain_heap s xs) (length xs) = Some 0"
    unfolding get_root_def using get_root_chain[of "length xs" xs "Suc (length xs)" s] by simp
  ultimately show ?thesis
    by (simp add: build_pipeline_from_execution_code_def parser_print_pointy[OF ok] parse_chain root_or_raise_def)
qed

text \<open>A conditional \<open>S(0->A, 1->B)\<close> followed by an operator and a task \<open>C\<close> becomes a task \<open>S\<close>
  whose failure event is \<open>A\<close>, whose success event is \<open>B\<close> and whose sink is \<open>C\<close>, each behind the
  pipe its operator names; \<open>S\<close> is the root and the parent of the three.\<close>

lemma build_conditional:
  assumes "is_name s" "is_name a" "is_name b" "is_name c" and "arrow op0" "arrow op1" "connective op"
  shows "build_pipeline_from_execution_code (print_pointy (BinOp op (cond_ast s op0 a op1 b) (TaskName c))) =
    Inr (2, cond_heap s op0 a op1 b op c)"
proof -
  let ?e = "BinOp op (cond_ast s op0 a op1 b) (TaskName c)"
  have ok: "wf_ast KExpr ?e" "groups_printable ?e" "names_ok ?e"
    using assms by (simp_all add: cond_ast_def group_ok_def dict_ok_def descriptor_range_def)
  have "print_pointy ?e \<noteq> []" using parser_print_pointy[OF ok] pointy_parser_Nil by force
  moreover have "get_root (cond_heap s op0 a op1 b op c) 3 = Some 2"
    by (simp add: cond_heap_def get_root_def new_task_def numeral_2_eq_2 numeral_3_eq_3)
  ultimately show ?thesis
    by (simp add: build_pipeline_from_execution_code_def parser_print_pointy[OF ok] parse_cond_ast[OF assms(5,6)] root_or_raise_def del: parse_ast.simps)
qed

end
