(* ===== verification/Values.thy ===== *)
theory Values
  imports Exceptions Complex_Main
begin

text \<open>
  The Python values the pipeline passes around: event contents, call arguments, exceptions with
  their attributes. \<open>py_eq\<close> is \<open>==\<close>, \<open>truthy\<close> is the truth value in \<open>if\<close>,
  \<open>unpack2\<close> is the assignment \<open>a, b = v\<close>. Floats are exact rationals; the rounding of
  IEEE arithmetic is not modelled.
\<close>

datatype pyval =
    PNone
  | PBool bool
  | PInt int
  | PFloat rat
  | PStr string
  | PList "pyval list"
  | PTuple "pyval list"
  | PDict "(string \<times> pyval) list"
  | PObj string "(string \<times> pyval) list"
  | PExc exc_class "(string \<times> pyval) list"

fun truthy :: "pyval \<Rightarrow> bool" where
  "truthy PNone = False"
| "truthy (PBool b) = b"
| "truthy (PInt i) = (i \<noteq> 0)"
| "truthy (PFloat r) = (r \<noteq> 0)"
| "truthy (PStr s) = (s \<noteq> [])"
| "truthy (PList xs) = (xs \<noteq> [])"
| "truthy (PTuple xs) = (xs \<noteq> [])"
| "truthy (PDict d) = (d \<noteq> [])"
| "truthy (PObj c a) = True"
| "truthy (PExc c a) = True"

text \<open>Numbers and booleans compare by value across their types.\<close>

fun num_of :: "pyval \<Rightarrow> rat option" where
  "num_of (PBool b) = Some (if b then 1 else 0)"
| "num_of (PInt i) = Some (of_int i)"
| "num_of (PFloat r) = Some r"
| "num_of _ = None"

text \<open>\<open>==\<close>: sequences element by element and of the same type, dictionaries by key in any order.
  An exception equals only itself in Python; here two exceptions are the same object when class and
  attributes agree.\<close>

definition num_eq :: "pyval \<Rightarrow> pyval \<Rightarrow> bool" where
  "num_eq v w = (case (num_of v, num_of w) of (Some x, Some y) \<Rightarrow> x = y | _ \<Rightarrow> False)"

lemma size_zip_fst: "(x, y) \<in> set (zip xs ys) \<Longrightarrow> size x < Suc (size_list size xs)"
  by (metis less_Suc_eq_le set_zip_leftD size_list_estimation' order_refl)

lemma size_pair_list: "(k, x) \<in> set d \<Longrightarrow> size x < Suc (size_list (size_prod (\<lambda>_. 0) size) d)"
proof (induction d)
  case (Cons p d)
  then show ?case by (cases p) auto
qed simp

function py_eq :: "pyval \<Rightarrow> pyval \<Rightarrow> bool" where
  "py_eq (PList xs) w =
     (case w of PList ys \<Rightarrow> length xs = length ys \<and> (\<forall>(x, y) \<in> set (zip xs ys). py_eq x y) | _ \<Rightarrow> False)"
| "py_eq (PTuple xs) w =
     (case w of PTuple ys \<Rightarrow> length xs = length ys \<and> (\<forall>(x, y) \<in> set (zip xs ys). py_eq x y) | _ \<Rightarrow> False)"
| "py_eq (PDict d) w =
     (case w of
        PDict e \<Rightarrow> length d = length e \<and>
          (\<forall>(k, x) \<in> set d. case dict_get e k of None \<Rightarrow> False | Some y \<Rightarrow> py_eq x y)
      | _ \<Rightarrow> False)"
| "py_eq (PStr s) w = (w = PStr s)"
| "py_eq PNone w = (w = PNone)"
| "py_eq (PObj c a) w = (w = PObj c a)"
| "py_eq (PExc c a) w = (w = PExc c a)"
| "py_eq (PBool b) w = num_eq (PBool b) w"
| "py_eq (PInt i) w = num_eq (PInt i) w"
| "py_eq (PFloat r) w = num_eq (PFloat r) w"
  by pat_completeness auto
termination
  by (relation "measure (\<lambda>(v, w). size v)") (auto dest: size_zip_fst size_pair_list)

lemma py_eq_refl_num [simp]: "num_of v \<noteq> None \<Longrightarrow> py_eq v v"
  by (cases v) (auto simp: num_eq_def)

definition unpack2 :: "pyval \<Rightarrow> exc_class + (pyval \<times> pyval)" where
  "unpack2 v =
     (case v of
        PTuple [a, b] \<Rightarrow> Inr (a, b)
      | PTuple xs \<Rightarrow> Inl ValueError
      | PList [a, b] \<Rightarrow> Inr (a, b)
      | PList xs \<Rightarrow> Inl ValueError
      | PStr [a, b] \<Rightarrow> Inr (PStr [a], PStr [b])
      | PStr s \<Rightarrow> Inl ValueError
      | PDict [(k, x), (l, y)] \<Rightarrow> Inr (PStr k, PStr l)
      | PDict d \<Rightarrow> Inl ValueError
      | _ \<Rightarrow> Inl TypeError)"

lemma unpack2_simps [simp]:
  "unpack2 (PTuple [a, b]) = Inr (a, b)" "unpack2 PNone = Inl TypeError"
  by (simp_all add: unpack2_def)

text \<open>Exceptions as values.\<close>

definition is_exception :: "pyval \<Rightarrow> bool" where
  "is_exception v = (case v of PExc c a \<Rightarrow> True | _ \<Rightarrow> False)"

definition isinstance_exc :: "pyval \<Rightarrow> exc_class \<Rightarrow> bool" where
  "isinstance_exc v c = (case v of PExc d a \<Rightarrow> is_subclass d c | _ \<Rightarrow> False)"

definition exc_attr :: "string \<Rightarrow> pyval \<Rightarrow> pyval" where
  "exc_attr k v = (case v of PExc c a \<Rightarrow> (case dict_get a k of Some x \<Rightarrow> x | None \<Rightarrow> PNone) | _ \<Rightarrow> PNone)"

text \<open>The class of an exception, and an exception with a message: \<open>str(e)\<close> is the text.\<close>

definition exc_of :: "pyval \<Rightarrow> exc_class" where
  "exc_of v = (case v of PExc c a \<Rightarrow> c | _ \<Rightarrow> Exception)"

definition message_exc :: "exc_class \<Rightarrow> string \<Rightarrow> pyval" where
  "message_exc c s = PExc c [(''args'', PStr s)]"

lemma exc_simps [simp]:
  "is_exception (PExc c a)" "\<not> is_exception PNone" "isinstance_exc (PExc d a) c = is_subclass d c"
  by (simp_all add: is_exception_def isinstance_exc_def)

lemma isinstance_exc_Exception [simp]: "isinstance_exc v Exception = is_exception v"
  by (cases v) (simp_all add: isinstance_exc_def is_exception_def is_subclass_Exception)

lemma is_exception_PExc: "is_exception v \<longleftrightarrow> (\<exists>c a. v = PExc c a)"
  by (cases v) (simp_all add: is_exception_def)

lemma exc_of_simps [simp]: "exc_of (PExc c a) = c" "exc_of (message_exc c s) = c" "is_exception (message_exc c s)"
  by (simp_all add: exc_of_def message_exc_def)

end
