(* ===== verification/Event.thy ===== *)
theory Event
  imports Values
begin

text \<open>
  Events, \<^verbatim>\<open>src/nexus/base.py\<close>: the retry policy and the retry loop (\<open>_RetryMixin\<close>), the
  evaluation of a context's outcome (\<open>EventExecutionEvaluationState\<close>) and the call of an event
  (\<open>EventBase\<close>). User code is a parameter: \<open>process\<close> gives, for the number of the
  attempt, what the overridden \<open>process\<close> method does, and \<open>bypass\<close> what
  \<open>can_bypass_current_event\<close> does; either may raise. Raised exceptions are values of the
  left summand.
\<close>

section \<open>Retry\<close>

record retry_policy =
  max_attempts :: int
  backoff_factor :: rat
  max_backoff :: rat
  retry_on_exceptions :: "exc_class list"

text \<open>The class attribute is absent, a policy, or a dictionary of the fields to set. The defaults come
  from the configuration, which falls back to the constants.\<close>

record retry_defaults =
  MAX_RETRIES :: int
  MAX_BACKOFF_FACTOR :: rat
  MAX_BACKOFF :: rat

definition constants :: retry_defaults where
  "constants = \<lparr>MAX_RETRIES = 5, MAX_BACKOFF_FACTOR = 1 / 20, MAX_BACKOFF = 100\<rparr>"

datatype policy_attr =
    NoPolicy
  | Policy retry_policy
  | PolicyDict "int option" "rat option" "rat option" "exc_class list option"

definition get_retry_policy :: "retry_defaults \<Rightarrow> policy_attr \<Rightarrow> retry_policy option" where
  "get_retry_policy conf a =
     (case a of
        NoPolicy \<Rightarrow> None
      | Policy p \<Rightarrow> Some p
      | PolicyDict m f b r \<Rightarrow> Some \<lparr>
          max_attempts = (case m of Some x \<Rightarrow> x | None \<Rightarrow> MAX_RETRIES conf),
          backoff_factor = (case f of Some x \<Rightarrow> x | None \<Rightarrow> MAX_BACKOFF_FACTOR conf),
          max_backoff = (case b of Some x \<Rightarrow> x | None \<Rightarrow> MAX_BACKOFF conf),
          retry_on_exceptions = (case r of Some x \<Rightarrow> x | None \<Rightarrow> [])\<rparr>)"

record event =
  event_class_name :: string
  task_id :: string
  policy :: "retry_policy option"
  retry_count :: int
  stop_on_exception :: bool
  stop_on_success :: bool
  stop_on_error :: bool
  run_bypass_event_checks :: bool

definition config_retry_policy :: "int \<Rightarrow> rat \<Rightarrow> rat \<Rightarrow> exc_class list \<Rightarrow> event \<Rightarrow> event" where
  "config_retry_policy m f b r e =
     e\<lparr>policy := Some \<lparr>max_attempts = m, backoff_factor = f, max_backoff = b, retry_on_exceptions = r\<rparr>\<rparr>"

definition get_backoff_time :: "event \<Rightarrow> rat" where
  "get_backoff_time e =
     (case policy e of
        None \<Rightarrow> 0
      | Some p \<Rightarrow>
          (if retry_count e \<le> 1 then 0
           else min (backoff_factor p * 2 ^ nat (retry_count e - 1)) (max_backoff p)))"

definition sleep_for_backoff :: "event \<Rightarrow> rat" where
  "sleep_for_backoff e = (let b = get_backoff_time e in if b \<le> 0 then 0 else b)"

definition is_retryable :: "event \<Rightarrow> pyval \<Rightarrow> bool" where
  "is_retryable e v =
     (case policy e of
        None \<Rightarrow> False
      | Some p \<Rightarrow>
          (case v of
             PExc c a \<Rightarrow> retry_on_exceptions p = [] \<or>
               list_ex (\<lambda>x. is_subclass c x \<and> exc_name c = exc_name x) (retry_on_exceptions p)
           | _ \<Rightarrow> False))"

definition is_exhausted :: "event \<Rightarrow> bool" where
  "is_exhausted e = (case policy e of None \<Rightarrow> True | Some p \<Rightarrow> max_attempts p \<le> retry_count e)"

text \<open>The signals the loop emits: \<open>event_execution_retry\<close> with the back-off and the count, and
  \<open>event_execution_retry_done\<close>.\<close>

datatype retry_signal = RetrySignal rat int | RetryDone

type_synonym outcome = "pyval + pyval"

text \<open>\<open>retry\<close>. The attempts are numbered by the value of \<open>_retry_count\<close> before the call. Without a
  policy the function is called directly. \<open>except MaxRetryError: break\<close> leaves the loop, and the
  method returns \<open>None\<close>.\<close>

definition max_retry_error :: "int \<Rightarrow> pyval \<Rightarrow> pyval" where
  "max_retry_error attempt exc = PExc MaxRetryError [(''attempt'', PInt attempt), (''exception'', exc)]"

function retry_loop ::
  "retry_policy \<Rightarrow> (int \<Rightarrow> outcome) \<Rightarrow> event \<Rightarrow> pyval \<Rightarrow> outcome \<times> event \<times> retry_signal list" where
  "retry_loop p func e cause =
     (if max_attempts p \<le> retry_count e
      then (Inl (max_retry_error (retry_count e) cause), e, [RetryDone])
      else
        (let e1 = e\<lparr>retry_count := retry_count e + 1\<rparr>
         in case func (retry_count e) of
              Inr v \<Rightarrow> (Inr v, e1, [])
            | Inl x \<Rightarrow>
                if isinstance_exc x MaxRetryError then (Inr PNone, e1, [])
                else if is_retryable e1 x
                then (case retry_loop p func e1 (if cause = PNone then x else cause) of
                        (r, e2, sigs) \<Rightarrow> (r, e2, RetrySignal (sleep_for_backoff e1) (retry_count e1) # sigs))
                else (Inl x, e1, [])))"
  by pat_completeness auto
termination
  by (relation "measure (\<lambda>(p, func, e, cause). nat (max_attempts p - retry_count e))") auto

declare retry_loop.simps [simp del]

definition retry :: "(int \<Rightarrow> outcome) \<Rightarrow> event \<Rightarrow> outcome \<times> event \<times> retry_signal list" where
  "retry func e =
     (case policy e of
        None \<Rightarrow> (func (retry_count e), e, [])
      | Some p \<Rightarrow> retry_loop p func e PNone)"

section \<open>Evaluation of the outcome\<close>

datatype evaluation_context = SUCCESS | FAILURE

datatype evaluation_state =
    SUCCESS_ON_ALL_EVENTS_SUCCESS
  | FAILURE_FOR_PARTIAL_ERROR
  | SUCCESS_FOR_PARTIAL_SUCCESS
  | FAILURE_FOR_ALL_EVENTS_FAILURE

text \<open>\<open>_evaluate\<close> looks only at the sizes of the result set and of the list of errors.\<close>

definition evaluate :: "evaluation_state \<Rightarrow> nat \<Rightarrow> nat \<Rightarrow> bool" where
  "evaluate s results errors =
     (let has_success = results > 0; has_error = errors > 0
      in case s of
           SUCCESS_ON_ALL_EVENTS_SUCCESS \<Rightarrow> \<not> has_error \<and> has_success
         | SUCCESS_FOR_PARTIAL_SUCCESS \<Rightarrow> has_success
         | FAILURE_FOR_PARTIAL_ERROR \<Rightarrow> has_error
         | FAILURE_FOR_ALL_EVENTS_FAILURE \<Rightarrow> \<not> has_success \<and> has_error)"

definition context_evaluation :: "evaluation_state \<Rightarrow> nat \<Rightarrow> nat \<Rightarrow> evaluation_context \<Rightarrow> bool" where
  "context_evaluation s results errors ctx =
     (let status = evaluate s results errors
      in if ctx = SUCCESS
         then (if s \<in> {SUCCESS_ON_ALL_EVENTS_SUCCESS, SUCCESS_FOR_PARTIAL_SUCCESS} then status else \<not> status)
         else (if s \<in> {FAILURE_FOR_ALL_EVENTS_FAILURE, FAILURE_FOR_PARTIAL_ERROR} then status else \<not> status))"

section \<open>Calling an event\<close>

record event_result =
  res_error :: bool
  res_event_name :: string
  res_content :: pyval
  res_task_id :: "string option"

definition mk_event_result :: "event \<Rightarrow> bool \<Rightarrow> pyval \<Rightarrow> event_result" where
  "mk_event_result e err content =
     \<lparr>res_error = err, res_event_name = event_class_name e, res_content = content, res_task_id = Some (task_id e)\<rparr>"

definition raise_stop_processing :: "event \<Rightarrow> bool \<Rightarrow> pyval \<Rightarrow> pyval \<Rightarrow> pyval + unit" where
  "raise_stop_processing e condition message exc =
     (if condition
      then Inl (PExc StopProcessingError
        [(''message'', message), (''exception'', exc),
         (''params'', PDict [(''event_name'', PStr (event_class_name e)), (''task_id'', PStr (task_id e))])])
      else Inr ())"

definition on_success :: "event \<Rightarrow> pyval \<Rightarrow> pyval + event_result" where
  "on_success e v =
     bind_res (raise_stop_processing e (stop_on_success e) v PNone) (\<lambda>_. Inr (mk_event_result e False v))"

definition on_failure :: "event \<Rightarrow> pyval \<Rightarrow> pyval + event_result" where
  "on_failure e v =
     (if is_exception v
      then
        (let w = (case v of PExc c a \<Rightarrow> if c = MaxRetryError then exc_attr ''exception'' v else v | _ \<Rightarrow> v)
         in bind_res (raise_stop_processing e (stop_on_exception e)
              (PStr (''Error occurred while processing event '' @ event_class_name e)) w) (\<lambda>_.
            bind_res (raise_stop_processing e (stop_on_error e) w PNone) (\<lambda>_.
            Inr (mk_event_result e True w))))
      else bind_res (raise_stop_processing e (stop_on_error e) v PNone) (\<lambda>_. Inr (mk_event_result e True v)))"

text \<open>\<open>goto\<close> raises \<open>SwitchTask\<close> carrying the result; the object is spelled out with its attributes.\<close>

definition result_obj :: "event_result \<Rightarrow> pyval" where
  "result_obj r = PObj ''EventResult''
     [(''error'', PBool (res_error r)), (''event_name'', PStr (res_event_name r)),
      (''content'', res_content r), (''task_id'', case res_task_id r of None \<Rightarrow> PNone | Some t \<Rightarrow> PStr t)]"

definition goto :: "event \<Rightarrow> pyval \<Rightarrow> bool \<Rightarrow> pyval \<Rightarrow> string \<Rightarrow> bool \<Rightarrow> pyval" where
  "goto e desc status v reason on_event =
     (case (case desc of PInt d \<Rightarrow> Some d | PBool b \<Rightarrow> Some (if b then 1 else 0) | _ \<Rightarrow> None) of
        Some d \<Rightarrow>
          (case (if on_event then (if status then on_success e v else on_failure e v)
                 else Inr (mk_event_result e (\<not> status) v)) of
             Inl x \<Rightarrow> x
           | Inr r \<Rightarrow> PExc SwitchTask
               [(''current_task_id'', PStr (task_id e)), (''next_task_descriptor'', PInt d),
                (''result'', result_obj r), (''reason'', PStr reason)])
      | None \<Rightarrow> PExc ValueError [(''message'', PStr ''descriptor must be an integer'')])"

text \<open>\<open>__call__\<close>.\<close>

definition call ::
  "outcome \<Rightarrow> (int \<Rightarrow> outcome) \<Rightarrow> event \<Rightarrow> (pyval + event_result) \<times> event \<times> retry_signal list" where
  "call bypass process e =
     (let run =
        (case retry process e of
           (Inl x, e1, sigs) \<Rightarrow> (on_failure e1 x, e1, sigs)
         | (Inr v, e1, sigs) \<Rightarrow>
             (case unpack2 v of
                Inl c \<Rightarrow> (on_failure e1 (PExc c []), e1, sigs)
              | Inr (status, v') \<Rightarrow>
                  ((if truthy status then on_success e1 v' else on_failure e1 v'), e1, sigs)))
      in if run_bypass_event_checks e
         then (case bypass of
                 Inl x \<Rightarrow> (Inl x, e, [])
               | Inr w \<Rightarrow>
                   (case unpack2 w of
                      Inl c \<Rightarrow> (Inl (PExc c []), e, [])
                    | Inr (should_skip, data) \<Rightarrow>
                        if truthy should_skip
                        then (on_success e
                               (PDict [(''status'', PInt 1), (''skip_event_execution'', should_skip), (''data'', data)]), e, [])
                        else run))
         else run)"

section \<open>What the retry loop computes\<close>

text \<open>The reference: run through the attempts that are left, drop the leading ones that fail in a
  way the policy retries, and take the outcome of the next one.\<close>

definition retried :: "(int \<Rightarrow> outcome) \<Rightarrow> event \<Rightarrow> int \<Rightarrow> bool" where
  "retried func e k =
     (case func k of Inl x \<Rightarrow> \<not> isinstance_exc x MaxRetryError \<and> is_retryable e x | Inr v \<Rightarrow> False)"

definition signal_after :: "event \<Rightarrow> int \<Rightarrow> retry_signal" where
  "signal_after e k = RetrySignal (sleep_for_backoff (e\<lparr>retry_count := k + 1\<rparr>)) (k + 1)"

definition first_cause :: "(int \<Rightarrow> outcome) \<Rightarrow> pyval \<Rightarrow> int list \<Rightarrow> pyval" where
  "first_cause func cause ks =
     (if cause = PNone then (case ks of [] \<Rightarrow> PNone | k # _ \<Rightarrow> (case func k of Inl x \<Rightarrow> x | Inr v \<Rightarrow> PNone)) else cause)"

definition final_outcome :: "outcome \<Rightarrow> outcome" where
  "final_outcome r = (case r of Inr v \<Rightarrow> Inr v | Inl x \<Rightarrow> if isinstance_exc x MaxRetryError then Inr PNone else Inl x)"

definition retry_spec ::
  "retry_policy \<Rightarrow> (int \<Rightarrow> outcome) \<Rightarrow> event \<Rightarrow> pyval \<Rightarrow> outcome \<times> event \<times> retry_signal list" where
  "retry_spec p func e cause =
     (let attempts = [retry_count e..max_attempts p - 1];
          failed = takeWhile (retried func e) attempts
      in case dropWhile (retried func e) attempts of
           [] \<Rightarrow>
             (let n = max (retry_count e) (max_attempts p)
              in (Inl (max_retry_error n (first_cause func cause failed)), e\<lparr>retry_count := n\<rparr>,
                  map (signal_after e) failed @ [RetryDone]))
         | k # _ \<Rightarrow> (final_outcome (func k), e\<lparr>retry_count := k + 1\<rparr>, map (signal_after e) failed))"

lemma is_retryable_count [simp]: "is_retryable (e\<lparr>retry_count := n\<rparr>) x = is_retryable e x"
  by (simp add: is_retryable_def)

lemma is_retryable_exception: "is_retryable e x \<Longrightarrow> x \<noteq> PNone"
  by (auto simp: is_retryable_def split: option.splits)

lemma retried_count [simp]: "retried func (e\<lparr>retry_count := n\<rparr>) = retried func e"
  by (simp add: retried_def fun_eq_iff split: sum.split)

lemma signal_after_count [simp]: "signal_after (e\<lparr>retry_count := n\<rparr>) = signal_after e"
  by (simp add: signal_after_def fun_eq_iff)

lemma retry_spec_step:
  assumes "retry_count e < max_attempts p" and "func (retry_count e) = Inl x" and "retried func e (retry_count e)"
  shows "retry_spec p func e cause =
    (case retry_spec p func (e\<lparr>retry_count := retry_count e + 1\<rparr>) (if cause = PNone then x else cause) of
       (r, e2, sigs) \<Rightarrow> (r, e2, signal_after e (retry_count e) # sigs))"
proof -
  have "is_retryable e x" using assms(2,3) by (simp add: retried_def)
  then have "x \<noteq> PNone" by (rule is_retryable_exception)
  moreover have "[retry_count e..max_attempts p - 1] = retry_count e # [retry_count e + 1..max_attempts p - 1]"
    using assms(1) by (simp add: upto_rec1)
  ultimately show ?thesis
    using assms
    by (cases "dropWhile (retried func e) [retry_count e + 1..max_attempts p - 1]")
       (simp_all add: retry_spec_def Let_def first_cause_def max_def del: dropWhile_eq_Nil_conv)
qed

lemma retry_loop_spec: "retry_loop p func e cause = retry_spec p func e cause"
proof (induction p func e cause rule: retry_loop.induct)
  case (1 p func e cause)
  show ?case
  proof (cases "max_attempts p \<le> retry_count e")
    case True
    then show ?thesis
      by (subst retry_loop.simps) (simp add: retry_spec_def first_cause_def max_def)
  next
    case False
    then have up: "[retry_count e..max_attempts p - 1] = retry_count e # [retry_count e + 1..max_attempts p - 1]"
      by (simp add: upto_rec1)
    show ?thesis
    proof (cases "retried func e (retry_count e)")
      case True
      then obtain x where x: "func (retry_count e) = Inl x" "\<not> isinstance_exc x MaxRetryError" "is_retryable e x"
        by (auto simp: retried_def split: sum.splits)
      then show ?thesis
        using 1[OF False refl x(1,2)] False retry_spec_step[OF _ x(1) True]
        by (subst retry_loop.simps) (simp add: signal_after_def Let_def)
    next
      case nr: False
      then show ?thesis using False up
        by (subst retry_loop.simps)
           (auto simp: retry_spec_def final_outcome_def retried_def Let_def split: sum.splits)
    qed
  qed
qed

lemma retry_spec_count:
  assumes "retry_spec p func e cause = (r, e', sigs)"
  shows "retry_count e \<le> retry_count e' \<and> retry_count e' \<le> max (retry_count e) (max_attempts p)"
proof (cases "dropWhile (retried func e) [retry_count e..max_attempts p - 1]")
  case Nil
  with assms show ?thesis by (auto simp: retry_spec_def Let_def)
next
  case (Cons k ks)
  then have "k \<in> set [retry_count e..max_attempts p - 1]" by (metis list.set_intros(1) set_dropWhileD)
  with assms Cons show ?thesis by (auto simp: retry_spec_def Let_def)
qed

lemma retry_spec_signals:
  assumes "retry_spec p func e cause = (r, e', sigs)" and "RetrySignal b n \<in> set sigs"
  shows "b = sleep_for_backoff (e\<lparr>retry_count := n\<rparr>) \<and> retry_count e < n \<and> n \<le> max_attempts p"
proof -
  from assms obtain k where "k \<in> set (takeWhile (retried func e) [retry_count e..max_attempts p - 1])"
    "RetrySignal b n = signal_after e k"
    by (auto simp: retry_spec_def Let_def split: list.splits)
  then show ?thesis by (auto simp: signal_after_def dest!: set_takeWhileD)
qed

section \<open>What a call returns\<close>

lemma on_success_raise:
  "on_success e v = Inl x \<Longrightarrow> stop_on_success e \<and> isinstance_exc x StopProcessingError"
  by (auto simp: on_success_def raise_stop_processing_def split: if_splits)

lemma on_failure_raise:
  "on_failure e v = Inl x \<Longrightarrow> (stop_on_exception e \<or> stop_on_error e) \<and> isinstance_exc x StopProcessingError"
  by (auto simp: on_failure_def raise_stop_processing_def Let_def split: if_splits)

text \<open>What a failed call puts in its result: the exception that used up the retries, or the value itself.\<close>

definition unwrap :: "pyval \<Rightarrow> pyval" where
  "unwrap v = (case v of PExc c a \<Rightarrow> if c = MaxRetryError then exc_attr ''exception'' v else v | _ \<Rightarrow> v)"

definition reported :: "outcome \<Rightarrow> bool \<times> pyval" where
  "reported r =
     (case r of
        Inl x \<Rightarrow> (True, unwrap x)
      | Inr v \<Rightarrow> (case unpack2 v of
                   Inl c \<Rightarrow> (True, unwrap (PExc c []))
                 | Inr (status, w) \<Rightarrow> if truthy status then (False, w) else (True, unwrap w)))"

lemma on_success_plain: "\<not> stop_on_success e \<Longrightarrow> on_success e v = Inr (mk_event_result e False v)"
  by (simp add: on_success_def raise_stop_processing_def)

lemma on_failure_plain:
  "\<not> stop_on_exception e \<Longrightarrow> \<not> stop_on_error e \<Longrightarrow> on_failure e v = Inr (mk_event_result e True (unwrap v))"
  by (cases v) (simp_all add: on_failure_def raise_stop_processing_def unwrap_def is_exception_def)

lemma mk_event_result_count [simp]: "mk_event_result (e\<lparr>retry_count := n\<rparr>) = mk_event_result e"
  by (simp add: mk_event_result_def fun_eq_iff)

lemma retry_event: "retry func e = (r, e', sigs) \<Longrightarrow> \<exists>n. e' = e\<lparr>retry_count := n\<rparr>"
proof (cases "policy e")
  case None
  then show "retry func e = (r, e', sigs) \<Longrightarrow> ?thesis"
    by (auto simp: retry_def intro!: exI[of _ "retry_count e"])
next
  case (Some p)
  then show "retry func e = (r, e', sigs) \<Longrightarrow> ?thesis"
    by (auto simp: retry_def retry_loop_spec retry_spec_def Let_def split: list.splits)
qed

section \<open>Properties\<close>

text \<open>C12. The retry loop is the reference \<open>retry_spec\<close>: it takes the first attempt that returns or
  fails in a way the policy does not retry; one signal with its back-off per retried attempt; when
  all attempts the policy allows are used up it raises MaxRetryError carrying the first exception,
  after the done signal.\<close>

theorem retry_equals_spec:
  assumes "policy e = Some p"
  shows "retry func e = retry_spec p func e PNone"
  using assms by (simp add: retry_def retry_loop_spec)

definition demo_policy :: retry_policy where
  "demo_policy = \<lparr>max_attempts = 3, backoff_factor = 1 / 20, max_backoff = 100, retry_on_exceptions = [ValueError]\<rparr>"

definition demo_event :: event where
  "demo_event = \<lparr>event_class_name = ''Fetch'', task_id = ''t1'', policy = Some demo_policy, retry_count = 0,
     stop_on_exception = False, stop_on_success = False, stop_on_error = False, run_bypass_event_checks = False\<rparr>"

theorem retry_equals_spec_witness:
  "retry (\<lambda>k. Inl (PExc ValueError [])) demo_event = retry_spec demo_policy (\<lambda>k. Inl (PExc ValueError [])) demo_event PNone"
  by (rule retry_equals_spec) (simp add: demo_event_def)

text \<open>C13. The loop always ends, the attempt counter ends between its start and the maximum of the
  policy, and every signalled back-off is at most the policy's ceiling and not negative.\<close>

theorem retry_bounds:
  assumes "policy e = Some p" and "retry_count e \<le> max_attempts p" and "0 \<le> max_backoff p"
    and "retry func e = (r, e', sigs)"
  shows "retry_count e \<le> retry_count e' \<and> retry_count e' \<le> max_attempts p \<and>
         (\<forall>b n. RetrySignal b n \<in> set sigs \<longrightarrow> 0 \<le> b \<and> b \<le> max_backoff p \<and> n \<le> max_attempts p)"
proof -
  have sp: "retry_spec p func e PNone = (r, e', sigs)" using assms(1,4) by (simp add: retry_def retry_loop_spec)
  have "0 \<le> b \<and> b \<le> max_backoff p \<and> n \<le> max_attempts p" if "RetrySignal b n \<in> set sigs" for b n
    using retry_spec_signals[OF sp that] assms(1,3)
    by (auto simp: sleep_for_backoff_def get_backoff_time_def Let_def)
  with retry_spec_count[OF sp] assms(2) show ?thesis by auto
qed

theorem retry_bounds_witness:
  "\<exists>r e' sigs. retry (\<lambda>k. Inl (PExc ValueError [])) demo_event = (r, e', sigs) \<and> retry_count e' \<le> 3"
proof -
  obtain r e' sigs where r: "retry (\<lambda>k. Inl (PExc ValueError [])) demo_event = (r, e', sigs)"
    by (metis prod.exhaust)
  then show ?thesis using retry_bounds[of demo_event demo_policy _ r e' sigs] by (auto simp: demo_event_def demo_policy_def)
qed

text \<open>The back-off grows with the attempts and never exceeds the ceiling.\<close>

lemma backoff_monotone:
  assumes "policy e = Some p" and "0 \<le> backoff_factor p" and "0 \<le> max_backoff p" and "m \<le> n"
  shows "get_backoff_time (e\<lparr>retry_count := m\<rparr>) \<le> get_backoff_time (e\<lparr>retry_count := n\<rparr>) \<and>
         get_backoff_time (e\<lparr>retry_count := n\<rparr>) \<le> max_backoff p"
proof -
  have "backoff_factor p * 2 ^ nat (m - 1) \<le> backoff_factor p * 2 ^ nat (n - 1)"
    using assms(2,4) by (intro mult_left_mono power_increasing) (auto simp: nat_mono)
  then show ?thesis using assms by (auto simp: get_backoff_time_def min_def)
qed

text \<open>The two readings of an outcome are complementary: for every evaluation state a context has
  failed exactly when it has not succeeded.\<close>

lemma evaluation_complementary:
  "context_evaluation s results errors FAILURE = (\<not> context_evaluation s results errors SUCCESS)"
  by (cases s) (simp_all add: context_evaluation_def)

text \<open>C14. Without stop flags and bypass checks a call never raises: whatever \<open>process\<close> returns or
  raises, the call returns an \<open>EventResult\<close> of this event and task, whose error flag and content are
  those of the outcome of the retry loop (an exhausted retry reports the first exception).\<close>

theorem call_reports:
  assumes "\<not> run_bypass_event_checks e" and "\<not> stop_on_success e" and "\<not> stop_on_exception e" and "\<not> stop_on_error e"
    and "retry process e = (out, e', sigs)"
  shows "call bypass process e = (Inr (case reported out of (err, content) \<Rightarrow> mk_event_result e err content), e', sigs)"
proof -
  obtain n where e': "e' = e\<lparr>retry_count := n\<rparr>" using retry_event[OF assms(5)] by blast
  then have flags: "\<not> stop_on_success e'" "\<not> stop_on_exception e'" "\<not> stop_on_error e'"
    and mk: "mk_event_result e' = mk_event_result e" using assms by simp_all
  show ?thesis
    using assms(1,5) flags mk
    by (auto simp: call_def Let_def reported_def on_success_plain on_failure_plain split: sum.splits prod.splits)
qed

theorem call_reports_witness:
  "fst (call (Inr PNone) (\<lambda>k. if k < 2 then Inl (PExc ValueError []) else Inr (PTuple [PBool True, PInt 7])) demo_event) =
     Inr (mk_event_result demo_event False (PInt 7))"
proof -
  let ?f = "\<lambda>k::int. if k < 2 then Inl (PExc ValueError []) else Inr (PTuple [PBool True, PInt 7])"
  have "fst (retry ?f demo_event) = Inr (PTuple [PBool True, PInt 7])"
    by code_simp
  then obtain e' sigs where "retry ?f demo_event = (Inr (PTuple [PBool True, PInt 7]), e', sigs)"
    by (metis prod.collapse)
  from call_reports[OF _ _ _ _ this] show ?thesis by (simp add: demo_event_def reported_def)
qed

text \<open>The only exception a call lets through is StopProcessingError, and only when one of the stop
  flags asks for it.\<close>

lemma call_raises_only_stop:
  assumes "\<not> run_bypass_event_checks e" and "call bypass process e = (Inl x, e', sigs)"
  shows "isinstance_exc x StopProcessingError \<and> (stop_on_success e \<or> stop_on_exception e \<or> stop_on_error e)"
proof -
  obtain out e1 s1 where r: "retry process e = (out, e1, s1)" by (metis prod.exhaust)
  obtain n where e1: "e1 = e\<lparr>retry_count := n\<rparr>" using retry_event[OF r] by blast
  from assms r have "(\<exists>v. on_success e1 v = Inl x) \<or> (\<exists>v. on_failure e1 v = Inl x)"
    by (auto simp: call_def Let_def split: sum.splits prod.splits if_splits)
  then show ?thesis using on_success_raise[of e1 _ x] on_failure_raise[of e1 _ x] e1 by auto
qed

end
