(* ===== verification/Execution.thy ===== *)
theory Execution
  imports Task Event
begin

text \<open>
  Execution of the task graph, \<^verbatim>\<open>src/nexus/task.py\<close>: class \<open>EventExecutionContext\<close> and
  \<open>PipelineTask.execute_task\<close>. The execution contexts are mutable objects linked in both
  directions, so they live in a heap of their own; the sink queue (a deque used as a stack) is a list
  with its top first. What is not decided by this code is the environment \<open>exec_env\<close>: the
  registered event classes, what constructing an event or an executor raises, what the future of an
  event holds (\<open>Event.call\<close> says which values an event can produce), the order in which the
  set of finished futures and the set of parallel tasks are iterated, and \<open>str\<close> of an exception.
\<close>

section \<open>Environment\<close>

record class_info =
  ci_eval :: evaluation_state
  ci_executor :: string
  ci_executor_ok :: bool
  ci_policy :: policy_attr

record exec_env =
  registry :: "(string \<times> class_info) list"
  event_init_error :: "nat \<Rightarrow> nat \<Rightarrow> pyval option"
  executor_context :: "nat \<Rightarrow> (string, pyval) dict"
  executor_error :: "string \<Rightarrow> (string, pyval) dict \<Rightarrow> pyval option"
  future :: "nat \<Rightarrow> nat \<Rightarrow> pyval + event_result"
  done_order :: "nat \<Rightarrow> nat list \<Rightarrow> nat list"
  task_order :: "nat list \<Rightarrow> nat list"
  exc_str :: "pyval \<Rightarrow> string"

text \<open>\<open>resolve_event_name\<close>: the first registered class with that name, ignoring case.\<close>

definition resolve_event_name :: "exec_env \<Rightarrow> string \<Rightarrow> pyval + class_info" where
  "resolve_event_name env name =
     (case find (\<lambda>(k, i). str_lower k = str_lower name) (registry env) of
        Some (k, i) \<Rightarrow> Inr i
      | None \<Rightarrow> Inl (PExc EventDoesNotExist []))"

definition get_event_klass :: "exec_env \<Rightarrow> heap \<Rightarrow> nat \<Rightarrow> pyval + class_info" where
  "get_event_klass env h t = resolve_event_name env (event (h ! t))"

section \<open>Contexts\<close>

datatype execution_state = PENDING | EXECUTING | CANCELLED | FINISHED | ABORTED

record exec_ctx =
  task_profiles :: "nat list"
  execution_result :: "event_result list"
  ctx_state :: execution_state
  previous_context :: "nat option"
  next_context :: "nat option"
  errors :: "pyval list"

datatype exec_signal =
    SigInit nat nat
  | SigStart nat nat
  | SigEnd nat nat
  | SigCancelled nat
  | SigAborted nat

record exec_state =
  contexts :: "exec_ctx list"
  root_context :: "nat option"
  sink_queue :: "nat list"
  signals :: "exec_signal list"

definition new_context :: "nat list \<Rightarrow> exec_ctx" where
  "new_context tasks = \<lparr>task_profiles = tasks, execution_result = [], ctx_state = PENDING,
     previous_context = None, next_context = None, errors = []\<rparr>"

section \<open>Preparing the events\<close>

text \<open>\<open>_configure_event\<close>.\<close>

definition configure_event :: "retry_defaults \<Rightarrow> int option \<Rightarrow> policy_attr \<Rightarrow> policy_attr" where
  "configure_event conf retries p =
     (case retries of
        None \<Rightarrow> p
      | Some n \<Rightarrow>
          if n = 0 then p
          else (case get_retry_policy conf p of
                  Some q \<Rightarrow> Policy (q\<lparr>max_attempts := n\<rparr>)
                | None \<Rightarrow> Policy \<lparr>max_attempts = n, backoff_factor = MAX_BACKOFF_FACTOR constants,
                    max_backoff = MAX_BACKOFF constants, retry_on_exceptions = []\<rparr>))"

text \<open>What the constructor receives as \<open>previous_result\<close>: nothing, \<open>EMPTY\<close>, or the results of a context.\<close>

datatype previous_arg = NotPassed | EmptyMarker | ResultsOf nat

record prepared_event =
  pe_task :: nat
  pe_executor :: string
  pe_previous :: previous_arg
  pe_context :: "(string, pyval) dict"
  pe_policy :: policy_attr

definition event_pointer :: "heap \<Rightarrow> nat \<Rightarrow> pointer option" where
  "event_pointer h t =
     (if is_parallel_execution_node h t
      then (case get_parallel_execution_parent_node h t of
              Some (Some p) \<Rightarrow> get_pointer_type_to_this_event h p
            | _ \<Rightarrow> None)
      else get_pointer_type_to_this_event h t)"

definition previous_result_arg :: "heap \<Rightarrow> nat option \<Rightarrow> nat \<Rightarrow> previous_arg" where
  "previous_result_arg h prev t =
     (if event_pointer h t = Some (Pipe PT_PIPE_POINTER)
      then (case prev of Some c \<Rightarrow> ResultsOf c | None \<Rightarrow> EmptyMarker)
      else NotPassed)"

definition get_executor_context_and_event ::
  "exec_env \<Rightarrow> heap \<Rightarrow> nat \<Rightarrow> nat option \<Rightarrow> nat \<Rightarrow> pyval + prepared_event" where
  "get_executor_context_and_event env h cid prev t =
     bind_res (get_event_klass env h t) (\<lambda>k.
       if \<not> ci_executor_ok k then Inl (PExc ImproperlyConfigured [])
       else (case event_init_error env cid t of
               Some x \<Rightarrow> Inl x
             | None \<Rightarrow> Inr \<lparr>pe_task = t, pe_executor = ci_executor k, pe_previous = previous_result_arg h prev t,
                 pe_context = executor_context env t,
                 pe_policy = configure_event constants (number_of_retries (extra (h ! t))) (ci_policy k)\<rparr>))"

text \<open>The events grouped by executor, in the order in which the executors first occur. The context of
  a later event only counts when the one so far is empty, and then only its numbers.\<close>

definition numeric_of :: "pyval \<Rightarrow> int option" where
  "numeric_of v =
     (case v of
        PInt n \<Rightarrow> if 0 \<le> n then Some n else None
      | PStr s \<Rightarrow> if s \<noteq> [] \<and> list_all is_digit s then Some (int_of_digits s) else None
      | _ \<Rightarrow> None)"

definition merge_entry :: "(string, pyval) dict \<Rightarrow> string \<times> pyval \<Rightarrow> (string, pyval) dict" where
  "merge_entry ctx kv =
     (let old = (case dict_get ctx (fst kv) of Some w \<Rightarrow> w | None \<Rightarrow> PInt 0)
      in if py_eq old (snd kv) then ctx
         else (case (numeric_of (snd kv), numeric_of old) of
                 (Some n, Some m) \<Rightarrow> dict_set (fst kv) (PInt (max n m)) ctx
               | _ \<Rightarrow> ctx))"

definition merge_context :: "(string, pyval) dict \<Rightarrow> (string, pyval) dict \<Rightarrow> (string, pyval) dict" where
  "merge_context prev ctx = (if prev \<noteq> [] then prev else foldl merge_entry prev ctx)"

type_synonym executors_map = "(string, (string, pyval) dict \<times> prepared_event list) dict"

definition add_to_map :: "executors_map \<Rightarrow> prepared_event \<Rightarrow> executors_map" where
  "add_to_map m e =
     (case dict_get m (pe_executor e) of
        Some (ctx, es) \<Rightarrow> dict_set (pe_executor e) (merge_context ctx (pe_context e), es @ [e]) m
      | None \<Rightarrow> dict_set (pe_executor e) (pe_context e, [e]) m)"

fun gather_executors ::
  "exec_env \<Rightarrow> heap \<Rightarrow> nat \<Rightarrow> nat option \<Rightarrow> nat list \<Rightarrow> executors_map \<Rightarrow> (pyval + executors_map) \<times> exec_signal list" where
  "gather_executors env h cid prev [] m = (Inr m, [])"
| "gather_executors env h cid prev (t # ts) m =
     (case get_executor_context_and_event env h cid prev t of
        Inl x \<Rightarrow> (Inl x, [])
      | Inr e \<Rightarrow> apsnd ((#) (SigInit cid t)) (gather_executors env h cid prev ts (add_to_map m e)))"

text \<open>\<open>init_and_execute_events\<close>: the tasks whose futures were created, in order. The \<open>with\<close> block of an
  executor waits for its events.\<close>

fun submit_events ::
  "exec_env \<Rightarrow> nat \<Rightarrow> executors_map \<Rightarrow> (pyval + nat list) \<times> exec_signal list" where
  "submit_events env cid [] = (Inr [], [])"
| "submit_events env cid ((ex, ctx, es) # m) =
     (case executor_error env ex ctx of
        Some x \<Rightarrow> (Inl x, [])
      | None \<Rightarrow>
          (let log = concat (map (\<lambda>e. [SigStart cid (pe_task e), SigEnd cid (pe_task e)]) es)
           in case submit_events env cid m of
                (Inl x, l) \<Rightarrow> (Inl x, log @ l)
              | (Inr ts, l) \<Rightarrow> (Inr (map pe_task es @ ts), log @ l)))"

definition init_and_execute_events ::
  "exec_env \<Rightarrow> heap \<Rightarrow> nat \<Rightarrow> exec_ctx \<Rightarrow> (pyval + nat list) \<times> exec_signal list" where
  "init_and_execute_events env h cid c =
     (case gather_executors env h cid (previous_context c) (task_profiles c) [] of
        (Inl x, l) \<Rightarrow> (Inl x, l)
      | (Inr m, l) \<Rightarrow> apsnd ((@) l) (submit_events env cid m))"

section \<open>Results\<close>

definition get_last_task_profile_in_chain :: "heap \<Rightarrow> nat list \<Rightarrow> nat option" where
  "get_last_task_profile_in_chain h ts =
     (case ts of
        [t] \<Rightarrow> Some t
      | _ \<Rightarrow> find (\<lambda>t. get_pointer_type_to_this_event h t = Some (Pipe PT_PARALLELISM) \<and>
                       on_success_pipe (h ! t) \<noteq> Some PT_PARALLELISM) ts)"

text \<open>\<open>to_dict\<close> of the pipeline errors, \<open>str\<close> of the others.\<close>

definition describe :: "exec_env \<Rightarrow> pyval \<Rightarrow> pyval" where
  "describe env x =
     (case x of
        PExc c a \<Rightarrow>
          if is_subclass c PipelineError
          then PDict [(''error_class'', PStr (exc_name c)), (''message'', exc_attr ''message'' x),
                      (''code'', exc_attr ''code'' x), (''params'', exc_attr ''params'' x)]
          else PStr (exc_str env x)
      | _ \<Rightarrow> PStr (exc_str env x))"

text \<open>\<open>getattr(e, "params", {})\<close> followed by \<open>.get\<close>; the attribute of a pipeline error may be \<open>None\<close>.\<close>

definition exc_params :: "pyval \<Rightarrow> pyval + (string, pyval) dict" where
  "exc_params x =
     (case x of
        PExc c a \<Rightarrow>
          (case dict_get a ''params'' of
             Some (PDict d) \<Rightarrow> Inr d
           | Some _ \<Rightarrow> Inl (PExc AttributeError [])
           | None \<Rightarrow> if is_subclass c PipelineError then Inl (PExc AttributeError []) else Inr [])
      | _ \<Rightarrow> Inr [])"

definition str_param :: "string \<Rightarrow> (string, pyval) dict \<Rightarrow> string option" where
  "str_param k d = (case dict_get d k of Some (PStr s) \<Rightarrow> Some s | _ \<Rightarrow> None)"

definition obj_result :: "pyval \<Rightarrow> event_result" where
  "obj_result v =
     (case v of
        PObj c a \<Rightarrow> \<lparr>res_error = (case dict_get a ''error'' of Some b \<Rightarrow> truthy b | None \<Rightarrow> False),
          res_event_name = (case str_param ''event_name'' a of Some s \<Rightarrow> s | None \<Rightarrow> []),
          res_content = (case dict_get a ''content'' of Some w \<Rightarrow> w | None \<Rightarrow> PNone),
          res_task_id = str_param ''task_id'' a\<rparr>
      | _ \<Rightarrow> \<lparr>res_error = False, res_event_name = [], res_content = PNone, res_task_id = None\<rparr>)"

text \<open>One finished future: the result, the switch request if there is one, and whether the context is
  cancelled.\<close>

definition future_result :: "exec_env \<Rightarrow> pyval + event_result \<Rightarrow> pyval + (event_result \<times> pyval option \<times> bool)" where
  "future_result env out =
     (case out of
        Inr r \<Rightarrow> Inr (r, if isinstance_exc (res_content r) SwitchTask then Some (res_content r) else None, False)
      | Inl x \<Rightarrow>
          if isinstance_exc x SwitchTask then Inr (obj_result (exc_attr ''result'' x), Some x, False)
          else bind_res (exc_params x) (\<lambda>ps.
            Inr (\<lparr>res_error = True,
                  res_event_name = (case str_param ''event_name'' ps of Some s \<Rightarrow> s | None \<Rightarrow> ''unknown''),
                  res_content = describe env x,
                  res_task_id = str_param ''task_id'' ps\<rparr>, None,
                 (case x of PExc c a \<Rightarrow> c = StopProcessingError | _ \<Rightarrow> False))))"

text \<open>\<open>execution_result.add(result)\<close> and, for an error, the entry in \<open>_errors\<close>: \<open>as_dict\<close> empties the
  content of the stored result when it is an exception.\<close>

definition add_result :: "event_result \<Rightarrow> exec_ctx \<Rightarrow> exec_ctx" where
  "add_result r c =
     (if res_error r
      then c\<lparr>execution_result := execution_result c @
               [if is_exception (res_content r) then r\<lparr>res_content := PNone\<rparr> else r],
             errors := errors c @ [PExc PipelineError [(''message'', res_content r)]]\<rparr>
      else c\<lparr>execution_result := execution_result c @ [r]\<rparr>)"

definition cancel :: "exec_ctx \<Rightarrow> exec_ctx" where
  "cancel c = c\<lparr>ctx_state := CANCELLED\<rparr>"

definition abort :: "exec_ctx \<Rightarrow> exec_ctx" where
  "abort c = c\<lparr>ctx_state := ABORTED\<rparr>"

definition switch_descriptor :: "pyval \<Rightarrow> int option" where
  "switch_descriptor x = (case exc_attr ''next_task_descriptor'' x of PInt d \<Rightarrow> Some d | _ \<Rightarrow> None)"

text \<open>How \<open>process_executor_results\<close> ends: normally, by raising the switch request (with its flag
  \<open>descriptor_configured\<close>), or by raising another exception.\<close>

datatype ending = Done | Switch pyval bool | Raised pyval

fun process_executor_results ::
  "exec_env \<Rightarrow> heap \<Rightarrow> nat \<Rightarrow> (pyval + event_result) list \<Rightarrow> exec_ctx \<Rightarrow> exec_ctx \<times> ending \<times> exec_signal list" where
  "process_executor_results env h cid [] c = (c, Done, [])"
| "process_executor_results env h cid (out # outs) c =
     (case future_result env out of
        Inl x \<Rightarrow> (c, Raised x, [])
      | Inr (r, sw, stop) \<Rightarrow>
          (let c1 = add_result r (if stop then cancel c else c);
               l1 = (if stop then [SigCancelled cid] else [])
           in case sw of
                None \<Rightarrow> (case process_executor_results env h cid outs c1 of (c2, e, l2) \<Rightarrow> (c2, e, l1 @ l2))
              | Some x \<Rightarrow>
                  (case get_last_task_profile_in_chain h (task_profiles c) of
                     None \<Rightarrow> (c1, Raised (PExc AttributeError []), l1)
                   | Some t \<Rightarrow>
                       if get_descriptor_config (extra (h ! t)) (switch_descriptor x) = None
                       then (cancel c1, Switch x False, l1 @ [SigCancelled cid])
                       else (c1, Switch x True, l1))))"

text \<open>\<open>execution_failed\<close> and \<open>execution_success\<close>.\<close>

definition evaluate_ctx :: "exec_env \<Rightarrow> heap \<Rightarrow> exec_ctx \<Rightarrow> evaluation_context \<Rightarrow> pyval + bool" where
  "evaluate_ctx env h c ctx =
     (if ctx_state c \<in> {CANCELLED, ABORTED} then Inr (ctx = FAILURE)
      else (case get_last_task_profile_in_chain h (task_profiles c) of
              None \<Rightarrow> Inl (PExc AttributeError [])
            | Some t \<Rightarrow> bind_res (get_event_klass env h t) (\<lambda>k.
                Inr (context_evaluation (ci_eval k) (length (execution_result c)) (length (errors c)) ctx))))"

definition execution_failed :: "exec_env \<Rightarrow> heap \<Rightarrow> exec_ctx \<Rightarrow> pyval + bool" where
  "execution_failed env h c = evaluate_ctx env h c FAILURE"

definition execution_success :: "exec_env \<Rightarrow> heap \<Rightarrow> exec_ctx \<Rightarrow> pyval + bool" where
  "execution_success env h c = evaluate_ctx env h c SUCCESS"

section \<open>Dispatch\<close>

definition dispatch :: "exec_env \<Rightarrow> heap \<Rightarrow> nat \<Rightarrow> exec_ctx \<Rightarrow> exec_ctx \<times> (pyval \<times> bool) option \<times> exec_signal list" where
  "dispatch env h cid c =
     (let c1 = c\<lparr>ctx_state := EXECUTING\<rparr>;
          fail = (\<lambda>c l x. (abort (c\<lparr>errors := errors c @ [PExc BadPipelineError [(''exception'', x)]]\<rparr>), None,
                            l @ [SigAborted cid]))
      in case init_and_execute_events env h cid c1 of
           (Inl x, l) \<Rightarrow> fail c1 l x
         | (Inr ts, l) \<Rightarrow>
             (case process_executor_results env h cid (map (future env cid) (done_order env cid ts)) c1 of
                (c2, Done, l2) \<Rightarrow>
                  ((if ctx_state c2 = EXECUTING then c2\<lparr>ctx_state := FINISHED\<rparr> else c2), None, l @ l2)
              | (c2, Switch x b, l2) \<Rightarrow> (c2, Some (x, b), l @ l2)
              | (c2, Raised x, l2) \<Rightarrow> fail c2 (l @ l2) x))"

section \<open>Running a task\<close>

text \<open>The tasks of the context and the task the loop over the parallel chain stops at.\<close>

definition context_tasks :: "exec_env \<Rightarrow> heap \<Rightarrow> nat option \<Rightarrow> nat \<Rightarrow> (nat list \<times> nat option) option" where
  "context_tasks env h prev t =
     (case prev of
        None \<Rightarrow> Some ([t], Some t)
      | Some p \<Rightarrow>
          (case parallel_chain h (Some t) of
             None \<Rightarrow> None
           | Some (passed, last') \<Rightarrow>
               Some (if passed = [] then ([t], Some t)
                     else (task_order env (passed @ (case last' of Some n \<Rightarrow> [n] | None \<Rightarrow> [])), last'))))"

text \<open>Creating the context and linking it behind the previous one; the sink of a task is queued only
  when there is a previous context.\<close>

definition open_context :: "heap \<Rightarrow> nat option \<Rightarrow> nat \<Rightarrow> nat list \<Rightarrow> exec_state \<Rightarrow> exec_state" where
  "open_context h prev t tasks st =
     (let cid = length (contexts st)
      in case prev of
           None \<Rightarrow> st\<lparr>contexts := contexts st @ [new_context tasks], root_context := Some cid\<rparr>
         | Some p \<Rightarrow> st\<lparr>contexts := (contexts st)[p := (contexts st ! p)\<lparr>next_context := Some cid\<rparr>] @
                             [(new_context tasks)\<lparr>previous_context := Some p\<rparr>],
                        sink_queue := (case sink_node (h ! t) of Some s \<Rightarrow> s # sink_queue st | None \<Rightarrow> sink_queue st)\<rparr>)"

definition run_dispatch :: "exec_env \<Rightarrow> heap \<Rightarrow> nat \<Rightarrow> exec_state \<Rightarrow> exec_state \<times> (pyval \<times> bool) option" where
  "run_dispatch env h cid st =
     (case dispatch env h cid (contexts st ! cid) of
        (c, sw, l) \<Rightarrow> (st\<lparr>contexts := (contexts st)[cid := c], signals := signals st @ l\<rparr>, sw))"

text \<open>A parallel chain that runs off its end puts \<open>None\<close> among the tasks, and preparing it raises
  AttributeError.\<close>

definition abort_context :: "nat \<Rightarrow> exec_state \<Rightarrow> exec_state" where
  "abort_context cid st =
     st\<lparr>contexts := (contexts st)[cid := abort ((contexts st ! cid)\<lparr>errors :=
          [PExc BadPipelineError [(''exception'', PExc AttributeError [])]]\<rparr>)],
        signals := signals st @ [SigAborted cid]\<rparr>"

text \<open>Where execution goes after the dispatch: to the branch of a configured switch (with the context
  before this one as previous context), or to a child of the task.\<close>

definition next_step ::
  "exec_env \<Rightarrow> heap \<Rightarrow> nat option \<Rightarrow> nat \<Rightarrow> nat \<Rightarrow> exec_ctx \<Rightarrow> (pyval \<times> bool) option \<Rightarrow> pyval + (nat option \<times> nat option)" where
  "next_step env h prev cid task c sw =
     (case sw of
        Some (x, True) \<Rightarrow>
          (case (case switch_descriptor x of Some d \<Rightarrow> get_descriptor h task d | None \<Rightarrow> None) of
             None \<Rightarrow> Inl (PExc TaskSwitchingError [(''params'', x)])
           | Some t \<Rightarrow> Inr (Some t, prev))
      | _ \<Rightarrow>
          (if is_conditional (h ! task)
           then bind_res (execution_failed env h c) (\<lambda>f.
             Inr (if f then on_failure_event (h ! task) else on_success_event (h ! task), Some cid))
           else Inr (on_success_event (h ! task), Some cid)))"

text \<open>\<open>execute_task\<close>, with the loop over the sink queue as \<open>drain\<close>. \<open>None\<close> means that the fuel ran
  out, \<open>Inl\<close> that an exception left the call.\<close>

fun execute_task :: "nat \<Rightarrow> exec_env \<Rightarrow> heap \<Rightarrow> nat option \<Rightarrow> nat option \<Rightarrow> exec_state \<Rightarrow> (pyval + exec_state) option"
  and drain :: "nat \<Rightarrow> exec_env \<Rightarrow> heap \<Rightarrow> nat option \<Rightarrow> exec_state \<Rightarrow> (pyval + exec_state) option" where
  "execute_task 0 env h task prev st = None"
| "execute_task (Suc k) env h None prev st = drain k env h prev st"
| "execute_task (Suc k) env h (Some t) prev st =
     (case context_tasks env h prev t of
        None \<Rightarrow> None
      | Some (tasks, last') \<Rightarrow>
          (let cid = length (contexts st);
               st1 = open_context h prev t tasks st
           in case last' of
                None \<Rightarrow> Some (Inr (abort_context cid st1))
              | Some task \<Rightarrow>
                  (case run_dispatch env h cid st1 of (st2, sw) \<Rightarrow>
                    (let c = contexts st2 ! cid
                     in if ctx_state c \<in> {CANCELLED, ABORTED} then Some (Inr st2)
                        else (case next_step env h prev cid task c sw of
                                Inl x \<Rightarrow> Some (Inl x)
                              | Inr (nxt, prev') \<Rightarrow> execute_task k env h nxt prev' st2)))))"
| "drain 0 env h prev st = None"
| "drain (Suc k) env h prev st =
     (case sink_queue st of
        [] \<Rightarrow> Some (Inr st)
      | t # q \<Rightarrow>
          (case execute_task k env h (Some t) prev (st\<lparr>sink_queue := q\<rparr>) of
             None \<Rightarrow> None
           | Some (Inl x) \<Rightarrow> Some (Inl x)
           | Some (Inr st2) \<Rightarrow> drain k env h prev st2))"

definition init_exec :: exec_state where
  "init_exec = \<lparr>contexts = [], root_context = None, sink_queue = [], signals = []\<rparr>"

section \<open>Walking the contexts\<close>

text \<open>\<open>get_execution_context_head\<close>, \<open>__iter__\<close> and \<open>get_latest_execution_context\<close>, with the number of
  contexts as fuel.\<close>

fun head_fuel :: "nat \<Rightarrow> exec_ctx list \<Rightarrow> nat \<Rightarrow> nat option" where
  "head_fuel 0 cs c = None"
| "head_fuel (Suc k) cs c = (case previous_context (cs ! c) of None \<Rightarrow> Some c | Some p \<Rightarrow> head_fuel k cs p)"

fun iter_fuel :: "nat \<Rightarrow> exec_ctx list \<Rightarrow> nat \<Rightarrow> nat list option" where
  "iter_fuel 0 cs c = None"
| "iter_fuel (Suc k) cs c =
     map_option ((#) c) (case next_context (cs ! c) of None \<Rightarrow> Some [] | Some n \<Rightarrow> iter_fuel k cs n)"

definition get_execution_context_head :: "exec_ctx list \<Rightarrow> nat \<Rightarrow> nat option" where
  "get_execution_context_head cs c = head_fuel (Suc (length cs)) cs c"

definition iterate_contexts :: "exec_ctx list \<Rightarrow> nat \<Rightarrow> nat list option" where
  "iterate_contexts cs c = iter_fuel (Suc (length cs)) cs c"

definition get_latest_execution_context :: "exec_ctx list \<Rightarrow> nat \<Rightarrow> nat option" where
  "get_latest_execution_context cs c =
     (case get_execution_context_head cs c of
        None \<Rightarrow> None
      | Some hd' \<Rightarrow> map_option last (iterate_contexts cs hd'))"

text \<open>\<open>filter_by_event\<close> looks for the class it resolved among the \<open>event\<close> attributes of the tasks; tasks
  built from a pipeline definition hold the name.\<close>

datatype event_ref = NameRef string | ClassRef string

definition task_event_ref :: "heap \<Rightarrow> nat \<Rightarrow> event_ref" where
  "task_event_ref h t = NameRef (event (h ! t))"

definition filter_by_event :: "exec_env \<Rightarrow> heap \<Rightarrow> exec_ctx list \<Rightarrow> nat \<Rightarrow> string \<Rightarrow> (pyval + nat list) option" where
  "filter_by_event env h cs c name =
     (case get_execution_context_head cs c of
        None \<Rightarrow> None
      | Some hd' \<Rightarrow>
          (case find (\<lambda>(k, i). str_lower k = str_lower name) (registry env) of
             None \<Rightarrow> Some (Inl (PExc EventDoesNotExist []))
           | Some (k, i) \<Rightarrow>
               map_option (\<lambda>ids. Inr (filter (\<lambda>i. ClassRef k \<in> set (map (task_event_ref h) (task_profiles (cs ! i)))) ids))
                 (iterate_contexts cs hd')))"

end
