(* ===== verification/Execution_Tree.thy ===== *)
theory Execution_Tree
  imports Execution Task_Tree "HOL-Library.Multiset"
begin

text \<open>
  Execution on a task tree. \<open>below t n\<close> lists the subtree of the tree \<open>t\<close> at the node
  \<open>n\<close>. The budget of a state, the tasks already run together with the subtrees still pending,
  never grows as a multiset; since it starts as the tree itself, no task runs twice, and the sum of the
  pending sizes bounds the recursion.
\<close>

section \<open>Subtrees\<close>

definition below :: "ttree \<Rightarrow> nat \<Rightarrow> nat list" where
  "below t n = n # ids_list (find_kids n t)"

lemma find_kids_root [simp]: "find_kids (tid t) t = kids t"
  by (cases t) simp

lemma below_root: "below t (tid t) = ids t"
  by (cases t) (simp add: below_def)

lemma ids_child_unique:
  assumes "distinct (ids_list ts)" and "k \<in> set ts" and "c \<in> set ts" and "n \<in> set (ids k)" and "n \<in> set (ids c)"
  shows "k = c"
  using assms
proof (induction ts)
  case (Cons x ts)
  have "set (ids x) \<inter> set (ids_list ts) = {}" using Cons.prems(1) by simp
  then show ?case using Cons by auto
qed simp

lemma find_kids_sub_ids:
  "k \<in> set (find_kids n t) \<Longrightarrow> set (ids k) \<subseteq> set (ids t)"
  using find_kids_sub[of n t] by auto

lemma find_kids_self:
  "distinct (ids t) \<Longrightarrow> n \<in> set (ids t) \<Longrightarrow> k \<in> set (find_kids n t) \<Longrightarrow> find_kids (tid k) t = kids k"
proof (induction t rule: ids.induct)
  case (1 i ts)
  show ?case
  proof (cases "i = n")
    case True
    then have k: "k \<in> set ts" using 1(4) by simp
    then have "tid k \<in> set (ids_list ts)" by force
    then have "tid k \<in> set (ids (TNode i ts))" "i \<noteq> tid k" using 1(2) by auto
    with 1(2) obtain us c vs where ts: "ts = us @ c # vs" "tid k \<in> set (ids c)"
      "find_kids (tid k) (TNode i ts) = find_kids (tid k) c" by (rule kids_descend)
    moreover have "k = c" using ids_child_unique[of ts k c "tid k"] 1(2) k ts(1,2) by simp
    ultimately show ?thesis by simp
  next
    case False
    with 1(2,3) obtain us c vs where ts: "ts = us @ c # vs" "n \<in> set (ids c)" "distinct (ids c)"
      "find_kids n (TNode i ts) = find_kids n c" by (rule kids_descend)
    then have IH: "find_kids (tid k) c = kids k" using 1 by simp
    have kc: "tid k \<in> set (ids c)" using find_kids_sub_ids[of k n c] 1(4) ts(4) tid_in_ids[of k] by auto
    then have "tid k \<in> set (ids (TNode i ts))" "i \<noteq> tid k" using 1(2) ts(1) by auto
    with 1(2) obtain us' c' vs' where "ts = us' @ c' # vs'" "tid k \<in> set (ids c')"
      "find_kids (tid k) (TNode i ts) = find_kids (tid k) c'" by (rule kids_descend)
    moreover have "c = c'"
    proof (rule ids_child_unique[of ts])
      show "distinct (ids_list ts)" using 1(2) by simp
      show "c \<in> set ts" using ts(1) by simp
      show "c' \<in> set ts" using calculation(1) by simp
    qed (use kc calculation(2) in simp_all)
    ultimately show ?thesis using IH by simp
  qed
qed

lemma below_children:
  assumes "task_tree lo h t" and "n \<in> set (ids t)"
  shows "below t n = n # concat (map (below t) (get_children (h ! n)))"
proof -
  have t: "repr h None t" "distinct (ids t)" using assms(1) by (auto simp: task_tree_def)
  have "below t (tid k) = ids k" if "k \<in> set (find_kids n t)" for k
    using find_kids_self[OF t(2) assms(2) that] by (cases k) (simp add: below_def)
  then have "map (below t) (map tid (find_kids n t)) = map ids (find_kids n t)" by simp
  then show ?thesis using repr_find_kids[OF t assms(2)] by (simp add: below_def del: map_map)
qed

lemma below_bound:
  assumes "task_tree lo h t" and "n \<in> set (ids t)"
  shows "length (below t n) \<le> length h"
proof -
  have t: "repr h None t" "distinct (ids t)" using assms(1) by (auto simp: task_tree_def)
  have "distinct (below t n)" using repr_find_kids_distinct[OF t(2) assms(2)] by (simp add: below_def)
  moreover have "set (below t n) \<subseteq> set (ids t)"
    using find_kids_sub[of n t] assms(2) by (simp add: below_def)
  then have "set (below t n) \<subseteq> {..<length h}" using task_tree_bound[OF assms(1)] by blast
  ultimately show ?thesis using card_mono[of "{..<length h}" "set (below t n)"] by (simp add: distinct_card)
qed

text \<open>The subtrees of some children fit into the subtree of their parent.\<close>

abbreviation bag :: "ttree \<Rightarrow> nat list \<Rightarrow> nat multiset" where
  "bag t ns \<equiv> mset (concat (map (below t) ns))"

lemma bag_children:
  assumes "task_tree lo h t" and "n \<in> set (ids t)" and "mset cs \<subseteq># mset (get_children (h ! n))"
  shows "add_mset n (bag t cs) \<subseteq># mset (below t n)"
proof -
  have "bag t ns = sum_mset (image_mset (\<lambda>c. mset (below t c)) (mset ns))" for ns
    by (induction ns) auto
  moreover from assms(3) obtain D where "mset (get_children (h ! n)) = mset cs + D" by (metis subset_mset.add_diff_inverse)
  ultimately have "bag t (get_children (h ! n)) = bag t cs + sum_mset (image_mset (\<lambda>c. mset (below t c)) D)"
    by simp
  then show ?thesis unfolding below_children[OF assms(1,2)] by simp
qed

definition child_bag :: "heap \<Rightarrow> nat \<Rightarrow> nat list \<Rightarrow> bool" where
  "child_bag h n cs \<longleftrightarrow> mset cs \<subseteq># mset (get_children (h ! n))"

lemma child_bag_single: "c \<in> set (get_children (h ! n)) \<Longrightarrow> child_bag h n [c]"
  by (simp add: child_bag_def)

lemma child_fields:
  "on_success_event (h ! n) = Some c \<Longrightarrow> c \<in> set (get_children (h ! n))"
  "on_failure_event (h ! n) = Some c \<Longrightarrow> c \<in> set (get_children (h ! n))"
  "sink_node (h ! n) = Some c \<Longrightarrow> c \<in> set (get_children (h ! n))"
  "get_descriptor h n d = Some c \<Longrightarrow> c \<in> set (get_children (h ! n))"
proof -
  show "get_descriptor h n d = Some c \<Longrightarrow> c \<in> set (get_children (h ! n))"
    by (auto simp: get_children_def get_descriptor_def get_descriptor_config_def get_descriptors_def
        split: if_splits dest!: dict_values_mem)
qed (auto simp: get_children_def)

lemma child_bag_sink:
  assumes "sink_node (h ! n) = Some s"
    and "on_success_event (h ! n) = Some c \<or> on_failure_event (h ! n) = Some c \<or> get_descriptor h n d = Some c"
  shows "child_bag h n [s, c]"
proof -
  have "get_descriptor h n d = Some c \<Longrightarrow> on_failure_event (h ! n) = Some c \<or> on_success_event (h ! n) = Some c \<or>
      c \<in> set (map dc_task (get_descriptors (extra (h ! n))))"
    by (auto simp: get_descriptor_def get_descriptor_config_def get_descriptors_def split: if_splits dest!: dict_values_mem)
  with assms show ?thesis by (auto simp: child_bag_def get_children_def)
qed

section \<open>The parallel chain\<close>

lemma child_in_tree:
  "task_tree lo h t \<Longrightarrow> n \<in> set (ids t) \<Longrightarrow> c \<in> set (get_children (h ! n)) \<Longrightarrow> c \<in> set (ids t)"
  using task_tree_child by blast

lemma below_child_le:
  assumes "task_tree lo h t" and "n \<in> set (ids t)" and "c \<in> set (get_children (h ! n))"
  shows "add_mset n (mset (below t c)) \<subseteq># mset (below t n)" and "length (below t c) < length (below t n)"
proof -
  show le: "add_mset n (mset (below t c)) \<subseteq># mset (below t n)"
    using bag_children[OF assms(1,2), of "[c]"] child_bag_single[OF assms(3)] by (simp add: child_bag_def)
  show "length (below t c) < length (below t n)" using size_mset_mono[OF le] by simp
qed

definition opt :: "'a option \<Rightarrow> 'a list" where
  "opt x = (case x of None \<Rightarrow> [] | Some y \<Rightarrow> [y])"

lemma opt_simps [simp]: "opt None = []" "opt (Some y) = [y]"
  by (simp_all add: opt_def)

lemma add_mset_le_trans: "X \<subseteq># Y \<Longrightarrow> add_mset n Y \<subseteq># Z \<Longrightarrow> add_mset n X \<subseteq># Z"
  by (meson mset_subset_eq_add_mset_cancel subset_mset.order_trans)

lemma parallel_chain_fuel_tree:
  assumes "task_tree lo h t" and "n \<in> set (ids t)" and "length (below t n) < k"
  shows "\<exists>passed l. parallel_chain_fuel k h (Some n) = Some (passed, l) \<and> set (opt l) \<subseteq> set (ids t) \<and>
    mset passed + bag t (opt l) \<subseteq># mset (below t n) \<and> (passed = [] \<longrightarrow> l = Some n)"
  using assms(2,3)
proof (induction k arbitrary: n)
  case (Suc k)
  show ?case
  proof (cases "on_success_pipe (h ! n) = Some PT_PARALLELISM")
    case False
    then show ?thesis using Suc.prems(1) by simp
  next
    case True
    show ?thesis
    proof (cases "on_success_event (h ! n)")
      case None
      have "k \<noteq> 0" using Suc.prems(2) by (simp add: below_def)
      then have "parallel_chain_fuel k h None = Some ([], None)" by (cases k) auto
      then show ?thesis using True None by (simp add: below_def)
    next
      case (Some c)
      note ch = child_fields(1)[OF Some]
      have c: "c \<in> set (ids t)" using child_in_tree[OF assms(1) Suc.prems(1) ch] .
      note le = below_child_le[OF assms(1) Suc.prems(1) ch]
      then have "length (below t c) < k" using Suc.prems(2) by simp
      from Suc.IH[OF c this] obtain passed l where pl: "parallel_chain_fuel k h (Some c) = Some (passed, l)"
        "set (opt l) \<subseteq> set (ids t)" "mset passed + bag t (opt l) \<subseteq># mset (below t c)" by blast
      from add_mset_le_trans[OF pl(3) le(1)] show ?thesis using True Some pl by simp
    qed
  qed
qed simp

lemma parallel_chain_tree:
  assumes "task_tree lo h t" and "n \<in> set (ids t)"
  shows "\<exists>passed l. parallel_chain h (Some n) = Some (passed, l) \<and> set (opt l) \<subseteq> set (ids t) \<and>
    mset passed + bag t (opt l) \<subseteq># mset (below t n) \<and> (passed = [] \<longrightarrow> l = Some n)"
  unfolding parallel_chain_def
  by (rule parallel_chain_fuel_tree[OF assms]) (use below_bound[OF assms] in simp)

text \<open>The chain lies in the success branch, so the sink fits beside it.\<close>

lemma parallel_chain_sink:
  assumes "task_tree lo h t" and "n \<in> set (ids t)" and "parallel_chain h (Some n) = Some (passed, l)"
    and "passed \<noteq> []"
  shows "mset passed + bag t (opt l) + bag t (opt (sink_node (h ! n))) \<subseteq># mset (below t n)"
proof -
  from assms(3,4) have p: "on_success_pipe (h ! n) = Some PT_PARALLELISM"
    by (auto simp: parallel_chain_def split: if_splits)
  with assms(3) obtain ps where ps: "passed = n # ps" "parallel_chain_fuel (length h) h (on_success_event (h ! n)) = Some (ps, l)"
    by (auto simp: parallel_chain_def)
  show ?thesis
  proof (cases "on_success_event (h ! n)")
    case None
    then have "ps = []" "l = None" using ps(2) by (cases "length h"; auto)+
    moreover have "child_bag h n (opt (sink_node (h ! n)))" by (cases "sink_node (h ! n)") (auto simp: child_bag_def child_fields)
    ultimately show ?thesis using bag_children[OF assms(1,2)] ps(1) by (simp add: child_bag_def)
  next
    case (Some c)
    note ch = child_fields(1)[OF Some]
    have cc: "c \<in> set (ids t)" using child_in_tree[OF assms(1,2) ch] .
    have "length (below t c) < length h" using below_child_le(2)[OF assms(1,2) ch] below_bound[OF assms(1,2)] by simp
    from parallel_chain_fuel_tree[OF assms(1) cc this] ps(2) Some
    have le: "mset ps + bag t (opt l) \<subseteq># mset (below t c)" by auto
    have "child_bag h n (opt (sink_node (h ! n)) @ [c])"
      using child_bag_sink[of h n _ c 0] Some child_bag_single[OF ch] by (cases "sink_node (h ! n)") auto
    then have "add_mset n (bag t (opt (sink_node (h ! n))) + mset (below t c)) \<subseteq># mset (below t n)"
      using bag_children[OF assms(1,2), of "opt (sink_node (h ! n)) @ [c]"] by (simp add: child_bag_def)
    moreover have "bag t (opt (sink_node (h ! n))) + (mset ps + bag t (opt l)) \<subseteq>#
        bag t (opt (sink_node (h ! n))) + mset (below t c)" using le by simp
    ultimately have "add_mset n (bag t (opt (sink_node (h ! n))) + (mset ps + bag t (opt l))) \<subseteq># mset (below t n)"
      by (rule add_mset_le_trans[rotated])
    then show ?thesis using ps(1) by (simp add: ac_simps)
  qed
qed

section \<open>One step\<close>

definition succ_of :: "heap \<Rightarrow> nat \<Rightarrow> nat option \<Rightarrow> bool" where
  "succ_of h n nxt \<longleftrightarrow> nxt = None \<or> nxt = on_success_event (h ! n) \<or> nxt = on_failure_event (h ! n) \<or> (\<exists>d. nxt = get_descriptor h n d)"

lemma succ_of_child: "succ_of h n (Some c) \<Longrightarrow> c \<in> set (get_children (h ! n))"
  by (auto simp: succ_of_def child_fields dest: sym)

lemma succ_of_sink: "succ_of h n nxt \<Longrightarrow> child_bag h n (opt (sink_node (h ! n)) @ opt nxt)"
proof (cases nxt; cases "sink_node (h ! n)")
  fix c s assume "succ_of h n nxt" "nxt = Some c" "sink_node (h ! n) = Some s"
  then show ?thesis using child_bag_sink[of h n s c] by (auto simp: succ_of_def dest: sym)
qed (auto simp: child_bag_def child_fields dest: succ_of_child)

lemma next_step_succ:
  "next_step env h prev cid task c sw = Inr (nxt, prev') \<Longrightarrow> succ_of h task nxt \<and> (prev' = prev \<or> prev' = Some cid)"
  by (auto simp: next_step_def succ_of_def res_simps split: option.splits prod.splits bool.splits if_splits)

text \<open>The environment iterates a set in some order, leaving nothing out and adding nothing.\<close>

definition fair_env :: "exec_env \<Rightarrow> bool" where
  "fair_env env \<longleftrightarrow> (\<forall>xs. mset (task_order env xs) = mset xs) \<and> (\<forall>c xs. mset (done_order env c xs) = mset xs)"

lemma context_tasks_tree:
  assumes t: "task_tree lo h t" and n: "n \<in> set (ids t)" and env: "fair_env env"
  shows "\<exists>tasks l. context_tasks env h prev n = Some (tasks, l) \<and> tasks \<noteq> [] \<and> set (opt l) \<subseteq> set (ids t) \<and>
    (\<forall>m nxt. l = Some m \<longrightarrow> succ_of h m nxt \<longrightarrow>
       mset tasks + bag t (opt nxt) + (if prev = None then {#} else bag t (opt (sink_node (h ! n)))) \<subseteq># mset (below t n)) \<and>
    (l = None \<longrightarrow> mset tasks + (if prev = None then {#} else bag t (opt (sink_node (h ! n)))) \<subseteq># mset (below t n))"
proof -
  have one: "add_mset n (bag t (opt nxt) + bag t (opt (sink_node (h ! n)))) \<subseteq># mset (below t n)"
    "add_mset n (bag t (opt nxt)) \<subseteq># mset (below t n)" if "succ_of h n nxt" for nxt
  proof -
    have "child_bag h n (opt (sink_node (h ! n)) @ opt nxt)" by (rule succ_of_sink[OF that])
    then show *: "add_mset n (bag t (opt nxt) + bag t (opt (sink_node (h ! n)))) \<subseteq># mset (below t n)"
      using bag_children[OF t n, of "opt (sink_node (h ! n)) @ opt nxt"] by (simp add: child_bag_def ac_simps)
    show "add_mset n (bag t (opt nxt)) \<subseteq># mset (below t n)"
      by (rule add_mset_le_trans[OF mset_subset_eq_add_left *])
  qed
  show ?thesis
  proof (cases prev)
    case None
    then show ?thesis using one(2) n by (auto simp: context_tasks_def)
  next
    case (Some p)
    obtain passed l where pl: "parallel_chain h (Some n) = Some (passed, l)" "set (opt l) \<subseteq> set (ids t)"
      "passed = [] \<longrightarrow> l = Some n"
      using parallel_chain_tree[OF t n] by blast
    show ?thesis
    proof (cases "passed = []")
      case True
      then show ?thesis using one(1) n Some pl by (auto simp: context_tasks_def)
    next
      case False
      note sink = parallel_chain_sink[OF t n pl(1) False]
      have ct: "context_tasks env h prev n = Some (task_order env (passed @ opt l), l)"
        using Some pl(1) False by (simp add: context_tasks_def opt_def)
      have ms: "mset (task_order env (passed @ opt l)) = mset passed + mset (opt l)"
        using env by (simp add: fair_env_def)
      then have ne: "task_order env (passed @ opt l) \<noteq> []" using False by auto
      have "mset passed + mset (opt l) + bag t (opt nxt) + bag t (opt (sink_node (h ! n))) \<subseteq># mset (below t n)"
        if l: "l = Some m" and sc: "succ_of h m nxt" for m nxt
      proof -
        have m: "m \<in> set (ids t)" using pl(2) l by simp
        have "child_bag h m (opt nxt)" using sc by (cases nxt) (auto simp: child_bag_def dest: succ_of_child)
        then have "add_mset m (bag t (opt nxt)) \<subseteq># mset (below t m)"
          using bag_children[OF t m] by (simp add: child_bag_def)
        then have "mset passed + bag t (opt (sink_node (h ! n))) + add_mset m (bag t (opt nxt)) \<subseteq>#
            mset passed + bag t (opt (sink_node (h ! n))) + mset (below t m)" by simp
        also have "\<dots> \<subseteq># mset (below t n)" using sink l by (simp add: ac_simps)
        finally show ?thesis using l by (simp add: ac_simps)
      qed
      then show ?thesis using ct ms ne pl(2) Some sink by auto
    qed
  qed
qed

section \<open>The budget\<close>

definition tasks_run :: "exec_state \<Rightarrow> nat list" where
  "tasks_run st = concat (map task_profiles (contexts st))"

text \<open>What dispatching leaves alone in a context.\<close>

definition same_place :: "exec_ctx \<Rightarrow> exec_ctx \<Rightarrow> bool" where
  "same_place c d \<longleftrightarrow> task_profiles d = task_profiles c \<and> previous_context d = previous_context c \<and> next_context d = next_context c"

lemma same_place_updates [simp]:
  "same_place c c" "same_place c (d\<lparr>ctx_state := s\<rparr>) = same_place c d" "same_place c (d\<lparr>errors := es\<rparr>) = same_place c d"
  "same_place c (cancel d) = same_place c d" "same_place c (abort d) = same_place c d"
  "same_place c (add_result r d) = same_place c d"
  by (simp_all add: same_place_def cancel_def abort_def add_result_def)

lemma process_results_place:
  "same_place c d \<Longrightarrow> same_place c (fst (process_executor_results env h cid outs d))"
proof (induction outs arbitrary: d)
  case (Cons out outs)
  then show ?case
    by (auto simp: Let_def split: sum.split prod.split option.split if_split) (metis fst_conv same_place_updates(4,6))+
qed simp

lemma dispatch_place: "same_place c (fst (dispatch env h cid c))"
proof -
  have "same_place c (fst (process_executor_results env h cid outs (c\<lparr>ctx_state := EXECUTING\<rparr>)))" for outs
    by (rule process_results_place) simp
  then show ?thesis
    by (auto simp: dispatch_def Let_def split: prod.split sum.split ending.split) (metis fst_conv)+
qed

lemma tasks_run_update: "same_place (contexts st ! i) c \<Longrightarrow> concat (map task_profiles ((contexts st)[i := c])) = tasks_run st"
  unfolding tasks_run_def same_place_def
  by (metis list_update_beyond list_update_id map_update not_le_imp_less)

lemma run_dispatch_frame:
  assumes "run_dispatch env h cid st = (st2, sw)"
  shows "tasks_run st2 = tasks_run st" "sink_queue st2 = sink_queue st" "length (contexts st2) = length (contexts st)"
  using assms tasks_run_update[of st cid] dispatch_place[of "contexts st ! cid" env h cid]
  by (auto simp: run_dispatch_def tasks_run_def split: prod.splits)

lemma open_context_frame:
  "tasks_run (open_context h prev n tasks st) = tasks_run st @ tasks"
  "sink_queue (open_context h prev n tasks st) = (if prev = None then [] else opt (sink_node (h ! n))) @ sink_queue st"
  "length (contexts (open_context h prev n tasks st)) = Suc (length (contexts st))"
proof -
  have "concat (map task_profiles ((contexts st)[p := (contexts st ! p)\<lparr>next_context := q\<rparr>])) = tasks_run st" for p q
    unfolding tasks_run_def by (metis exec_ctx.select_convs(1) exec_ctx.surjective exec_ctx.update_convs(5) list_update_beyond list_update_id map_update not_le_imp_less)
  then show "tasks_run (open_context h prev n tasks st) = tasks_run st @ tasks"
    by (auto simp: open_context_def Let_def tasks_run_def new_context_def split: option.split)
qed (auto simp: open_context_def Let_def opt_def split: option.split)

lemma abort_context_frame:
  "tasks_run (abort_context cid st) = tasks_run st" "sink_queue (abort_context cid st) = sink_queue st"
  using tasks_run_update[of st cid] by (simp_all add: abort_context_def tasks_run_def same_place_def abort_def)

definition stays_within :: "ttree \<Rightarrow> exec_state \<Rightarrow> nat option \<Rightarrow> pyval + exec_state \<Rightarrow> bool" where
  "stays_within t st task r \<longleftrightarrow> (\<forall>st'. r = Inr st' \<longrightarrow>
     set (sink_queue st') \<subseteq> set (ids t) \<and>
     mset (tasks_run st') + bag t (sink_queue st') \<subseteq># mset (tasks_run st) + bag t (opt task @ sink_queue st) \<and>
     length (tasks_run st) + length (opt task) \<le> length (tasks_run st'))"

lemma stays_within_raise [simp]: "stays_within t st task (Inl x)"
  by (simp add: stays_within_def)

lemma stays_within_trans:
  assumes "set (sink_queue st2) \<subseteq> set (ids t)"
    and "mset (tasks_run st2) + bag t (opt nxt @ sink_queue st2) \<subseteq># mset (tasks_run st) + bag t (opt task @ sink_queue st)"
    and "length (tasks_run st) + length (opt task) \<le> length (tasks_run st2)" and "stays_within t st2 nxt r"
  shows "stays_within t st task r"
  unfolding stays_within_def
proof (intro allI impI)
  fix st' assume "r = Inr st'"
  with assms(4) have w: "set (sink_queue st') \<subseteq> set (ids t)"
    "mset (tasks_run st') + bag t (sink_queue st') \<subseteq># mset (tasks_run st2) + bag t (opt nxt @ sink_queue st2)"
    "length (tasks_run st2) + length (opt nxt) \<le> length (tasks_run st')"
    unfolding stays_within_def by blast+
  have "mset (tasks_run st') + bag t (sink_queue st') \<subseteq># mset (tasks_run st) + bag t (opt task @ sink_queue st)"
    using w(2) assms(2) by (rule subset_mset.order_trans)
  moreover have "length (tasks_run st) + length (opt task) \<le> length (tasks_run st')" using w(3) assms(3) by linarith
  ultimately show "set (sink_queue st') \<subseteq> set (ids t) \<and>
     mset (tasks_run st') + bag t (sink_queue st') \<subseteq># mset (tasks_run st) + bag t (opt task @ sink_queue st) \<and>
     length (tasks_run st) + length (opt task) \<le> length (tasks_run st')" using w(1) by blast
qed

definition load :: "ttree \<Rightarrow> nat option \<Rightarrow> exec_state \<Rightarrow> nat" where
  "load t task st = length (concat (map (below t) (opt task @ sink_queue st)))"

lemma load_decreases:
  assumes "mset (tasks_run st2) + bag t (opt nxt @ sink_queue st2) \<subseteq># mset (tasks_run st) + bag t (opt task @ sink_queue st)"
    and "length (tasks_run st) < length (tasks_run st2)"
  shows "load t nxt st2 < load t task st"
  using size_mset_mono[OF assms(1)] assms(2) by (simp add: load_def)

lemma execute_task_step:
  assumes t: "task_tree lo h t" and env: "fair_env env" and n: "n \<in> set (ids t)" and q: "set (sink_queue st) \<subseteq> set (ids t)"
    and IH: "\<And>nxt prev' st2. set (opt nxt) \<subseteq> set (ids t) \<Longrightarrow> set (sink_queue st2) \<subseteq> set (ids t) \<Longrightarrow>
       load t nxt st2 < load t (Some n) st \<Longrightarrow>
       \<exists>r. execute_task k env h nxt prev' st2 = Some r \<and> stays_within t st2 nxt r"
  shows "\<exists>r. execute_task (Suc k) env h (Some n) prev st = Some r \<and> stays_within t st (Some n) r"
proof -
  obtain tasks l where ct: "context_tasks env h prev n = Some (tasks, l)" "tasks \<noteq> []" "set (opt l) \<subseteq> set (ids t)"
    and le: "\<And>m nxt. l = Some m \<Longrightarrow> succ_of h m nxt \<Longrightarrow>
       mset tasks + bag t (opt nxt) + (if prev = None then {#} else bag t (opt (sink_node (h ! n)))) \<subseteq># mset (below t n)"
    and le0: "l = None \<Longrightarrow> mset tasks + (if prev = None then {#} else bag t (opt (sink_node (h ! n)))) \<subseteq># mset (below t n)"
    using context_tasks_tree[OF t n env, of prev] by blast
  define st1 where "st1 = open_context h prev n tasks st"
  have fr: "tasks_run st1 = tasks_run st @ tasks"
    "sink_queue st1 = (if prev = None then [] else opt (sink_node (h ! n))) @ sink_queue st"
    unfolding st1_def by (rule open_context_frame)+
  have q1: "set (sink_queue st1) \<subseteq> set (ids t)"
    using q child_in_tree[OF t n child_fields(3)] by (cases "sink_node (h ! n)") (auto simp: fr(2))
  have bud: "mset (tasks_run st2) + bag t (opt nxt @ sink_queue st2) \<subseteq># mset (tasks_run st) + bag t (opt (Some n) @ sink_queue st)"
    if "tasks_run st2 = tasks_run st1" "sink_queue st2 = sink_queue st1"
      "mset tasks + bag t (opt nxt) + (if prev = None then {#} else bag t (opt (sink_node (h ! n)))) \<subseteq># mset (below t n)" for st2 nxt
  proof -
    have "mset (tasks_run st2) + bag t (opt nxt @ sink_queue st2) = mset (tasks_run st) + bag t (sink_queue st) +
       (mset tasks + bag t (opt nxt) + (if prev = None then {#} else bag t (opt (sink_node (h ! n)))))"
      using that(1,2) fr by (simp add: ac_simps)
    also have "\<dots> \<subseteq># mset (tasks_run st) + bag t (sink_queue st) + mset (below t n)" using that(3) by simp
    finally show ?thesis by (simp add: ac_simps)
  qed
  have len: "length (tasks_run st) + length (opt (Some n)) \<le> length (tasks_run st1)" using fr(1) ct(2) by (cases tasks) auto
  have stop: "stays_within t st (Some n) (Inr st2)" if "tasks_run st2 = tasks_run st1" "sink_queue st2 = sink_queue st1"
    "mset tasks + (if prev = None then {#} else bag t (opt (sink_node (h ! n)))) \<subseteq># mset (below t n)" for st2
    using bud[OF that(1,2), of None] that len q1 by (simp add: stays_within_def)
  show ?thesis
  proof (cases l)
    case None
    then show ?thesis using ct(1) stop[OF abort_context_frame le0] by (simp add: Let_def st1_def)
  next
    case (Some m)
    obtain st2 sw where d: "run_dispatch env h (length (contexts st)) st1 = (st2, sw)" by (cases "run_dispatch env h (length (contexts st)) st1")
    note fr2 = run_dispatch_frame[OF d]
    define c where "c = contexts st2 ! length (contexts st)"
    have eq: "execute_task (Suc k) env h (Some n) prev st =
      (if ctx_state c \<in> {CANCELLED, ABORTED} then Some (Inr st2)
       else case next_step env h prev (length (contexts st)) m c sw of Inl x \<Rightarrow> Some (Inl x)
            | Inr (nxt, prev') \<Rightarrow> execute_task k env h nxt prev' st2)"
      using ct(1) Some d by (simp add: Let_def st1_def c_def)
    show ?thesis
    proof (cases "ctx_state c \<in> {CANCELLED, ABORTED}")
      case True
      then show ?thesis using eq stop[OF fr2(1,2)] le[OF Some, of None] by (simp add: succ_of_def)
    next
      case False
      show ?thesis
      proof (cases "next_step env h prev (length (contexts st)) m c sw")
        case (Inl x)
        then show ?thesis using eq False by simp
      next
        case (Inr y)
        then obtain nxt prev' where y: "next_step env h prev (length (contexts st)) m c sw = Inr (nxt, prev')" by (cases y) simp
        note sc = conjunct1[OF next_step_succ[OF y]]
        note b = bud[OF fr2(1,2) le[OF Some sc]]
        have "set (opt nxt) \<subseteq> set (ids t)"
          using sc child_in_tree[OF t, of m] ct(3) Some by (cases nxt) (auto dest: succ_of_child)
        moreover have "load t nxt st2 < load t (Some n) st"
          by (rule load_decreases[OF b]) (use len fr2(1) in simp)
        ultimately obtain r where r: "execute_task k env h nxt prev' st2 = Some r" "stays_within t st2 nxt r"
          using IH[of nxt st2 prev'] q1 fr2(2) by auto
        have "stays_within t st (Some n) r"
          by (rule stays_within_trans[OF _ b _ r(2)]) (use q1 fr2(1,2) len in simp_all)
        then show ?thesis using eq False y r(1) by auto
      qed
    qed
  qed
qed

lemma run_within:
  assumes t: "task_tree lo h t" and env: "fair_env env"
  shows "set (opt task) \<subseteq> set (ids t) \<Longrightarrow> set (sink_queue st) \<subseteq> set (ids t) \<Longrightarrow>
      3 * load t task st + (if task = None then 2 else 0) \<le> k \<Longrightarrow>
      \<exists>r. execute_task k env h task prev st = Some r \<and> stays_within t st task r"
    and "set (sink_queue st) \<subseteq> set (ids t) \<Longrightarrow> 3 * load t None st + 1 \<le> k \<Longrightarrow>
      \<exists>r. drain k env h prev st = Some r \<and> stays_within t st None r"
proof (induction k arbitrary: prev st task and prev st)
  case 0
  {
    case 1
    then show ?case by (cases task) (auto simp: load_def below_def)
  next
    case 2
    then show ?case by simp
  }
next
  case (Suc k)
  {
    case 1
    show ?case
    proof (cases task)
      case None
      then show ?thesis using Suc.IH(2)[OF 1(2)] 1(3) by simp
    next
      case (Some n)
      show ?thesis unfolding Some
      proof (rule execute_task_step[OF t env _ 1(2)])
        show "n \<in> set (ids t)" using 1(1) Some by simp
        fix nxt prev' st2
        assume a: "set (opt nxt) \<subseteq> set (ids t)" "set (sink_queue st2) \<subseteq> set (ids t)" "load t nxt st2 < load t (Some n) st"
        have "3 * load t nxt st2 + (if nxt = None then 2 else 0) \<le> k" using a(3) 1(3) Some by (cases nxt) auto
        then show "\<exists>r. execute_task k env h nxt prev' st2 = Some r \<and> stays_within t st2 nxt r"
          by (rule Suc.IH(1)[OF a(1,2)])
      qed
    qed
  next
    case 2
    show ?case
    proof (cases "sink_queue st")
      case Nil
      then show ?thesis using 2 by (simp add: stays_within_def)
    next
      case (Cons n q)
      let ?st1 = "st\<lparr>sink_queue := q\<rparr>"
      have ld: "load t (Some n) ?st1 = load t None st" "tasks_run ?st1 = tasks_run st" using Cons by (simp_all add: load_def tasks_run_def)
      have "\<exists>r. execute_task k env h (Some n) prev ?st1 = Some r \<and> stays_within t ?st1 (Some n) r"
        by (rule Suc.IH(1)) (use 2 Cons ld in auto)
      then obtain r where r: "execute_task k env h (Some n) prev ?st1 = Some r" "stays_within t ?st1 (Some n) r" by blast
      show ?thesis
      proof (cases r)
        case (Inl x)
        then show ?thesis using r(1) Cons by simp
      next
        case (Inr st2)
        with r(2) have w: "set (sink_queue st2) \<subseteq> set (ids t)"
          "mset (tasks_run st2) + bag t (opt None @ sink_queue st2) \<subseteq># mset (tasks_run st) + bag t (opt None @ sink_queue st)"
          "length (tasks_run st) < length (tasks_run st2)"
          using Cons by (auto simp: stays_within_def ld(2))
        have "3 * load t None st2 + 1 \<le> k" using load_decreases[OF w(2,3)] 2(2) by simp
        then obtain r2 where r2: "drain k env h prev st2 = Some r2" "stays_within t st2 None r2"
          using Suc.IH(2)[OF w(1)] by blast
        have "stays_within t st None r2"
          by (rule stays_within_trans[OF w(1,2) _ r2(2)]) (use w(3) in simp)
        then show ?thesis using r(1) Inr Cons r2(1) by simp
      qed
    qed
  }
qed

end
