(* ===== verification/Execution_Props.thy ===== *)
theory Execution_Props
  imports Execution_Tree Task_Props
begin

text \<open>
  Properties of running a pipeline. \<open>run_invariant\<close> is the interface between invariants of the
  state and the recursion of \<open>execute_task\<close>: whoever shows that opening a context, dispatching
  it and aborting it keep a predicate gets it for the whole run. It is interpreted for the links between
  the contexts and for the book-keeping inside them.
\<close>

section \<open>Invariants of a run\<close>

definition prev_ok :: "nat option \<Rightarrow> exec_state \<Rightarrow> bool" where
  "prev_ok prev st \<longleftrightarrow> (\<forall>p. prev = Some p \<longrightarrow> p < length (contexts st))"

locale run_invariant =
  fixes J :: "exec_state \<Rightarrow> bool" and env :: exec_env and h :: heap
  assumes queue: "J st \<Longrightarrow> J (st\<lparr>sink_queue := q\<rparr>)"
    and aborted: "J st \<Longrightarrow> prev_ok prev st \<Longrightarrow> context_tasks env h prev n = Some (tasks, l) \<Longrightarrow>
      J (abort_context (length (contexts st)) (open_context h prev n tasks st))"
    and dispatched: "J st \<Longrightarrow> prev_ok prev st \<Longrightarrow> context_tasks env h prev n = Some (tasks, l) \<Longrightarrow>
      run_dispatch env h (length (contexts st)) (open_context h prev n tasks st) = (st2, sw) \<Longrightarrow> J st2"
begin

lemma run:
  "J st \<Longrightarrow> prev_ok prev st \<Longrightarrow> execute_task k env h task prev st = Some (Inr st') \<Longrightarrow>
     J st' \<and> length (contexts st) \<le> length (contexts st')"
  "J st \<Longrightarrow> prev_ok prev st \<Longrightarrow> drain k env h prev st = Some (Inr st') \<Longrightarrow>
     J st' \<and> length (contexts st) \<le> length (contexts st')"
proof (induction k arbitrary: prev st task st' and prev st st')
  case (Suc k)
  {
    case 1
    show ?case
    proof (cases task)
      case None
      then show ?thesis using Suc.IH(2)[OF 1(1,2)] 1(3) by simp
    next
      case (Some n)
      from 1(3) Some obtain tasks l where ct: "context_tasks env h prev n = Some (tasks, l)"
        by (auto split: option.splits)
      let ?st1 = "open_context h prev n tasks st"
      show ?thesis
      proof (cases l)
        case None
        then have "st' = abort_context (length (contexts st)) ?st1" using 1(3) Some ct by (simp add: Let_def)
        then show ?thesis using aborted[OF 1(1,2) ct] open_context_frame(3)[of h prev n tasks st]
          by (simp add: abort_context_def)
      next
        case (Some m)
        obtain st2 sw where d: "run_dispatch env h (length (contexts st)) ?st1 = (st2, sw)"
          by (cases "run_dispatch env h (length (contexts st)) ?st1")
        have J2: "J st2" using dispatched[OF 1(1,2) ct d] .
        have l2: "length (contexts st2) = Suc (length (contexts st))"
          using run_dispatch_frame(3)[OF d] open_context_frame(3)[of h prev n tasks st] by simp
        then have ok2: "prev_ok prev st2" "prev_ok (Some (length (contexts st))) st2" using 1(2) by (auto simp: prev_ok_def)
        show ?thesis
        proof (cases "st' = st2")
          case True
          then show ?thesis using J2 l2 by simp
        next
          case False
          with 1(3) \<open>task = Some n\<close> ct Some d obtain nxt prev' where
            y: "next_step env h prev (length (contexts st)) m (contexts st2 ! length (contexts st)) sw = Inr (nxt, prev')"
              "execute_task k env h nxt prev' st2 = Some (Inr st')"
            by (auto simp: Let_def split: if_splits sum.splits prod.splits)
          have "prev_ok prev' st2" using next_step_succ[OF y(1)] ok2 by auto
          from Suc.IH(1)[OF J2 this y(2)] l2 show ?thesis by simp
        qed
      qed
    qed
  next
    case 2
    show ?case
    proof (cases "sink_queue st")
      case Nil
      then show ?thesis using 2 by simp
    next
      case (Cons n q)
      let ?st1 = "st\<lparr>sink_queue := q\<rparr>"
      from 2(3) Cons obtain st2 where e: "execute_task k env h (Some n) prev ?st1 = Some (Inr st2)"
          "drain k env h prev st2 = Some (Inr st')"
        by (auto split: option.splits sum.splits)
      have "prev_ok prev ?st1" using 2(2) by (simp add: prev_ok_def)
      from Suc.IH(1)[OF queue[OF 2(1), of q] this e(1)] have "J st2" "length (contexts st) \<le> length (contexts st2)" by auto
      moreover from this(2) have "prev_ok prev st2" using 2(2) by (auto simp: prev_ok_def)
      ultimately show ?thesis using Suc.IH(2)[OF _ _ e(2)] by auto
    qed
  }
qed simp_all

end

section \<open>Links between contexts\<close>

definition links_ok :: "exec_ctx list \<Rightarrow> bool" where
  "links_ok cs \<longleftrightarrow> (\<forall>i < length cs.
     (\<forall>p. previous_context (cs ! i) = Some p \<longrightarrow> p < i) \<and>
     (\<forall>n. next_context (cs ! i) = Some n \<longrightarrow> i < n \<and> n < length cs \<and> previous_context (cs ! n) = Some i))"

lemma links_prev: "links_ok cs \<Longrightarrow> i < length cs \<Longrightarrow> previous_context (cs ! i) = Some p \<Longrightarrow> p < i"
  and links_next: "links_ok cs \<Longrightarrow> i < length cs \<Longrightarrow> next_context (cs ! i) = Some n \<Longrightarrow>
    i < n \<and> n < length cs \<and> previous_context (cs ! n) = Some i"
  unfolding links_ok_def by blast+

lemma links_cong:
  assumes "links_ok cs" and "length ds = length cs"
    and "\<And>i. i < length cs \<Longrightarrow> previous_context (ds ! i) = previous_context (cs ! i) \<and> next_context (ds ! i) = next_context (cs ! i)"
  shows "links_ok ds"
  unfolding links_ok_def assms(2)
proof (intro allI impI conjI)
  fix i n assume i: "i < length cs" and n: "next_context (ds ! i) = Some n"
  then have "next_context (cs ! i) = Some n" using assms(3) by simp
  from links_next[OF assms(1) i this] show "i < n" "n < length cs" "previous_context (ds ! n) = Some i"
    using assms(3)[of n] by simp_all
next
  fix i p assume "i < length cs" "previous_context (ds ! i) = Some p"
  then show "p < i" using assms(3) links_prev[OF assms(1)] by simp
qed

lemma links_update: "links_ok cs \<Longrightarrow> same_place (cs ! i) c \<Longrightarrow> links_ok (cs[i := c])"
proof (erule links_cong)
  fix j assume "same_place (cs ! i) c" "j < length cs"
  then show "previous_context (cs[i := c] ! j) = previous_context (cs ! j) \<and> next_context (cs[i := c] ! j) = next_context (cs ! j)"
    by (cases "j = i") (simp_all add: same_place_def)
qed simp

lemma links_snoc:
  assumes "links_ok cs" and "prev = None \<or> (\<exists>p < length cs. prev = Some p)"
    and "ds = (case prev of None \<Rightarrow> cs | Some p \<Rightarrow> cs[p := (cs ! p)\<lparr>next_context := Some (length cs)\<rparr>])"
    and "previous_context c = prev" and "next_context c = None"
  shows "links_ok (ds @ [c])"
proof -
  have len: "length ds = length cs" using assms(3) by (simp split: option.split)
  have "previous_context (ds ! i) = previous_context (cs ! i) \<and>
      next_context (ds ! i) = (if prev = Some i then Some (length cs) else next_context (cs ! i))" for i
  proof (cases prev)
    case (Some p)
    then have "p < length cs" using assms(2) by simp
    then show ?thesis using assms(3) Some by (cases "i = p") simp_all
  qed (use assms(3) in simp)
  then have pr: "\<And>i. previous_context (ds ! i) = previous_context (cs ! i)"
    and nx: "\<And>i. next_context (ds ! i) = (if prev = Some i then Some (length cs) else next_context (cs ! i))"
    by blast+
  show ?thesis unfolding links_ok_def
  proof (intro allI impI conjI)
    fix i p assume i: "i < length (ds @ [c])" and p: "previous_context ((ds @ [c]) ! i) = Some p"
    show "p < i"
    proof (cases "i = length cs")
      case True
      then show ?thesis using p len assms(2,4) by (auto simp: nth_append)
    next
      case False
      then show ?thesis using i p len pr links_prev[OF assms(1)] by (simp add: nth_append)
    qed
  next
    fix i n assume i: "i < length (ds @ [c])" and n: "next_context ((ds @ [c]) ! i) = Some n"
    have i': "i < length cs" using i n len assms(5) by (auto simp: nth_append less_Suc_eq)
    then have n': "(if prev = Some i then Some (length cs) else next_context (cs ! i)) = Some n"
      using n len nx by (simp add: nth_append)
    have "i < n \<and> n < Suc (length cs) \<and> previous_context ((ds @ [c]) ! n) = Some i"
    proof (cases "prev = Some i")
      case True
      then show ?thesis using n' i' len assms(4) by (simp add: nth_append)
    next
      case False
      then show ?thesis using links_next[OF assms(1) i'] n' len pr by (simp add: nth_append)
    qed
    then show "i < n" "n < length (ds @ [c])" "previous_context ((ds @ [c]) ! n) = Some i" using len by simp_all
  qed
qed

lemma links_open:
  assumes "links_ok (contexts st)" and "prev_ok prev st"
  shows "links_ok (contexts (open_context h prev n tasks st))"
proof -
  have "contexts (open_context h prev n tasks st) =
    (case prev of None \<Rightarrow> contexts st | Some p \<Rightarrow> (contexts st)[p := (contexts st ! p)\<lparr>next_context := Some (length (contexts st))\<rparr>]) @
    [(new_context tasks)\<lparr>previous_context := prev\<rparr>]"
    by (simp add: open_context_def Let_def new_context_def split: option.split)
  moreover have "prev = None \<or> (\<exists>p < length (contexts st). prev = Some p)" using assms(2) by (cases prev) (auto simp: prev_ok_def)
  ultimately show ?thesis using links_snoc[OF assms(1)] by (simp add: new_context_def)
qed

interpretation links: run_invariant "\<lambda>st. links_ok (contexts st)" env h for env h
proof unfold_locales
  fix st prev n tasks l st2 sw
  assume a: "links_ok (contexts st)" "prev_ok prev st"
  note o = links_open[OF a, of h n tasks]
  show "links_ok (contexts (abort_context (length (contexts st)) (open_context h prev n tasks st)))"
    using links_update[OF o] by (simp add: abort_context_def)
  let ?c = "contexts (open_context h prev n tasks st) ! length (contexts st)"
  assume "run_dispatch env h (length (contexts st)) (open_context h prev n tasks st) = (st2, sw)"
  then have "contexts st2 = (contexts (open_context h prev n tasks st))[length (contexts st) := fst (dispatch env h (length (contexts st)) ?c)]"
    by (auto simp: run_dispatch_def split: prod.splits)
  then show "links_ok (contexts st2)" using links_update[OF o dispatch_place] by simp
qed simp

lemma head_fuel_ok:
  "links_ok cs \<Longrightarrow> c < length cs \<Longrightarrow> c < k \<Longrightarrow> \<exists>r. head_fuel k cs c = Some r \<and> r \<le> c \<and> previous_context (cs ! r) = None"
proof (induction k arbitrary: c)
  case (Suc k)
  show ?case
  proof (cases "previous_context (cs ! c)")
    case (Some p)
    then have p: "p < c" by (rule links_prev[OF Suc.prems(1,2)])
    then obtain r where "head_fuel k cs p = Some r" "r \<le> p" "previous_context (cs ! r) = None"
      using Suc.IH[OF Suc.prems(1), of p] Suc.prems(2,3) by auto
    then show ?thesis using Some p by auto
  qed simp
qed simp

lemma iter_fuel_ok:
  "links_ok cs \<Longrightarrow> c < length cs \<Longrightarrow> length cs - c < k \<Longrightarrow>
   \<exists>is. iter_fuel k cs c = Some (c # is) \<and> sorted_wrt (<) (c # is) \<and> set is \<subseteq> {..<length cs}"
proof (induction k arbitrary: c)
  case (Suc k)
  show ?case
  proof (cases "next_context (cs ! c)")
    case (Some n)
    then have n: "c < n" "n < length cs" using links_next[OF Suc.prems(1,2)] by auto
    then have "length cs - n < k" using Suc.prems(3) by simp
    from Suc.IH[OF Suc.prems(1) n(2) this] obtain "is" where
      "iter_fuel k cs n = Some (n # is)" "sorted_wrt (<) (n # is)" "set is \<subseteq> {..<length cs}" by blast
    with Some n show ?thesis by (auto intro!: exI[of _ "n # is"])
  qed simp
qed simp

section \<open>Book-keeping inside a context\<close>

definition map_tasks :: "executors_map \<Rightarrow> nat list" where
  "map_tasks m = concat (map (\<lambda>x. map pe_task (snd (snd x))) m)"

lemma map_tasks_update:
  "dict_get m k = Some (c, es) \<Longrightarrow> mset (map_tasks (dict_set k (c', es @ [e]) m)) = add_mset (pe_task e) (mset (map_tasks m))"
  by (induction m) (auto simp: map_tasks_def)

lemma map_tasks_add: "mset (map_tasks (add_to_map m e)) = add_mset (pe_task e) (mset (map_tasks m))"
proof (cases "dict_get m (pe_executor e)")
  case None
  then have "dict_set (pe_executor e) (pe_context e, [e]) m = m @ [(pe_executor e, pe_context e, [e])]"
    by (intro dict_set_new) (simp add: dict_has_get)
  then show ?thesis using None by (simp add: add_to_map_def map_tasks_def)
next
  case (Some v)
  then show ?thesis by (cases v) (simp add: add_to_map_def map_tasks_update)
qed

lemma prepared_task: "get_executor_context_and_event env h cid prev t = Inr e \<Longrightarrow> pe_task e = t"
  by (auto simp: get_executor_context_and_event_def res_simps split: if_splits option.splits)

lemma apsnd_eq_iff: "apsnd f p = (a, b) \<longleftrightarrow> (\<exists>b'. p = (a, b') \<and> b = f b')"
  by (cases p) auto

lemma gather_tasks:
  "gather_executors env h cid prev ts m = (Inr m', l) \<Longrightarrow> mset (map_tasks m') = mset ts + mset (map_tasks m)"
proof (induction ts arbitrary: m l)
  case (Cons t ts)
  then obtain e l' where e: "get_executor_context_and_event env h cid prev t = Inr e"
    "gather_executors env h cid prev ts (add_to_map m e) = (Inr m', l')"
    by (auto simp: apsnd_eq_iff split: sum.splits)
  from Cons.IH[OF e(2)] show ?case using map_tasks_add prepared_task[OF e(1)] by simp
qed simp

lemma submit_tasks: "submit_events env cid m = (Inr ts, l) \<Longrightarrow> ts = map_tasks m"
proof (induction m arbitrary: ts l)
  case (Cons x m)
  obtain ex ctx es where x: "x = (ex, ctx, es)" by (cases x)
  with Cons.prems obtain ts' l' where "submit_events env cid m = (Inr ts', l')" "ts = map pe_task es @ ts'"
    by (auto simp: Let_def split: option.splits sum.splits prod.splits)
  with Cons.IH x show ?case by (auto simp: map_tasks_def)
qed (simp add: map_tasks_def)

lemma init_tasks:
  "init_and_execute_events env h cid c = (Inr ts, l) \<Longrightarrow> mset ts = mset (task_profiles c)"
  using gather_tasks[of env h cid "previous_context c" "task_profiles c" "[]"]
  by (auto simp: init_and_execute_events_def map_tasks_def[of "[]"] apsnd_eq_iff split: sum.splits prod.splits
      dest!: submit_tasks)

lemma process_results_count:
  "process_executor_results env h cid outs c = (c', Done, l) \<Longrightarrow>
   length (execution_result c') = length (execution_result c) + length outs \<and>
   length (errors c') + length (filter res_error (execution_result c)) = length (errors c) + length (filter res_error (execution_result c')) \<and>
   ctx_state c' \<in> {ctx_state c, CANCELLED}"
proof (induction outs arbitrary: c l)
  case (Cons out outs)
  then obtain r stop where fr: "future_result env out = Inr (r, None, stop)"
    by (auto simp: Let_def split: sum.splits prod.splits option.splits if_splits)
  let ?c1 = "add_result r (if stop then cancel c else c)"
  from Cons.prems fr obtain l2 where "process_executor_results env h cid outs ?c1 = (c', Done, l2)"
    by (auto simp: Let_def split: prod.splits)
  from Cons.IH[OF this] show ?case by (auto simp: add_result_def cancel_def split: if_splits)
qed simp

lemma process_results_state:
  "process_executor_results env h cid outs c = (c', e, l) \<Longrightarrow> ctx_state c' \<in> {ctx_state c, CANCELLED}"
proof (induction outs arbitrary: c l)
  case (Cons out outs)
  show ?case
  proof (cases "\<exists>r stop. future_result env out = Inr (r, None, stop)")
    case True
    then obtain r stop where fr: "future_result env out = Inr (r, None, stop)" by blast
    let ?c1 = "add_result r (if stop then cancel c else c)"
    from Cons.prems fr obtain l2 where "process_executor_results env h cid outs ?c1 = (c', e, l2)"
      by (auto simp: Let_def split: prod.splits)
    from Cons.IH[OF this] show ?thesis by (auto simp: add_result_def cancel_def split: if_splits)
  next
    case False
    then show ?thesis using Cons.prems
      by (auto simp: Let_def add_result_def cancel_def split: sum.splits prod.splits option.splits if_splits)
  qed
qed simp

text \<open>A context that ended normally has one result per task and one error per failed result.\<close>

definition accounted :: "exec_ctx \<Rightarrow> bool" where
  "accounted c \<longleftrightarrow> ctx_state c \<noteq> PENDING \<and> (ctx_state c = FINISHED \<longrightarrow>
     length (execution_result c) = length (task_profiles c) \<and>
     length (errors c) = length (filter res_error (execution_result c)))"

lemma dispatch_accounted:
  assumes "fair_env env" and "dispatch env h cid c = (c', sw, l)" and "execution_result c = []" and "errors c = []"
  shows "accounted c'"
proof -
  let ?c1 = "c\<lparr>ctx_state := EXECUTING\<rparr>"
  have pl: "same_place ?c1 (fst (process_executor_results env h cid outs ?c1))" for outs
    by (rule process_results_place) simp
  show ?thesis
  proof (cases "init_and_execute_events env h cid ?c1")
    case (Pair r l1)
    show ?thesis
    proof (cases r)
      case (Inl x)
      then show ?thesis using assms(2) Pair by (auto simp: dispatch_def Let_def abort_def accounted_def)
    next
      case (Inr ts)
      let ?outs = "map (future env cid) (done_order env cid ts)"
      obtain c2 e l2 where p: "process_executor_results env h cid ?outs ?c1 = (c2, e, l2)" by (metis prod.exhaust)
      have "mset (done_order env cid ts) = mset (task_profiles c)"
        using assms(1) init_tasks[of env h cid ?c1 ts l1] Pair Inr by (simp add: fair_env_def)
      then have len: "length ?outs = length (task_profiles c)" by (metis length_map mset_eq_length)
      show ?thesis
      proof (cases e)
        case Done
        have "task_profiles c2 = task_profiles c" using pl[of ?outs] p by (simp add: same_place_def)
        with process_results_count[OF p[unfolded Done]] len assms(2-4) Pair Inr p Done show ?thesis
          by (auto simp: dispatch_def Let_def accounted_def)
      next
        case (Switch x b)
        then have "c' = c2" using assms(2) Pair Inr p by (simp add: dispatch_def Let_def)
        moreover have "ctx_state c2 \<notin> {PENDING, FINISHED}"
          using process_results_state[OF p] by auto
        ultimately show ?thesis by (simp add: accounted_def)
      next
        case (Raised x)
        then show ?thesis using assms(2) Pair Inr p by (auto simp: dispatch_def Let_def abort_def accounted_def)
      qed
    qed
  qed
qed

lemma accounted_links: "accounted (c\<lparr>next_context := n\<rparr>) = accounted c"
  by (simp add: accounted_def)

interpretation books: run_invariant "\<lambda>st. fair_env env \<longrightarrow> (\<forall>c \<in> set (contexts st). accounted c)" env h for env h
proof unfold_locales
  fix st prev n tasks l st2 sw
  let ?o = "open_context h prev n tasks st" and ?n = "length (contexts st)"
  assume a: "fair_env env \<longrightarrow> (\<forall>c \<in> set (contexts st). accounted c)" and ok: "prev_ok prev st"
  obtain cs where o: "contexts ?o = cs @ [(new_context tasks)\<lparr>previous_context := prev\<rparr>]" "length cs = ?n"
    and cs: "cs = contexts st \<or> (\<exists>p < ?n. cs = (contexts st)[p := (contexts st ! p)\<lparr>next_context := Some ?n\<rparr>])"
    using ok by (cases prev) (auto simp: open_context_def Let_def new_context_def prev_ok_def)
  have cs_ok: "\<forall>c \<in> set cs. accounted c" if "fair_env env"
    using cs a that by (auto dest!: subsetD[OF set_update_subset_insert] simp: accounted_links)
  show "fair_env env \<longrightarrow> (\<forall>c \<in> set (contexts (abort_context ?n ?o)). accounted c)"
  proof -
    obtain x where "contexts (abort_context ?n ?o) = cs @ [x]" "ctx_state x = ABORTED"
      by (auto simp: abort_context_def abort_def o(1) o(2)[symmetric])
    then show ?thesis using cs_ok by (auto simp: accounted_def)
  qed
  assume d: "run_dispatch env h ?n ?o = (st2, sw)"
  obtain c' l' where c': "dispatch env h ?n (contexts ?o ! ?n) = (c', sw, l')" "contexts st2 = cs @ [c']"
    using d by (auto simp: run_dispatch_def o(1) o(2)[symmetric] split: prod.splits)
  show "fair_env env \<longrightarrow> (\<forall>c \<in> set (contexts st2). accounted c)"
    using cs_ok c'(2) dispatch_accounted[OF _ c'(1)] by (auto simp: o(1) o(2)[symmetric] new_context_def)
qed simp

section \<open>Plain runs\<close>

text \<open>A leaf of the graph runs and ends its branch.\<close>

lemma drain_empty: "sink_queue st = [] \<Longrightarrow> drain k env h prev st = Some (Inr st') \<Longrightarrow> st' = st"
  by (cases k) auto

lemma execute_None_empty: "sink_queue st = [] \<Longrightarrow> execute_task k env h None prev st = Some (Inr st') \<Longrightarrow> st' = st"
  by (cases k) (auto dest: drain_empty)

lemma execute_leaf:
  assumes "get_children (h ! j) = []" and "on_success_pipe (h ! j) \<noteq> Some PT_PARALLELISM" and "sink_queue st = []"
    and "execute_task k env h (Some j) prev st = Some (Inr st')"
  shows "tasks_run st' = tasks_run st @ [j]"
proof -
  obtain k' where k: "k = Suc k'" using assms(4) by (cases k) auto
  have ct: "context_tasks env h prev j = Some ([j], Some j)"
    using assms(2) by (simp add: context_tasks_def parallel_chain_def split: option.split)
  let ?o = "open_context h prev j [j] st"
  obtain st2 sw where d: "run_dispatch env h (length (contexts st)) ?o = (st2, sw)" by (metis prod.exhaust)
  have sink: "sink_node (h ! j) = None" using child_fields(3)[of h j] assms(1) by (cases "sink_node (h ! j)") auto
  have fr: "tasks_run st2 = tasks_run st @ [j]" "sink_queue st2 = []"
    using run_dispatch_frame[OF d] open_context_frame[of h prev j "[j]" st] sink assms(3) by auto
  have none: "nxt = None" if "succ_of h j nxt" for nxt
    using succ_of_child[of h j] that assms(1) by (cases nxt) auto
  from assms(4) k ct d have "st' = st2 \<or> (\<exists>nxt prev'. succ_of h j nxt \<and> execute_task k' env h nxt prev' st2 = Some (Inr st'))"
    by (auto simp: Let_def split: if_splits sum.splits prod.splits dest!: next_step_succ)
  then show ?thesis using none fr execute_None_empty by blast
qed

text \<open>Nothing outside the code goes wrong: classes are registered, constructors and executors do not
  raise, and every future holds a result that is not a switch request.\<close>

definition good_env :: "exec_env \<Rightarrow> heap \<Rightarrow> bool" where
  "good_env env h \<longleftrightarrow> fair_env env \<and>
     (\<forall>t < length h. \<exists>k. get_event_klass env h t = Inr k \<and> ci_executor_ok k) \<and>
     (\<forall>c t. event_init_error env c t = None) \<and> (\<forall>e c. executor_error env e c = None) \<and>
     (\<forall>c t. \<exists>r. future env c t = Inr r \<and> \<not> isinstance_exc (res_content r) SwitchTask)"

lemma good_envD:
  assumes "good_env env h"
  shows "fair_env env" "t < length h \<Longrightarrow> \<exists>k. get_event_klass env h t = Inr k \<and> ci_executor_ok k"
    "event_init_error env c t = None" "executor_error env e x = None"
    "\<exists>r. future env c t = Inr r \<and> \<not> isinstance_exc (res_content r) SwitchTask"
  using assms unfolding good_env_def by blast+

lemma dispatch_single:
  assumes "good_env env h" and "t < length h" and "task_profiles c = [t]" and "execution_result c = []" and "errors c = []"
    and "future env cid t = Inr r"
  shows "\<exists>c' l. dispatch env h cid c = (c', None, l) \<and> ctx_state c' = FINISHED \<and> task_profiles c' = [t] \<and>
    length (execution_result c') = 1 \<and> length (errors c') = (if res_error r then 1 else 0)"
proof -
  note g = good_envD[OF assms(1)]
  obtain k where k: "get_event_klass env h t = Inr k" "ci_executor_ok k" using g(2)[OF assms(2)] by blast
  have sw: "\<not> isinstance_exc (res_content r) SwitchTask" using g(5)[of cid t] assms(6) by auto
  have "mset (done_order env cid [t]) = {#t#}" using g(1) by (simp add: fair_env_def)
  then have d: "done_order env cid [t] = [t]" by (metis mset_single_iff)
  obtain l where "init_and_execute_events env h cid (c\<lparr>ctx_state := EXECUTING\<rparr>) = (Inr [t], l)"
    using k g(3,4) assms(3)
    by (simp add: init_and_execute_events_def get_executor_context_and_event_def add_to_map_def apsnd_def Let_def)
  then show ?thesis using d sw assms(3-6)
    by (simp add: dispatch_def Let_def future_result_def add_result_def)
qed

definition all_finished :: "exec_state \<Rightarrow> bool" where
  "all_finished st \<longleftrightarrow> (\<forall>c \<in> set (contexts st). ctx_state c = FINISHED)"

text \<open>One task that is not part of a parallel chain.\<close>

lemma execute_single:
  assumes good: "good_env env h" and t: "t < length h" and np: "on_success_pipe (h ! t) \<noteq> Some PT_PARALLELISM"
    and ok: "prev_ok prev st" and fin: "all_finished st" and r: "future env (length (contexts st)) t = Inr r"
  obtains st2 c where "tasks_run st2 = tasks_run st @ [t]"
    "sink_queue st2 = (if prev = None then [] else opt (sink_node (h ! t))) @ sink_queue st"
    "length (contexts st2) = Suc (length (contexts st))" "all_finished st2"
    "c = contexts st2 ! length (contexts st)" "task_profiles c = [t]" "ctx_state c = FINISHED"
    "length (execution_result c) = 1" "length (errors c) = (if res_error r then 1 else 0)"
    "\<forall>k. execute_task (Suc k) env h (Some t) prev st =
      (case next_step env h prev (length (contexts st)) t c None of
         Inl x \<Rightarrow> Some (Inl x) | Inr (nxt, prev') \<Rightarrow> execute_task k env h nxt prev' st2)"
proof -
  let ?o = "open_context h prev t [t] st" and ?n = "length (contexts st)"
  have ct: "context_tasks env h prev t = Some ([t], Some t)"
    using np by (simp add: context_tasks_def parallel_chain_def split: option.split)
  obtain cs where o: "contexts ?o = cs @ [(new_context [t])\<lparr>previous_context := prev\<rparr>]" "length cs = ?n"
    and cs: "cs = contexts st \<or> (\<exists>p < ?n. cs = (contexts st)[p := (contexts st ! p)\<lparr>next_context := Some ?n\<rparr>])"
    using ok by (cases prev) (auto simp: open_context_def Let_def new_context_def prev_ok_def)
  have fin_cs: "\<forall>c \<in> set cs. ctx_state c = FINISHED"
    using cs fin by (auto simp: all_finished_def dest!: subsetD[OF set_update_subset_insert])
  have c0: "contexts ?o ! ?n = (new_context [t])\<lparr>previous_context := prev\<rparr>" by (simp add: o(1) o(2)[symmetric])
  obtain c' l where d: "dispatch env h ?n (contexts ?o ! ?n) = (c', None, l)" "ctx_state c' = FINISHED" "task_profiles c' = [t]"
      "length (execution_result c') = 1" "length (errors c') = (if res_error r then 1 else 0)"
    using dispatch_single[OF good t _ _ _ r, of "contexts ?o ! ?n"] by (auto simp: c0 new_context_def)
  define st2 where "st2 = ?o\<lparr>contexts := cs @ [c'], signals := signals ?o @ l\<rparr>"
  have rd: "run_dispatch env h ?n ?o = (st2, None)"
    using d(1) by (simp add: run_dispatch_def st2_def) (simp add: o(1) o(2)[symmetric])
  have nth: "contexts st2 ! ?n = c'" by (simp add: st2_def o(2)[symmetric])
  show ?thesis
  proof (rule that[of st2 c'])
    show "all_finished st2" using fin_cs d(2) by (auto simp: all_finished_def st2_def)
    show "tasks_run st2 = tasks_run st @ [t]" "sink_queue st2 = (if prev = None then [] else opt (sink_node (h ! t))) @ sink_queue st"
      using run_dispatch_frame[OF rd] open_context_frame[of h prev t "[t]" st] by simp_all
    show "\<forall>k. execute_task (Suc k) env h (Some t) prev st =
      (case next_step env h prev ?n t c' None of
         Inl x \<Rightarrow> Some (Inl x) | Inr (nxt, prev') \<Rightarrow> execute_task k env h nxt prev' st2)"
      using ct rd nth d(2) by (simp add: Let_def)
  qed (use d nth o(2) in \<open>simp_all add: st2_def\<close>)
qed

definition sequential :: "(string \<times> string) list \<Rightarrow> bool" where
  "sequential xs \<longleftrightarrow> (\<forall>x \<in> set xs. arrow (fst x))"

lemma chain_task_facts:
  assumes "sequential xs" and "i \<le> length xs"
  shows "on_success_pipe (chain_heap s xs ! i) \<noteq> Some PT_PARALLELISM" "\<not> is_conditional (chain_heap s xs ! i)"
    "on_success_event (chain_heap s xs ! i) = (if i < length xs then Some (Suc i) else None)" "sink_node (chain_heap s xs ! i) = None"
proof -
  have "binop_pipe (fst (xs ! i)) \<noteq> PT_PARALLELISM" if "i < length xs"
    using assms(1) that nth_mem[OF that] by (auto simp: sequential_def arrow_def binop_pipe_def)
  then show "on_success_pipe (chain_heap s xs ! i) \<noteq> Some PT_PARALLELISM"
    using assms(2) by (auto simp: chain_heap_nth chain_task_def)
qed (use assms(2) in \<open>auto simp: chain_heap_nth chain_task_def new_task_def is_conditional_def get_descriptors_def\<close>)

lemma execute_chain_step:
  assumes "sequential xs" and good: "good_env env (chain_heap s xs)" and i: "i \<le> length xs"
    and "prev_ok prev st" and "all_finished st" and "sink_queue st = []"
  obtains st2 where "tasks_run st2 = tasks_run st @ [i]" "sink_queue st2 = []" "all_finished st2" "prev_ok (Some (length (contexts st))) st2"
    "\<forall>k. execute_task (Suc k) env (chain_heap s xs) (Some i) prev st =
      execute_task k env (chain_heap s xs) (if i < length xs then Some (Suc i) else None) (Some (length (contexts st))) st2"
proof -
  note f = chain_task_facts[OF assms(1) i, of s]
  obtain r where r: "future env (length (contexts st)) i = Inr r" using good_envD(5)[OF good] by blast
  have il: "i < length (chain_heap s xs)" using i by simp
  from good il f(1) assms(4,5) r obtain st2 c where st2: "tasks_run st2 = tasks_run st @ [i]"
    "sink_queue st2 = (if prev = None then [] else opt (sink_node (chain_heap s xs ! i))) @ sink_queue st"
    "length (contexts st2) = Suc (length (contexts st))" "all_finished st2"
    "\<forall>k. execute_task (Suc k) env (chain_heap s xs) (Some i) prev st =
      (case next_step env (chain_heap s xs) prev (length (contexts st)) i c None of
         Inl x \<Rightarrow> Some (Inl x) | Inr (nxt, prev') \<Rightarrow> execute_task k env (chain_heap s xs) nxt prev' st2)"
    by (rule execute_single)
  show ?thesis
    by (rule that[of st2]) (use st2 f assms(6) in \<open>simp_all add: prev_ok_def next_step_def\<close>)
qed

lemma execute_chain:
  assumes "sequential xs" and good: "good_env env (chain_heap s xs)"
  shows "i \<le> length xs \<Longrightarrow> prev_ok prev st \<Longrightarrow> all_finished st \<Longrightarrow> sink_queue st = [] \<Longrightarrow> length xs - i + 3 \<le> k \<Longrightarrow>
    \<exists>st'. execute_task k env (chain_heap s xs) (Some i) prev st = Some (Inr st') \<and> tasks_run st' = tasks_run st @ [i..<Suc (length xs)] \<and> all_finished st'"
proof (induction "length xs - i" arbitrary: i prev st k)
  case 0
  then have i: "i = length xs" by simp
  have k: "k = Suc (Suc (Suc (k - 3)))" using "0.prems"(5) by simp
  from assms "0.prems"(1-4) obtain st2 where st2: "tasks_run st2 = tasks_run st @ [i]" "sink_queue st2 = []" "all_finished st2"
    "\<forall>k. execute_task (Suc k) env (chain_heap s xs) (Some i) prev st =
      execute_task k env (chain_heap s xs) (if i < length xs then Some (Suc i) else None) (Some (length (contexts st))) st2"
    by (rule execute_chain_step)
  show ?case by (subst k) (use st2 i in simp)
next
  case (Suc d)
  then have i: "i < length xs" by simp
  obtain k' where k: "k = Suc k'" using Suc.prems(5) by (cases k) auto
  from assms Suc.prems(1-4) obtain st2 where st2: "tasks_run st2 = tasks_run st @ [i]" "sink_queue st2 = []" "all_finished st2"
    "prev_ok (Some (length (contexts st))) st2"
    "\<forall>k. execute_task (Suc k) env (chain_heap s xs) (Some i) prev st =
      execute_task k env (chain_heap s xs) (if i < length xs then Some (Suc i) else None) (Some (length (contexts st))) st2"
    by (rule execute_chain_step)
  have "\<exists>st'. execute_task k' env (chain_heap s xs) (Some (Suc i)) (Some (length (contexts st))) st2 = Some (Inr st') \<and>
      tasks_run st' = tasks_run st2 @ [Suc i..<Suc (length xs)] \<and> all_finished st'"
    by (rule Suc.hyps(1)) (use Suc.hyps(2) i st2 k Suc.prems(5) in simp_all)
  then show ?case using i k st2(1,5) by (auto simp: upt_conv_Cons)
qed

text \<open>\<open>filter_by_event\<close> compares classes with names, so it selects no context.\<close>

lemma filter_by_event_empty: "filter_by_event env h cs c name = Some (Inr sel) \<Longrightarrow> sel = []"
  by (auto simp: filter_by_event_def task_event_ref_def image_iff filter_empty_conv split: option.splits)

lemma run_links:
  assumes "execute_task k env h task None init_exec = Some (Inr st)"
  shows "links_ok (contexts st)"
proof -
  have "links_ok (contexts init_exec)" "prev_ok None init_exec" by (simp_all add: links_ok_def init_exec_def prev_ok_def)
  from links.run(1)[OF this assms] show ?thesis by blast
qed

lemma walks_ok:
  assumes ok: "links_ok cs" and c: "c < length cs"
  shows "(\<exists>r. get_execution_context_head cs c = Some r \<and> r \<le> c \<and> previous_context (cs ! r) = None) \<and>
    (\<exists>is. iterate_contexts cs c = Some (c # is) \<and> sorted_wrt (<) (c # is) \<and> set is \<subseteq> {..<length cs}) \<and>
    (\<exists>l. get_latest_execution_context cs c = Some l \<and> l < length cs)"
proof -
  have it: "\<exists>is. iterate_contexts cs c = Some (c # is) \<and> sorted_wrt (<) (c # is) \<and> set is \<subseteq> {..<length cs}"
    if "c < length cs" for c
    unfolding iterate_contexts_def by (rule iter_fuel_ok[OF ok that]) simp
  obtain r where r: "get_execution_context_head cs c = Some r" "r \<le> c" "previous_context (cs ! r) = None"
    unfolding get_execution_context_head_def using head_fuel_ok[OF ok c, of "Suc (length cs)"] c by auto
  obtain "is" where is': "iterate_contexts cs r = Some (r # is)" "set is \<subseteq> {..<length cs}"
    using it[of r] r(2) c by auto
  have "last (r # is) \<in> set (r # is)" by (rule last_in_set) simp
  then have "last (r # is) < length cs" using is'(2) r(2) c by auto
  then have "\<exists>l. get_latest_execution_context cs c = Some l \<and> l < length cs"
    using r(1) is'(1) by (simp add: get_latest_execution_context_def)
  with r it[OF c] show ?thesis by blast
qed

lemma run_total:
  assumes "build_pipeline_from_execution_code code = Inr (r, h)" and "fair_env env" and "3 * length h \<le> k"
  shows "\<exists>res. execute_task k env h (Some r) None init_exec = Some res"
proof -
  obtain t where t: "tid t = r" "task_tree 0 h t" using build_task_tree[OF assms(1)] by blast
  have r: "r \<in> set (ids t)" using t(1) tid_in_ids by blast
  have "load t (Some r) init_exec = length (below t r)" by (simp add: load_def init_exec_def)
  then have "3 * load t (Some r) init_exec \<le> k" using below_bound[OF t(2) r] assms(3) by simp
  then show ?thesis using run_within(1)[OF t(2) assms(2), of "Some r" init_exec k None] r by (auto simp: init_exec_def)
qed

section \<open>Properties\<close>

definition demo_class :: class_info where
  "demo_class = \<lparr>ci_eval = SUCCESS_ON_ALL_EVENTS_SUCCESS, ci_executor = ''DefaultExecutor'', ci_executor_ok = True, ci_policy = NoPolicy\<rparr>"

definition demo_env :: "(nat \<Rightarrow> bool) \<Rightarrow> exec_env" where
  "demo_env fails = \<lparr>registry = map (\<lambda>n. (n, demo_class)) [''A'', ''B'', ''C'', ''D'', ''E''],
     event_init_error = (\<lambda>_ _. None), executor_context = (\<lambda>_. [(''max_workers'', PInt 1)]), executor_error = (\<lambda>_ _. None),
     future = (\<lambda>c t. Inr \<lparr>res_error = fails t, res_event_name = ''E'', res_content = PInt 1, res_task_id = Some ''t''\<rparr>),
     done_order = (\<lambda>_ xs. xs), task_order = (\<lambda>xs. xs), exc_str = (\<lambda>_. ''error'')\<rparr>"

lemma fair_demo_env [simp]: "fair_env (demo_env fails)"
  by (simp add: fair_env_def demo_env_def)

text \<open>C6. Running a built pipeline always returns: whatever the events do, whatever the environment
  decides, fuel three times the number of tasks is enough, so \<open>execute_task\<close> makes no endless
  recursion.\<close>

theorem run_terminates:
  assumes "build_pipeline_from_execution_code code = Inr (r, h)" and "fair_env env" and "3 * length h \<le> k"
  shows "\<exists>res. execute_task k env h (Some r) None init_exec = Some res"
  using assms by (rule run_total)

theorem run_terminates_witness:
  "\<exists>r h. build_pipeline_from_execution_code ''A->B(0->C,1->D)'' = Inr (r, h) \<and>
     (\<exists>res. execute_task (3 * length h) (demo_env (\<lambda>_. True)) h (Some r) None init_exec = Some res)"
proof -
  have "case build_pipeline_from_execution_code ''A->B(0->C,1->D)'' of Inl e \<Rightarrow> False | Inr x \<Rightarrow> True" by code_simp
  then obtain r h where b: "build_pipeline_from_execution_code ''A->B(0->C,1->D)'' = Inr (r, h)" by (auto split: sum.splits)
  with run_terminates[OF b fair_demo_env order_refl] show ?thesis by blast
qed

text \<open>C7. No task runs twice: the contexts of a finished run hold pairwise different tasks of the
  tree that was built.\<close>

theorem tasks_run_once:
  assumes "build_pipeline_from_execution_code code = Inr (r, h)" and "fair_env env" and "3 * length h \<le> k"
    and "execute_task k env h (Some r) None init_exec = Some (Inr st)"
  shows "distinct (concat (map task_profiles (contexts st))) \<and>
    (\<exists>ts. bf_traversal h r = Some ts \<and> set (concat (map task_profiles (contexts st))) \<subseteq> set ts)"
proof -
  obtain t where t: "tid t = r" "task_tree 0 h t" using build_task_tree[OF assms(1)] by blast
  have rp: "repr h None t" "distinct (ids t)" using t(2) by (auto simp: task_tree_def)
  have r: "r \<in> set (ids t)" using t(1) tid_in_ids by blast
  have "load t (Some r) init_exec = length (below t r)" by (simp add: load_def init_exec_def)
  then have "3 * load t (Some r) init_exec \<le> k" using below_bound[OF t(2) r] assms(3) by simp
  then have "stays_within t init_exec (Some r) (Inr st)"
    using run_within(1)[OF t(2) assms(2), of "Some r" init_exec k None] r assms(4) by (auto simp: init_exec_def)
  then have "mset (tasks_run st) + bag t (sink_queue st) \<subseteq># mset (ids t)"
    using t(1) below_root[of t] by (simp add: stays_within_def init_exec_def tasks_run_def)
  then have sub: "mset (tasks_run st) \<subseteq># mset (ids t)" by (rule subset_mset.order_trans[OF mset_subset_eq_add_left])
  have "distinct (tasks_run st)"
  proof -
    have "count (mset (tasks_run st)) x \<le> 1" for x
      using mset_subset_eq_count[OF sub, of x] rp(2) by (metis distinct_count_atmost_1 count_mset le_trans order_refl zero_le_one)
    then show ?thesis unfolding distinct_count_atmost_1 by (metis One_nat_def count_mset_0_iff le_Suc_eq le_zero_eq)
  qed
  moreover have "set (tasks_run st) \<subseteq> set (ids t)" using set_mset_mono[OF sub] by simp
  ultimately show ?thesis using bf_traversal_tree[OF rp] t(1) unfolding tasks_run_def by auto
qed

lemma demo_run:
  "\<exists>r h st. build_pipeline_from_execution_code ''A->B(0->C,1->D)'' = Inr (r, h) \<and>
     execute_task (3 * length h) (demo_env (\<lambda>_. False)) h (Some r) None init_exec = Some (Inr st) \<and> 0 < length (contexts st)"
proof -
  have run: "case build_pipeline_from_execution_code ''A->B(0->C,1->D)'' of
      Inr (r, h) \<Rightarrow> (case execute_task (3 * length h) (demo_env (\<lambda>_. False)) h (Some r) None init_exec of
          Some (Inr st) \<Rightarrow> 0 < length (contexts st) | _ \<Rightarrow> False)
    | _ \<Rightarrow> False" by code_simp
  show ?thesis
  proof (cases "build_pipeline_from_execution_code ''A->B(0->C,1->D)''")
    case (Inr x)
    obtain r h where x: "x = (r, h)" by (cases x)
    show ?thesis
    proof (cases "execute_task (3 * length h) (demo_env (\<lambda>_. False)) h (Some r) None init_exec")
      case (Some y)
      with run Inr x show ?thesis by (cases y) auto
    qed (use run Inr x in simp)
  qed (use run in simp)
qed

theorem tasks_run_once_witness:
  "\<exists>r h st. build_pipeline_from_execution_code ''A->B(0->C,1->D)'' = Inr (r, h) \<and>
     execute_task (3 * length h) (demo_env (\<lambda>_. False)) h (Some r) None init_exec = Some (Inr st) \<and>
     distinct (concat (map task_profiles (contexts st)))"
proof -
  obtain r h st where b: "build_pipeline_from_execution_code ''A->B(0->C,1->D)'' = Inr (r, h)"
    "execute_task (3 * length h) (demo_env (\<lambda>_. False)) h (Some r) None init_exec = Some (Inr st)"
    using demo_run by blast
  with tasks_run_once[OF b(1) fair_demo_env order_refl b(2)] show ?thesis by blast
qed

text \<open>The contexts of a run form a consistent doubly linked list: from every context the walk to
  the head ends at an earlier context without predecessor, and the forward iteration ends and only
  moves to later contexts.\<close>

lemma contexts_linked:
  assumes "execute_task k env h task None init_exec = Some (Inr st)" and "c < length (contexts st)"
  shows "(\<exists>r. get_execution_context_head (contexts st) c = Some r \<and> r \<le> c \<and> previous_context (contexts st ! r) = None) \<and>
    (\<exists>is. iterate_contexts (contexts st) c = Some (c # is) \<and> sorted_wrt (<) (c # is)) \<and>
    (\<exists>l. get_latest_execution_context (contexts st) c = Some l \<and> l < length (contexts st))"
  using walks_ok[OF run_links[OF assms(1)] assms(2)] by blast

text \<open>C8. In every run, a context that ends normally has exactly one result for each of its tasks and
  one error for each result that reports one; no context is left pending.\<close>

theorem finished_accounted:
  assumes "fair_env env" and "execute_task k env h task None init_exec = Some (Inr st)" and "c \<in> set (contexts st)"
  shows "ctx_state c \<noteq> PENDING \<and> (ctx_state c = FINISHED \<longrightarrow>
    length (execution_result c) = length (task_profiles c) \<and>
    length (errors c) = length (filter res_error (execution_result c)))"
proof -
  have "prev_ok None init_exec" by (simp add: prev_ok_def)
  moreover have "fair_env env \<longrightarrow> (\<forall>c \<in> set (contexts init_exec). accounted c)" by (simp add: init_exec_def)
  ultimately have "accounted c" using books.run(1)[OF _ _ assms(2)] assms(1,3) by blast
  then show ?thesis by (simp add: accounted_def)
qed

theorem finished_accounted_witness:
  "\<exists>h task st. execute_task (3 * length h) (demo_env (\<lambda>_. False)) h task None init_exec = Some (Inr st) \<and>
     ctx_state (contexts st ! 0) \<noteq> PENDING"
proof -
  obtain r h st where b: "execute_task (3 * length h) (demo_env (\<lambda>_. False)) h (Some r) None init_exec = Some (Inr st)"
    "0 < length (contexts st)" using demo_run by blast
  with finished_accounted[OF fair_demo_env b(1) nth_mem[OF b(2)]] show ?thesis by blast
qed

text \<open>Under the default evaluation a finished context of a run with one task counts as failed
  exactly when its event reported an error; under the two partial evaluations it never counts as
  failed, whatever its event reported, because failed results are results too.\<close>

lemma evaluation_of_finished:
  assumes "fair_env env" and "execute_task k env h task None init_exec = Some (Inr st)" and "c \<in> set (contexts st)"
    and "ctx_state c = FINISHED" and "task_profiles c = [t]" and "get_event_klass env h t = Inr ci"
  shows "execution_failed env h c = Inr (case ci_eval ci of
      SUCCESS_ON_ALL_EVENTS_SUCCESS \<Rightarrow> \<exists>r \<in> set (execution_result c). res_error r
    | FAILURE_FOR_PARTIAL_ERROR \<Rightarrow> \<exists>r \<in> set (execution_result c). res_error r
    | SUCCESS_FOR_PARTIAL_SUCCESS \<Rightarrow> False
    | FAILURE_FOR_ALL_EVENTS_FAILURE \<Rightarrow> False)"
proof -
  have "prev_ok None init_exec" "fair_env env \<longrightarrow> (\<forall>c \<in> set (contexts init_exec). accounted c)"
    by (simp_all add: prev_ok_def init_exec_def)
  then have "accounted c" using books.run(1)[OF _ _ assms(2)] assms(1,3) by blast
  then have n: "length (execution_result c) = 1" "length (errors c) = length (filter res_error (execution_result c))"
    using assms(4,5) by (auto simp: accounted_def)
  have "0 < length (errors c) \<longleftrightarrow> (\<exists>r \<in> set (execution_result c). res_error r)"
    unfolding n(2) by (auto simp: filter_empty_conv)
  then show ?thesis using assms(4-6) n(1)
    by (simp add: execution_failed_def evaluate_ctx_def get_last_task_profile_in_chain_def context_evaluation_def evaluate_def
        split: evaluation_state.split)
qed

lemma good_demo_env:
  assumes "\<forall>t < length h. event (h ! t) \<in> {''A'', ''B'', ''C'', ''D'', ''E''}"
  shows "good_env (demo_env fails) h"
proof -
  have "\<exists>k. get_event_klass (demo_env fails) h t = Inr k \<and> ci_executor_ok k" if "t < length h" for t
  proof -
    have "event (h ! t) \<in> {''A'', ''B'', ''C'', ''D'', ''E''}" using assms that by blast
    then show ?thesis
      by (auto simp: get_event_klass_def resolve_event_name_def demo_env_def demo_class_def str_lower_def char_lower_def)
  qed
  then show ?thesis unfolding good_env_def by (auto simp: demo_env_def isinstance_exc_def fair_env_def)
qed

lemma demo_finished:
  "\<exists>st c. execute_task 5 (demo_env (\<lambda>_. True)) (chain_heap ''A'' []) (Some 0) None init_exec = Some (Inr st) \<and>
     c \<in> set (contexts st) \<and> ctx_state c = FINISHED \<and> task_profiles c = [0]"
proof -
  have g: "good_env (demo_env (\<lambda>_. True)) (chain_heap ''A'' [])"
    by (rule good_demo_env) (auto simp: chain_heap_nth chain_task_def new_task_def)
  obtain st where st: "execute_task 5 (demo_env (\<lambda>_. True)) (chain_heap ''A'' []) (Some 0) None init_exec = Some (Inr st)"
      "tasks_run st = [0]" "all_finished st"
    using execute_chain[of "[]" "demo_env (\<lambda>_. True)" "''A''" 0 None init_exec 5, OF _ g]
    by (auto simp: sequential_def tasks_run_def all_finished_def init_exec_def prev_ok_def)
  have "0 \<in> set (tasks_run st)" using st(2) by simp
  then obtain c where c: "c \<in> set (contexts st)" "0 \<in> set (task_profiles c)" by (auto simp: tasks_run_def)
  from split_list[OF c(1)] obtain us vs where "contexts st = us @ c # vs" by blast
  with st(2) c(2) have "task_profiles c = [0]" by (auto simp: tasks_run_def append_eq_Cons_conv Cons_eq_append_conv)
  with st c(1) show ?thesis by (auto simp: all_finished_def)
qed

text \<open>C10. A chain of tasks joined by arrows runs from its first task to its last: every task runs, in
  order, each in a context of its own that ends normally. This holds whatever the events report: a
  task outside a conditional is followed by its successor even if its event failed.\<close>

theorem chain_runs_to_end:
  assumes "sequential xs" and "good_env env (chain_heap s xs)" and "length xs + 3 \<le> k"
  shows "\<exists>st. execute_task k env (chain_heap s xs) (Some 0) None init_exec = Some (Inr st) \<and>
    concat (map task_profiles (contexts st)) = [0..<Suc (length xs)] \<and> (\<forall>c \<in> set (contexts st). ctx_state c = FINISHED)"
  using execute_chain[OF assms(1,2), of 0 None init_exec k] assms(3)
  by (auto simp: tasks_run_def all_finished_def init_exec_def prev_ok_def)

theorem chain_runs_to_end_witness:
  "\<exists>st. execute_task 5 (demo_env (\<lambda>_. True)) (chain_heap ''A'' [(''->'', ''B''), (''|->'', ''C'')]) (Some 0) None init_exec = Some (Inr st) \<and>
     concat (map task_profiles (contexts st)) = [0, 1, 2]"
proof -
  let ?xs = "[(''->'', ''B''), (''|->'', ''C'')]"
  have "good_env (demo_env (\<lambda>_. True)) (chain_heap ''A'' ?xs)"
    by (rule good_demo_env) (auto simp: chain_heap_nth chain_task_def new_task_def less_Suc_eq numeral_2_eq_2)
  moreover have "sequential ?xs" by (simp add: sequential_def arrow_def)
  ultimately show ?thesis using chain_runs_to_end[of ?xs "demo_env (\<lambda>_. True)" "''A''" 5]
    by (auto simp: upt_rec)
qed

lemma cond_heap_facts:
  "length (cond_heap s op0 a op1 b op c) = 4"
  "get_children (cond_heap s op0 a op1 b op c ! 0) = []" "get_children (cond_heap s op0 a op1 b op c ! 1) = []"
  "on_success_pipe (cond_heap s op0 a op1 b op c ! 0) = None" "on_success_pipe (cond_heap s op0 a op1 b op c ! 1) = None"
  "is_conditional (cond_heap s op0 a op1 b op c ! 2)" "on_success_event (cond_heap s op0 a op1 b op c ! 2) = Some 1"
  "on_failure_event (cond_heap s op0 a op1 b op c ! 2) = Some 0"
  "\<not> is_conditional (cond_heap s op0 a op1 b op c ! 0)" "\<not> is_conditional (cond_heap s op0 a op1 b op c ! 1)"
  "on_success_event (cond_heap s op0 a op1 b op c ! 0) = None" "on_success_event (cond_heap s op0 a op1 b op c ! 1) = None"
  "sink_node (cond_heap s op0 a op1 b op c ! 0) = None" "sink_node (cond_heap s op0 a op1 b op c ! 1) = None"
  by (simp_all add: cond_heap_def new_task_def get_children_def get_descriptors_def is_conditional_def numeral_2_eq_2)

lemma cond_heap_succ:
  assumes "succ_of (cond_heap s op0 a op1 b op c) 2 nxt"
  shows "nxt \<in> {None, Some 0, Some 1}"
proof -
  have "get_descriptor (cond_heap s op0 a op1 b op c) 2 d \<in> {None, Some 0, Some 1}" for d
    by (simp add: get_descriptor_def get_descriptor_config_def cond_heap_def new_task_def numeral_2_eq_2)
  then show ?thesis
    using assms unfolding succ_of_def cond_heap_facts(7,8) by (elim disjE exE) simp_all
qed

text \<open>The task behind a conditional that is the first task of the pipeline, \<open>D\<close> in
  \<open>A(0->B,1->C)->D\<close>, never runs: the sink of a task is queued only when a context precedes it.\<close>

lemma root_sink_never_runs:
  assumes "execute_task k env (cond_heap s op0 a op1 b op c) (Some 2) None init_exec = Some (Inr st)"
  shows "3 \<notin> set (concat (map task_profiles (contexts st)))"
proof -
  let ?h = "cond_heap s op0 a op1 b op c"
  obtain k' where k: "k = Suc k'" using assms by (cases k) auto
  let ?o = "open_context ?h None 2 [2] init_exec"
  obtain st2 sw where d: "run_dispatch env ?h 0 ?o = (st2, sw)" by (metis prod.exhaust)
  have fr: "tasks_run st2 = [2]" "sink_queue st2 = []"
    using run_dispatch_frame[OF d] open_context_frame[of ?h None 2 "[2]" init_exec] by (simp_all add: tasks_run_def init_exec_def)
  from assms k d have "st = st2 \<or> (\<exists>nxt prev'. succ_of ?h 2 nxt \<and> execute_task k' env ?h nxt prev' st2 = Some (Inr st))"
    by (auto simp: Let_def context_tasks_def init_exec_def[of] split: if_splits sum.splits prod.splits dest!: next_step_succ)
  then have "tasks_run st \<in> {[2], [2, 0], [2, 1]}"
  proof (elim disjE exE conjE)
    fix nxt prev' assume n: "succ_of ?h 2 nxt" "execute_task k' env ?h nxt prev' st2 = Some (Inr st)"
    from cond_heap_succ[OF n(1)] consider "nxt = None" | "nxt = Some 0" | "nxt = Some 1" by blast
    then show ?thesis
    proof cases
      case 1
      then have "st = st2" using execute_None_empty[OF fr(2)] n(2) by simp
      then show ?thesis using fr(1) by simp
    next
      case 2
      then show ?thesis using execute_leaf[of ?h 0 st2 k' env prev' st] n(2) fr by (simp add: cond_heap_facts)
    next
      case 3
      then show ?thesis using execute_leaf[of ?h 1 st2 k' env prev' st] n(2) fr cond_heap_facts(3,5)[of s op0 a op1 b op c] by simp
    qed
  qed (use fr in simp)
  then show ?thesis unfolding tasks_run_def[symmetric] by auto
qed

lemma execute_leaf_ok:
  assumes "good_env env h" and "t < length h" and "on_success_pipe (h ! t) \<noteq> Some PT_PARALLELISM"
    and "\<not> is_conditional (h ! t)" and "on_success_event (h ! t) = None" and "sink_node (h ! t) = None"
    and "prev_ok prev st" and "all_finished st" and "sink_queue st = []"
  shows "\<exists>st'. execute_task (Suc (Suc (Suc k))) env h (Some t) prev st = Some (Inr st') \<and> tasks_run st' = tasks_run st @ [t] \<and> all_finished st'"
proof -
  obtain r where r: "future env (length (contexts st)) t = Inr r" using good_envD(5)[OF assms(1)] by blast
  from assms(1-3,7,8) r obtain st2 c where st2: "tasks_run st2 = tasks_run st @ [t]"
    "sink_queue st2 = (if prev = None then [] else opt (sink_node (h ! t))) @ sink_queue st" "all_finished st2"
    "\<forall>k. execute_task (Suc k) env h (Some t) prev st =
      (case next_step env h prev (length (contexts st)) t c None of
         Inl x \<Rightarrow> Some (Inl x) | Inr (nxt, prev') \<Rightarrow> execute_task k env h nxt prev' st2)"
    by (rule execute_single)
  then show ?thesis using assms(4-6,9) by (simp add: next_step_def)
qed

lemma demo_conditional:
  "good_env (demo_env fails) (cond_heap ''A'' ''->'' ''B'' ''|->'' ''C'' ''->'' ''D'')"
  "get_event_klass (demo_env fails) (cond_heap ''A'' ''->'' ''B'' ''|->'' ''C'' ''->'' ''D'') 2 = Inr demo_class"
proof -
  show "good_env (demo_env fails) (cond_heap ''A'' ''->'' ''B'' ''|->'' ''C'' ''->'' ''D'')"
    by (rule good_demo_env) (auto simp: cond_heap_def new_task_def less_Suc_eq)
qed (simp add: get_event_klass_def resolve_event_name_def demo_env_def cond_heap_def new_task_def numeral_2_eq_2)



end
