(* ===== verification/Result_Set.thy ===== *)
theory Result_Set
  imports Values
begin

text \<open>
  Result sets, \<^verbatim>\<open>src/nexus/result.py\<close>: the insertion-ordered collection of results (class
  \<open>ResultSet\<close>, a \<open>MutableSet\<close>) with its query language, the content types it tracks
  (\<open>EntityContentType\<close>) and the state functions of \<open>EventResult\<close>. A member is an object with
  an identity and attributes. Comparisons between incompatible values raise TypeError, as in Python.
  Field names are taken not to be names of methods of the built-in types.
\<close>

section \<open>Comparison\<close>

datatype cmp_op = GT | GE | LT | LE

definition cmp_num :: "cmp_op \<Rightarrow> 'a::linorder \<Rightarrow> 'a \<Rightarrow> bool" where
  "cmp_num c x y = (case c of GT \<Rightarrow> y < x | GE \<Rightarrow> y \<le> x | LT \<Rightarrow> x < y | LE \<Rightarrow> x \<le> y)"

text \<open>Strings compare by code points, the first difference deciding.\<close>

fun cmp_str :: "cmp_op \<Rightarrow> string \<Rightarrow> string \<Rightarrow> bool" where
  "cmp_str c [] [] = cmp_num c (0::nat) 0"
| "cmp_str c [] (y # ys) = cmp_num c (0::nat) 1"
| "cmp_str c (x # xs) [] = cmp_num c (1::nat) 0"
| "cmp_str c (x # xs) (y # ys) =
     (if x = y then cmp_str c xs ys else cmp_num c (of_char x :: nat) (of_char y))"

function py_cmp :: "cmp_op \<Rightarrow> pyval \<Rightarrow> pyval \<Rightarrow> exc_class + bool"
  and seq_cmp :: "cmp_op \<Rightarrow> pyval list \<Rightarrow> pyval list \<Rightarrow> exc_class + bool" where
  "py_cmp c v w =
     (case (num_of v, num_of w) of
        (Some x, Some y) \<Rightarrow> Inr (cmp_num c x y)
      | _ \<Rightarrow> (case v of
                PStr s \<Rightarrow> (case w of PStr t \<Rightarrow> Inr (cmp_str c s t) | _ \<Rightarrow> Inl TypeError)
              | PList xs \<Rightarrow> (case w of PList ys \<Rightarrow> seq_cmp c xs ys | _ \<Rightarrow> Inl TypeError)
              | PTuple xs \<Rightarrow> (case w of PTuple ys \<Rightarrow> seq_cmp c xs ys | _ \<Rightarrow> Inl TypeError)
              | _ \<Rightarrow> Inl TypeError))"
| "seq_cmp c [] [] = Inr (cmp_num c (0::nat) 0)"
| "seq_cmp c [] (y # ys) = Inr (cmp_num c (0::nat) 1)"
| "seq_cmp c (x # xs) [] = Inr (cmp_num c (1::nat) 0)"
| "seq_cmp c (x # xs) (y # ys) = (if py_eq x y then seq_cmp c xs ys else py_cmp c x y)"
  by pat_completeness auto
termination
  by (relation "measure (case_sum (\<lambda>(c, v, w). size v) (\<lambda>(c, xs, ys). size_list size xs))") auto

section \<open>Field paths\<close>

text \<open>\<open>key.split("__")\<close> and \<open>"__".join(parts)\<close>.\<close>

fun split_acc :: "string \<Rightarrow> string \<Rightarrow> string list" where
  "split_acc acc [] = [rev acc]"
| "split_acc acc [c] = [rev (c # acc)]"
| "split_acc acc (c # d # s) =
     (if c = CHR ''_'' \<and> d = CHR ''_'' then rev acc # split_acc [] s else split_acc (c # acc) (d # s))"

definition split_dunder :: "string \<Rightarrow> string list" where
  "split_dunder s = split_acc [] s"

fun join_dunder :: "string list \<Rightarrow> string" where
  "join_dunder [] = []"
| "join_dunder [s] = s"
| "join_dunder (s # t # ss) = s @ ''__'' @ join_dunder (t # ss)"

section \<open>Members\<close>

record entity =
  ent_id :: string
  ent_connector :: "string option"
  ent_import_str :: string
  ent_attrs :: "(string, pyval) dict"

definition get_attr :: "entity \<Rightarrow> string \<Rightarrow> pyval option" where
  "get_attr r k = (if k = ''id'' then Some (PStr (ent_id r)) else dict_get (ent_attrs r) k)"

definition value_attr :: "pyval \<Rightarrow> string \<Rightarrow> pyval option" where
  "value_attr v k = (case v of PObj c a \<Rightarrow> dict_get a k | PExc c a \<Rightarrow> dict_get a k | PDict d \<Rightarrow> dict_get d k | _ \<Rightarrow> None)"

fun walk_fields :: "pyval \<Rightarrow> string list \<Rightarrow> pyval" where
  "walk_fields v [] = v"
| "walk_fields v (f # fs) = (case value_attr v f of Some w \<Rightarrow> walk_fields w fs | None \<Rightarrow> PNone)"

text \<open>\<open>_get_field_value\<close>; the object itself is not a value of the query language, so the empty path
  does not occur (splitting a string yields at least one part).\<close>

definition get_field_value :: "entity \<Rightarrow> string list \<Rightarrow> pyval" where
  "get_field_value r path =
     (case path of [] \<Rightarrow> PNone
      | f # fs \<Rightarrow> (case get_attr r f of Some w \<Rightarrow> walk_fields w fs | None \<Rightarrow> PNone))"

definition check_nested_field :: "entity \<Rightarrow> string list \<Rightarrow> pyval \<Rightarrow> bool" where
  "check_nested_field r path v = py_eq (get_field_value r path) v"

section \<open>Operators\<close>

definition filter_operators :: "string list" where
  "filter_operators = [''contains'', ''startswith'', ''endswith'', ''icontains'', ''gt'', ''gte'', ''lt'', ''lte'', ''in'', ''exact'', ''isnull'']"

definition hashable :: "pyval \<Rightarrow> bool" where
  "hashable v = (case v of PList xs \<Rightarrow> False | PDict d \<Rightarrow> False | _ \<Rightarrow> True)"

text \<open>\<open>x in c\<close> for the containers.\<close>

definition py_in :: "pyval \<Rightarrow> pyval \<Rightarrow> exc_class + bool" where
  "py_in x c =
     (case c of
        PStr t \<Rightarrow> (case x of PStr s \<Rightarrow> Inr (str_contains t s) | _ \<Rightarrow> Inl TypeError)
      | PList xs \<Rightarrow> Inr (list_ex (\<lambda>y. py_eq x y) xs)
      | PTuple xs \<Rightarrow> Inr (list_ex (\<lambda>y. py_eq x y) xs)
      | PDict d \<Rightarrow> if hashable x then Inr (list_ex (\<lambda>k. py_eq x (PStr k)) (map fst d)) else Inl TypeError
      | _ \<Rightarrow> Inl TypeError)"

text \<open>\<open>s.startswith(v)\<close> and \<open>s.endswith(v)\<close> take a string or a tuple of strings.\<close>

definition affix :: "(string \<Rightarrow> string \<Rightarrow> bool) \<Rightarrow> string \<Rightarrow> pyval \<Rightarrow> exc_class + bool" where
  "affix test s v =
     (case v of
        PStr p \<Rightarrow> Inr (test s p)
      | PTuple xs \<Rightarrow> if list_all (\<lambda>x. case x of PStr p \<Rightarrow> True | _ \<Rightarrow> False) xs
          then Inr (list_ex (\<lambda>x. case x of PStr p \<Rightarrow> test s p | _ \<Rightarrow> False) xs) else Inl TypeError
      | _ \<Rightarrow> Inl TypeError)"

definition check_operator :: "entity \<Rightarrow> string \<Rightarrow> string \<Rightarrow> pyval \<Rightarrow> exc_class + bool" where
  "check_operator r path op fv =
     (let v = get_field_value r (split_dunder path)
      in if op \<in> {''startswith'', ''endswith'', ''icontains''} \<and> (case v of PStr s \<Rightarrow> False | _ \<Rightarrow> True) then Inr False
         else if v = PNone \<and> op \<noteq> ''isnull'' then Inr False
         else if op = ''contains''
         then (case v of PStr s \<Rightarrow> py_in fv v | PList xs \<Rightarrow> py_in fv v | PTuple xs \<Rightarrow> py_in fv v | PDict d \<Rightarrow> py_in fv v
               | _ \<Rightarrow> Inr False)
         else if op = ''startswith'' then (case v of PStr s \<Rightarrow> affix str_startswith s fv | _ \<Rightarrow> Inr False)
         else if op = ''endswith'' then (case v of PStr s \<Rightarrow> affix str_endswith s fv | _ \<Rightarrow> Inr False)
         else if op = ''icontains''
         then (case (v, fv) of (PStr s, PStr t) \<Rightarrow> Inr (str_contains (str_lower s) (str_lower t)) | _ \<Rightarrow> Inr False)
         else if op = ''gt'' then py_cmp GT v fv
         else if op = ''gte'' then py_cmp GE v fv
         else if op = ''lt'' then py_cmp LT v fv
         else if op = ''lte'' then py_cmp LE v fv
         else if op = ''in'' then py_in v fv
         else if op = ''exact'' then Inr (py_eq v fv)
         else if op = ''isnull'' then Inr (py_eq (PBool (v = PNone)) fv)
         else Inr False)"

definition matches_one :: "entity \<Rightarrow> string \<Rightarrow> pyval \<Rightarrow> exc_class + bool" where
  "matches_one r key v =
     (if str_contains key ''__''
      then (let parts = split_dunder key
            in if last parts \<in> set filter_operators
               then check_operator r (join_dunder (butlast parts)) (last parts) v
               else Inr (check_nested_field r parts v))
      else Inr (py_eq (case get_attr r key of Some w \<Rightarrow> w | None \<Rightarrow> PNone) v))"

fun matches_filters :: "entity \<Rightarrow> (string, pyval) dict \<Rightarrow> exc_class + bool" where
  "matches_filters r [] = Inr True"
| "matches_filters r ((key, v) # fs) =
     bind_res (matches_one r key v) (\<lambda>ok. if ok then matches_filters r fs else Inr False)"

section \<open>The collection\<close>

type_synonym content_type = "string option \<times> string"

definition add_entity_content_type :: "entity \<Rightarrow> content_type option" where
  "add_entity_content_type r = (if ent_id r = [] then None else Some (ent_connector r, ent_import_str r))"

record result_set =
  content :: "(string, entity) dict"
  context_types :: "content_type list"

definition insert_entity :: "entity \<Rightarrow> result_set \<Rightarrow> result_set" where
  "insert_entity r rs =
     \<lparr>content = dict_set (ent_id r) r (content rs),
      context_types = (case add_entity_content_type r of
          None \<Rightarrow> context_types rs
        | Some ct \<Rightarrow> if ct \<in> set (context_types rs) then context_types rs else context_types rs @ [ct])\<rparr>"

definition empty_set :: result_set where
  "empty_set = \<lparr>content = [], context_types = []\<rparr>"

definition mk_result_set :: "entity list \<Rightarrow> result_set" where
  "mk_result_set rs = fold insert_entity rs empty_set"

definition rs_contains :: "result_set \<Rightarrow> entity \<Rightarrow> bool" where
  "rs_contains rs r = (ent_id r \<noteq> [] \<and> dict_has (content rs) (ent_id r))"

definition rs_len :: "result_set \<Rightarrow> nat" where
  "rs_len rs = length (content rs)"

definition rs_getitem :: "result_set \<Rightarrow> int \<Rightarrow> exc_class + entity" where
  "rs_getitem rs i =
     (let xs = dict_values (content rs); n = int (length xs)
      in if 0 \<le> i \<and> i < n then Inr (xs ! nat i)
         else if - n \<le> i \<and> i < 0 then Inr (xs ! nat (n + i))
         else Inl IndexError)"

datatype add_arg = AnEntity entity | ASet result_set | NotAResult

definition rs_add :: "add_arg \<Rightarrow> result_set \<Rightarrow> exc_class + result_set" where
  "rs_add a rs =
     (case a of
        ASet other \<Rightarrow> Inr \<lparr>content = dict_update (content rs) (content other),
          context_types = context_types rs @ filter (\<lambda>ct. ct \<notin> set (context_types rs)) (context_types other)\<rparr>
      | AnEntity r \<Rightarrow> Inr (insert_entity r rs)
      | NotAResult \<Rightarrow> Inl TypeError)"

definition rs_clear :: "result_set \<Rightarrow> result_set" where
  "rs_clear rs = empty_set"

definition pop_id :: "entity \<Rightarrow> result_set \<Rightarrow> result_set" where
  "pop_id r rs = rs\<lparr>content := dict_del (ent_id r) (content rs)\<rparr>"

definition rs_discard :: "add_arg \<Rightarrow> result_set \<Rightarrow> exc_class + result_set" where
  "rs_discard a rs =
     (case a of
        ASet other \<Rightarrow> Inr (fold pop_id (dict_values (content other)) rs)
      | AnEntity r \<Rightarrow> Inr (pop_id r rs)
      | NotAResult \<Rightarrow> Inl TypeError)"

fun filter_loop :: "entity list \<Rightarrow> (string, pyval) dict \<Rightarrow> exc_class + entity list" where
  "filter_loop [] fs = Inr []"
| "filter_loop (r # rs) fs =
     bind_res (matches_filters r fs) (\<lambda>ok.
     bind_res (filter_loop rs fs) (\<lambda>rest. Inr (if ok then r # rest else rest)))"

definition rs_filter_slow :: "result_set \<Rightarrow> (string, pyval) dict \<Rightarrow> exc_class + result_set" where
  "rs_filter_slow rs fs = bind_res (filter_loop (dict_values (content rs)) fs) (\<lambda>xs. Inr (mk_result_set xs))"

definition rs_filter :: "result_set \<Rightarrow> (string, pyval) dict \<Rightarrow> exc_class + result_set" where
  "rs_filter rs fs =
     (case fs of
        [(k, pk)] \<Rightarrow>
          if k = ''id''
          then (case pk of
                  PStr s \<Rightarrow> (case dict_get (content rs) s of Some r \<Rightarrow> Inr (mk_result_set [r]) | None \<Rightarrow> Inr (mk_result_set []))
                | _ \<Rightarrow> if hashable pk then Inr (mk_result_set []) else Inl TypeError)
          else rs_filter_slow rs fs
      | _ \<Rightarrow> rs_filter_slow rs fs)"

definition rs_get :: "result_set \<Rightarrow> (string, pyval) dict \<Rightarrow> exc_class + entity" where
  "rs_get rs fs =
     bind_res (rs_filter rs fs) (\<lambda>qs.
       if rs_len qs = 0 then Inl KeyError
       else if rs_len qs > 1 then Inl MultiValueError
       else rs_getitem qs 0)"

definition rs_first :: "result_set \<Rightarrow> entity option" where
  "rs_first rs = (case rs_getitem rs 0 of Inl e \<Rightarrow> None | Inr r \<Rightarrow> Some r)"

section \<open>The mutable-set interface\<close>

text \<open>What a client of a \<open>MutableSet\<close> relies on, over the identities of the members.\<close>

locale mutable_set =
  fixes invar :: "'s \<Rightarrow> bool" and empty :: 's and isin :: "'s \<Rightarrow> 'a \<Rightarrow> bool"
    and add :: "'a \<Rightarrow> 's \<Rightarrow> 's" and discard :: "'a \<Rightarrow> 's \<Rightarrow> 's"
    and ident :: "'a \<Rightarrow> 'i" and members :: "'s \<Rightarrow> 'i set"
  assumes invar_empty: "invar empty" and members_empty: "members empty = {}"
    and invar_add: "invar s \<Longrightarrow> invar (add x s)" and members_add: "invar s \<Longrightarrow> members (add x s) = insert (ident x) (members s)"
    and invar_discard: "invar s \<Longrightarrow> invar (discard x s)" and members_discard: "invar s \<Longrightarrow> members (discard x s) = members s - {ident x}"
    and isin_members: "invar s \<Longrightarrow> ident x \<in> members s \<Longrightarrow> isin s x"
begin

lemma add_all: "invar s \<Longrightarrow> invar (fold add xs s) \<and> members (fold add xs s) = members s \<union> ident ` set xs"
proof (induction xs arbitrary: s)
  case (Cons x xs)
  from Cons.IH[OF invar_add[OF Cons.prems]] show ?case by (auto simp: members_add[OF Cons.prems])
qed simp

lemma discard_all: "invar s \<Longrightarrow> invar (fold discard xs s) \<and> members (fold discard xs s) = members s - ident ` set xs"
proof (induction xs arbitrary: s)
  case (Cons x xs)
  from Cons.IH[OF invar_discard[OF Cons.prems]] show ?case by (auto simp: members_discard[OF Cons.prems])
qed simp

lemma collect: "invar (fold add xs empty) \<and> members (fold add xs empty) = ident ` set xs"
  using add_all[OF invar_empty] by (simp add: members_empty)

lemma collect_isin: "x \<in> set xs \<Longrightarrow> isin (fold add xs empty) x"
  using collect[of xs] by (intro isin_members) auto

end

text \<open>Every entry sits under the identity of its value, and identities are not empty.\<close>

definition rs_ok :: "result_set \<Rightarrow> bool" where
  "rs_ok rs \<longleftrightarrow> dict_ok (content rs) \<and> (\<forall>(k, r) \<in> set (content rs). k = ent_id r)"

definition rs_ids :: "result_set \<Rightarrow> string set" where
  "rs_ids rs = set (dict_keys (content rs))"

lemma rs_ok_empty [simp]: "rs_ok empty_set" "rs_ids empty_set = {}"
  by (simp_all add: rs_ok_def rs_ids_def empty_set_def)

lemma rs_ok_insert: "rs_ok rs \<Longrightarrow> rs_ok (insert_entity r rs)"
  by (auto simp: rs_ok_def insert_entity_def dest!: dict_set_mem)

lemma rs_ids_insert: "rs_ids (insert_entity r rs) = insert (ent_id r) (rs_ids rs)"
  by (auto simp: rs_ids_def insert_entity_def dict_keys_set dict_has_def)

lemma rs_ok_pop: "rs_ok rs \<Longrightarrow> rs_ok (pop_id r rs)"
proof -
  assume "rs_ok rs"
  moreover have "set (dict_del (ent_id r) (content rs)) \<subseteq> set (content rs)" by (simp add: AList.delete_eq)
  ultimately show ?thesis by (auto simp: rs_ok_def pop_id_def)
qed

lemma rs_ids_pop: "rs_ids (pop_id r rs) = rs_ids rs - {ent_id r}"
  by (auto simp: rs_ids_def pop_id_def AList.delete_eq)

definition has_id :: "result_set \<Rightarrow> entity \<Rightarrow> bool" where
  "has_id rs r = dict_has (content rs) (ent_id r)"

interpretation rset: mutable_set rs_ok empty_set has_id insert_entity pop_id ent_id rs_ids
  by unfold_locales
     (simp_all add: rs_ok_insert rs_ids_insert rs_ok_pop rs_ids_pop, simp add: has_id_def dict_has_def rs_ids_def)

lemma rs_ok_mk: "rs_ok (mk_result_set xs)"
  unfolding mk_result_set_def using rset.collect by blast

section \<open>Lemmas\<close>

lemma split_acc_nonempty [simp]: "split_acc acc s \<noteq> []"
  by (induction acc s rule: split_acc.induct) auto

lemma join_split_acc: "join_dunder (split_acc acc s) = rev acc @ s"
proof (induction acc s rule: split_acc.induct)
  case (3 acc c d s)
  show ?case
  proof (cases "c = CHR ''_'' \<and> d = CHR ''_''")
    case True
    then have "join_dunder (rev acc # split_acc [] s) = rev acc @ ''__'' @ join_dunder (split_acc [] s)"
      using split_acc_nonempty[of "[]" s] by (cases "split_acc [] s") simp_all
    with True 3 show ?thesis by simp
  next
    case False
    then have "split_acc acc (c # d # s) = split_acc (c # acc) (d # s)" by (simp only: split_acc.simps if_not_P if_False)
    with 3(2)[OF False] show ?thesis by (simp only:) simp
  qed
qed auto

lemma matches_one_id:
  "matches_one r ''id'' v = Inr (py_eq (PStr (ent_id r)) v)"
  by (simp add: matches_one_def get_attr_def)

text \<open>Filtering keeps the entries that match, in their order.\<close>

lemma mk_result_set_content:
  "rs_ok rs \<Longrightarrow> distinct (map ent_id (map snd (content rs) @ xs)) \<Longrightarrow>
   content (fold insert_entity xs rs) = content rs @ map (\<lambda>r. (ent_id r, r)) xs"
proof (induction xs arbitrary: rs)
  case (Cons x xs)
  have keys: "dict_keys (content rs) = map ent_id (map snd (content rs))"
    using Cons.prems(1) by (auto simp: rs_ok_def)
  have "\<not> dict_has (content rs) (ent_id x)"
    using Cons.prems(2) unfolding dict_has_def keys by auto
  then have c: "content (insert_entity x rs) = content rs @ [(ent_id x, x)]"
    by (simp add: insert_entity_def dict_set_new)
  show ?case using Cons.IH[OF rs_ok_insert[OF Cons.prems(1)], of x] Cons.prems(2) c by simp
qed simp

lemma mk_result_set_distinct:
  "distinct (map ent_id xs) \<Longrightarrow> content (mk_result_set xs) = map (\<lambda>r. (ent_id r, r)) xs"
  unfolding mk_result_set_def using mk_result_set_content[OF rs_ok_empty(1), of xs] by (simp add: empty_set_def)

lemma rs_ok_values:
  assumes "rs_ok rs"
  shows "distinct (map ent_id (dict_values (content rs)))" and "map (\<lambda>r. (ent_id r, r)) (dict_values (content rs)) = content rs"
proof -
  have "map ent_id (dict_values (content rs)) = dict_keys (content rs)" using assms by (auto simp: rs_ok_def)
  then show "distinct (map ent_id (dict_values (content rs)))"
    using assms unfolding rs_ok_def dict_ok_def by metis
  show "map (\<lambda>r. (ent_id r, r)) (dict_values (content rs)) = content rs"
    using assms by (auto simp: rs_ok_def intro!: map_idI)
qed

lemma filter_loop_filter:
  "filter_loop rs fs = Inr ys \<Longrightarrow> ys = filter (\<lambda>r. matches_filters r fs = Inr True) rs \<and> (\<forall>r \<in> set rs. \<exists>b. matches_filters r fs = Inr b)"
proof (induction rs arbitrary: ys)
  case (Cons r rs)
  then obtain b rest where "matches_filters r fs = Inr b" "filter_loop rs fs = Inr rest" "ys = (if b then r # rest else rest)"
    by (auto simp: res_simps)
  with Cons.IH[of rest] show ?case by auto
qed simp

lemma filter_loop_total:
  "\<forall>r \<in> set rs. \<exists>b. matches_filters r fs = Inr b \<Longrightarrow> filter_loop rs fs = Inr (filter (\<lambda>r. matches_filters r fs = Inr True) rs)"
  by (induction rs) auto

lemma content_filter_values:
  assumes "rs_ok rs"
  shows "content (mk_result_set (filter P (dict_values (content rs)))) = filter (\<lambda>x. P (snd x)) (content rs)"
proof -
  have "distinct (map ent_id (filter P (dict_values (content rs))))"
    using rs_ok_values(1)[OF assms] by (rule distinct_map_filter)
  then have "content (mk_result_set (filter P (dict_values (content rs)))) =
      map (\<lambda>r. (ent_id r, r)) (filter P (dict_values (content rs)))" by (rule mk_result_set_distinct)
  also have "\<dots> = filter (\<lambda>x. P (snd x)) (map (\<lambda>r. (ent_id r, r)) (dict_values (content rs)))"
    by (simp add: filter_map o_def)
  finally show ?thesis by (simp only: rs_ok_values(2)[OF assms])
qed

lemma dict_filter_key:
  "dict_ok d \<Longrightarrow> filter (\<lambda>x. fst x = s) d = (case dict_get d s of Some r \<Rightarrow> [(s, r)] | None \<Rightarrow> [])"
proof (induction d)
  case (Cons x d)
  then have IH: "filter (\<lambda>x. fst x = s) d = (case dict_get d s of Some r \<Rightarrow> [(s, r)] | None \<Rightarrow> [])"
    by (simp add: dict_ok_def)
  have "fst x = s \<Longrightarrow> filter (\<lambda>x. fst x = s) d = []"
    using Cons.prems by (auto simp: dict_ok_def filter_empty_conv image_iff)
  with IH show ?case by (cases x) auto
qed simp

lemma filter_by_key:
  assumes "rs_ok rs"
  shows "filter (\<lambda>x. PStr s = PStr (ent_id (snd x))) (content rs) =
    (case dict_get (content rs) s of Some r \<Rightarrow> [(s, r)] | None \<Rightarrow> [])"
proof -
  have "filter (\<lambda>x. PStr s = PStr (ent_id (snd x))) (content rs) = filter (\<lambda>x. fst x = s) (content rs)"
    using assms by (intro filter_cong) (auto simp: rs_ok_def)
  then show ?thesis using assms by (simp add: dict_filter_key rs_ok_def)
qed

lemma matches_id: "matches_filters r [(''id'', v)] = Inr (v = PStr (ent_id r))"
  by (simp add: matches_one_id)

lemma slow_filter_selects:
  assumes "rs_ok rs" and "rs_filter_slow rs fs = Inr q"
  shows "content q = filter (\<lambda>x. matches_filters (snd x) fs = Inr True) (content rs)"
proof -
  from assms(2) obtain ys where ys: "filter_loop (dict_values (content rs)) fs = Inr ys" "q = mk_result_set ys"
    by (auto simp: rs_filter_slow_def res_simps)
  with filter_loop_filter[OF ys(1)] content_filter_values[OF assms(1), of "\<lambda>r. matches_filters r fs = Inr True"]
  show ?thesis by simp
qed

lemma fast_filter_selects:
  assumes "rs_ok rs" and "rs_filter rs [(''id'', pk)] = Inr q"
  shows "content q = filter (\<lambda>x. pk = PStr (ent_id (snd x))) (content rs)"
proof (cases "\<exists>s. pk = PStr s")
  case True
  then obtain s where pk: "pk = PStr s" by blast
  show ?thesis
  proof (cases "dict_get (content rs) s")
    case None
    then show ?thesis using assms(2) filter_by_key[OF assms(1), of s] pk
      by (auto simp: rs_filter_def mk_result_set_def empty_set_def)
  next
    case (Some r)
    then have "ent_id r = s" using assms(1) by (auto simp: rs_ok_def dest: map_of_SomeD)
    then show ?thesis using Some assms(2) filter_by_key[OF assms(1), of s] pk mk_result_set_distinct[of "[r]"]
      by (auto simp: rs_filter_def)
  qed
next
  case False
  then have "q = mk_result_set []" using assms(2) by (cases pk) (auto simp: rs_filter_def split: if_splits)
  moreover have "filter (\<lambda>x. pk = PStr (ent_id (snd x))) (content rs) = []" using False by auto
  ultimately show ?thesis by (simp add: mk_result_set_def empty_set_def)
qed

lemma rs_filter_selects:
  assumes "rs_ok rs" and "rs_filter rs fs = Inr q"
  shows "content q = filter (\<lambda>x. matches_filters (snd x) fs = Inr True) (content rs)"
proof (cases "\<exists>pk. fs = [(''id'', pk)]")
  case True
  then obtain pk where fs: "fs = [(''id'', pk)]" by blast
  show ?thesis using fast_filter_selects[OF assms(1), of pk q] assms(2) unfolding fs matches_id by simp
next
  case False
  then have "rs_filter rs fs = rs_filter_slow rs fs"
    unfolding rs_filter_def by (auto split: list.split prod.split)
  then show ?thesis using slow_filter_selects[OF assms(1)] assms(2) by simp
qed

text \<open>\<open>get\<close> returns the only entry that matches; it raises KeyError when none matches and
  MultiValueError when more than one does.\<close>

lemma rs_get_unique:
  assumes "rs_ok rs" and "rs_filter rs fs = Inr q"
  shows "rs_get rs fs =
    (case filter (\<lambda>x. matches_filters (snd x) fs = Inr True) (content rs) of
       [] \<Rightarrow> Inl KeyError | [x] \<Rightarrow> Inr (snd x) | _ \<Rightarrow> Inl MultiValueError)"
  using rs_filter_selects[OF assms] assms(2)
  by (auto simp: rs_get_def rs_len_def rs_getitem_def Let_def split: list.splits)

section \<open>Properties\<close>

text \<open>C15. Filtering returns exactly the entries that match all the conditions, in the order of
  insertion; the shortcut for a lone \<open>id\<close> condition selects the same entries as the general path.\<close>

theorem filter_selects:
  assumes "rs_ok rs" and "rs_filter rs fs = Inr q"
  shows "content q = filter (\<lambda>x. matches_filters (snd x) fs = Inr True) (content rs)"
  using assms by (rule rs_filter_selects)

definition demo_result :: "string \<Rightarrow> string \<Rightarrow> bool \<Rightarrow> entity" where
  "demo_result i name err = \<lparr>ent_id = i, ent_connector = None, ent_import_str = ''nexus.result.EventResult'',
     ent_attrs = [(''event_name'', PStr name), (''error'', PBool err), (''content'', PDict [(''code'', PInt 7)])]\<rparr>"

definition demo_set :: result_set where
  "demo_set = mk_result_set [demo_result ''1'' ''Fetch'' False, demo_result ''2'' ''Store'' True]"

theorem filter_selects_witness:
  "\<exists>q. rs_filter demo_set [(''event_name__startswith'', PStr ''St''), (''content__code__gt'', PInt 3)] = Inr q \<and>
     content q = filter (\<lambda>x. matches_filters (snd x) [(''event_name__startswith'', PStr ''St''), (''content__code__gt'', PInt 3)] = Inr True)
       (content demo_set)"
proof -
  let ?f = "rs_filter demo_set [(''event_name__startswith'', PStr ''St''), (''content__code__gt'', PInt 3)]"
  have "case ?f of Inl e \<Rightarrow> False | Inr q \<Rightarrow> True" by code_simp
  then obtain q where "?f = Inr q" by (auto split: sum.splits)
  moreover have "rs_ok demo_set" by (simp add: demo_set_def rs_ok_mk)
  ultimately show ?thesis using filter_selects by blast
qed

text \<open>Building a set from results keeps the invariant that every entry sits under the identity of
  its value, holds exactly the identities given, and contains each result; adding merges and
  discarding removes exactly the identities of the argument.\<close>

lemma result_set_laws:
  assumes "rs_ok rs" and "rs_ok other"
  shows "rs_ok (mk_result_set xs) \<and> rs_ids (mk_result_set xs) = ent_id ` set xs \<and>
    (\<exists>u. rs_add (ASet other) rs = Inr u \<and> rs_ok u \<and> rs_ids u = rs_ids rs \<union> rs_ids other) \<and>
    (\<exists>d. rs_discard (ASet other) rs = Inr d \<and> rs_ok d \<and> rs_ids d = rs_ids rs - rs_ids other) \<and>
    rs_add NotAResult rs = Inl TypeError"
proof -
  have vals: "ent_id ` set (dict_values (content other)) = rs_ids other"
    using assms(2) by (force simp: rs_ok_def rs_ids_def)
  have "rs_ok \<lparr>content = dict_update (content rs) (content other), context_types = ct\<rparr> \<and>
     rs_ids \<lparr>content = dict_update (content rs) (content other), context_types = ct\<rparr> = rs_ids rs \<union> rs_ids other" for ct
  proof -
    have ok: "dict_ok (content rs)" using assms(1) by (simp add: rs_ok_def)
    have "\<forall>x \<in> set (content rs) \<union> set (content other). case x of (k, r) \<Rightarrow> k = ent_id r"
      using assms by (auto simp: rs_ok_def)
    moreover have "set (dict_update (content rs) (content other)) \<subseteq> set (content rs) \<union> set (content other)"
      using dict_update_mem[OF ok] by blast
    ultimately have "\<forall>x \<in> set (dict_update (content rs) (content other)). case x of (k, r) \<Rightarrow> k = ent_id r" by blast
    then show ?thesis using ok by (simp add: rs_ok_def rs_ids_def dict_keys_update del: set_map)
  qed
  with rset.collect[of xs] rset.discard_all[OF assms(1), of "dict_values (content other)"] vals show ?thesis
    by (simp add: mk_result_set_def rs_add_def rs_discard_def)
qed

end
