(* ===== verification/Connector.thy ===== *)
theory Connector
  imports Values
begin

text \<open>
  The connector managers of \<^verbatim>\<open>src/nexus/mixins/utils/connector.py\<close>: the manager that shares
  one connection, the pool, and the factory that chooses between them.

  A connection is an object with an identity (\<open>id(connection)\<close>). What the connector class
  and its connections do (whether the constructor raises, which of the optional methods
  \<open>is_connected\<close>, \<open>_check_connection\<close>, \<open>close\<close>, \<open>disconnect\<close> exist and what they
  return), the clock, and the element \<open>set.pop\<close> picks belong to the environment \<open>conn_env\<close>
  of one operation. Closing a connection is recorded in the log \<open>closed\<close>.

  The threads that use a pool interleave between the critical sections of its methods. The relation
  \<open>pool_step\<close> has one step per critical section and per semaphore operation, so that an invariant
  of \<open>pool_step\<close> holds for every schedule.
\<close>

section \<open>Connections, statistics and the environment\<close>

datatype connection_mode = SINGLE | POOLED

datatype conn = Conn (id_of: nat)

record conn_stats =
  created_at :: rat
  last_used_at :: rat
  use_count :: nat

record conn_env =
  construct :: "exc_class + conn"
  is_connected_method :: "(conn \<Rightarrow> exc_class + bool) option"
  check_connection_method :: "(conn \<Rightarrow> exc_class option) option"
  close_method :: "(conn \<Rightarrow> exc_class option) option"
  disconnect_method :: "(conn \<Rightarrow> exc_class option) option"
  now :: rat
  pop_choice :: "nat list \<Rightarrow> nat"

text \<open>What the factory inspects of a connector class.\<close>

record connector_class =
  klass_name :: string
  has_connection_pool :: bool
  has_get_connection :: bool
  thread_safe :: bool

definition detect_connection_mode :: "connector_class \<Rightarrow> connection_mode" where
  "detect_connection_mode k =
     (if (\<exists>n \<in> set [''redis'', ''mysql'', ''postgres'', ''sql'', ''mongo'', ''elasticsearch''].
            str_contains (str_lower (klass_name k)) n) \<or>
         has_connection_pool k \<or> has_get_connection k \<or> thread_safe k
      then POOLED else SINGLE)"

section \<open>The operations every manager inherits\<close>

definition create_connection :: "conn_env \<Rightarrow> exc_class + conn" where
  "create_connection env = (case construct env of Inl e \<Rightarrow> Inl ConnectionError | Inr c \<Rightarrow> Inr c)"

definition check_connection_health :: "conn_env \<Rightarrow> conn \<Rightarrow> bool" where
  "check_connection_health env c =
     (case is_connected_method env of
        Some m \<Rightarrow> (case m c of Inl e \<Rightarrow> False | Inr b \<Rightarrow> b)
      | None \<Rightarrow>
          (case check_connection_method env of
             Some m \<Rightarrow> m c = None
           | None \<Rightarrow> True))"

text \<open>Which method closes a connection; an exception it raises is logged and swallowed.\<close>

definition close_calls :: "conn_env \<Rightarrow> conn \<Rightarrow> conn list" where
  "close_calls env c = (if close_method env \<noteq> None \<or> disconnect_method env \<noteq> None then [c] else [])"

definition fresh_stats :: "conn_env \<Rightarrow> conn_stats" where
  "fresh_stats env = \<lparr>created_at = now env, last_used_at = now env, use_count = 0\<rparr>"

definition touch :: "conn_env \<Rightarrow> conn_stats \<Rightarrow> conn_stats" where
  "touch env st = st\<lparr>last_used_at := now env, use_count := use_count st + 1\<rparr>"

section \<open>The manager of a single connection\<close>

record single =
  sconnection :: "conn option"
  sstats :: "conn_stats option"
  sclosed :: "conn list"

definition mk_single :: single where
  "mk_single = \<lparr>sconnection = None, sstats = None, sclosed = []\<rparr>"

definition single_get_connection :: "conn_env \<Rightarrow> single \<Rightarrow> (exc_class + conn) \<times> single" where
  "single_get_connection env s =
     (case sconnection s of
        None \<Rightarrow>
          (case create_connection env of
             Inl e \<Rightarrow> (Inl e, s)
           | Inr c \<Rightarrow> (Inr c, s\<lparr>sconnection := Some c, sstats := Some (fresh_stats env)\<rparr>))
      | Some c \<Rightarrow>
          (if check_connection_health env c
           then (Inr c, s\<lparr>sstats := map_option (touch env) (sstats s)\<rparr>)
           else
             (let s1 = s\<lparr>sclosed := sclosed s @ close_calls env c\<rparr>
              in case create_connection env of
                   Inl e \<Rightarrow> (Inl e, s1)
                 | Inr d \<Rightarrow> (Inr d, s1\<lparr>sconnection := Some d, sstats := Some (touch env (fresh_stats env))\<rparr>))))"

definition single_release_connection :: "conn_env \<Rightarrow> conn \<Rightarrow> single \<Rightarrow> (exc_class + unit) \<times> single" where
  "single_release_connection env c s = (Inr (), s)"

definition single_shutdown :: "conn_env \<Rightarrow> single \<Rightarrow> single" where
  "single_shutdown env s =
     (case sconnection s of
        None \<Rightarrow> s
      | Some c \<Rightarrow> s\<lparr>sconnection := None, sstats := None, sclosed := sclosed s @ close_calls env c\<rparr>)"

section \<open>The pool\<close>

record pool =
  max_connections :: nat
  connection_timeout :: int
  idle_timeout :: int
  retry_attempts :: int
  retry_delay :: int
  connection_pool :: "(nat, conn) dict"
  connection_stats :: "(nat, conn_stats) dict"
  available_connections :: "nat list"
  permits :: nat
  cleanup_interval :: int
  running :: bool
  closed :: "conn list"

text \<open>\<open>BoundedSemaphore\<close> rejects a negative bound with ValueError.\<close>

definition mk_pool :: "int \<Rightarrow> int \<Rightarrow> int \<Rightarrow> int \<Rightarrow> int \<Rightarrow> exc_class + pool" where
  "mk_pool maxc timeout idle attempts delay =
     (if maxc < 0 then Inl ValueError
      else Inr \<lparr>max_connections = nat maxc, connection_timeout = timeout, idle_timeout = idle,
             retry_attempts = attempts, retry_delay = delay,
             connection_pool = [], connection_stats = [], available_connections = [],
             permits = nat maxc, cleanup_interval = max 60 (idle div 3), running = True, closed = []\<rparr>)"

text \<open>The semaphore: taking a permit fails when none comes free within the timeout; returning more
  permits than were taken raises ValueError.\<close>

definition sem_acquire :: "pool \<Rightarrow> pool option" where
  "sem_acquire p = (if permits p = 0 then None else Some (p\<lparr>permits := permits p - 1\<rparr>))"

definition sem_release :: "pool \<Rightarrow> exc_class + pool" where
  "sem_release p = (if max_connections p \<le> permits p then Inl ValueError else Inr (p\<lparr>permits := permits p + 1\<rparr>))"

definition close_connection :: "conn_env \<Rightarrow> conn \<Rightarrow> pool \<Rightarrow> pool" where
  "close_connection env c p = p\<lparr>closed := closed p @ close_calls env c\<rparr>"

text \<open>\<open>_get_available_connection\<close>: an available connection is popped; an unhealthy one is closed
  and forgotten.\<close>

definition get_available_connection :: "conn_env \<Rightarrow> pool \<Rightarrow> conn option \<times> pool" where
  "get_available_connection env p =
     (if available_connections p = [] then (None, p)
      else
        (let conn_id = pop_choice env (available_connections p);
             p1 = p\<lparr>available_connections := remove1 conn_id (available_connections p)\<rparr>
         in case dict_get (connection_pool p1) conn_id of
              None \<Rightarrow> (None, p1)
            | Some c \<Rightarrow>
                (if check_connection_health env c then (Some c, p1)
                 else
                   (let p2 = close_connection env c p1
                    in (None, p2\<lparr>connection_pool := dict_del conn_id (connection_pool p2),
                                connection_stats := dict_del conn_id (connection_stats p2)\<rparr>)))))"

definition create_new_connection :: "conn_env \<Rightarrow> pool \<Rightarrow> (exc_class + conn) \<times> pool" where
  "create_new_connection env p =
     (case create_connection env of
        Inl e \<Rightarrow> (Inl e, p)
      | Inr c \<Rightarrow>
          (Inr c, p\<lparr>connection_pool := dict_set (id_of c) c (connection_pool p),
                   connection_stats := dict_set (id_of c) (fresh_stats env) (connection_stats p)\<rparr>))"

text \<open>\<open>get_connection\<close>: a failure to create gives the permit back.\<close>

definition pool_get_connection :: "conn_env \<Rightarrow> pool \<Rightarrow> (exc_class + conn) \<times> pool" where
  "pool_get_connection env p =
     (case sem_acquire p of
        None \<Rightarrow> (Inl ConnectionError, p)
      | Some p1 \<Rightarrow>
          (case get_available_connection env p1 of
             (Some c, p2) \<Rightarrow> (Inr c, p2)
           | (None, p2) \<Rightarrow>
               (case create_new_connection env p2 of
                  (Inr c, p3) \<Rightarrow> (Inr c, p3)
                | (Inl e, p3) \<Rightarrow>
                    (case sem_release p3 of
                       Inl e' \<Rightarrow> (Inl e', p3)
                     | Inr p4 \<Rightarrow> (Inl ConnectionError, p4)))))"

text \<open>The locked part of \<open>release_connection\<close>.\<close>

definition put_back :: "conn_env \<Rightarrow> conn \<Rightarrow> pool \<Rightarrow> pool" where
  "put_back env c p =
     (case dict_get (connection_stats p) (id_of c) of
        Some st \<Rightarrow>
          p\<lparr>connection_stats := dict_set (id_of c) (touch env st) (connection_stats p),
            available_connections := List.insert (id_of c) (available_connections p)\<rparr>
      | None \<Rightarrow> close_connection env c p)"

definition pool_release_connection :: "conn_env \<Rightarrow> conn \<Rightarrow> pool \<Rightarrow> (exc_class + unit) \<times> pool" where
  "pool_release_connection env c p =
     (let p1 = put_back env c p
      in case sem_release p1 of Inl e \<Rightarrow> (Inl e, p1) | Inr p2 \<Rightarrow> (Inr (), p2))"

definition close_all :: "conn_env \<Rightarrow> conn list \<Rightarrow> pool \<Rightarrow> pool" where
  "close_all env cs p = foldl (\<lambda>q c. close_connection env c q) p cs"

definition pool_shutdown :: "conn_env \<Rightarrow> pool \<Rightarrow> pool" where
  "pool_shutdown env p =
     (if running p
      then (close_all env (dict_values (connection_pool p)) (p\<lparr>running := False\<rparr>))
             \<lparr>connection_pool := [], connection_stats := [], available_connections := []\<rparr>
      else p)"

text \<open>One pass of the loop of \<open>_cleanup_idle_connections\<close>, after the sleep.\<close>

definition is_idle :: "conn_env \<Rightarrow> pool \<Rightarrow> conn_stats \<Rightarrow> bool" where
  "is_idle env p st \<longleftrightarrow> now env - last_used_at st > of_int (idle_timeout p)"

definition drop_idle :: "conn_env \<Rightarrow> nat \<Rightarrow> pool \<Rightarrow> pool" where
  "drop_idle env i p =
     (case dict_get (connection_pool p) i of
        None \<Rightarrow> p
      | Some c \<Rightarrow>
          (close_connection env c p)
            \<lparr>connection_pool := dict_del i (connection_pool p),
             connection_stats := dict_del i (connection_stats p),
             available_connections := removeAll i (available_connections p)\<rparr>)"

definition idle_connections :: "conn_env \<Rightarrow> pool \<Rightarrow> nat list" where
  "idle_connections env p = map fst (filter (\<lambda>(i, st). is_idle env p st) (connection_stats p))"

definition cleanup_pass :: "conn_env \<Rightarrow> pool \<Rightarrow> pool" where
  "cleanup_pass env p =
     (if running p then foldl (\<lambda>q i. drop_idle env i q) p (idle_connections env p) else p)"

section \<open>Using a connection\<close>

text \<open>
  Taking a connection, calling a method on it, and giving it back whatever the method does: the body
  of one attempt of \<open>execute_with_retry\<close>, and what \<open>with_connection\<close> does with a manager that
  has no retries. The method changes the world \<open>w\<close> and returns or raises. An exception of
  \<open>release_connection\<close> replaces the outcome of the method.
\<close>

type_synonym ('s, 'w, 'r) conn_user = "'s \<Rightarrow> 'w \<Rightarrow> 'r \<times> 's \<times> 'w"

datatype 'r attempt = Returned 'r | Failed exc_class | Escaped exc_class

definition use_connection ::
  "(conn_env \<Rightarrow> 's \<Rightarrow> (exc_class + conn) \<times> 's) \<Rightarrow> (conn_env \<Rightarrow> conn \<Rightarrow> 's \<Rightarrow> (exc_class + unit) \<times> 's) \<Rightarrow>
   conn_env \<Rightarrow> (conn \<Rightarrow> 'w \<Rightarrow> (exc_class + 'r) \<times> 'w) \<Rightarrow> ('s, 'w, 'r attempt) conn_user" where
  "use_connection get rel env m s w =
     (case get env s of
        (Inl e, s1) \<Rightarrow> (Failed e, s1, w)
      | (Inr c, s1) \<Rightarrow>
          (case m c w of
             (r, w1) \<Rightarrow>
               (case rel env c s1 of
                  (Inl e, s2) \<Rightarrow> (Escaped e, s2, w1)
                | (Inr _, s2) \<Rightarrow> ((case r of Inl e \<Rightarrow> Failed e | Inr v \<Rightarrow> Returned v), s2, w1))))"

text \<open>
  \<open>execute_with_retry\<close>: attempt \<open>i\<close> runs in the environment \<open>envs i\<close>. The list collects
  the attempts the loop sleeps after; \<open>Inr None\<close> is Python's \<open>None\<close>, returned when there is no
  attempt at all.
\<close>

type_synonym ('w, 'r) conn_method = "nat \<Rightarrow> conn \<Rightarrow> 'w \<Rightarrow> (exc_class + 'r) \<times> 'w"

text \<open>The loop over the \<open>n\<close> attempts that are left, the next one being number \<open>i\<close> (from 1).\<close>

fun retry_attempts_from ::
  "nat \<Rightarrow> nat \<Rightarrow> (nat \<Rightarrow> conn_env) \<Rightarrow> ('w, 'r) conn_method \<Rightarrow> exc_class option \<Rightarrow> pool \<Rightarrow> 'w \<Rightarrow> nat list \<Rightarrow>
   (exc_class + 'r option) \<times> pool \<times> 'w \<times> nat list" where
  "retry_attempts_from 0 i envs m last_exc p w sl =
     ((case last_exc of None \<Rightarrow> Inr None | Some e \<Rightarrow> Inl e), p, w, sl)"
| "retry_attempts_from (Suc n) i envs m last_exc p w sl =
     (case use_connection pool_get_connection pool_release_connection (envs i) (m i) p w of
        (Returned v, p1, w1) \<Rightarrow> (Inr (Some v), p1, w1, sl)
      | (Escaped e, p1, w1) \<Rightarrow> (Inl e, p1, w1, sl)
      | (Failed e, p1, w1) \<Rightarrow>
          retry_attempts_from n (Suc i) envs m (Some e) p1 w1 (if n = 0 then sl else sl @ [i]))"

definition execute_with_retry ::
  "(nat \<Rightarrow> conn_env) \<Rightarrow> ('w, 'r) conn_method \<Rightarrow> pool \<Rightarrow> 'w \<Rightarrow> (exc_class + 'r option) \<times> pool \<times> 'w \<times> nat list" where
  "execute_with_retry envs m p w = retry_attempts_from (nat (retry_attempts p)) 1 envs m None p w []"

definition single_with_connection ::
  "conn_env \<Rightarrow> (conn \<Rightarrow> 'w \<Rightarrow> (exc_class + 'r) \<times> 'w) \<Rightarrow> single \<Rightarrow> 'w \<Rightarrow> (exc_class + 'r) \<times> single \<times> 'w" where
  "single_with_connection env m s w =
     (case use_connection single_get_connection single_release_connection env m s w of
        (Returned v, s1, w1) \<Rightarrow> (Inr v, s1, w1)
      | (Failed e, s1, w1) \<Rightarrow> (Inl e, s1, w1)
      | (Escaped e, s1, w1) \<Rightarrow> (Inl e, s1, w1))"

section \<open>The factory\<close>

datatype manager = MSingle single | MPool pool

definition create_manager ::
  "connector_class \<Rightarrow> connection_mode option \<Rightarrow> int \<Rightarrow> int \<Rightarrow> int \<Rightarrow> exc_class + manager" where
  "create_manager k mode maxc timeout idle =
     (case (case mode of None \<Rightarrow> detect_connection_mode k | Some m \<Rightarrow> m) of
        POOLED \<Rightarrow> bind_res (mk_pool maxc timeout idle 3 1) (\<lambda>p. Inr (MPool p))
      | SINGLE \<Rightarrow> Inr (MSingle mk_single))"

end
