(* ===== verification/Connector_Pool.thy ===== *)
theory Connector_Pool
  imports Connector "HOL-Library.Multiset"
begin

text \<open>
  The pool under concurrent use. A configuration \<open>sys\<close> is the pool with the number of threads
  at each program point of \<open>get_connection\<close> and \<open>release_connection\<close> and the connections
  that clients hold. \<open>pool_step\<close> takes one critical section of one thread, one pass of the
  cleanup thread, or a shutdown. \<open>pool_inv\<close> is the invariant of all reachable configurations.
\<close>

section \<open>Configurations and steps\<close>

record sys =
  pl :: pool
  entering :: nat
  creating :: nat
  leaving :: nat
  held :: "conn list"

text \<open>What Python guarantees of one operation: \<open>set.pop\<close> returns a member, and a new object has an
  identity that no live object has.\<close>

definition fair_pick :: "conn_env \<Rightarrow> bool" where
  "fair_pick env \<longleftrightarrow> (\<forall>xs. xs \<noteq> [] \<longrightarrow> pop_choice env xs \<in> set xs)"

definition fresh_in :: "conn_env \<Rightarrow> sys \<Rightarrow> bool" where
  "fresh_in env s \<longleftrightarrow>
     (\<forall>c. construct env = Inr c \<longrightarrow> id_of c \<notin> set (dict_keys (connection_pool (pl s))) \<and> id_of c \<notin> set (map id_of (held s)))"

inductive pool_step :: "sys \<Rightarrow> sys \<Rightarrow> bool" where
  Acquire: "sem_acquire (pl s) = Some p \<Longrightarrow>
     pool_step s (s\<lparr>pl := p, entering := entering s + 1\<rparr>)"
| Take: "entering s = Suc n \<Longrightarrow> fair_pick env \<Longrightarrow> get_available_connection env (pl s) = (Some c, p) \<Longrightarrow>
     pool_step s (s\<lparr>pl := p, entering := n, held := c # held s\<rparr>)"
| Miss: "entering s = Suc n \<Longrightarrow> fair_pick env \<Longrightarrow> get_available_connection env (pl s) = (None, p) \<Longrightarrow>
     pool_step s (s\<lparr>pl := p, entering := n, creating := creating s + 1\<rparr>)"
| Create: "creating s = Suc n \<Longrightarrow> fresh_in env s \<Longrightarrow> create_new_connection env (pl s) = (Inr c, p) \<Longrightarrow>
     pool_step s (s\<lparr>pl := p, creating := n, held := c # held s\<rparr>)"
| CreateFails: "creating s = Suc n \<Longrightarrow> create_new_connection env (pl s) = (Inl e, p) \<Longrightarrow> sem_release p = Inr q \<Longrightarrow>
     pool_step s (s\<lparr>pl := q, creating := n\<rparr>)"
| PutBack: "c \<in> set (held s) \<Longrightarrow>
     pool_step s (s\<lparr>pl := put_back env c (pl s), held := remove1 c (held s), leaving := leaving s + 1\<rparr>)"
| Leave: "leaving s = Suc n \<Longrightarrow> sem_release (pl s) = Inr p \<Longrightarrow>
     pool_step s (s\<lparr>pl := p, leaving := n\<rparr>)"
| Cleanup: "pool_step s (s\<lparr>pl := cleanup_pass env (pl s)\<rparr>)"
| Shutdown: "pool_step s (s\<lparr>pl := pool_shutdown env (pl s)\<rparr>)"

inductive_cases pool_stepE: "pool_step s s'"

definition init_sys :: "pool \<Rightarrow> sys" where
  "init_sys p = \<lparr>pl = p, entering = 0, creating = 0, leaving = 0, held = []\<rparr>"

inductive pool_reach :: "sys \<Rightarrow> bool" where
  Init: "mk_pool maxc timeout idle attempts delay = Inr p \<Longrightarrow> pool_reach (init_sys p)"
| Step: "pool_reach s \<Longrightarrow> pool_step s s' \<Longrightarrow> pool_reach s'"

section \<open>The invariant\<close>

definition pool_ok :: "pool \<Rightarrow> bool" where
  "pool_ok p \<longleftrightarrow> dict_ok (connection_pool p) \<and> dict_ok (connection_stats p) \<and>
     set (dict_keys (connection_stats p)) = set (dict_keys (connection_pool p)) \<and>
     (\<forall>(i, c) \<in> set (connection_pool p). i = id_of c) \<and>
     distinct (available_connections p) \<and> set (available_connections p) \<subseteq> set (dict_keys (connection_pool p))"

definition pool_inv :: "sys \<Rightarrow> bool" where
  "pool_inv s \<longleftrightarrow> pool_ok (pl s) \<and>
     permits (pl s) + entering s + creating s + leaving s + length (held s) = max_connections (pl s) \<and>
     distinct (map id_of (held s)) \<and>
     set (available_connections (pl s)) \<inter> set (map id_of (held s)) = {} \<and>
     set (dict_keys (connection_pool (pl s))) \<subseteq> set (available_connections (pl s)) \<union> set (map id_of (held s)) \<and>
     length (available_connections (pl s)) + creating s + length (held s) \<le> max_connections (pl s)"

text \<open>The fields an operation leaves alone.\<close>

lemma close_connection_simps [simp]:
  "connection_pool (close_connection env c p) = connection_pool p"
  "connection_stats (close_connection env c p) = connection_stats p"
  "available_connections (close_connection env c p) = available_connections p"
  "permits (close_connection env c p) = permits p"
  "max_connections (close_connection env c p) = max_connections p"
  "running (close_connection env c p) = running p"
  "idle_timeout (close_connection env c p) = idle_timeout p"
  "closed (close_connection env c p) = closed p @ close_calls env c"
  by (simp_all add: close_connection_def)

lemma close_all_simps [simp]:
  "permits (close_all env cs p) = permits p"
  "max_connections (close_all env cs p) = max_connections p"
  "closed (close_all env cs p) = closed p @ concat (map (close_calls env) cs)"
  by (induction cs arbitrary: p) (simp_all add: close_all_def)

lemma sem_acquire_Some: "sem_acquire p = Some q \<Longrightarrow> \<exists>n. permits p = Suc n \<and> q = p\<lparr>permits := n\<rparr>"
  by (cases "permits p") (auto simp: sem_acquire_def)

lemma sem_release_Inr: "sem_release p = Inr q \<Longrightarrow> q = p\<lparr>permits := Suc (permits p)\<rparr>"
  by (auto simp: sem_release_def split: if_splits)

lemma pool_ok_permits [simp]: "pool_ok (p\<lparr>permits := n\<rparr>) = pool_ok p"
  by (simp add: pool_ok_def)

lemma dict_keys_del: "set (dict_keys (dict_del k d)) = set (dict_keys d) - {k}"
  by (simp add: delete_keys)

lemma dict_keys_update_one: "set (dict_keys (dict_set k v d)) = insert k (set (dict_keys d))"
  by (auto simp: dict_keys_set dict_has_def)

lemma dict_del_mem: "x \<in> set (dict_del k d) \<Longrightarrow> x \<in> set d"
  by (simp add: AList.delete_eq)

lemma length_remove1_mem: "x \<in> set xs \<Longrightarrow> Suc (length (remove1 x xs)) = length xs"
  by (induction xs) auto

lemma pool_ok_forget:
  assumes "pool_ok p" "set av \<subseteq> set (available_connections p) - {i}" "distinct av"
  shows "pool_ok (p\<lparr>connection_pool := dict_del i (connection_pool p),
    connection_stats := dict_del i (connection_stats p), available_connections := av, closed := cl\<rparr>)"
  using assms unfolding pool_ok_def
  by (auto simp: dict_keys_del simp del: set_map dest: dict_del_mem)

lemma pool_ok_get: "pool_ok p \<Longrightarrow> dict_get (connection_pool p) i = Some c \<Longrightarrow> id_of c = i"
  by (auto simp: pool_ok_def dest!: map_of_SomeD)

lemma get_available_cases:
  assumes "pool_ok p" and "fair_pick env" and "get_available_connection env p = (r, q)"
  shows "(r = None \<and> available_connections p = [] \<and> q = p) \<or>
    (\<exists>c. id_of c \<in> set (available_connections p) \<and> dict_get (connection_pool p) (id_of c) = Some c \<and>
       (if check_connection_health env c
        then r = Some c \<and> q = p\<lparr>available_connections := remove1 (id_of c) (available_connections p)\<rparr>
        else r = None \<and> q = p\<lparr>connection_pool := dict_del (id_of c) (connection_pool p),
          connection_stats := dict_del (id_of c) (connection_stats p),
          available_connections := remove1 (id_of c) (available_connections p), closed := closed p @ close_calls env c\<rparr>))"
proof (cases "available_connections p = []")
  case True
  with assms(3) show ?thesis by (simp add: get_available_connection_def)
next
  case False
  let ?i = "pop_choice env (available_connections p)"
  have i: "?i \<in> set (available_connections p)" using False assms(2) by (simp add: fair_pick_def)
  then have "?i \<in> set (dict_keys (connection_pool p))" using assms(1) by (auto simp: pool_ok_def simp del: set_map)
  then obtain c where c: "dict_get (connection_pool p) ?i = Some c"
    by (metis map_of_eq_None_iff not_Some_eq set_map)
  then have "id_of c = ?i" using assms(1) by (rule pool_ok_get[rotated])
  with i c False assms(3) show ?thesis
    by (intro disjI2 exI[of _ c]) (auto simp: get_available_connection_def close_connection_def Let_def split: if_splits)
qed

lemma put_back_cases:
  assumes "pool_ok p"
  shows "if dict_has (connection_pool p) (id_of c)
    then \<exists>st. put_back env c p = p\<lparr>connection_stats := dict_set (id_of c) st (connection_stats p),
      available_connections := List.insert (id_of c) (available_connections p)\<rparr>
    else put_back env c p = close_connection env c p"
proof -
  have "dict_has (connection_pool p) (id_of c) \<longleftrightarrow> dict_has (connection_stats p) (id_of c)"
    using assms by (simp add: pool_ok_def dict_has_def del: set_map)
  then show ?thesis by (auto simp: put_back_def dict_has_get split: option.splits)
qed

section \<open>Every step keeps the invariant\<close>

lemma inv_take:
  assumes inv: "pool_inv s" and e: "entering s = Suc n" and env: "fair_pick env"
    and g: "get_available_connection env (pl s) = (Some c, p)"
  shows "pool_inv (s\<lparr>pl := p, entering := n, held := c # held s\<rparr>)"
proof -
  have ok: "pool_ok (pl s)" using inv by (simp add: pool_inv_def)
  from get_available_cases[OF ok env g]
  have i: "id_of c \<in> set (available_connections (pl s))"
    and p: "p = (pl s)\<lparr>available_connections := remove1 (id_of c) (available_connections (pl s))\<rparr>"
    by (auto split: if_splits)
  have d: "distinct (available_connections (pl s))" using ok by (simp add: pool_ok_def)
  have "pool_ok p" using ok d unfolding p by (auto simp: pool_ok_def simp del: set_map)
  moreover have "length (remove1 (id_of c) (available_connections (pl s))) + 1 = length (available_connections (pl s))"
    using length_remove1_mem[OF i] by simp
  ultimately show ?thesis using inv e i d unfolding pool_inv_def p
    by (auto simp: disjoint_iff simp del: set_map)
qed

lemma inv_miss:
  assumes inv: "pool_inv s" and e: "entering s = Suc n" and env: "fair_pick env"
    and g: "get_available_connection env (pl s) = (None, p)"
  shows "pool_inv (s\<lparr>pl := p, entering := n, creating := creating s + 1\<rparr>)"
proof -
  have ok: "pool_ok (pl s)" using inv by (simp add: pool_inv_def)
  from get_available_cases[OF ok env g]
  consider (empty) "available_connections (pl s) = []" "p = pl s"
    | (dead) c where "id_of c \<in> set (available_connections (pl s))"
      "p = (pl s)\<lparr>connection_pool := dict_del (id_of c) (connection_pool (pl s)),
          connection_stats := dict_del (id_of c) (connection_stats (pl s)),
          available_connections := remove1 (id_of c) (available_connections (pl s)), closed := closed (pl s) @ close_calls env c\<rparr>"
    by (auto split: if_splits)
  then show ?thesis
  proof cases
    case empty
    with inv e show ?thesis by (simp add: pool_inv_def)
  next
    case dead
    have d: "distinct (available_connections (pl s))" using ok by (simp add: pool_ok_def)
    have "pool_ok p" unfolding dead(2) by (rule pool_ok_forget) (use ok d in auto)
    moreover have "length (remove1 (id_of c) (available_connections (pl s))) + 1 = length (available_connections (pl s))"
      using length_remove1_mem[OF dead(1)] by simp
    ultimately show ?thesis using inv e d unfolding pool_inv_def dead(2)
      by (auto simp: dict_keys_del simp del: set_map)
  qed
qed

lemma inv_create:
  assumes inv: "pool_inv s" and e: "creating s = Suc n" and env: "fresh_in env s"
    and g: "create_new_connection env (pl s) = (Inr c, p)"
  shows "pool_inv (s\<lparr>pl := p, creating := n, held := c # held s\<rparr>)"
proof -
  have ok: "pool_ok (pl s)" using inv by (simp add: pool_inv_def)
  from g have c: "construct env = Inr c"
    and p: "p = (pl s)\<lparr>connection_pool := dict_set (id_of c) c (connection_pool (pl s)),
                   connection_stats := dict_set (id_of c) (fresh_stats env) (connection_stats (pl s))\<rparr>"
    by (auto simp: create_new_connection_def create_connection_def split: sum.splits)
  from c env have new: "id_of c \<notin> set (dict_keys (connection_pool (pl s)))" "id_of c \<notin> set (map id_of (held s))"
    by (simp_all add: fresh_in_def)
  have keys: "set (dict_keys (dict_set (id_of c) v d)) = insert (id_of c) (set (dict_keys d))" for v and d :: "(nat, 'v) dict"
    by (rule dict_keys_update_one)
  have "pool_ok p" using ok unfolding p pool_ok_def
    by (auto simp: keys simp del: set_map dest: dict_set_mem[rotated])
  moreover have "id_of c \<notin> set (available_connections (pl s))" using ok new(1) by (auto simp: pool_ok_def simp del: set_map)
  ultimately show ?thesis using inv e new unfolding pool_inv_def p
    by (auto simp: keys simp del: set_map)
qed

lemma inv_put_back:
  assumes inv: "pool_inv s" and c: "c \<in> set (held s)"
  shows "pool_inv (s\<lparr>pl := put_back env c (pl s), held := remove1 c (held s), leaving := leaving s + 1\<rparr>)"
proof -
  have ok: "pool_ok (pl s)" and d: "distinct (map id_of (held s))" using inv by (simp_all add: pool_inv_def)
  have ids: "set (map id_of (remove1 c (held s))) = set (map id_of (held s)) - {id_of c}"
    using d c by (auto simp: distinct_map inj_on_def)
  have dist: "distinct (map id_of (remove1 c (held s)))"
    using d by (auto simp: distinct_map inj_on_def)
  have out: "id_of c \<in> set (map id_of (held s))" using c by simp
  have len: "Suc (length (remove1 c (held s))) = length (held s)" using c by (rule length_remove1_mem)
  show ?thesis
  proof (cases "dict_has (connection_pool (pl s)) (id_of c)")
    case True
    then obtain st where p: "put_back env c (pl s) = (pl s)\<lparr>connection_stats := dict_set (id_of c) st (connection_stats (pl s)),
      available_connections := List.insert (id_of c) (available_connections (pl s))\<rparr>"
      using put_back_cases[OF ok, of c env] by auto
    have k: "id_of c \<in> set (dict_keys (connection_pool (pl s)))" using True by (simp add: dict_has_def)
    have "pool_ok (put_back env c (pl s))" using ok k unfolding p pool_ok_def
      by (auto simp: dict_keys_update_one simp del: set_map)
    moreover have "id_of c \<notin> set (available_connections (pl s))" using inv out by (auto simp: pool_inv_def simp del: set_map)
    ultimately show ?thesis using inv ids dist len unfolding pool_inv_def p
      by (auto simp: simp del: set_map)
  next
    case False
    then have p: "put_back env c (pl s) = close_connection env c (pl s)"
      using put_back_cases[OF ok, of c env] by simp
    from False have "id_of c \<notin> set (dict_keys (connection_pool (pl s)))" by (simp add: dict_has_def)
    moreover have "pool_ok (close_connection env c (pl s))" using ok by (simp add: pool_ok_def)
    ultimately show ?thesis using inv ids dist len unfolding pool_inv_def p
      by (auto simp del: set_map)
  qed
qed

lemma drop_idle_frame [simp]:
  "permits (drop_idle env i p) = permits p" "max_connections (drop_idle env i p) = max_connections p"
  "running (drop_idle env i p) = running p" "idle_timeout (drop_idle env i p) = idle_timeout p"
  by (simp_all add: drop_idle_def split: option.splits)

lemma drop_idle_eq:
  assumes "pool_ok p" and "i \<in> set (dict_keys (connection_pool p))"
  shows "\<exists>c. dict_get (connection_pool p) i = Some c \<and>
     drop_idle env i p = p\<lparr>connection_pool := dict_del i (connection_pool p), connection_stats := dict_del i (connection_stats p),
       available_connections := removeAll i (available_connections p), closed := closed p @ close_calls env c\<rparr>"
proof -
  from assms(2) obtain c where "dict_get (connection_pool p) i = Some c"
    by (metis map_of_eq_None_iff not_Some_eq set_map)
  then show ?thesis by (simp add: drop_idle_def close_connection_def)
qed

lemma inv_drop_idle: "pool_inv s \<Longrightarrow> pool_inv (s\<lparr>pl := drop_idle env i (pl s)\<rparr>)"
proof (cases "i \<in> set (dict_keys (connection_pool (pl s)))")
  case True
  assume inv: "pool_inv s"
  then have ok: "pool_ok (pl s)" by (simp add: pool_inv_def)
  from drop_idle_eq[OF ok True] obtain c where p: "drop_idle env i (pl s) =
    (pl s)\<lparr>connection_pool := dict_del i (connection_pool (pl s)), connection_stats := dict_del i (connection_stats (pl s)),
       available_connections := removeAll i (available_connections (pl s)), closed := closed (pl s) @ close_calls env c\<rparr>"
    by blast
  have "pool_ok (drop_idle env i (pl s))" unfolding p by (rule pool_ok_forget) (use ok in \<open>auto simp: pool_ok_def distinct_removeAll\<close>)
  moreover have "length (removeAll i (available_connections (pl s))) + creating s + length (held s) \<le> max_connections (pl s)"
    using inv length_removeAll_less_eq[of i "available_connections (pl s)"] unfolding pool_inv_def by linarith
  ultimately show ?thesis using inv unfolding pool_inv_def p
    by (auto simp: dict_keys_del simp del: set_map)
next
  case False
  assume inv: "pool_inv s"
  from False have "dict_get (connection_pool (pl s)) i = None" by (simp add: map_of_eq_None_iff)
  then have "drop_idle env i (pl s) = pl s" by (simp add: drop_idle_def)
  with inv show ?thesis by simp
qed

lemma inv_cleanup: "pool_inv s \<Longrightarrow> pool_inv (s\<lparr>pl := cleanup_pass env (pl s)\<rparr>)"
proof -
  have "pool_inv (s\<lparr>pl := p\<rparr>) \<Longrightarrow> pool_inv (s\<lparr>pl := foldl (\<lambda>q i. drop_idle env i q) p is\<rparr>)" for p "is"
  proof (induction "is" arbitrary: p)
    case (Cons i "is")
    then show ?case using inv_drop_idle[of "s\<lparr>pl := p\<rparr>" env i] by simp
  qed simp
  then show "pool_inv s \<Longrightarrow> ?thesis" by (auto simp: cleanup_pass_def)
qed

lemma inv_shutdown: "pool_inv s \<Longrightarrow> pool_inv (s\<lparr>pl := pool_shutdown env (pl s)\<rparr>)"
  by (auto simp: pool_shutdown_def pool_inv_def pool_ok_def)

lemma inv_step: "pool_step s s' \<Longrightarrow> pool_inv s \<Longrightarrow> pool_inv s'"
proof (induction rule: pool_step.induct)
  case (Acquire s p)
  then obtain n where "permits (pl s) = Suc n" "p = (pl s)\<lparr>permits := n\<rparr>" using sem_acquire_Some by blast
  then show ?case using Acquire by (simp add: pool_inv_def)
next
  case (CreateFails s n env e p q)
  then have "p = pl s" by (auto simp: create_new_connection_def split: sum.splits)
  then show ?case using CreateFails by (simp add: pool_inv_def sem_release_Inr[OF CreateFails(3)])
next
  case (Leave s n p)
  then show ?case by (simp add: pool_inv_def sem_release_Inr[OF Leave(2)])
qed (blast intro: inv_take inv_miss inv_create inv_put_back inv_cleanup inv_shutdown)+

lemma inv_reach: "pool_reach s \<Longrightarrow> pool_inv s"
proof (induction rule: pool_reach.induct)
  case (Init maxc timeout idle attempts delay p)
  then show ?case by (auto simp: mk_pool_def init_sys_def pool_inv_def pool_ok_def split: if_splits)
next
  case (Step s s')
  then show ?case using inv_step by blast
qed

section \<open>The contract of a connector manager\<close>

text \<open>
  What a client of a manager relies on: a failing \<open>get_connection\<close> raises ConnectionError, a
  connection that was handed out can be given back, and both leave the manager usable with as many
  connections to hand out as before. \<open>sane\<close> is what the environment guarantees.
\<close>

locale connector_manager =
  fixes get_conn :: "conn_env \<Rightarrow> 's \<Rightarrow> (exc_class + conn) \<times> 's"
    and rel_conn :: "conn_env \<Rightarrow> conn \<Rightarrow> 's \<Rightarrow> (exc_class + unit) \<times> 's"
    and usable :: "'s \<Rightarrow> bool"
    and sane :: "conn_env \<Rightarrow> 's \<Rightarrow> bool"
    and level :: "'s \<Rightarrow> nat"
  assumes get_fails: "usable s \<Longrightarrow> sane env s \<Longrightarrow> get_conn env s = (Inl e, s1) \<Longrightarrow>
      e = ConnectionError \<and> usable s1 \<and> level s1 = level s"
    and get_release: "usable s \<Longrightarrow> sane env s \<Longrightarrow> get_conn env s = (Inr c, s1) \<Longrightarrow>
      \<exists>s2. rel_conn env' c s1 = (Inr (), s2) \<and> usable s2 \<and> level s2 = level s"
begin

lemma use_balanced:
  assumes "usable s" and "sane env s" and "use_connection get_conn rel_conn env m s w = (r, s', w')"
  shows "usable s' \<and> level s' = level s \<and>
    (r = Failed ConnectionError \<and> w' = w \<or>
     (\<exists>c. w' = snd (m c w) \<and> r = (case fst (m c w) of Inl e \<Rightarrow> Failed e | Inr v \<Rightarrow> Returned v)))"
proof (cases "get_conn env s")
  case (Pair g s1)
  show ?thesis
  proof (cases g)
    case (Inl e)
    with assms Pair get_fails[of s env e s1] show ?thesis by (auto simp: use_connection_def)
  next
    case (Inr c)
    obtain s2 where "rel_conn env c s1 = (Inr (), s2)" "usable s2" "level s2 = level s"
      using get_release[of s env c s1 env] assms(1,2) Pair Inr by auto
    with assms(3) Pair Inr have "usable s' \<and> level s' = level s"
      "w' = snd (m c w)" "r = (case fst (m c w) of Inl e \<Rightarrow> Failed e | Inr v \<Rightarrow> Returned v)"
      by (auto simp: use_connection_def split: prod.splits)
    then show ?thesis by blast
  qed
qed

lemma never_escapes: "usable s \<Longrightarrow> sane env s \<Longrightarrow> use_connection get_conn rel_conn env m s w \<noteq> (Escaped e, s', w')"
proof
  assume "usable s" "sane env s" "use_connection get_conn rel_conn env m s w = (Escaped e, s', w')"
  from use_balanced[OF this] obtain c where
    "Escaped e = (case fst (m c w) of Inl e \<Rightarrow> Failed e | Inr v \<Rightarrow> Returned v)" by blast
  then show False by (cases "fst (m c w)") simp_all
qed

end

section \<open>The pool keeps the contract\<close>

definition at_rest :: "conn list \<Rightarrow> pool \<Rightarrow> sys" where
  "at_rest h p = \<lparr>pl = p, entering = 0, creating = 0, leaving = 0, held = h\<rparr>"

definition pool_usable :: "conn list \<Rightarrow> pool \<Rightarrow> bool" where
  "pool_usable h p \<longleftrightarrow> pool_inv (at_rest h p)"

definition pool_sane :: "conn list \<Rightarrow> conn_env \<Rightarrow> pool \<Rightarrow> bool" where
  "pool_sane h env p \<longleftrightarrow> fair_pick env \<and> fresh_in env (at_rest h p)"

lemma sem_release_ok: "permits p < max_connections p \<Longrightarrow> sem_release p = Inr (p\<lparr>permits := Suc (permits p)\<rparr>)"
  by (simp add: sem_release_def)

lemma get_available_frame:
  assumes "get_available_connection env p = (r, q)"
  shows "permits q = permits p \<and> max_connections q = max_connections p \<and>
    set (dict_keys (connection_pool q)) \<subseteq> set (dict_keys (connection_pool p))"
  using assms by (auto simp: get_available_connection_def Let_def close_connection_def AList.delete_eq
      split: if_splits option.splits)

lemma pool_get_inv:
  assumes u: "pool_usable h p" and e: "pool_sane h env p" and g: "pool_get_connection env p = (r, p1)"
  shows "case r of Inl x \<Rightarrow> x = ConnectionError \<and> pool_usable h p1 \<and> permits p1 = permits p
    | Inr c \<Rightarrow> pool_usable (c # h) p1 \<and> permits p = Suc (permits p1)"
proof (cases "sem_acquire p")
  case None
  with u g show ?thesis by (auto simp: pool_get_connection_def)
next
  case (Some q)
  then obtain n where n: "permits p = Suc n" "q = p\<lparr>permits := n\<rparr>" using sem_acquire_Some by blast
  let ?s = "(at_rest h q)\<lparr>entering := 1\<rparr>"
  have "pool_step (at_rest h p) (at_rest h p\<lparr>pl := q, entering := entering (at_rest h p) + 1\<rparr>)"
    by (rule pool_step.Acquire) (simp add: Some at_rest_def)
  then have s1: "pool_inv ?s" using u inv_step by (auto simp: at_rest_def pool_usable_def)
  obtain a q2 where a: "get_available_connection env q = (a, q2)" by (cases "get_available_connection env q")
  have fr: "permits q2 = n" "set (dict_keys (connection_pool q2)) \<subseteq> set (dict_keys (connection_pool p))"
    using get_available_frame[OF a] n by simp_all
  have fair: "fair_pick env" using e by (simp add: pool_sane_def)
  show ?thesis
  proof (cases a)
    case (Some c)
    then have "pool_inv (?s\<lparr>pl := q2, entering := 0, held := c # held ?s\<rparr>)"
      using inv_take[OF s1 _ fair, of 0 c q2] a by (simp add: at_rest_def)
    then show ?thesis using g \<open>sem_acquire p = Some q\<close> a Some n fr
      by (auto simp: pool_get_connection_def pool_usable_def at_rest_def)
  next
    case None
    let ?t = "?s\<lparr>pl := q2, entering := 0, creating := creating ?s + 1\<rparr>"
    have t: "pool_inv ?t" using inv_miss[OF s1 _ fair, of 0 q2] a None by (simp add: at_rest_def)
    have fresh: "fresh_in env ?t" using e fr(2) by (auto simp: pool_sane_def fresh_in_def at_rest_def simp del: set_map)
    obtain b q3 where b: "create_new_connection env q2 = (b, q3)" by (cases "create_new_connection env q2")
    show ?thesis
    proof (cases b)
      case (Inr c)
      then have "pool_inv (?t\<lparr>pl := q3, creating := 0, held := c # held ?t\<rparr>)"
        using inv_create[OF t _ fresh, of 0 c q3] b by (simp add: at_rest_def)
      moreover have "permits q3 = n" using b fr(1) by (auto simp: create_new_connection_def split: sum.splits)
      ultimately show ?thesis using g \<open>sem_acquire p = Some q\<close> a None b Inr n
        by (auto simp: pool_get_connection_def pool_usable_def at_rest_def)
    next
      case (Inl x)
      then have q3: "q3 = q2" using b by (auto simp: create_new_connection_def split: sum.splits)
      have "permits q2 < max_connections q2" using t by (simp add: pool_inv_def at_rest_def)
      then have r: "sem_release q3 = Inr (q2\<lparr>permits := Suc (permits q2)\<rparr>)" using q3 sem_release_ok by simp
      have "pool_step ?t (?t\<lparr>pl := q2\<lparr>permits := Suc (permits q2)\<rparr>, creating := 0\<rparr>)"
        by (rule pool_step.CreateFails[of _ 0 env x q3]) (use b Inl r in \<open>simp_all add: at_rest_def\<close>)
      then have "pool_usable h (q2\<lparr>permits := Suc (permits q2)\<rparr>)"
        using inv_step[OF _ t] by (auto simp: pool_usable_def at_rest_def)
      then show ?thesis using g \<open>sem_acquire p = Some q\<close> a None b Inl r n fr(1)
        by (auto simp: pool_get_connection_def)
    qed
  qed
qed

lemma put_back_frame: "permits (put_back env c p) = permits p \<and> max_connections (put_back env c p) = max_connections p"
  by (simp add: put_back_def split: option.splits)

lemma pool_release_inv:
  assumes "pool_usable (c # h) p"
  shows "\<exists>q. pool_release_connection env c p = (Inr (), q) \<and> pool_usable h q \<and> permits q = Suc (permits p)"
proof -
  let ?s = "at_rest (c # h) p" and ?q = "put_back env c p"
  have inv: "pool_inv ?s" using assms by (simp add: pool_usable_def)
  then have "pool_inv (?s\<lparr>pl := put_back env c (pl ?s), held := remove1 c (held ?s), leaving := leaving ?s + 1\<rparr>)"
    by (rule inv_put_back) (simp add: at_rest_def)
  then have t: "pool_inv ((at_rest h ?q)\<lparr>leaving := 1\<rparr>)" by (simp add: at_rest_def)
  then have "permits ?q < max_connections ?q" by (simp add: pool_inv_def at_rest_def)
  then have r: "sem_release ?q = Inr (?q\<lparr>permits := Suc (permits ?q)\<rparr>)" by (rule sem_release_ok)
  have "pool_step ((at_rest h ?q)\<lparr>leaving := 1\<rparr>) ((at_rest h ?q)\<lparr>leaving := 1\<rparr>\<lparr>pl := ?q\<lparr>permits := Suc (permits ?q)\<rparr>, leaving := 0\<rparr>)"
    by (rule pool_step.Leave) (use r in \<open>simp_all add: at_rest_def\<close>)
  from inv_step[OF this t] show ?thesis using r put_back_frame
    by (simp add: pool_release_connection_def pool_usable_def at_rest_def Let_def)
qed

interpretation pooled: connector_manager pool_get_connection pool_release_connection
  "pool_usable h" "pool_sane h" permits for h
proof
  show "e = ConnectionError \<and> pool_usable h s1 \<and> permits s1 = permits s"
    if "pool_usable h s" "pool_sane h env s" "pool_get_connection env s = (Inl e, s1)" for s env e s1
    using pool_get_inv[OF that] by simp
  show "\<exists>s2. pool_release_connection env' c s1 = (Inr (), s2) \<and> pool_usable h s2 \<and> permits s2 = permits s"
    if "pool_usable h s" "pool_sane h env s" "pool_get_connection env s = (Inr c, s1)" for s env c s1 env'
    using pool_get_inv[OF that] pool_release_inv[of c h s1 env'] by auto
qed

interpretation shared: connector_manager single_get_connection single_release_connection
  "\<lambda>s. True" "\<lambda>env s. True" "\<lambda>s. 0"
  by unfold_locales
    (auto simp: single_get_connection_def single_release_connection_def create_connection_def Let_def
      split: option.splits sum.splits if_splits)

end
