(* ===== verification/Connector_Props.thy ===== *)
theory Connector_Props
  imports Connector_Pool
begin

text \<open>
  The properties of the connector managers: bounds and exclusiveness for every interleaving, what
  \<open>execute_with_retry\<close> returns and that it leaks no permit, and what a cleanup pass removes.
\<close>

section \<open>Lemmas on retries and cleanup\<close>

text \<open>Python's guarantees hold at the start of each attempt.\<close>

fun sane_attempts :: "conn list \<Rightarrow> nat \<Rightarrow> nat \<Rightarrow> (nat \<Rightarrow> conn_env) \<Rightarrow> ('w, 'r) conn_method \<Rightarrow> pool \<Rightarrow> 'w \<Rightarrow> bool" where
  "sane_attempts h 0 i envs m p w = True"
| "sane_attempts h (Suc n) i envs m p w =
     (pool_sane h (envs i) p \<and>
      (case use_connection pool_get_connection pool_release_connection (envs i) (m i) p w of
         (r, p1, w1) \<Rightarrow> sane_attempts h n (Suc i) envs m p1 w1))"

text \<open>The outcome of the loop: attempt \<open>k\<close> was the last one made.\<close>

definition explained :: "('w, 'r) conn_method \<Rightarrow> nat \<Rightarrow> nat \<Rightarrow> exc_class + 'r option \<Rightarrow> bool" where
  "explained m n k r =
     (case r of
        Inr None \<Rightarrow> n = 0
      | Inr (Some v) \<Rightarrow> (\<exists>c w. fst (m k c w) = Inr v)
      | Inl e \<Rightarrow> k = n \<and> (e = ConnectionError \<or> (\<exists>c w. fst (m k c w) = Inl e)))"

lemma attempt_explained:
  assumes "pool_usable h p" and "pool_sane h env p"
    and "use_connection pool_get_connection pool_release_connection env m p w = (a, p1, w1)"
  shows "pool_usable h p1 \<and> permits p1 = permits p \<and>
    (case a of Returned v \<Rightarrow> \<exists>c w. fst (m c w) = Inr v
     | Failed e \<Rightarrow> e = ConnectionError \<or> (\<exists>c w. fst (m c w) = Inl e) | Escaped e \<Rightarrow> False)"
proof -
  from pooled.use_balanced[OF assms] consider "a = Failed ConnectionError"
    | c where "a = (case fst (m c w) of Inl e \<Rightarrow> Failed e | Inr v \<Rightarrow> Returned v)" by blast
  then have "case a of Returned v \<Rightarrow> \<exists>c w. fst (m c w) = Inr v
     | Failed e \<Rightarrow> e = ConnectionError \<or> (\<exists>c w. fst (m c w) = Inl e) | Escaped e \<Rightarrow> False"
  proof cases
    case (2 c)
    then show ?thesis by (cases "fst (m c w)") auto
  qed simp
  with pooled.use_balanced[OF assms] show ?thesis by blast
qed

lemma retry_from_explained:
  assumes "pool_usable h p" and "sane_attempts h (Suc n) i envs m p w"
    and "retry_attempts_from (Suc n) i envs m le p w sl = (r, p', w', sl')"
  shows "pool_usable h p' \<and> permits p' = permits p \<and>
    (\<exists>k \<ge> i. k \<le> i + n \<and> explained m (i + n) k r \<and> sl' = sl @ [i..<k] \<and> r \<noteq> Inr None)"
  using assms
proof (induction n arbitrary: i le p w sl)
  case 0
  obtain a p1 w1 where u: "use_connection pool_get_connection pool_release_connection (envs i) (m i) p w = (a, p1, w1)"
    by (rule prod_cases3)
  note step = attempt_explained[OF "0.prems"(1) _ u]
  with "0.prems"(2,3) u show ?case by (intro conjI exI[of _ i]; cases a) (fastforce simp: explained_def)+
next
  case (Suc n)
  obtain a p1 w1 where u: "use_connection pool_get_connection pool_release_connection (envs i) (m i) p w = (a, p1, w1)"
    by (rule prod_cases3)
  have sane: "pool_sane h (envs i) p" using Suc.prems(2) by simp
  note step = attempt_explained[OF Suc.prems(1) sane u]
  show ?case
  proof (cases a)
    case (Failed e)
    have "sane_attempts h (Suc n) (Suc i) envs m p1 w1" using Suc.prems(2) u by simp
    moreover have "retry_attempts_from (Suc n) (Suc i) envs m (Some e) p1 w1 (sl @ [i]) = (r, p', w', sl')"
      using Suc.prems(3) u Failed by simp
    ultimately obtain k where "k \<ge> Suc i" "k \<le> Suc i + n" "explained m (Suc i + n) k r" "sl' = (sl @ [i]) @ [Suc i..<k]"
        "r \<noteq> Inr None" and ok: "pool_usable h p'" "permits p' = permits p1"
      using Suc.IH[of p1 "Suc i" w1] step by blast
    then show ?thesis using step by (intro conjI exI[of _ k]) (auto simp: upt_conv_Cons)
  next
    case (Returned v)
    then show ?thesis using Suc.prems(3) u step by (intro conjI exI[of _ i]) (fastforce simp: explained_def)+
  qed (use step in simp)
qed

lemma idle_connections_mem:
  "i \<in> set (idle_connections env p) \<longleftrightarrow> (\<exists>st. (i, st) \<in> set (connection_stats p) \<and> is_idle env p st)"
  by (force simp: idle_connections_def)

lemma filter_dict_del: "filter (\<lambda>(k, c). k \<notin> set is) (dict_del i d) = filter (\<lambda>(k, c). k \<notin> set (i # is)) d"
  by (induction d) auto

lemma filter_removeAll: "filter (\<lambda>k. k \<notin> set is) (removeAll i xs) = filter (\<lambda>k. k \<notin> set (i # is)) xs"
  by (induction xs) auto

lemma drop_idle_list:
  assumes "pool_ok p" and "distinct is" and "set is \<subseteq> set (dict_keys (connection_pool p))"
  shows "let q = foldl (\<lambda>q i. drop_idle env i q) p is in pool_ok q \<and>
    connection_pool q = filter (\<lambda>(i, c). i \<notin> set is) (connection_pool p) \<and>
    connection_stats q = filter (\<lambda>(i, c). i \<notin> set is) (connection_stats p) \<and>
    available_connections q = filter (\<lambda>i. i \<notin> set is) (available_connections p) \<and>
    closed q = closed p @ concat (map (\<lambda>i. close_calls env (Conn i)) is)"
  using assms
proof (induction "is" arbitrary: p)
  case (Cons i "is")
  from Cons.prems obtain c where c: "dict_get (connection_pool p) i = Some c" and
    p: "drop_idle env i p = p\<lparr>connection_pool := dict_del i (connection_pool p), connection_stats := dict_del i (connection_stats p),
       available_connections := removeAll i (available_connections p), closed := closed p @ close_calls env c\<rparr>"
    using drop_idle_eq[of p i env] by auto
  have ci: "c = Conn i" using pool_ok_get[OF Cons.prems(1) c] by (cases c) simp
  have "pool_ok (drop_idle env i p)" unfolding p
    by (rule pool_ok_forget) (use Cons.prems(1) in \<open>auto simp: pool_ok_def distinct_removeAll\<close>)
  then have "let q = foldl (\<lambda>q i. drop_idle env i q) (drop_idle env i p) is in pool_ok q \<and>
    connection_pool q = filter (\<lambda>(i, c). i \<notin> set is) (connection_pool (drop_idle env i p)) \<and>
    connection_stats q = filter (\<lambda>(i, c). i \<notin> set is) (connection_stats (drop_idle env i p)) \<and>
    available_connections q = filter (\<lambda>i. i \<notin> set is) (available_connections (drop_idle env i p)) \<and>
    closed q = closed (drop_idle env i p) @ concat (map (\<lambda>i. close_calls env (Conn i)) is)"
    by (rule Cons.IH) (use Cons.prems p in \<open>auto simp: dict_keys_del simp del: set_map\<close>)
  moreover have "connection_pool (drop_idle env i p) = dict_del i (connection_pool p)"
    "connection_stats (drop_idle env i p) = dict_del i (connection_stats p)"
    "available_connections (drop_idle env i p) = removeAll i (available_connections p)"
    "closed (drop_idle env i p) = closed p @ close_calls env (Conn i)" by (simp_all add: p ci)
  ultimately show ?case
    by (simp only: Let_def foldl_Cons filter_dict_del filter_removeAll list.map concat.simps append_assoc)
qed simp

section \<open>Properties\<close>

text \<open>C17. In every reachable configuration, whatever the interleaving of threads, cleanup passes and
  shutdowns, the permits and the threads and clients that took one add up to \<open>max_connections\<close>,
  and the pool holds at most \<open>max_connections\<close> connections, all of them under their own
  identity and each with its statistics.\<close>

theorem pool_bounded:
  assumes "pool_reach s"
  shows "permits (pl s) + entering s + creating s + leaving s + length (held s) = max_connections (pl s) \<and>
    length (connection_pool (pl s)) \<le> max_connections (pl s) \<and>
    (\<forall>i. dict_has (connection_stats (pl s)) i \<longleftrightarrow> dict_has (connection_pool (pl s)) i) \<and>
    (\<forall>i c. dict_get (connection_pool (pl s)) i = Some c \<longrightarrow> id_of c = i)"
proof -
  have inv: "pool_inv s" using assms by (rule inv_reach)
  then have ok: "pool_ok (pl s)" by (simp add: pool_inv_def)
  have "length (connection_pool (pl s)) = card (set (dict_keys (connection_pool (pl s))))"
    using ok by (simp add: pool_ok_def dict_ok_def distinct_card del: set_map)
  also have "\<dots> \<le> card (set (available_connections (pl s)) \<union> set (map id_of (held s)))"
    using inv by (intro card_mono) (auto simp: pool_inv_def simp del: set_map)
  also have "\<dots> \<le> length (available_connections (pl s)) + length (held s)"
    using card_length[of "available_connections (pl s) @ map id_of (held s)"] by simp
  also have "\<dots> \<le> max_connections (pl s)" using inv by (simp add: pool_inv_def)
  finally show ?thesis using inv ok by (auto simp: pool_inv_def pool_ok_def dict_has_def pool_ok_get[OF ok])
qed

definition demo_conn_env :: "nat \<Rightarrow> conn_env" where
  "demo_conn_env i = \<lparr>construct = Inr (Conn i), is_connected_method = None, check_connection_method = None,
     close_method = Some (\<lambda>_. None), disconnect_method = None, now = of_nat (i * 1000), pop_choice = hd\<rparr>"

definition demo_pool :: pool where
  "demo_pool = \<lparr>max_connections = 2, connection_timeout = 30, idle_timeout = 300, retry_attempts = 3, retry_delay = 1,
     connection_pool = [], connection_stats = [], available_connections = [], permits = 2,
     cleanup_interval = 100, running = True, closed = []\<rparr>"

lemma demo_pool_reach: "pool_reach (init_sys demo_pool)"
  by (rule pool_reach.Init[of 2 30 300 3 1]) (simp add: mk_pool_def demo_pool_def)

lemma demo_fair: "fair_pick (demo_conn_env i)"
  by (simp add: fair_pick_def demo_conn_env_def)

definition demo_sys :: sys where
  "demo_sys = \<lparr>pl = snd (pool_get_connection (demo_conn_env 5) demo_pool), entering = 0, creating = 0, leaving = 0, held = [Conn 5]\<rparr>"

lemmas demo_simps = demo_conn_env_def demo_pool_def use_connection_def pool_get_connection_def sem_acquire_def
  get_available_connection_def create_new_connection_def create_connection_def pool_release_connection_def put_back_def
  sem_release_def check_connection_health_def fresh_stats_def touch_def

text \<open>One client has created and holds a connection.\<close>

lemma demo_sys_reach: "pool_reach demo_sys"
proof -
  let ?s1 = "(init_sys demo_pool)\<lparr>pl := demo_pool\<lparr>permits := 1\<rparr>, entering := 1\<rparr>"
  let ?s2 = "?s1\<lparr>entering := 0, creating := 1\<rparr>"
  have "pool_step (init_sys demo_pool) ((init_sys demo_pool)\<lparr>pl := demo_pool\<lparr>permits := 1\<rparr>, entering := entering (init_sys demo_pool) + 1\<rparr>)"
    by (rule pool_step.Acquire) (simp add: sem_acquire_def init_sys_def demo_pool_def)
  with demo_pool_reach have "pool_reach ?s1" by (auto simp: init_sys_def intro: pool_reach.Step)
  moreover have "pool_step ?s1 (?s1\<lparr>pl := demo_pool\<lparr>permits := 1\<rparr>, entering := 0, creating := creating ?s1 + 1\<rparr>)"
    by (rule pool_step.Miss[OF _ demo_fair[of 5]]) (simp_all add: get_available_connection_def init_sys_def demo_pool_def)
  ultimately have r2: "pool_reach ?s2" by (auto simp: init_sys_def intro: pool_reach.Step)
  have "pool_step ?s2 (?s2\<lparr>pl := snd (pool_get_connection (demo_conn_env 5) demo_pool), creating := 0, held := Conn 5 # held ?s2\<rparr>)"
    by (rule pool_step.Create[of _ 0 "demo_conn_env 5"])
      (simp_all add: fresh_in_def demo_conn_env_def init_sys_def demo_pool_def create_new_connection_def create_connection_def
        pool_get_connection_def sem_acquire_def get_available_connection_def)
  with r2 show ?thesis by (auto simp: init_sys_def demo_sys_def intro: pool_reach.Step)
qed

theorem pool_bounded_witness:
  "permits (pl demo_sys) + length (held demo_sys) = 2 \<and> length (connection_pool (pl demo_sys)) \<le> 2"
proof -
  have "max_connections (pl demo_sys) = 2" by (simp add: demo_sys_def demo_simps)
  then show ?thesis using pool_bounded[OF demo_sys_reach] by (simp add: demo_sys_def)
qed

text \<open>C18. A connection a step hands out is held by no other client and is not available any more; and
  in no reachable configuration does returning a permit raise ValueError: a thread that failed to
  create, a client that gives its connection back, always can.\<close>

theorem pool_exclusive:
  assumes "pool_reach s" and "pool_step s s'"
  shows "(\<forall>c. held s' = c # held s \<longrightarrow>
      id_of c \<notin> set (map id_of (held s)) \<and> id_of c \<notin> set (available_connections (pl s'))) \<and>
    (0 < creating s \<or> 0 < leaving s \<longrightarrow> (\<exists>p. sem_release (pl s) = Inr p)) \<and>
    (\<forall>c env. c \<in> set (held s) \<longrightarrow> (\<exists>p. pool_release_connection env c (pl s) = (Inr (), p)))"
proof -
  have inv: "pool_inv s" using assms(1) by (rule inv_reach)
  have "pool_inv s'" using inv_step[OF assms(2) inv] .
  then have "held s' = c # held s \<Longrightarrow>
      id_of c \<notin> set (map id_of (held s)) \<and> id_of c \<notin> set (available_connections (pl s'))" for c
    by (auto simp: pool_inv_def simp del: set_map)
  moreover have "\<exists>p. pool_release_connection env c (pl s) = (Inr (), p)" if "c \<in> set (held s)" for c env
  proof -
    have "permits (pl s) < max_connections (pl s)" using inv length_pos_if_in_set[OF that] unfolding pool_inv_def by linarith
    then show ?thesis using put_back_frame[of env c "pl s"] sem_release_ok[of "put_back env c (pl s)"]
      by (simp add: pool_release_connection_def Let_def)
  qed
  moreover have "\<exists>p. sem_release (pl s) = Inr p" if "0 < creating s \<or> 0 < leaving s"
    using inv that sem_release_ok[of "pl s"] by (auto simp: pool_inv_def)
  ultimately show ?thesis by blast
qed

theorem pool_exclusive_witness:
  "\<exists>p. pool_release_connection (demo_conn_env 6) (Conn 5) (pl demo_sys) = (Inr (), p)"
proof -
  have "pool_step demo_sys (demo_sys\<lparr>pl := pool_shutdown (demo_conn_env 6) (pl demo_sys)\<rparr>)" by (rule pool_step.Shutdown)
  moreover have "Conn 5 \<in> set (held demo_sys)" by (simp add: demo_sys_def)
  ultimately show ?thesis using pool_exclusive[OF demo_sys_reach] by blast
qed


text \<open>A method that fails on its first attempt and then returns the number of the attempt.\<close>

definition demo_method :: "(nat, nat) conn_method" where
  "demo_method i c w = (if i = 1 then (Inl ValueError, w + 1) else (Inr i, w + 1))"


text \<open>A cleanup pass of a running pool removes exactly the connections that have been idle for
  longer than the timeout, from the pool, the statistics and the available ones, and closes each of
  them once. The test is on the statistics alone: a connection that a client holds is closed too.\<close>

lemma cleanup_removes_idle:
  assumes "pool_reach s" and "running (pl s)" and "idle = set (idle_connections env (pl s))"
  shows "connection_stats (cleanup_pass env (pl s)) = filter (\<lambda>(i, st). \<not> is_idle env (pl s) st) (connection_stats (pl s)) \<and>
    connection_pool (cleanup_pass env (pl s)) = filter (\<lambda>(i, c). i \<notin> idle) (connection_pool (pl s)) \<and>
    available_connections (cleanup_pass env (pl s)) = filter (\<lambda>i. i \<notin> idle) (available_connections (pl s)) \<and>
    closed (cleanup_pass env (pl s)) =
      closed (pl s) @ concat (map (\<lambda>i. close_calls env (Conn i)) (idle_connections env (pl s)))"
proof -
  let ?is = "idle_connections env (pl s)"
  have ok: "pool_ok (pl s)" using inv_reach[OF assms(1)] by (simp add: pool_inv_def)
  have d: "dict_ok (connection_stats (pl s))" using ok by (simp add: pool_ok_def)
  have "set ?is \<subseteq> set (dict_keys (connection_stats (pl s)))" by (auto simp: idle_connections_def)
  then have sub: "set ?is \<subseteq> set (dict_keys (connection_pool (pl s)))" using ok by (simp add: pool_ok_def del: set_map)
  have dist: "distinct ?is" using d by (simp add: idle_connections_def dict_ok_def distinct_map_filter)
  have "filter (\<lambda>(i, st). i \<notin> set ?is) (connection_stats (pl s)) = filter (\<lambda>(i, st). \<not> is_idle env (pl s) st) (connection_stats (pl s))"
  proof (rule filter_cong[OF refl])
    fix x assume x: "x \<in> set (connection_stats (pl s))"
    obtain i st where p: "x = (i, st)" by (cases x)
    have "st' = st" if "(i, st') \<in> set (connection_stats (pl s))" for st'
      using d x p that by (simp add: dict_ok_get_iff)
    with x p have "i \<in> set ?is \<longleftrightarrow> is_idle env (pl s) st"
      unfolding idle_connections_mem by blast
    with p show "(case x of (i, st) \<Rightarrow> i \<notin> set ?is) = (case x of (i, st) \<Rightarrow> \<not> is_idle env (pl s) st)"
      by simp
  qed
  with drop_idle_list[OF ok dist sub, of env] assms(2,3) show ?thesis by (simp add: cleanup_pass_def Let_def)
qed

end
