(* ===== verification/Store.thy ===== *)
theory Store
  imports Connector_Pool
begin

text \<open>
  The key-value stores behind result objects: the base class
  (\<^verbatim>\<open>src/nexus/backends/store.py\<close>), the in-memory store, the Redis store, and the
  persistence operations of \<^verbatim>\<open>src/nexus/mixins/backend.py\<close> that run on them through a
  connector manager.

  What a model class does is the record \<open>model_ops\<close>: its identity, its attributes, and
  \<open>__getstate__\<close> and \<open>__setstate__\<close>, which may raise. The Redis client and \<open>pickle\<close> are
  not part of the repository: they are the record \<open>redis\<close>, and \<open>redis_lawful\<close> states their
  documented behaviour. The locale \<open>kv_store\<close> is the contract the mixin relies on.
\<close>

section \<open>Model objects and the base class\<close>

record ('r, 'st) model_ops =
  model_id :: "'r \<Rightarrow> string"
  model_attr :: "'r \<Rightarrow> string \<Rightarrow> pyval option"
  getstate :: "'r \<Rightarrow> exc_class + 'st"
  setstate :: "'st \<Rightarrow> 'r \<Rightarrow> exc_class + 'r"
  new_instance :: 'r

definition generate_filter_match :: "('r, 'st) model_ops \<Rightarrow> (string, pyval) dict \<Rightarrow> 'r \<Rightarrow> bool" where
  "generate_filter_match M fs r =
     list_all (\<lambda>(k, v). case model_attr M r k of None \<Rightarrow> False | Some x \<Rightarrow> py_eq x v) fs"

definition load_record :: "('r, 'st) model_ops \<Rightarrow> 'st \<Rightarrow> exc_class + 'r" where
  "load_record M st = setstate M st (new_instance M)"

section \<open>The in-memory store\<close>

type_synonym 'r memory = "(string, (string, 'r) dict) dict"

definition mem_exists :: "string \<Rightarrow> string \<Rightarrow> 'r memory \<Rightarrow> bool" where
  "mem_exists schema key mem = (case dict_get mem schema of None \<Rightarrow> False | Some t \<Rightarrow> dict_has t key)"

definition mem_count :: "string \<Rightarrow> 'r memory \<Rightarrow> exc_class + nat" where
  "mem_count schema mem = (case dict_get mem schema of None \<Rightarrow> Inl KeyError | Some t \<Rightarrow> Inr (length t))"

definition mem_insert_record :: "string \<Rightarrow> string \<Rightarrow> 'r \<Rightarrow> 'r memory \<Rightarrow> exc_class + 'r memory" where
  "mem_insert_record schema key r mem =
     (let mem1 = (if dict_has mem schema then mem else dict_set schema [] mem)
      in case dict_get mem1 schema of
           None \<Rightarrow> Inl KeyError
         | Some t \<Rightarrow> Inr (dict_set schema (dict_set key r t) mem1))"

definition mem_update_record :: "string \<Rightarrow> string \<Rightarrow> 'r \<Rightarrow> 'r memory \<Rightarrow> exc_class + 'r memory" where
  "mem_update_record schema key r mem =
     (let mem1 = (if dict_has mem schema then mem else dict_set schema [] mem)
      in case dict_get mem1 schema of
           None \<Rightarrow> Inl KeyError
         | Some t \<Rightarrow> Inr (dict_set schema (dict_set key r t) mem1))"

definition mem_delete_record :: "string \<Rightarrow> string \<Rightarrow> 'r memory \<Rightarrow> exc_class + 'r memory" where
  "mem_delete_record schema key mem =
     (case dict_get mem schema of
        None \<Rightarrow> Inl ObjectDoesNotExist
      | Some t \<Rightarrow>
          (if dict_has t key then Inr (dict_set schema (dict_del key t) mem) else Inl ObjectDoesNotExist))"

definition mem_get_record :: "string \<Rightarrow> string \<Rightarrow> 'r memory \<Rightarrow> exc_class + 'r" where
  "mem_get_record schema key mem =
     (case dict_get mem schema of
        None \<Rightarrow> Inl ObjectDoesNotExist
      | Some t \<Rightarrow> of_option ObjectDoesNotExist (dict_get t key))"

text \<open>\<open>reload_record\<close> returns the record with the state of the stored one.\<close>

definition mem_reload_record :: "('r, 'st) model_ops \<Rightarrow> string \<Rightarrow> 'r \<Rightarrow> 'r memory \<Rightarrow> exc_class + 'r" where
  "mem_reload_record M schema r mem =
     bind_res (mem_get_record schema (model_id M r) mem) (\<lambda>r'.
     bind_res (getstate M r') (\<lambda>st. setstate M st r))"

definition mem_filter_record :: "('r, 'st) model_ops \<Rightarrow> string \<Rightarrow> (string, pyval) dict \<Rightarrow> 'r memory \<Rightarrow> exc_class + 'r list" where
  "mem_filter_record M schema fs mem =
     (case dict_get mem schema of
        None \<Rightarrow> Inl ObjectDoesNotExist
      | Some t \<Rightarrow> (if t \<noteq> [] then Inr (filter (generate_filter_match M fs) (dict_values t)) else Inr []))"

section \<open>The Redis store\<close>

record ('d, 'b, 'st) redis =
  connected :: "'d \<Rightarrow> bool"
  hexists :: "'d \<Rightarrow> string \<Rightarrow> string \<Rightarrow> bool"
  hlen :: "'d \<Rightarrow> string \<Rightarrow> nat"
  hset :: "string \<Rightarrow> string \<Rightarrow> 'b \<Rightarrow> 'd \<Rightarrow> 'd"
  hget :: "'d \<Rightarrow> string \<Rightarrow> string \<Rightarrow> 'b option"
  hdel :: "string \<Rightarrow> string \<Rightarrow> 'd \<Rightarrow> 'd"
  hscan :: "'d \<Rightarrow> string \<Rightarrow> nat \<Rightarrow> nat \<times> (string \<times> 'b) list"
  dumps :: "'st \<Rightarrow> 'b"
  loads :: "'b \<Rightarrow> exc_class + 'st"

definition redis_check_connection :: "('d, 'b, 'st) redis \<Rightarrow> 'd \<Rightarrow> exc_class + unit" where
  "redis_check_connection R d = (if connected R d then Inr () else Inl ConnectionError)"

definition redis_exists :: "('d, 'b, 'st) redis \<Rightarrow> string \<Rightarrow> string \<Rightarrow> 'd \<Rightarrow> exc_class + bool" where
  "redis_exists R schema key d = bind_res (redis_check_connection R d) (\<lambda>_. Inr (hexists R d schema key))"

definition redis_count :: "('d, 'b, 'st) redis \<Rightarrow> string \<Rightarrow> 'd \<Rightarrow> exc_class + nat" where
  "redis_count R schema d = bind_res (redis_check_connection R d) (\<lambda>_. Inr (hlen R d schema))"

definition redis_insert_record ::
  "('d, 'b, 'st) redis \<Rightarrow> ('r, 'st) model_ops \<Rightarrow> string \<Rightarrow> string \<Rightarrow> 'r \<Rightarrow> 'd \<Rightarrow> exc_class + 'd" where
  "redis_insert_record R M schema key r d =
     bind_res (redis_exists R schema key d) (\<lambda>ex.
       if ex then Inl ObjectExistError
       else bind_res (getstate M r) (\<lambda>st. Inr (hset R schema key (dumps R st) d)))"

definition redis_update_record ::
  "('d, 'b, 'st) redis \<Rightarrow> ('r, 'st) model_ops \<Rightarrow> string \<Rightarrow> string \<Rightarrow> 'r \<Rightarrow> 'd \<Rightarrow> exc_class + 'd" where
  "redis_update_record R M schema key r d =
     bind_res (redis_exists R schema key d) (\<lambda>ex.
       if \<not> ex then Inl ObjectDoesNotExist
       else bind_res (getstate M r) (\<lambda>st. Inr (hset R schema key (dumps R st) d)))"

definition redis_delete_record :: "('d, 'b, 'st) redis \<Rightarrow> string \<Rightarrow> string \<Rightarrow> 'd \<Rightarrow> exc_class + 'd" where
  "redis_delete_record R schema key d =
     bind_res (redis_exists R schema key d) (\<lambda>ex.
       if \<not> ex then Inl ObjectDoesNotExist else Inr (hdel R schema key d))"

text \<open>\<open>pickle.loads(None)\<close> raises TypeError.\<close>

definition loads_value :: "('d, 'b, 'st) redis \<Rightarrow> 'b option \<Rightarrow> exc_class + 'st" where
  "loads_value R v = bind_res (of_option TypeError v) (loads R)"

definition redis_load_record :: "('d, 'b, 'st) redis \<Rightarrow> ('r, 'st) model_ops \<Rightarrow> 'b option \<Rightarrow> exc_class + 'r" where
  "redis_load_record R M v = bind_res (loads_value R v) (load_record M)"

definition redis_reload_record ::
  "('d, 'b, 'st) redis \<Rightarrow> ('r, 'st) model_ops \<Rightarrow> string \<Rightarrow> 'r \<Rightarrow> 'd \<Rightarrow> exc_class + 'r" where
  "redis_reload_record R M schema r d =
     bind_res (redis_exists R schema (model_id M r) d) (\<lambda>ex.
       if \<not> ex then Inl ObjectDoesNotExist
       else bind_res (loads_value R (hget R d schema (model_id M r))) (\<lambda>st. setstate M st r))"

definition redis_get_record ::
  "('d, 'b, 'st) redis \<Rightarrow> ('r, 'st) model_ops \<Rightarrow> string \<Rightarrow> string \<Rightarrow> 'd \<Rightarrow> exc_class + 'r" where
  "redis_get_record R M schema key d =
     bind_res (redis_exists R schema key d) (\<lambda>ex.
       if \<not> ex then Inl ObjectDoesNotExist
       else redis_load_record R M (hget R d schema key))"

text \<open>The page of one \<open>hscan\<close> call, then the loop until the cursor is zero again.\<close>

fun scan_page ::
  "('d, 'b, 'st) redis \<Rightarrow> ('r, 'st) model_ops \<Rightarrow> (string, pyval) dict \<Rightarrow> (string \<times> 'b) list \<Rightarrow> exc_class + 'r list" where
  "scan_page R M fs [] = Inr []"
| "scan_page R M fs ((k, v) # rest) =
     bind_res (redis_load_record R M (Some v)) (\<lambda>r.
     bind_res (scan_page R M fs rest) (\<lambda>rs. Inr (if generate_filter_match M fs r then r # rs else rs)))"

fun scan_loop ::
  "nat \<Rightarrow> ('d, 'b, 'st) redis \<Rightarrow> ('r, 'st) model_ops \<Rightarrow> string \<Rightarrow> (string, pyval) dict \<Rightarrow> nat \<Rightarrow> 'd \<Rightarrow>
   (exc_class + 'r list) option" where
  "scan_loop 0 R M schema fs cursor d = None"
| "scan_loop (Suc n) R M schema fs cursor d =
     (case hscan R d schema cursor of
        (cursor', data) \<Rightarrow>
          (case scan_page R M fs data of
             Inl e \<Rightarrow> Some (Inl e)
           | Inr rs \<Rightarrow>
               (if cursor' = 0 then Some (Inr rs)
                else map_option (\<lambda>res. bind_res res (\<lambda>rs'. Inr (rs @ rs'))) (scan_loop n R M schema fs cursor' d))))"

definition redis_filter_record ::
  "nat \<Rightarrow> ('d, 'b, 'st) redis \<Rightarrow> ('r, 'st) model_ops \<Rightarrow> string \<Rightarrow> (string, pyval) dict \<Rightarrow> 'd \<Rightarrow>
   (exc_class + 'r list) option" where
  "redis_filter_record n R M schema fs d =
     (case redis_check_connection R d of Inl e \<Rightarrow> Some (Inl e) | Inr _ \<Rightarrow> scan_loop n R M schema fs 0 d)"

text \<open>The documented behaviour of the hash commands and of \<open>pickle\<close>: a hash maps fields to values, and
  loading what was dumped gives the state back.\<close>

definition redis_lawful :: "('d, 'b, 'st) redis \<Rightarrow> bool" where
  "redis_lawful R \<longleftrightarrow>
     (\<forall>d s k. hexists R d s k \<longleftrightarrow> hget R d s k \<noteq> None) \<and>
     (\<forall>d s k v s' k'. hget R (hset R s k v d) s' k' = (if s' = s \<and> k' = k then Some v else hget R d s' k')) \<and>
     (\<forall>d s k s' k'. hget R (hdel R s k d) s' k' = (if s' = s \<and> k' = k then None else hget R d s' k')) \<and>
     (\<forall>d s k v. connected R d \<longrightarrow> connected R (hset R s k v d) \<and> connected R (hdel R s k d)) \<and>
     (\<forall>st. loads R (dumps R st) = Inr st)"

section \<open>Persistence operations of the mixin\<close>

text \<open>\<open>save\<close>: insert, and update when the record exists.\<close>

definition store_save ::
  "(string \<Rightarrow> string \<Rightarrow> 'r \<Rightarrow> 's \<Rightarrow> exc_class + 's) \<Rightarrow> (string \<Rightarrow> string \<Rightarrow> 'r \<Rightarrow> 's \<Rightarrow> exc_class + 's) \<Rightarrow>
   string \<Rightarrow> string \<Rightarrow> 'r \<Rightarrow> 's \<Rightarrow> exc_class + 's" where
  "store_save ins upd schema key r s =
     (case ins schema key r s of
        Inl e \<Rightarrow> (if is_subclass e ObjectExistError then upd schema key r s else Inl e)
      | Inr s' \<Rightarrow> Inr s')"

text \<open>A store operation as a method that is called with a connection: the store is the world the
  connection gives access to.\<close>

definition on_store :: "('s \<Rightarrow> exc_class + 's) \<Rightarrow> conn \<Rightarrow> 's \<Rightarrow> (exc_class + unit) \<times> 's" where
  "on_store f c s = (case f s of Inl e \<Rightarrow> (Inl e, s) | Inr s' \<Rightarrow> (Inr (), s'))"

text \<open>\<open>with_connection\<close>: a pool retries, a single connection does not.\<close>

definition with_connection ::
  "(nat \<Rightarrow> conn_env) \<Rightarrow> ('w, 'r) conn_method \<Rightarrow> manager \<Rightarrow> 'w \<Rightarrow> (exc_class + 'r option) \<times> manager \<times> 'w" where
  "with_connection envs m mgr w =
     (case mgr of
        MPool p \<Rightarrow> (case execute_with_retry envs m p w of (r, p', w', sl) \<Rightarrow> (r, MPool p', w'))
      | MSingle s \<Rightarrow>
          (case single_with_connection (envs 1) (m 1) s w of
             (r, s', w') \<Rightarrow> (bind_res r (\<lambda>v. Inr (Some v)), MSingle s', w')))"

section \<open>The contract of a store\<close>

definition stores ::
  "('s \<Rightarrow> string \<Rightarrow> string \<Rightarrow> 'v option) \<Rightarrow> (string \<Rightarrow> string \<Rightarrow> bool) \<Rightarrow> 's \<Rightarrow> string \<Rightarrow> string \<Rightarrow> 'v option \<Rightarrow> 's \<Rightarrow> bool" where
  "stores lookup valid s n k v s' \<longleftrightarrow>
     (\<forall>n' k'. valid n' k' \<longrightarrow> lookup s' n' k' = (if n' = n \<and> k' = k then v else lookup s n' k'))"

locale kv_store =
  fixes lookup :: "'s \<Rightarrow> string \<Rightarrow> string \<Rightarrow> 'v option"
    and good :: "'s \<Rightarrow> bool"
    and valid :: "string \<Rightarrow> string \<Rightarrow> bool"
    and enc :: "'r \<Rightarrow> 'v option"
    and ins :: "string \<Rightarrow> string \<Rightarrow> 'r \<Rightarrow> 's \<Rightarrow> exc_class + 's"
    and upd :: "string \<Rightarrow> string \<Rightarrow> 'r \<Rightarrow> 's \<Rightarrow> exc_class + 's"
    and del :: "string \<Rightarrow> string \<Rightarrow> 's \<Rightarrow> exc_class + 's"
  assumes ins: "good s \<Longrightarrow> valid n k \<Longrightarrow> enc r = Some v \<Longrightarrow>
      (lookup s n k \<noteq> None \<and> ins n k r s = Inl ObjectExistError) \<or>
      (\<exists>s'. ins n k r s = Inr s' \<and> good s' \<and> stores lookup valid s n k (Some v) s')"
    and upd: "good s \<Longrightarrow> valid n k \<Longrightarrow> enc r = Some v \<Longrightarrow> lookup s n k \<noteq> None \<Longrightarrow>
      \<exists>s'. upd n k r s = Inr s' \<and> good s' \<and> stores lookup valid s n k (Some v) s'"
    and del: "good s \<Longrightarrow> valid n k \<Longrightarrow> lookup s n k \<noteq> None \<Longrightarrow>
      \<exists>s'. del n k s = Inr s' \<and> good s' \<and> stores lookup valid s n k None s'"
    and del_missing: "good s \<Longrightarrow> valid n k \<Longrightarrow> lookup s n k = None \<Longrightarrow> del n k s = Inl ObjectDoesNotExist"
begin

text \<open>Saving always succeeds, whether the record exists or not, and changes that entry alone.\<close>

lemma save_stores:
  assumes "good s" and "valid n k" and "enc r = Some v"
  shows "\<exists>s'. store_save ins upd n k r s = Inr s' \<and> good s' \<and> stores lookup valid s n k (Some v) s'"
  using ins[OF assms] upd[OF assms] by (auto simp: store_save_def)

lemma save_lookup:
  assumes "good s" and "valid n k" and "enc r = Some v" and "store_save ins upd n k r s = Inr s'"
  shows "good s' \<and> lookup s' n k = Some v"
  using save_stores[OF assms(1-3)] assms(2,4) by (auto simp: stores_def)

text \<open>Saving the same record again changes nothing a reader can see.\<close>

lemma save_again:
  assumes "good s" and "valid n k" and "enc r = Some v" and "store_save ins upd n k r s = Inr s'"
  shows "\<exists>s''. store_save ins upd n k r s' = Inr s'' \<and> (\<forall>n' k'. valid n' k' \<longrightarrow> lookup s'' n' k' = lookup s' n' k')"
proof -
  have s': "good s'" "lookup s' n k = Some v" using save_lookup[OF assms] by simp_all
  from save_stores[OF s'(1) assms(2,3)] s'(2) show ?thesis by (auto simp: stores_def)
qed

text \<open>A saved record can be deleted once; the second attempt reports that it does not exist.\<close>

lemma save_delete:
  assumes "good s" and "valid n k" and "enc r = Some v" and "store_save ins upd n k r s = Inr s'"
  shows "\<exists>s''. del n k s' = Inr s'' \<and> lookup s'' n k = None \<and> del n k s'' = Inl ObjectDoesNotExist \<and>
    (\<forall>n' k'. valid n' k' \<and> (n', k') \<noteq> (n, k) \<longrightarrow> lookup s'' n' k' = lookup s n' k')"
proof -
  obtain s1 where s1: "store_save ins upd n k r s = Inr s1" "good s1" "stores lookup valid s n k (Some v) s1"
    using save_stores[OF assms(1-3)] by blast
  then have "lookup s' n k \<noteq> None" "good s'" using assms(2,4) by (auto simp: stores_def)
  then obtain s2 where s2: "del n k s' = Inr s2" "good s2" "stores lookup valid s' n k None s2"
    using del[of s' n k] assms(2) by blast
  then have "lookup s2 n k = None" using assms(2) by (simp add: stores_def)
  with s1 s2 assms(2,4) show ?thesis by (auto simp: stores_def intro: del_missing)
qed

end

end
