(* ===== verification/Store_Props.thy ===== *)
theory Store_Props
  imports Store
begin

text \<open>
  The in-memory store and the Redis store keep the contract of \<open>kv_store\<close>; what the mixin's
  operations guarantee follows from the contract. Redis scans return what matches, page by page.
\<close>

section \<open>The stores keep the contract\<close>

definition mem_lookup :: "'r memory \<Rightarrow> string \<Rightarrow> string \<Rightarrow> 'r option" where
  "mem_lookup mem n k = (case dict_get mem n of None \<Rightarrow> None | Some t \<Rightarrow> dict_get t k)"

lemma mem_get_lookup: "mem_get_record n k mem = of_option ObjectDoesNotExist (mem_lookup mem n k)"
  by (simp add: mem_get_record_def mem_lookup_def split: option.split)

lemma mem_exists_lookup: "mem_exists n k mem \<longleftrightarrow> mem_lookup mem n k \<noteq> None"
  by (simp add: mem_exists_def mem_lookup_def dict_has_get split: option.split)

lemma mem_insert_stores:
  "\<exists>mem'. mem_insert_record n k r mem = Inr mem' \<and> stores mem_lookup (\<lambda>_ _. True) mem n k (Some r) mem'"
  by (auto simp: mem_insert_record_def Let_def dict_simps stores_def mem_lookup_def split: option.split)

lemma mem_update_insert: "mem_update_record = mem_insert_record"
  by (simp add: fun_eq_iff mem_update_record_def mem_insert_record_def)

interpretation mem: kv_store mem_lookup "\<lambda>_. True" "\<lambda>_ _. True" Some
  mem_insert_record mem_update_record mem_delete_record
proof
  show "(mem_lookup s n k \<noteq> None \<and> mem_insert_record n k r s = Inl ObjectExistError) \<or>
      (\<exists>s'. mem_insert_record n k r s = Inr s' \<and> True \<and> stores mem_lookup (\<lambda>_ _. True) s n k (Some v) s')"
    if "Some r = Some v" for s :: "'a memory" and n k r v
    using mem_insert_stores[of n k r s] that by simp
  show "\<exists>s'. mem_update_record n k r s = Inr s' \<and> True \<and> stores mem_lookup (\<lambda>_ _. True) s n k (Some v) s'"
    if "Some r = Some v" for s :: "'a memory" and n k r v
    using mem_insert_stores[of n k r s] that by (simp add: mem_update_insert)
  show "\<exists>s'. mem_delete_record n k s = Inr s' \<and> True \<and> stores mem_lookup (\<lambda>_ _. True) s n k None s'"
    if "mem_lookup s n k \<noteq> None" for s :: "'a memory" and n k
    using that by (auto simp: mem_delete_record_def mem_lookup_def stores_def dict_simps split: option.splits)
  show "mem_delete_record n k s = Inl ObjectDoesNotExist" if "mem_lookup s n k = None" for s :: "'a memory" and n k
    using that by (auto simp: mem_delete_record_def mem_lookup_def dict_simps split: option.splits)
qed

definition redis_enc :: "('d, 'b, 'st) redis \<Rightarrow> ('r, 'st) model_ops \<Rightarrow> 'r \<Rightarrow> 'b option" where
  "redis_enc R M r = (case getstate M r of Inl e \<Rightarrow> None | Inr st \<Rightarrow> Some (dumps R st))"

lemma redis_enc_Some: "redis_enc R M r = Some v \<Longrightarrow> \<exists>st. getstate M r = Inr st \<and> v = dumps R st"
  by (cases "getstate M r") (auto simp: redis_enc_def)

lemmas redis_ops = redis_insert_record_def redis_update_record_def redis_delete_record_def redis_get_record_def
  redis_exists_def redis_check_connection_def

lemma redis_kv:
  assumes L: "redis_lawful R"
  shows "kv_store (hget R) (connected R) (\<lambda>_ _. True) (redis_enc R M)
    (redis_insert_record R M) (redis_update_record R M) (redis_delete_record R)"
proof
  fix s :: 'a and n k r v
  assume c: "connected R s"
  have set: "connected R (hset R n k v s) \<and> stores (hget R) (\<lambda>_ _. True) s n k (Some v) (hset R n k v s)"
    using L c by (simp add: redis_lawful_def stores_def)
  have ex: "hexists R s n k \<longleftrightarrow> hget R s n k \<noteq> None" using L by (simp add: redis_lawful_def)
  show "(hget R s n k \<noteq> None \<and> redis_insert_record R M n k r s = Inl ObjectExistError) \<or>
      (\<exists>s'. redis_insert_record R M n k r s = Inr s' \<and> connected R s' \<and> stores (hget R) (\<lambda>_ _. True) s n k (Some v) s')"
    if "redis_enc R M r = Some v" using redis_enc_Some[OF that] c ex set by (auto simp: redis_ops)
  show "\<exists>s'. redis_update_record R M n k r s = Inr s' \<and> connected R s' \<and> stores (hget R) (\<lambda>_ _. True) s n k (Some v) s'"
    if "redis_enc R M r = Some v" "hget R s n k \<noteq> None" using redis_enc_Some[OF that(1)] that(2) c ex set by (auto simp: redis_ops)
  show "\<exists>s'. redis_delete_record R n k s = Inr s' \<and> connected R s' \<and> stores (hget R) (\<lambda>_ _. True) s n k None s'"
    if "hget R s n k \<noteq> None" using L that c ex by (auto simp: redis_ops redis_lawful_def stores_def)
  show "redis_delete_record R n k s = Inl ObjectDoesNotExist" if "hget R s n k = None"
    using that c ex by (simp add: redis_ops)
qed

section \<open>Redis scans\<close>

text \<open>A full iteration as Redis documents it: the cursors returned lead back to zero.\<close>

inductive scan_chain :: "('d, 'b, 'st) redis \<Rightarrow> 'd \<Rightarrow> string \<Rightarrow> nat \<Rightarrow> (string \<times> 'b) list list \<Rightarrow> bool" for R d schema where
  Last: "hscan R d schema c = (0, data) \<Longrightarrow> scan_chain R d schema c [data]"
| More: "hscan R d schema c = (c', data) \<Longrightarrow> c' \<noteq> 0 \<Longrightarrow> scan_chain R d schema c' pages \<Longrightarrow> scan_chain R d schema c (data # pages)"

lemma scan_page_selects:
  "\<forall>(k, v) \<in> set page. redis_load_record R M (Some v) = Inr (dec v) \<Longrightarrow>
   scan_page R M fs page = Inr (filter (generate_filter_match M fs) (map (\<lambda>(k, v). dec v) page))"
  by (induction page) (auto simp: res_simps)

lemma scan_loop_selects:
  assumes "scan_chain R d schema c pages" and "length pages \<le> fuel"
    and "\<forall>(k, v) \<in> set (concat pages). redis_load_record R M (Some v) = Inr (dec v)"
  shows "scan_loop fuel R M schema fs c d =
    Some (Inr (filter (generate_filter_match M fs) (map (\<lambda>(k, v). dec v) (concat pages))))"
  using assms
proof (induction arbitrary: fuel rule: scan_chain.induct)
  case (Last c data)
  then show ?case by (cases fuel) (simp_all add: scan_page_selects)
next
  case (More c c' data pages)
  from More.prems(1) obtain n where n: "fuel = Suc n" "length pages \<le> n" by (cases fuel) auto
  have "scan_loop n R M schema fs c' d =
    Some (Inr (filter (generate_filter_match M fs) (map (\<lambda>(k, v). dec v) (concat pages))))"
    by (rule More.IH[OF n(2)]) (use More.prems(2) in auto)
  moreover have "scan_page R M fs data = Inr (filter (generate_filter_match M fs) (map (\<lambda>(k, v). dec v) data))"
    by (rule scan_page_selects) (use More.prems(2) in auto)
  ultimately show ?case using n(1) More.hyps(1,2) by simp
qed

section \<open>Methods run through a manager\<close>

text \<open>Whatever manager runs it, a method that succeeds was called on some connection in a world it
  left behind, and a property of the world that every call keeps still holds.\<close>

lemma use_connection_world:
  assumes "use_connection get rel env m s w = (a, s', w')" and "P w" and "\<And>c w. P w \<Longrightarrow> P (snd (m c w))"
    and "\<And>c w v. P w \<Longrightarrow> fst (m c w) = Inr v \<Longrightarrow> Q (snd (m c w))"
  shows "P w' \<and> (case a of Returned v \<Rightarrow> Q w' | _ \<Rightarrow> True)"
proof (cases "get env s")
  case (Pair g s1)
  show ?thesis
  proof (cases g)
    case (Inl e)
    with assms(1,2) Pair show ?thesis by (auto simp: use_connection_def)
  next
    case (Inr c)
    obtain r w1 where m: "m c w = (r, w1)" by (cases "m c w")
    then have "P w1" "\<And>v. r = Inr v \<Longrightarrow> Q w1" using assms(2) assms(3,4)[of w c] by auto
    with assms(1) Pair Inr m show ?thesis by (auto simp: use_connection_def split: prod.splits sum.splits)
  qed
qed

lemma retry_from_world:
  assumes "retry_attempts_from n i envs m le p w sl = (r, p', w', sl')" and "P w"
    and "\<And>i c w. P w \<Longrightarrow> P (snd (m i c w))"
    and "\<And>i c w v. P w \<Longrightarrow> fst (m i c w) = Inr v \<Longrightarrow> Q (snd (m i c w))"
  shows "P w' \<and> (\<forall>v. r = Inr (Some v) \<longrightarrow> Q w')"
  using assms(1,2)
proof (induction n arbitrary: i le p w sl)
  case 0
  then show ?case by (auto split: option.splits)
next
  case (Suc n)
  obtain a p1 w1 where u: "use_connection pool_get_connection pool_release_connection (envs i) (m i) p w = (a, p1, w1)"
    by (rule prod_cases3)
  have w1: "P w1 \<and> (case a of Returned v \<Rightarrow> Q w1 | _ \<Rightarrow> True)"
    by (rule use_connection_world[where P = P, OF u Suc.prems(2)]) (use assms(3,4) in blast)+
  show ?case
  proof (cases a)
    case (Failed e)
    then show ?thesis using Suc.IH[of "Suc i" "Some e" p1 w1] Suc.prems(1) u w1 by simp
  qed (use Suc.prems(1) u w1 in auto)
qed

lemma with_connection_world:
  assumes "with_connection envs m mgr w = (r, mgr', w')" and "P w"
    and "\<And>i c w. P w \<Longrightarrow> P (snd (m i c w))"
    and "\<And>i c w v. P w \<Longrightarrow> fst (m i c w) = Inr v \<Longrightarrow> Q (snd (m i c w))"
  shows "P w' \<and> (\<forall>v. r = Inr (Some v) \<longrightarrow> Q w')"
proof (cases mgr)
  case (MPool p)
  obtain r0 p0 w0 sl0 where x: "execute_with_retry envs m p w = (r0, p0, w0, sl0)" by (rule prod_cases4)
  then have "P w0 \<and> (\<forall>v. r0 = Inr (Some v) \<longrightarrow> Q w0)"
    unfolding execute_with_retry_def using assms(2-4) by (rule retry_from_world)
  then show ?thesis using assms(1) MPool x by (auto simp: with_connection_def)
next
  case (MSingle s)
  obtain a s0 w0 where u: "use_connection single_get_connection single_release_connection (envs 1) (m 1) s w = (a, s0, w0)"
    by (rule prod_cases3)
  have "P w0 \<and> (case a of Returned v \<Rightarrow> Q w0 | _ \<Rightarrow> True)"
    by (rule use_connection_world[where P = P, OF u assms(2)]) (use assms(3,4) in blast)+
  then show ?thesis using assms(1) MSingle u
    by (cases a) (auto simp: with_connection_def single_with_connection_def)
qed

section \<open>Properties\<close>

text \<open>The in-memory store: saving a record always succeeds, under a new key and under a known one.
  Afterwards the record is found under its key, every other key is as before, and deleting it once
  succeeds, after which reading and deleting raise ObjectDoesNotExist.\<close>

lemma memory_save_get:
  "\<exists>mem'. store_save mem_insert_record mem_update_record n k r mem = Inr mem' \<and>
     mem_get_record n k mem' = Inr r \<and> mem_exists n k mem' \<and>
     (\<forall>n' k'. (n', k') \<noteq> (n, k) \<longrightarrow> mem_get_record n' k' mem' = mem_get_record n' k' mem) \<and>
     (\<exists>mem''. mem_delete_record n k mem' = Inr mem'' \<and> mem_get_record n k mem'' = Inl ObjectDoesNotExist \<and>
        mem_delete_record n k mem'' = Inl ObjectDoesNotExist)"
proof -
  obtain mem' where s: "store_save mem_insert_record mem_update_record n k r mem = Inr mem'"
      "stores mem_lookup (\<lambda>_ _. True) mem n k (Some r) mem'"
    using mem.save_stores[where s = mem and n = n and k = k and r = r and v = r] by auto
  moreover obtain mem'' where "mem_delete_record n k mem' = Inr mem''" "mem_lookup mem'' n k = None"
      "mem_delete_record n k mem'' = Inl ObjectDoesNotExist"
    using mem.save_delete[where s = mem and n = n and k = k and r = r and v = r and s' = mem'] s(1) by auto
  ultimately show ?thesis by (auto simp: mem_get_lookup mem_exists_lookup stores_def)
qed

text \<open>C22. The Redis store, for any client that behaves as documented: while connected, saving a record
  whose state can be taken succeeds whether or not the key exists. Afterwards reading the key loads
  that state into a new instance, every other key is as before, and inserting again is rejected with
  ObjectExistError. Without a connection every operation raises ConnectionError.\<close>

theorem redis_save_get:
  assumes "redis_lawful R" and "getstate M r = Inr st"
  shows "(connected R d \<longrightarrow>
      (\<exists>d'. store_save (redis_insert_record R M) (redis_update_record R M) n k r d = Inr d' \<and>
        redis_get_record R M n k d' = load_record M st \<and> redis_exists R n k d' = Inr True \<and>
        redis_insert_record R M n k r d' = Inl ObjectExistError \<and>
        (\<forall>n' k'. (n', k') \<noteq> (n, k) \<longrightarrow> redis_get_record R M n' k' d' = redis_get_record R M n' k' d))) \<and>
    (\<not> connected R d \<longrightarrow>
      store_save (redis_insert_record R M) (redis_update_record R M) n k r d = Inl ConnectionError \<and>
      redis_get_record R M n k d = Inl ConnectionError \<and> redis_delete_record R n k d = Inl ConnectionError)"
proof (cases "connected R d")
  case True
  have enc: "redis_enc R M r = Some (dumps R st)" using assms(2) by (simp add: redis_enc_def)
  obtain d' where d': "store_save (redis_insert_record R M) (redis_update_record R M) n k r d = Inr d'"
      "connected R d'" "stores (hget R) (\<lambda>_ _. True) d n k (Some (dumps R st)) d'"
    using kv_store.save_stores[OF redis_kv[OF assms(1), of M] True TrueI enc] by blast
  have "hexists R d' n k" "hget R d' n k = Some (dumps R st)" "loads R (dumps R st) = Inr st"
    using d'(3) assms(1) by (auto simp: stores_def redis_lawful_def)
  moreover have "redis_get_record R M n' k' d' = redis_get_record R M n' k' d" if "(n', k') \<noteq> (n, k)" for n' k'
    using d'(2,3) True that assms(1) by (auto simp: redis_ops stores_def redis_lawful_def)
  ultimately show ?thesis using d'(1,2) True
    by (auto simp: redis_ops redis_load_record_def loads_value_def)
next
  case False
  have "\<not> is_subclass ConnectionError ObjectExistError" by code_simp
  with False show ?thesis by (simp add: redis_ops store_save_def)
qed

text \<open>A client over an association list, and numbers as models.\<close>

type_synonym demo_db = "(string \<times> string, nat) dict"

definition demo_redis :: "(demo_db, nat, nat) redis" where
  "demo_redis = \<lparr>connected = (\<lambda>_. True), hexists = (\<lambda>d s k. dict_get d (s, k) \<noteq> None),
     hlen = (\<lambda>d s. length (filter (\<lambda>((t, k), v). t = s) d)), hset = (\<lambda>s k v d. dict_set (s, k) v d),
     hget = (\<lambda>d s k. dict_get d (s, k)), hdel = (\<lambda>s k d. dict_del (s, k) d),
     hscan = (\<lambda>d s c. (0, map (\<lambda>((t, k), v). (k, v)) (filter (\<lambda>((t, k), v). t = s) d))),
     dumps = (\<lambda>n. n), loads = Inr\<rparr>"

definition demo_model :: "(nat, nat) model_ops" where
  "demo_model = \<lparr>model_id = (\<lambda>n. ''m''), model_attr = (\<lambda>n k. if k = ''value'' then Some (PInt (int n)) else None),
     getstate = Inr, setstate = (\<lambda>st r. Inr st), new_instance = 0\<rparr>"

lemma demo_redis_lawful: "redis_lawful demo_redis"
  by (simp add: redis_lawful_def demo_redis_def dict_simps del: not_None_eq)

theorem redis_save_get_witness:
  "\<exists>d'. store_save (redis_insert_record demo_redis demo_model) (redis_update_record demo_redis demo_model) ''S'' ''k'' 7
       [((''S'', ''j''), 1), ((''S'', ''k''), 2)] = Inr d' \<and>
     redis_get_record demo_redis demo_model ''S'' ''k'' d' = Inr 7"
proof -
  have "getstate demo_model 7 = Inr 7" "connected demo_redis [((''S'', ''j''), 1), ((''S'', ''k''), 2)]"
    "load_record demo_model 7 = Inr 7" by (simp_all add: demo_model_def demo_redis_def load_record_def)
  with redis_save_get[OF demo_redis_lawful, of demo_model 7 7 "[((''S'', ''j''), 1), ((''S'', ''k''), 2)]" "''S''" "''k''"]
  show ?thesis by metis
qed

text \<open>Saving through a connector manager, pooled with retries or shared: when the call returns, the
  record is in the store; whatever happens, every other entry is as before, however many attempts
  were made.\<close>

lemma save_through_manager:
  assumes "with_connection envs (\<lambda>i. on_store (store_save mem_insert_record mem_update_record n k r)) mgr mem = (res, mgr', mem')"
  shows "(\<forall>u. res = Inr (Some u) \<longrightarrow> mem_get_record n k mem' = Inr r) \<and>
    (\<forall>n' k'. (n', k') \<noteq> (n, k) \<longrightarrow> mem_get_record n' k' mem' = mem_get_record n' k' mem)"
proof -
  let ?P = "\<lambda>w. \<forall>n' k'. (n', k') \<noteq> (n, k) \<longrightarrow> mem_lookup w n' k' = mem_lookup mem n' k'"
  let ?m = "on_store (store_save mem_insert_record mem_update_record n k r)"
  have step: "(?P w \<longrightarrow> ?P (snd (?m c w))) \<and> mem_lookup (snd (?m c w)) n k = Some r" for c w
  proof -
    obtain w' where "store_save mem_insert_record mem_update_record n k r w = Inr w'"
        "stores mem_lookup (\<lambda>_ _. True) w n k (Some r) w'"
      using mem.save_stores[where s = w and n = n and k = k and r = r and v = r] by auto
    then show ?thesis by (auto simp: on_store_def stores_def)
  qed
  have "?P mem' \<and> (\<forall>v. res = Inr (Some v) \<longrightarrow> mem_lookup mem' n k = Some r)"
    by (rule with_connection_world[OF assms, where P = ?P and Q = "\<lambda>w. mem_lookup w n k = Some r"])
      (use step in blast)+
  then show ?thesis by (auto simp: mem_get_lookup)
qed

text \<open>A Redis filter over a cursor chain that comes back to zero returns, in the order of the pages,
  exactly the loaded records that match; the loop needs one step per page.\<close>

lemma redis_scan_selects:
  assumes "connected R d" and "scan_chain R d schema 0 pages" and "length pages \<le> fuel"
    and "\<forall>(k, v) \<in> set (concat pages). redis_load_record R M (Some v) = Inr (dec v)"
  shows "redis_filter_record fuel R M schema fs d =
    Some (Inr (filter (generate_filter_match M fs) (map (\<lambda>(k, v). dec v) (concat pages))))"
  using scan_loop_selects[OF assms(2-4)] assms(1)
  by (simp add: redis_filter_record_def redis_check_connection_def)

end
