(* ===== verification/Signals.thy ===== *)
theory Signals
  imports Values "HOL-Library.Multiset"
begin

text \<open>
  Soft signals, \<^verbatim>\<open>src/nexus/signal/signals.py\<close>. A listener is a callable known by its
  identity; the signal holds weak references to it, so whether it is still alive is decided by the
  environment of an emission, as are the order in which Python iterates over a set and what a
  listener returns or raises. Two weak references to a live listener are equal, so a set of them is
  a set of listener identities. Listeners that connect or disconnect listeners while they are being
  called are not modelled.
\<close>

section \<open>Signals\<close>

datatype sender = GenericSender | Sender nat

record signal =
  sig_name :: string
  provide_args :: "string list"
  listeners :: "(sender, nat list) dict"

record signal_env =
  alive :: "nat \<Rightarrow> bool"
  set_order :: "nat list \<Rightarrow> nat list"
  respond :: "nat \<Rightarrow> (string, pyval) dict \<Rightarrow> exc_class + pyval"

text \<open>\<open>__init__\<close>: the signal enters the class-wide registry under its import string; \<open>sender\<close> and
  \<open>signal\<close> are always provided. A provided argument named like one of the two default fields is a
  duplicate parameter, which \<open>Signature\<close> rejects.\<close>

definition default_field_names :: "string list" where
  "default_field_names = [''pipeline_id'', ''process_id'']"

definition construct_listener_arguments :: "string list \<Rightarrow> exc_class + (string list \<times> string list)" where
  "construct_listener_arguments args =
     (if \<exists>a \<in> set args. a \<in> set default_field_names then Inl ValueError else Inr (args, default_field_names))"

definition mk_signal :: "string \<Rightarrow> string \<Rightarrow> string list \<Rightarrow> string list \<Rightarrow> exc_class + (signal \<times> string list)" where
  "mk_signal mod_name name args registry =
     (let provided = List.insert ''signal'' (List.insert ''sender'' (remdups args))
      in bind_res (construct_listener_arguments provided) (\<lambda>_.
           Inr (\<lparr>sig_name = name, provide_args = provided, listeners = []\<rparr>,
                if mod_name @ ''.'' @ name \<in> set registry then registry else registry @ [mod_name @ ''.'' @ name])))"

text \<open>The signals of the module, declared in this order.\<close>

definition signal_declarations :: "(string \<times> string list) list" where
  "signal_declarations =
    [(''pipeline_pre_init'', [''args'', ''kwargs'']),
     (''pipeline_post_init'', [''pipeline'']),
     (''pipeline_shutdown'', [''pipeline'', ''execution_context'']),
     (''pipeline_stop'', [''pipeline'', ''execution_context'']),
     (''pipeline_execution_start'', [''pipeline'']),
     (''pipeline_execution_end'', [''execution_context'']),
     (''event_init'', [''event'', ''init_kwargs'']),
     (''event_execution_init'', [''event'', ''execution_context'', ''executor'', ''call_kwargs'']),
     (''event_execution_start'', [''event'', ''execution_context'']),
     (''event_execution_end'', [''event'', ''execution_context'']),
     (''event_execution_retry'', [''event'', ''execution_context'', ''task_id'', ''backoff'', ''retry_count'', ''max_attempts'']),
     (''event_execution_retry_done'', [''event'', ''execution_context'', ''task_id'', ''max_attempts'']),
     (''event_execution_cancelled'', [''task_profiles'', ''execution_context'', ''state'']),
     (''event_execution_aborted'', [''task_profiles'', ''execution_context'', ''state'']),
     (''batch_pipeline_started'', [''batch'', ''total_pipelines'', ''timestamp'']),
     (''batch_pipeline_finished'', [''batch'', ''metrics'', ''success_rate'', ''total_duration'', ''timestamp'']),
     (''pipeline_metrics_updated'', [''batch_id'', ''metrics'', ''active_count'', ''completion_rate'', ''timestamp''])]"

fun declare_signals :: "string \<Rightarrow> (string \<times> string list) list \<Rightarrow> string list \<Rightarrow> exc_class + (signal list \<times> string list)" where
  "declare_signals mod_name [] registry = Inr ([], registry)"
| "declare_signals mod_name ((n, args) # ds) registry =
     bind_res (mk_signal mod_name n args registry) (\<lambda>(s, registry1).
     bind_res (declare_signals mod_name ds registry1) (\<lambda>(ss, registry2). Inr (s # ss, registry2)))"

text \<open>Pickling drops the lock and the listeners; unpickling starts with no listener.\<close>

definition signal_getstate :: "signal \<Rightarrow> string \<times> string list" where
  "signal_getstate s = (sig_name s, provide_args s)"

definition signal_setstate :: "string \<times> string list \<Rightarrow> signal" where
  "signal_setstate st = \<lparr>sig_name = fst st, provide_args = snd st, listeners = []\<rparr>"

section \<open>Connecting\<close>

text \<open>\<open>None\<close> as a sender of \<open>connect\<close> means \<open>GenericSender\<close>. Only \<open>connect\<close> maps it.\<close>

definition connect :: "sender option \<Rightarrow> nat \<Rightarrow> signal \<Rightarrow> signal" where
  "connect sender l s =
     (let key = (case sender of None \<Rightarrow> GenericSender | Some x \<Rightarrow> x);
          ls = (if dict_has (listeners s) key then listeners s else dict_set key [] (listeners s))
      in case dict_get ls key of
           None \<Rightarrow> s
         | Some xs \<Rightarrow> s\<lparr>listeners := dict_set key (List.insert l xs) ls\<rparr>)"

definition disconnect :: "sender option \<Rightarrow> nat \<Rightarrow> signal \<Rightarrow> signal" where
  "disconnect sender l s =
     (case sender of
        None \<Rightarrow> s
      | Some key \<Rightarrow>
          (case dict_get (listeners s) key of
             None \<Rightarrow> s
           | Some xs \<Rightarrow>
               (let ys = filter (\<lambda>x. x \<noteq> l) xs
                in if ys = [] then s\<lparr>listeners := dict_del key (listeners s)\<rparr>
                   else s\<lparr>listeners := dict_set key ys (listeners s)\<rparr>)))"

definition clean :: "sender option \<Rightarrow> signal \<Rightarrow> signal" where
  "clean sender s =
     (case sender of
        None \<Rightarrow> s
      | Some key \<Rightarrow> (if dict_has (listeners s) key then s\<lparr>listeners := dict_del key (listeners s)\<rparr> else s))"

text \<open>The finalizer of a listener that was garbage collected; it keeps an empty set.\<close>

definition remove_dead_listener :: "sender \<Rightarrow> nat \<Rightarrow> signal \<Rightarrow> signal" where
  "remove_dead_listener key l s =
     (case dict_get (listeners s) key of
        None \<Rightarrow> s
      | Some xs \<Rightarrow> (if l \<in> set xs then s\<lparr>listeners := dict_set key (removeAll l xs) (listeners s)\<rparr> else s))"

section \<open>Emitting\<close>

text \<open>\<open>Signature.bind\<close> of keyword-only parameters: every provided argument must be given, and nothing
  else but the default fields.\<close>

definition bind_args :: "signal \<Rightarrow> (string, pyval) dict \<Rightarrow> bool" where
  "bind_args s kwargs \<longleftrightarrow>
     ''signal'' \<notin> set (dict_keys kwargs) \<and> ''sender'' \<notin> set (dict_keys kwargs) \<and>
     (\<forall>a \<in> set (provide_args s). a = ''signal'' \<or> a = ''sender'' \<or> a \<in> set (dict_keys kwargs)) \<and>
     (\<forall>k \<in> set (dict_keys kwargs). k \<in> set (provide_args s) \<or> k \<in> set default_field_names)"

text \<open>One reference: a dead one gives no response; TypeError of \<open>bind\<close> is outside the \<open>try\<close>, an
  exception of the listener is its response.\<close>

definition execute_listeners ::
  "signal_env \<Rightarrow> signal \<Rightarrow> (string, pyval) dict \<Rightarrow> nat \<Rightarrow> exc_class + (nat \<times> (exc_class + pyval)) list" where
  "execute_listeners env s kwargs l =
     (if alive env l
      then (if bind_args s kwargs then Inr [(l, respond env l kwargs)] else Inl TypeError)
      else Inr [])"

fun run_listeners ::
  "signal_env \<Rightarrow> signal \<Rightarrow> (string, pyval) dict \<Rightarrow> nat list \<Rightarrow> exc_class + (nat \<times> (exc_class + pyval)) list" where
  "run_listeners env s kwargs [] = Inr []"
| "run_listeners env s kwargs (l # ls) =
     bind_res (execute_listeners env s kwargs l) (\<lambda>r.
     bind_res (run_listeners env s kwargs ls) (\<lambda>rs. Inr (r @ rs)))"

definition listeners_of :: "signal \<Rightarrow> sender option \<Rightarrow> nat list" where
  "listeners_of s sender =
     (case sender of
        None \<Rightarrow> []
      | Some key \<Rightarrow> (case dict_get (listeners s) key of None \<Rightarrow> [] | Some xs \<Rightarrow> xs))"

definition emit ::
  "signal_env \<Rightarrow> sender option \<Rightarrow> (string, pyval) dict \<Rightarrow> signal \<Rightarrow> exc_class + (nat \<times> (exc_class + pyval)) list" where
  "emit env sender kwargs s =
     bind_res (run_listeners env s kwargs (set_order env (listeners_of s sender))) (\<lambda>rs1.
     bind_res (run_listeners env s kwargs (set_order env (listeners_of s (Some GenericSender)))) (\<lambda>rs2.
     Inr (rs1 @ rs2)))"

section \<open>The connection relation\<close>

definition signal_ok :: "signal \<Rightarrow> bool" where
  "signal_ok s \<longleftrightarrow> dict_ok (listeners s) \<and> (\<forall>xs \<in> set (dict_values (listeners s)). distinct xs)"

definition connections :: "signal \<Rightarrow> (sender \<times> nat) set" where
  "connections s = {(k, l). l \<in> set (listeners_of s (Some k))}"

lemma signal_ok_distinct: "signal_ok s \<Longrightarrow> distinct (listeners_of s x)"
  by (auto simp: signal_ok_def listeners_of_def dest!: dict_values_mem split: option.split)

lemma signal_ok_set: "signal_ok s \<Longrightarrow> distinct xs \<Longrightarrow> signal_ok (s\<lparr>listeners := dict_set k xs (listeners s)\<rparr>)"
  using dict_set_values[of k xs "listeners s"] unfolding signal_ok_def by (simp del: set_map) blast

lemma signal_ok_del: "signal_ok s \<Longrightarrow> signal_ok (s\<lparr>listeners := dict_del k (listeners s)\<rparr>)"
  by (auto simp: signal_ok_def AList.delete_eq dict_ok_def distinct_map_filter)

lemma listeners_of_get: "dict_get (listeners s) k = Some xs \<Longrightarrow> listeners_of s (Some k) = xs"
  by (simp add: listeners_of_def)

lemma connections_set:
  "connections (s\<lparr>listeners := dict_set k xs (listeners s)\<rparr>) = {p \<in> connections s. fst p \<noteq> k} \<union> {k} \<times> set xs"
  by (auto simp: connections_def listeners_of_def dict_simps split: option.splits if_splits)

lemma connections_del:
  "connections (s\<lparr>listeners := dict_del k (listeners s)\<rparr>) = {p \<in> connections s. fst p \<noteq> k}"
  by (auto simp: connections_def listeners_of_def dict_simps split: option.splits if_splits)

lemma connect_eq:
  "connect sender l s =
     (let k = (case sender of None \<Rightarrow> GenericSender | Some x \<Rightarrow> x)
      in s\<lparr>listeners := dict_set k (List.insert l (listeners_of s (Some k))) (if dict_has (listeners s) k then listeners s else dict_set k [] (listeners s))\<rparr>)"
  by (auto simp: connect_def Let_def listeners_of_def dict_simps split: option.splits)

lemma connect_connections:
  "connections (connect sender l s) = insert (case sender of None \<Rightarrow> GenericSender | Some x \<Rightarrow> x, l) (connections s)"
proof -
  define k where "k = (case sender of None \<Rightarrow> GenericSender | Some x \<Rightarrow> x)"
  have "listeners_of (connect sender l s) (Some k') =
      (if k' = k then List.insert l (listeners_of s (Some k)) else listeners_of s (Some k'))" for k'
    by (auto simp: connect_eq k_def[symmetric] Let_def listeners_of_def dict_simps)
  then show ?thesis by (auto simp: connections_def k_def[symmetric] split: if_splits)
qed

lemma connect_ok: "signal_ok s \<Longrightarrow> signal_ok (connect sender l s)"
proof -
  assume ok: "signal_ok s"
  define k where "k = (case sender of None \<Rightarrow> GenericSender | Some x \<Rightarrow> x)"
  have d: "distinct (List.insert l (listeners_of s (Some k)))" using signal_ok_distinct[OF ok] by simp
  have "signal_ok (s\<lparr>listeners := (if dict_has (listeners s) k then listeners s else dict_set k [] (listeners s))\<rparr>)"
    using ok signal_ok_set[OF ok, of "[]"] by simp
  from signal_ok_set[OF this d] show ?thesis by (simp add: connect_eq k_def[symmetric] Let_def)
qed

lemma disconnect_law:
  assumes "signal_ok s"
  shows "signal_ok (disconnect (Some k) l s) \<and> connections (disconnect (Some k) l s) = connections s - {(k, l)}"
proof (cases "dict_get (listeners s) k")
  case None
  then show ?thesis using assms by (auto simp: disconnect_def connections_def listeners_of_def)
next
  case (Some xs)
  have sub: "{p \<in> connections s. fst p \<noteq> k} \<union> {k} \<times> set (filter (\<lambda>x. x \<noteq> l) xs) = connections s - {(k, l)}"
    using Some by (auto simp: connections_def listeners_of_get)
  have d: "distinct (filter (\<lambda>x. x \<noteq> l) xs)" using signal_ok_distinct[OF assms, of "Some k"] Some by (simp add: listeners_of_get)
  show ?thesis
  proof (cases "filter (\<lambda>x. x \<noteq> l) xs = []")
    case True
    with sub show ?thesis using Some signal_ok_del[OF assms, of k] connections_del[of k s]
      by (simp add: disconnect_def Let_def)
  next
    case False
    with sub show ?thesis using Some signal_ok_set[OF assms d, of k] connections_set[of k "filter (\<lambda>x. x \<noteq> l) xs" s]
      by (simp add: disconnect_def Let_def)
  qed
qed

lemma remove_dead_law:
  assumes "signal_ok s"
  shows "signal_ok (remove_dead_listener k l s) \<and> connections (remove_dead_listener k l s) = connections s - {(k, l)}"
proof (cases "l \<in> set (listeners_of s (Some k))")
  case True
  then obtain xs where xs: "dict_get (listeners s) k = Some xs" "l \<in> set xs" by (cases "dict_get (listeners s) k") (auto simp: listeners_of_def)
  have d: "distinct (removeAll l xs)" using signal_ok_distinct[OF assms, of "Some k"] xs by (simp add: listeners_of_get distinct_removeAll)
  have "{p \<in> connections s. fst p \<noteq> k} \<union> {k} \<times> set (removeAll l xs) = connections s - {(k, l)}"
    using xs(1) by (auto simp: connections_def listeners_of_get)
  then show ?thesis using xs signal_ok_set[OF assms d, of k] connections_set[of k "removeAll l xs" s]
    by (simp add: remove_dead_listener_def)
next
  case False
  then have "remove_dead_listener k l s = s" by (auto simp: remove_dead_listener_def listeners_of_def split: option.splits)
  then show ?thesis using assms False by (auto simp: connections_def)
qed

lemma run_listeners_ok:
  "bind_args s kwargs \<Longrightarrow>
   run_listeners env s kwargs ls = Inr (map (\<lambda>l. (l, respond env l kwargs)) (filter (alive env) ls))"
  by (induction ls) (simp_all add: execute_listeners_def)

lemma run_listeners_bad:
  "\<not> bind_args s kwargs \<Longrightarrow>
   run_listeners env s kwargs ls = (if list_ex (alive env) ls then Inl TypeError else Inr [])"
  by (induction ls) (simp_all add: execute_listeners_def)

lemma emit_fits:
  "bind_args s kwargs \<Longrightarrow> emit env sender kwargs s =
     Inr (map (\<lambda>l. (l, respond env l kwargs))
           (filter (alive env) (set_order env (listeners_of s sender) @ set_order env (listeners_of s (Some GenericSender)))))"
  by (simp add: emit_def run_listeners_ok)

text \<open>The declarations of the module all succeed and register as many names.\<close>

lemma mk_signal_new:
  assumes "set args \<inter> set default_field_names = {}" and "mod_name @ ''.'' @ n \<notin> set registry"
  shows "\<exists>s. mk_signal mod_name n args registry = Inr (s, registry @ [mod_name @ ''.'' @ n]) \<and> sig_name s = n \<and>
    set (provide_args s) = set args \<union> {''sender'', ''signal''} \<and> listeners s = []"
proof -
  have "\<not> (\<exists>a \<in> set args. a = ''pipeline_id'' \<or> a = ''process_id'')" using assms(1) by (auto simp: default_field_names_def)
  with assms(2) show ?thesis
    by (auto simp: mk_signal_def construct_listener_arguments_def default_field_names_def Let_def)
qed

lemma declare_signals_new:
  assumes "\<forall>(n, args) \<in> set ds. set args \<inter> set default_field_names = {}" and "distinct (map fst ds)"
    and "\<forall>d \<in> set ds. mod_name @ ''.'' @ fst d \<notin> set registry"
  shows "\<exists>ss. declare_signals mod_name ds registry = Inr (ss, registry @ map (\<lambda>d. mod_name @ ''.'' @ fst d) ds) \<and>
    map sig_name ss = map fst ds \<and>
    list_all2 (\<lambda>s d. set (provide_args s) = set (snd d) \<union> {''sender'', ''signal''} \<and> listeners s = []) ss ds"
  using assms
proof (induction ds arbitrary: registry)
  case (Cons d ds)
  obtain n args where d: "d = (n, args)" by (cases d)
  with Cons.prems obtain s where s: "mk_signal mod_name n args registry = Inr (s, registry @ [mod_name @ ''.'' @ n])" "sig_name s = n"
    "set (provide_args s) = set args \<union> {''sender'', ''signal''}" "listeners s = []"
    using mk_signal_new[of args mod_name n registry] by auto
  have "\<exists>ss. declare_signals mod_name ds (registry @ [mod_name @ ''.'' @ n]) =
      Inr (ss, (registry @ [mod_name @ ''.'' @ n]) @ map (\<lambda>d. mod_name @ ''.'' @ fst d) ds) \<and> map sig_name ss = map fst ds \<and>
      list_all2 (\<lambda>s d. set (provide_args s) = set (snd d) \<union> {''sender'', ''signal''} \<and> listeners s = []) ss ds"
    by (rule Cons.IH) (use Cons.prems d in auto)
  with s d show ?case by fastforce
qed simp

lemma signals_declared:
  "\<exists>ss. declare_signals ''nexus.signal.signals'' signal_declarations [] =
       Inr (ss, map (\<lambda>d. ''nexus.signal.signals'' @ ''.'' @ fst d) signal_declarations) \<and>
     map sig_name ss = map fst signal_declarations \<and>
     list_all2 (\<lambda>s d. set (provide_args s) = set (snd d) \<union> {''sender'', ''signal''} \<and> listeners s = []) ss signal_declarations"
  using declare_signals_new[of signal_declarations "''nexus.signal.signals''" "[]"]
  by (auto simp: signal_declarations_def default_field_names_def)

section \<open>Properties\<close>

text \<open>Connecting, disconnecting, cleaning and the removal of dead listeners act on the relation
  between senders and listeners as insertion and removal, and keep each listener at most once per
  sender. Disconnecting or cleaning with \<open>None\<close> as the sender changes nothing, although connecting
  with \<open>None\<close> registers the listener for every sender.\<close>

lemma signal_connections:
  assumes "signal_ok s"
  shows "signal_ok (connect sender l s) \<and>
    connections (connect sender l s) = insert (case sender of None \<Rightarrow> GenericSender | Some x \<Rightarrow> x, l) (connections s) \<and>
    signal_ok (disconnect sender l s) \<and>
    connections (disconnect sender l s) = (case sender of None \<Rightarrow> connections s | Some k \<Rightarrow> connections s - {(k, l)}) \<and>
    signal_ok (clean sender s) \<and>
    connections (clean sender s) = (case sender of None \<Rightarrow> connections s | Some k \<Rightarrow> {p \<in> connections s. fst p \<noteq> k}) \<and>
    signal_ok (remove_dead_listener k l s) \<and> connections (remove_dead_listener k l s) = connections s - {(k, l)}"
proof -
  have "signal_ok (clean sender s) \<and>
    connections (clean sender s) = (case sender of None \<Rightarrow> connections s | Some k \<Rightarrow> {p \<in> connections s. fst p \<noteq> k})"
  proof (cases sender)
    case (Some k)
    then show ?thesis using assms signal_ok_del[OF assms, of k] connections_del[of k s]
      by (auto simp: clean_def connections_def listeners_of_def dict_has_get)
  qed (use assms in \<open>simp add: clean_def\<close>)
  moreover have "signal_ok (disconnect sender l s) \<and>
    connections (disconnect sender l s) = (case sender of None \<Rightarrow> connections s | Some k \<Rightarrow> connections s - {(k, l)})"
  proof (cases sender)
    case None
    then show ?thesis using assms by (simp add: disconnect_def)
  next
    case (Some k)
    with disconnect_law[OF assms, of k l] show ?thesis by simp
  qed
  ultimately show ?thesis using connect_ok[OF assms] connect_connections remove_dead_law[OF assms] by blast
qed

definition demo_signal :: signal where
  "demo_signal = connect None 3 (connect (Some (Sender 1)) 2 \<lparr>sig_name = ''event_init'', provide_args = [''event'', ''sender'', ''signal''], listeners = []\<rparr>)"

lemma demo_signal_ok: "signal_ok demo_signal"
  unfolding demo_signal_def by (intro connect_ok) (simp add: signal_ok_def)

text \<open>C23. An emission whose arguments fit the signature calls every live listener of the sender exactly
  once and then every live listener connected for all senders exactly once, whatever the others
  return or raise; the response of a listener that raises is its exception. When the arguments do
  not fit, TypeError is raised as soon as a live listener is reached, and nothing is raised when
  there is none.\<close>

theorem emit_reaches:
  assumes "signal_ok s" and "\<forall>xs. mset (set_order env xs) = mset xs"
  shows "if bind_args s kwargs
    then (\<exists>rs. emit env sender kwargs s = Inr rs \<and>
      mset (map fst rs) = mset (filter (alive env) (listeners_of s sender)) + mset (filter (alive env) (listeners_of s (Some GenericSender))) \<and>
      (\<forall>(l, r) \<in> set rs. r = respond env l kwargs))
    else emit env sender kwargs s =
      (if list_ex (alive env) (listeners_of s sender @ listeners_of s (Some GenericSender)) then Inl TypeError else Inr [])"
proof -
  let ?a = "set_order env (listeners_of s sender)" and ?b = "set_order env (listeners_of s (Some GenericSender))"
  have perm: "mset (filter (alive env) (set_order env xs)) = mset (filter (alive env) xs)" for xs
    using assms(2) by simp
  have ex: "list_ex (alive env) (set_order env xs) \<longleftrightarrow> list_ex (alive env) xs" for xs
    using assms(2) mset_eq_setD[of "set_order env xs" xs] by (simp add: list_ex_iff)
  show ?thesis
  proof (cases "bind_args s kwargs")
    case True
    let ?r = "\<lambda>ls. map (\<lambda>l. (l, respond env l kwargs)) (filter (alive env) ls)"
    have "emit env sender kwargs s = Inr (?r ?a @ ?r ?b)" using True by (simp add: emit_def run_listeners_ok)
    moreover have "mset (map fst (?r ?a @ ?r ?b)) =
        mset (filter (alive env) (listeners_of s sender)) + mset (filter (alive env) (listeners_of s (Some GenericSender)))"
      using assms(2) by (simp add: comp_def flip: mset_map)
    moreover have "\<forall>(l, r) \<in> set (?r ?a @ ?r ?b). r = respond env l kwargs" by auto
    ultimately show ?thesis unfolding if_P[OF True] by blast
  next
    case False
    then show ?thesis using ex by (simp add: emit_def run_listeners_bad)
  qed
qed

theorem emit_reaches_witness:
  "\<exists>rs. emit \<lparr>alive = (\<lambda>l. True), set_order = rev, respond = (\<lambda>l kw. if l = 2 then Inl ValueError else Inr (PInt 1))\<rparr>
      (Some (Sender 1)) [(''event'', PNone)] demo_signal = Inr rs \<and> mset (map fst rs) = {#2, 3#}"
proof -
  let ?env = "\<lparr>alive = (\<lambda>l. True), set_order = rev, respond = (\<lambda>l kw. if l = 2 then Inl ValueError else Inr (PInt 1))\<rparr> :: signal_env"
  have "bind_args demo_signal [(''event'', PNone)]" by code_simp
  moreover have "listeners_of demo_signal (Some (Sender 1)) = [2]" "listeners_of demo_signal (Some GenericSender) = [3]"
    by code_simp+
  ultimately show ?thesis
    using emit_reaches[OF demo_signal_ok, of ?env "[(''event'', PNone)]" "Some (Sender 1)"] by auto
qed

end
