(* ===== verification/Input_Fields.thy ===== *)
theory Input_Fields
  imports Values
begin

text \<open>
  Input fields of pipelines (\<^verbatim>\<open>src/nexus/fields.py\<close>), the default batch processors
  (\<^verbatim>\<open>src/nexus/default_batch_processors.py\<close>), the validation of batch processors
  (\<^verbatim>\<open>src/nexus/utils.py\<close>) and the cache of field values that the descriptors write
  (\<open>PipelineState\<close> in \<^verbatim>\<open>src/nexus/pipeline.py\<close>).

  Iterators are lists of the values they will still produce, followed by the exception they end
  with, if any (\<open>StopIteration\<close> when there is none).
\<close>

section \<open>Types of values\<close>

datatype dtype = UNKNOWN | DType string

fun type_name :: "pyval \<Rightarrow> string" where
  "type_name PNone = ''NoneType''"
| "type_name (PBool b) = ''bool''"
| "type_name (PInt i) = ''int''"
| "type_name (PFloat r) = ''float''"
| "type_name (PStr s) = ''str''"
| "type_name (PList xs) = ''list''"
| "type_name (PTuple xs) = ''tuple''"
| "type_name (PDict d) = ''dict''"
| "type_name (PObj c a) = c"
| "type_name (PExc c a) = exc_name c"

text \<open>\<open>isinstance\<close> for the built-in types: a boolean is an integer, everything is an object.\<close>

definition instance_of :: "pyval \<Rightarrow> string \<Rightarrow> bool" where
  "instance_of v t \<longleftrightarrow> type_name v = t \<or> t = ''object'' \<or> (type_name v = ''bool'' \<and> t = ''int'')"

section \<open>Batch processors\<close>

datatype iter = Iter (items: "pyval list") (ending: "exc_class option")

fun next_item :: "iter \<Rightarrow> (exc_class + pyval) \<times> iter" where
  "next_item (Iter [] None) = (Inl StopIteration, Iter [] None)"
| "next_item (Iter [] (Some e)) = (Inl e, Iter [] None)"
| "next_item (Iter (x # xs) e) = (Inr x, Iter xs e)"

definition seq_of :: "pyval \<Rightarrow> exc_class + pyval list" where
  "seq_of v =
     (case v of
        PList xs \<Rightarrow> Inr xs
      | PTuple xs \<Rightarrow> Inr xs
      | PStr s \<Rightarrow> Inr (map (\<lambda>c. PStr [c]) s)
      | PDict d \<Rightarrow> Inr (map (\<lambda>(k, x). PStr k) d)
      | _ \<Rightarrow> Inl TypeError)"

text \<open>\<open>batched\<close> of more-itertools is the parameter \<open>bt\<close>: it cuts the elements of an iterable into tuples
  of a given size, or raises when the first one is asked for.\<close>

type_synonym batcher = "int \<Rightarrow> pyval list \<Rightarrow> exc_class + pyval list list"

definition list_batch_processor :: "batcher \<Rightarrow> pyval \<Rightarrow> int \<Rightarrow> iter" where
  "list_batch_processor bt v n =
     (case bind_res (seq_of v) (bt n) of
        Inl e \<Rightarrow> Iter [] (Some e)
      | Inr bs \<Rightarrow> Iter (map PTuple bs) None)"

text \<open>What the code relies on: for a positive size the batches are not empty, not longer than the size,
  and together give the elements in order.\<close>

definition batcher_ok :: "batcher \<Rightarrow> bool" where
  "batcher_ok bt \<longleftrightarrow> (\<forall>n xs. 0 < n \<longrightarrow>
     (\<exists>bs. bt n xs = Inr bs \<and> concat bs = xs \<and> (\<forall>b \<in> set bs. b \<noteq> [] \<and> length b \<le> nat n)))"

text \<open>\<open>file_stream_batch_processor\<close>: an object of class \<open>IOBase\<close> carries its content and whether it can be
  read; anything else is a ValueError when the first chunk is asked for. A negative chunk size reads
  everything at once.\<close>

definition file_stream_batch_processor :: "pyval \<Rightarrow> int \<Rightarrow> iter" where
  "file_stream_batch_processor v n =
     (case v of
        PObj c a \<Rightarrow>
          (if c \<noteq> ''IOBase'' then Iter [] (Some ValueError)
           else (case (dict_get a ''readable'', dict_get a ''content'') of
                   (Some (PBool True), Some (PStr s)) \<Rightarrow>
                     Iter (map PStr (if n < 0 then (if s = [] then [] else [s]) else chunks (nat n) s)) None
                 | _ \<Rightarrow> Iter [] (Some ValueError)))
      | _ \<Rightarrow> Iter [] (Some ValueError))"

text \<open>A batch processor is one of the two defaults or a callable of the user, known by its parameters
  (with the type name of the default value, if it has one) and by what it returns.\<close>

record user_processor =
  parameters :: "(string \<times> string option) list"
  call_processor :: "pyval \<Rightarrow> int \<Rightarrow> exc_class + iter option"

datatype processor = ListBatch | FileStreamBatch | UserProcessor user_processor | NotCallable

definition proc_parameters :: "processor \<Rightarrow> (string \<times> string option) list" where
  "proc_parameters p =
     (case p of
        ListBatch \<Rightarrow> [(''values'', None), (''batch_size'', Some ''int'')]
      | FileStreamBatch \<Rightarrow> [(''values'', None), (''chunk_size'', Some ''int'')]
      | UserProcessor u \<Rightarrow> parameters u
      | NotCallable \<Rightarrow> [])"

text \<open>Calling a processor returns an iterator, or something that is not iterable (\<open>None\<close> here), or raises.\<close>

definition run_processor :: "batcher \<Rightarrow> processor \<Rightarrow> pyval \<Rightarrow> int \<Rightarrow> exc_class + iter option" where
  "run_processor bt p v n =
     (case p of
        ListBatch \<Rightarrow> Inr (Some (list_batch_processor bt v n))
      | FileStreamBatch \<Rightarrow> Inr (Some (file_stream_batch_processor v n))
      | UserProcessor u \<Rightarrow> call_processor u v n
      | NotCallable \<Rightarrow> Inl TypeError)"

definition bad_default :: "string \<times> string option \<Rightarrow> bool" where
  "bad_default prm \<longleftrightarrow> fst prm \<in> {''chunk_size'', ''batch_size''} \<and>
     (case snd prm of None \<Rightarrow> False | Some t \<Rightarrow> t \<notin> {''int'', ''float'', ''bool''})"

definition bad_name :: "string \<times> string option \<Rightarrow> bool" where
  "bad_name prm \<longleftrightarrow> fst prm \<notin> {''values'', ''batch_size'', ''chunk_size''}"

text \<open>The trial call passes the values by position and the size by keyword: a size parameter in the first
  place gets two values, a TypeError like any other failure of the call.\<close>

definition trial_call :: "batcher \<Rightarrow> processor \<Rightarrow> exc_class + iter option" where
  "trial_call bt p =
     (if map fst (take 1 (proc_parameters p)) \<noteq> [''values''] then Inl TypeError
      else run_processor bt p (PList [PInt 1]) 2)"

definition validate_batch_processor :: "batcher \<Rightarrow> processor \<Rightarrow> exc_class + bool" where
  "validate_batch_processor bt p =
     (if p = NotCallable then Inl ValueError
      else if length (proc_parameters p) \<noteq> 2 then Inl ImproperlyConfigured
      else if list_ex (\<lambda>prm. bad_default prm \<or> bad_name prm) (proc_parameters p) then Inl ImproperlyConfigured
      else (case trial_call bt p of
              Inl e \<Rightarrow> Inl ImproperlyConfigured
            | Inr r \<Rightarrow> Inr (r \<noteq> None)))"

section \<open>Fields\<close>

record field =
  name :: "string option"
  data_type :: "dtype list"
  default :: "pyval option"
  default_factory :: "pyval option"
  required :: bool
  batch_processor :: "processor option"
  batch_size :: int

text \<open>\<open>__init__\<close>. \<open>valid_type\<close> is pydantic-mini's \<open>is_type\<close>. A list or tuple type brings the list
  processor. \<open>default\<close> is \<open>None\<close> for \<open>EMPTY\<close>; \<open>default_factory\<close> is the value the factory
  returns.\<close>

definition mk_field ::
  "batcher \<Rightarrow> (string \<Rightarrow> bool) \<Rightarrow> string option \<Rightarrow> bool \<Rightarrow> dtype list \<Rightarrow> pyval option \<Rightarrow> pyval option \<Rightarrow> processor option \<Rightarrow> int \<Rightarrow>
   exc_class + field" where
  "mk_field bt valid_type nm req types dflt factory proc bsize =
     (if list_ex (\<lambda>t. case t of UNKNOWN \<Rightarrow> False | DType n \<Rightarrow> \<not> valid_type n) types then Inl TypeError
      else
        (let proc1 = (if proc = None \<and> (DType ''list'' \<in> set types \<or> DType ''tuple'' \<in> set types)
                      then Some ListBatch else proc);
             f = \<lparr>name = nm, data_type = types, default = dflt, default_factory = factory, required = req,
                  batch_processor = None, batch_size = bsize\<rparr>
         in case proc1 of
              None \<Rightarrow> Inr f
            | Some p \<Rightarrow> bind_res (validate_batch_processor bt p) (\<lambda>ok.
                if ok then Inr (f\<lparr>batch_processor := Some p\<rparr>) else Inl ImproperlyConfigured)))"

definition set_name :: "string \<Rightarrow> field \<Rightarrow> field" where
  "set_name n f = (case name f of None \<Rightarrow> f\<lparr>name := Some n\<rparr> | Some m \<Rightarrow> f)"

definition field_name :: "field \<Rightarrow> string" where
  "field_name f = (case name f of None \<Rightarrow> '''' | Some n \<Rightarrow> n)"

definition field_get :: "field \<Rightarrow> (string, pyval) dict \<Rightarrow> pyval" where
  "field_get f inst =
     (let v = (case dict_get inst (field_name f) of None \<Rightarrow> PNone | Some x \<Rightarrow> x)
      in if v = PNone
         then (case default f of
                 Some d \<Rightarrow> d
               | None \<Rightarrow> (case default_factory f of Some d \<Rightarrow> d | None \<Rightarrow> v))
         else v)"

text \<open>The value \<open>__set__\<close> stores. \<open>callable_value\<close> is Python's \<open>callable\<close>.\<close>

definition field_value :: "(pyval \<Rightarrow> bool) \<Rightarrow> field \<Rightarrow> pyval \<Rightarrow> exc_class + pyval" where
  "field_value callable_value f v =
     (if UNKNOWN \<notin> set (data_type f) \<and> v \<noteq> PNone \<and> \<not> list_ex (\<lambda>t. case t of UNKNOWN \<Rightarrow> False | DType n \<Rightarrow> instance_of v n) (data_type f)
      then Inl TypeError
      else if callable_value v then Inl TypeError
      else if v = PNone
      then (if required f \<and> default f = None \<and> default_factory f = None then Inl ValueError
            else Inr (case default f of
                        Some d \<Rightarrow> d
                      | None \<Rightarrow> (case default_factory f of Some d \<Rightarrow> d | None \<Rightarrow> v)))
      else Inr v)"

definition has_batch_operation :: "field \<Rightarrow> bool" where
  "has_batch_operation f \<longleftrightarrow> batch_processor f \<noteq> None"

section \<open>The cache of field values\<close>

text \<open>The attributes of a \<open>PipelineState\<close> that are dictionaries: for each cache, the fields of each
  pipeline instance.\<close>

type_synonym cache_state = "(string, (string, (string, pyval) dict) dict) dict"

definition set_cache :: "string \<Rightarrow> string \<Rightarrow> string \<Rightarrow> pyval \<Rightarrow> cache_state \<Rightarrow> cache_state" where
  "set_cache key cache_field fld v st =
     (if v = PNone then st
      else
        (let fresh = [(key, [])];
             base = (case dict_get st cache_field of
                       None \<Rightarrow> fresh
                     | Some cache \<Rightarrow>
                         (case dict_get cache key of
                            None \<Rightarrow> fresh
                          | Some coll \<Rightarrow> (if dict_has coll key then cache else dict_set key [] cache)));
             coll = (case dict_get base key of None \<Rightarrow> [] | Some c \<Rightarrow> c)
         in dict_set cache_field (dict_set key (dict_set fld v coll) base) st))"

definition set_cache_for_pipeline_field :: "string \<Rightarrow> string \<Rightarrow> pyval \<Rightarrow> cache_state \<Rightarrow> cache_state" where
  "set_cache_for_pipeline_field key fld v st = set_cache key ''pipeline_cache'' fld v st"

definition check_cache_exists :: "string \<Rightarrow> cache_state \<Rightarrow> string list" where
  "check_cache_exists key st = map fst (filter (\<lambda>(f, cache). dict_has cache key) st)"

definition clear_cache :: "string \<Rightarrow> cache_state \<Rightarrow> cache_state" where
  "clear_cache key st = map (\<lambda>(f, cache). (f, dict_del key cache)) st"

text \<open>The \<open>ChainMap\<close> of the instance's entries: the first cache that has the key wins.\<close>

definition chain_lookup :: "string \<Rightarrow> cache_state \<Rightarrow> string \<Rightarrow> pyval option" where
  "chain_lookup key st k =
     foldr (\<lambda>(f, cache) acc. case dict_get cache key of
         None \<Rightarrow> acc
       | Some coll \<Rightarrow> (case dict_get coll k of Some v \<Rightarrow> Some v | None \<Rightarrow> acc)) st None"

text \<open>\<open>load_class_by_id\<close>: the arguments the restored instance is built from.\<close>

definition restored_kwargs :: "string \<Rightarrow> cache_state \<Rightarrow> exc_class + (string, pyval) dict" where
  "restored_kwargs pk st =
     (if check_cache_exists pk st = [] then Inr []
      else (case chain_lookup pk st ''pipeline_cache'' of
              None \<Rightarrow> Inr []
            | Some (PDict d) \<Rightarrow> Inr d
            | Some v \<Rightarrow> Inl AttributeError))"

text \<open>\<open>__set__\<close> of a field: the cache of the class and the dictionary of the instance.\<close>

definition field_set ::
  "(pyval \<Rightarrow> bool) \<Rightarrow> string \<Rightarrow> field \<Rightarrow> pyval \<Rightarrow> cache_state \<times> (string, pyval) dict \<Rightarrow> exc_class + (cache_state \<times> (string, pyval) dict)" where
  "field_set callable_value key f v s =
     bind_res (field_value callable_value f v) (\<lambda>x.
     Inr (set_cache_for_pipeline_field key (field_name f) x (fst s), dict_set (field_name f) x (snd s)))"

section \<open>Lemmas\<close>

text \<open>A function that behaves as \<open>batched\<close> is documented.\<close>

definition batch_lists :: batcher where
  "batch_lists n xs = (if n < 1 then Inl ValueError else Inr (chunks (nat n) xs))"

lemma batch_lists_ok: "batcher_ok batch_lists"
proof -
  have "0 < n \<Longrightarrow> concat (chunks (nat n) xs) = xs \<and> (\<forall>b \<in> set (chunks (nat n) xs). b \<noteq> [] \<and> length b \<le> nat n)" for n and xs :: "pyval list"
    using concat_chunks[of "nat n" xs] chunks_sizes[of "nat n" _ xs] by simp
  then show ?thesis by (simp add: batcher_ok_def batch_lists_def)
qed

text \<open>After a write the pipeline cache holds one entry for the instance, the field just written.\<close>

lemma set_cache_own_entry:
  "v \<noteq> PNone \<Longrightarrow> (\<forall>coll. dict_get cache key = Some coll \<longrightarrow> \<not> dict_has coll key) \<Longrightarrow>
   dict_get st cf = Some cache \<Longrightarrow>
   dict_get (set_cache key cf fld v st) cf =
     Some (dict_set key [(fld, v)] (if dict_has cache key then dict_set key [] cache else [(key, [])]))"
  by (auto simp: set_cache_def Let_def dict_simps split: option.splits)

end
