(* ===== verification/Pipeline.thy ===== *)
theory Pipeline
  imports Input_Fields Execution_Props
begin

text \<open>
  Pipelines, \<^verbatim>\<open>src/nexus/pipeline.py\<close>: the class statement (\<open>PipelineMeta\<close>), the call
  signature and construction of an instance, \<open>start\<close>, \<open>stop\<close> and \<open>shutdown\<close> over the execution
  contexts, lookups in the task tree and among the contexts, and the tree that is drawn.

  An instance keeps the execution state of its last run (\<open>run\<close>), \<open>None\<close> before the first one. The
  signals a method emits are returned as a list. Identities of tasks are given by \<open>key\<close>, which maps
  a task of the heap to its \<open>id\<close>.
\<close>

section \<open>Classes\<close>

record pipeline_class =
  cls_name :: string
  cls_fields :: "(string, field) dict"
  cls_tasks :: heap
  cls_start :: nat

text \<open>\<open>PipelineMeta.__new__\<close>: the definition is the string in \<open>Meta\<close>, or the content of the file the
  search finds (\<open>None\<close> when there is none; the search itself raises when \<open>Meta\<close> has no path). A syntax error is passed on, every other failure is a
  BadPipelineError.\<close>

definition make_class :: "string \<Rightarrow> (string, field) dict \<Rightarrow> string \<Rightarrow> exc_class + string option \<Rightarrow> exc_class + pipeline_class" where
  "make_class cname flds pointy file =
     bind_res (if pointy \<noteq> [] then Inr pointy else bind_res file (of_option ImproperlyConfigured)) (\<lambda>code.
     case build_pipeline_from_execution_code code of
       Inl e \<Rightarrow> Inl (if is_subclass e SyntaxError then e else BadPipelineError)
     | Inr (r, h) \<Rightarrow>
         Inr \<lparr>cls_name = cname, cls_fields = map (\<lambda>(n, f). (n, set_name n f)) flds, cls_tasks = h, cls_start = r\<rparr>)"

section \<open>Call signatures\<close>

record param =
  prm_name :: string
  prm_default :: "pyval option"

definition field_param :: "string \<times> field \<Rightarrow> param" where
  "field_param nf =
     \<lparr>prm_name = fst nf,
      prm_default = (case default (snd nf) of
                       Some d \<Rightarrow> Some d
                     | None \<Rightarrow> (if required (snd nf) then None else Some PNone))\<rparr>"

text \<open>Parameters without a default come first.\<close>

definition construct_call_signature :: "(string, field) dict \<Rightarrow> param list" where
  "construct_call_signature flds =
     (let ps = map field_param (filter (\<lambda>(n, f). n \<noteq> []) flds)
      in filter (\<lambda>p. prm_default p = None) ps @ filter (\<lambda>p. prm_default p \<noteq> None) ps)"

text \<open>\<open>Signature.bind\<close> for parameters that can be given by position or by keyword: the arguments that
  were given, in the order of the parameters.\<close>

fun bind_signature :: "param list \<Rightarrow> pyval list \<Rightarrow> (string, pyval) dict \<Rightarrow> exc_class + (string, pyval) dict" where
  "bind_signature [] [] kw = (if kw = [] then Inr [] else Inl TypeError)"
| "bind_signature [] (a # as) kw = Inl TypeError"
| "bind_signature (p # ps) (a # as) kw =
     (if dict_has kw (prm_name p) then Inl TypeError
      else bind_res (bind_signature ps as kw) (\<lambda>b. Inr ((prm_name p, a) # b)))"
| "bind_signature (p # ps) [] kw =
     (case dict_get kw (prm_name p) of
        Some v \<Rightarrow> bind_res (bind_signature ps [] (dict_del (prm_name p) kw)) (\<lambda>b. Inr ((prm_name p, v) # b))
      | None \<Rightarrow> (if prm_default p = None then Inl TypeError else bind_signature ps [] kw))"

section \<open>Instances\<close>

record pipeline =
  pipe_id :: string
  pipe_attrs :: "(string, pyval) dict"
  run :: "exec_state option"

datatype pipe_signal = PreInit | PostInit | ExecutionStart | ExecutionEnd | Stopped | ShutDown

definition get_cache_key :: "pipeline_class \<Rightarrow> string \<Rightarrow> string" where
  "get_cache_key cls pid = ''pipeline_'' @ cls_name cls @ ''_'' @ pid"

text \<open>The assignments of \<open>__init__\<close>, one bound argument after the other; the first one a field rejects
  ends the construction.\<close>

fun set_arguments ::
  "(pyval \<Rightarrow> bool) \<Rightarrow> (string, field) dict \<Rightarrow> string \<Rightarrow> (string, pyval) dict \<Rightarrow> cache_state \<times> (string, pyval) dict \<Rightarrow>
   exc_class option \<times> cache_state \<times> (string, pyval) dict" where
  "set_arguments cv flds key [] s = (None, s)"
| "set_arguments cv flds key ((n, v) # rest) s =
     (case (case dict_get flds n of
              Some f \<Rightarrow> field_set cv key f v s
            | None \<Rightarrow> Inr (fst s, dict_set n v (snd s))) of
        Inl e \<Rightarrow> (Some e, s)
      | Inr s' \<Rightarrow> set_arguments cv flds key rest s')"

definition pipeline_init ::
  "(pyval \<Rightarrow> bool) \<Rightarrow> pipeline_class \<Rightarrow> string \<Rightarrow> pyval list \<Rightarrow> (string, pyval) dict \<Rightarrow> cache_state \<Rightarrow>
   (exc_class + pipeline) \<times> cache_state \<times> pipe_signal list" where
  "pipeline_init cv cls pid as kw cache =
     (case bind_signature (construct_call_signature (cls_fields cls)) as kw of
        Inl e \<Rightarrow> (Inl e, cache, [PreInit])
      | Inr bound \<Rightarrow>
          (case set_arguments cv (cls_fields cls) (get_cache_key cls pid) bound (cache, []) of
             (Some e, cache', attrs) \<Rightarrow> (Inl e, cache', [PreInit])
           | (None, cache', attrs) \<Rightarrow>
               (Inr \<lparr>pipe_id = pid, pipe_attrs = attrs, run = None\<rparr>, cache', [PreInit, PostInit])))"

text \<open>\<open>load_class_by_id\<close> builds an instance from what the cache gives and then sets its identity.\<close>

definition load_class_by_id ::
  "(pyval \<Rightarrow> bool) \<Rightarrow> pipeline_class \<Rightarrow> string \<Rightarrow> string \<Rightarrow> cache_state \<Rightarrow> exc_class + pipeline" where
  "load_class_by_id cv cls pk new_id cache =
     bind_res (restored_kwargs pk cache) (\<lambda>kw.
     bind_res (fst (pipeline_init cv cls new_id [] kw cache)) (\<lambda>p.
     Inr (if check_cache_exists pk cache = [] then p else p\<lparr>pipe_id := pk\<rparr>)))"

section \<open>Running\<close>

definition latest_context :: "exec_state \<Rightarrow> nat option" where
  "latest_context st = (case root_context st of None \<Rightarrow> None | Some c \<Rightarrow> get_latest_execution_context (contexts st) c)"

definition final_signal :: "exec_state \<Rightarrow> pipe_signal" where
  "final_signal st =
     (case latest_context st of
        None \<Rightarrow> ExecutionEnd
      | Some l \<Rightarrow>
          (if ctx_state (contexts st ! l) = CANCELLED then Stopped
           else if ctx_state (contexts st ! l) = ABORTED then ShutDown
           else ExecutionEnd))"

text \<open>\<open>start\<close>. \<open>None\<close>: the fuel ran out; \<open>Inl\<close>: an exception leaves the call, with the signals emitted so
  far.\<close>

definition started :: "pipeline \<Rightarrow> bool" where
  "started p \<longleftrightarrow> (case run p of None \<Rightarrow> False | Some st \<Rightarrow> root_context st \<noteq> None)"

definition start ::
  "nat \<Rightarrow> exec_env \<Rightarrow> pipeline_class \<Rightarrow> bool \<Rightarrow> pipeline \<Rightarrow> ((pyval + pipeline) \<times> pipe_signal list) option" where
  "start fuel env cls force p =
     (if started p \<and> \<not> force then Some (Inl (PExc EventDone []), [ExecutionStart])
      else (case execute_task fuel env (cls_tasks cls) (Some (cls_start cls)) None init_exec of
              None \<Rightarrow> None
            | Some (Inl x) \<Rightarrow> Some (Inl x, [ExecutionStart])
            | Some (Inr st) \<Rightarrow> Some (Inr (p\<lparr>run := Some st\<rparr>), [ExecutionStart, final_signal st])))"

definition on_latest :: "(exec_ctx \<Rightarrow> exec_ctx) \<Rightarrow> (nat \<Rightarrow> exec_signal) \<Rightarrow> pipeline \<Rightarrow> pipeline" where
  "on_latest f sg p =
     (case run p of
        None \<Rightarrow> p
      | Some st \<Rightarrow>
          (case latest_context st of
             None \<Rightarrow> p
           | Some l \<Rightarrow> p\<lparr>run := Some (st\<lparr>contexts := (contexts st)[l := f (contexts st ! l)], signals := signals st @ [sg l]\<rparr>)\<rparr>))"

definition shutdown :: "pipeline \<Rightarrow> pipeline \<times> pipe_signal list" where
  "shutdown p = (if started p then (on_latest abort SigAborted p, [ShutDown]) else (p, []))"

definition stop :: "pipeline \<Rightarrow> pipeline \<times> pipe_signal list" where
  "stop p = (if started p then (on_latest cancel SigCancelled p, [Stopped]) else (p, []))"

section \<open>Lookups\<close>

definition get_task_by_id :: "(nat \<Rightarrow> string) \<Rightarrow> pipeline_class \<Rightarrow> string \<Rightarrow> (exc_class + nat) option" where
  "get_task_by_id key cls pk =
     (case bf_traversal (cls_tasks cls) (cls_start cls) of
        None \<Rightarrow> None
      | Some ts \<Rightarrow> Some (of_option EventDoesNotExist (find (\<lambda>t. key t = pk) ts)))"

text \<open>The walk along \<open>next_context\<close> that stops at the first failed context, with the number of contexts
  as fuel.\<close>

fun first_error_fuel :: "nat \<Rightarrow> exec_env \<Rightarrow> heap \<Rightarrow> exec_ctx list \<Rightarrow> nat option \<Rightarrow> (pyval + nat option) option" where
  "first_error_fuel k env h cs None = Some (Inr None)"
| "first_error_fuel 0 env h cs (Some c) = None"
| "first_error_fuel (Suc k) env h cs (Some c) =
     (case execution_failed env h (cs ! c) of
        Inl x \<Rightarrow> Some (Inl x)
      | Inr True \<Rightarrow> Some (Inr (Some c))
      | Inr False \<Rightarrow> first_error_fuel k env h cs (next_context (cs ! c)))"

definition get_first_error_execution_node :: "exec_env \<Rightarrow> pipeline_class \<Rightarrow> pipeline \<Rightarrow> (pyval + nat option) option" where
  "get_first_error_execution_node env cls p =
     (case run p of
        None \<Rightarrow> Some (Inr None)
      | Some st \<Rightarrow> first_error_fuel (Suc (length (contexts st))) env (cls_tasks cls) (contexts st) (root_context st))"

section \<open>The drawn tree\<close>

record tree_node =
  nd_tag :: string
  nd_id :: string
  nd_parent :: "string option"
  nd_pointer :: "pointer option"

definition node_tag :: "heap \<Rightarrow> nat \<Rightarrow> string" where
  "node_tag h n =
     (let t1 = (if is_conditional (h ! n) then '' (?)'' else '''');
          t2 = (if is_descriptor_task (h ! n) then (if descriptor (h ! n) = Some 0 then '' (No)'' else '' (Yes)'') else t1)
      in if is_sink h n then '' (Sink)'' else t2)"

definition draw_node :: "(nat \<Rightarrow> string) \<Rightarrow> heap \<Rightarrow> nat \<Rightarrow> tree_node" where
  "draw_node key h n =
     \<lparr>nd_tag = event (h ! n) @ node_tag h n, nd_id = key n, nd_parent = map_option key (parent_node (h ! n)),
      nd_pointer = get_pointer_type_to_this_event h n\<rparr>"

text \<open>The calls of \<open>Tree.create_node\<close>, in order.\<close>

definition get_pipeline_tree :: "(nat \<Rightarrow> string) \<Rightarrow> pipeline_class \<Rightarrow> tree_node list option" where
  "get_pipeline_tree key cls =
     map_option (map (draw_node key (cls_tasks cls))) (bf_traversal (cls_tasks cls) (cls_start cls))"

end
