(* ===== verification/Pipeline_Props.thy ===== *)
theory Pipeline_Props
  imports Pipeline
begin

text \<open>
  Properties of pipelines: what \<open>start\<close> does in every case, how arguments reach the fields, that
  tasks are found and the tree can be drawn, and what the cache of field values keeps.
\<close>

section \<open>The root context of a run\<close>

definition root_ok :: "exec_state \<Rightarrow> bool" where
  "root_ok st \<longleftrightarrow> (contexts st = [] \<or> (\<exists>c < length (contexts st). root_context st = Some c))"

lemma open_context_root:
  "root_ok st \<Longrightarrow> prev_ok prev st \<Longrightarrow> root_ok (open_context h prev n tasks st)"
  by (cases prev) (auto simp: root_ok_def prev_ok_def open_context_def Let_def less_SucI)

interpretation roots: run_invariant root_ok env h for env h
proof unfold_locales
  fix st prev n tasks l st2 sw
  assume a: "root_ok st" "prev_ok prev st"
  note o = open_context_root[OF a, of h n tasks]
  show "root_ok (abort_context (length (contexts st)) (open_context h prev n tasks st))"
    using o by (simp add: root_ok_def abort_context_def)
  assume "run_dispatch env h (length (contexts st)) (open_context h prev n tasks st) = (st2, sw)"
  then show "root_ok st2" using o by (auto simp: root_ok_def run_dispatch_def split: prod.splits)
qed (simp add: root_ok_def)

lemma execute_task_opens:
  assumes "execute_task k env h (Some t) None init_exec = Some (Inr st)"
  shows "contexts st \<noteq> []"
proof (cases k)
  case 0
  with assms show ?thesis by simp
next
  case (Suc k')
  let ?st1 = "open_context h None t [t] init_exec"
  have ct: "context_tasks env h None t = Some ([t], Some t)" by (simp add: context_tasks_def)
  obtain st2 sw where d: "run_dispatch env h 0 ?st1 = (st2, sw)" by (cases "run_dispatch env h 0 ?st1")
  have i: "contexts init_exec = []" by (simp add: init_exec_def)
  have J: "root_ok init_exec" "prev_ok None init_exec" by (simp_all add: root_ok_def prev_ok_def init_exec_def)
  have "contexts st2 = [contexts st2 ! 0] \<and> root_ok st2"
    using roots.dispatched[OF J ct, unfolded i] d by (auto simp: run_dispatch_def open_context_def init_exec_def split: prod.splits)
  then have J2: "root_ok st2" "length (contexts st2) = 1" by (auto dest: arg_cong[of _ _ length])
  show ?thesis
  proof (cases "st = st2")
    case True
    then show ?thesis using J2(2) by auto
  next
    case False
    with assms Suc ct d i obtain nxt prev' where y:
        "next_step env h None 0 t (contexts st2 ! 0) sw = Inr (nxt, prev')" "execute_task k' env h nxt prev' st2 = Some (Inr st)"
      by (auto simp: Let_def split: if_splits sum.splits prod.splits)
    have "prev_ok prev' st2" using next_step_succ[OF y(1)] J2(2) by (auto simp: prev_ok_def)
    from roots.run(1)[OF J2(1) this y(2)] J2(2) show ?thesis by auto
  qed
qed

lemma run_root:
  assumes "execute_task k env h (Some t) None init_exec = Some (Inr st)"
  shows "\<exists>c l. root_context st = Some c \<and> c < length (contexts st) \<and> latest_context st = Some l \<and> l < length (contexts st)"
proof -
  have "root_ok init_exec" "prev_ok None init_exec" by (simp_all add: root_ok_def prev_ok_def init_exec_def)
  from roots.run(1)[OF this assms] execute_task_opens[OF assms] obtain c where
    c: "c < length (contexts st)" "root_context st = Some c" by (auto simp: root_ok_def)
  with walks_ok[OF run_links[OF assms] c(1)] show ?thesis by (auto simp: latest_context_def)
qed

lemma make_class_build:
  assumes "make_class cname flds pointy file = Inr cls"
  shows "\<exists>code. build_pipeline_from_execution_code code = Inr (cls_start cls, cls_tasks cls)"
proof -
  from assms obtain code where
    "(case build_pipeline_from_execution_code code of
       Inl e \<Rightarrow> Inl (if is_subclass e SyntaxError then e else BadPipelineError)
     | Inr (r, h) \<Rightarrow>
         Inr \<lparr>cls_name = cname, cls_fields = map (\<lambda>(n, f). (n, set_name n f)) flds, cls_tasks = h, cls_start = r\<rparr>) = Inr cls"
    unfolding make_class_def bind_res_Inr_iff by blast
  then have "build_pipeline_from_execution_code code = Inr (cls_start cls, cls_tasks cls)"
    by (cases "build_pipeline_from_execution_code code") auto
  then show ?thesis by blast
qed

section \<open>Parents come first\<close>

fun parents_first :: "heap \<Rightarrow> nat set \<Rightarrow> nat list \<Rightarrow> bool" where
  "parents_first h seen [] = True"
| "parents_first h seen (x # xs) = ((\<exists>p \<in> seen. parent_node (h ! x) = Some p) \<and> parents_first h (insert x seen) xs)"

lemma parents_first_append: "parents_first h seen (xs @ ys) \<longleftrightarrow> parents_first h seen xs \<and> parents_first h (seen \<union> set xs) ys"
  by (induction xs arbitrary: seen) (auto simp: insert_commute)

lemma parents_first_mono: "parents_first h seen xs \<Longrightarrow> seen \<subseteq> seen' \<Longrightarrow> parents_first h seen' xs"
proof (induction xs arbitrary: seen seen')
  case (Cons x xs)
  then show ?case using Cons.IH[of "insert x seen" "insert x seen'"] by auto
qed simp

lemma parents_first_ids: "repr h (Some p) t \<Longrightarrow> p \<in> seen \<Longrightarrow> parents_first h seen (ids t)"
proof (induction h "Some p" t arbitrary: p seen rule: repr.induct)
  case (1 h i ts)
  have "\<forall>t \<in> set us. parents_first h seen' (ids t)" if "set us \<subseteq> set ts" "i \<in> seen'" for us seen'
    using that 1 by auto
  then have "parents_first h seen' (ids_list us)" if "set us \<subseteq> set ts" "i \<in> seen'" for us seen'
    using that by (induction us arbitrary: seen') (auto simp: parents_first_append)
  then show ?case using 1(2,3) by auto
qed

lemma parents_first_nth:
  "parents_first h seen xs \<Longrightarrow> i < length xs \<Longrightarrow> \<exists>p. parent_node (h ! (xs ! i)) = Some p \<and> p \<in> seen \<union> set (take i xs)"
proof (induction xs arbitrary: seen i)
  case (Cons x xs)
  show ?case
  proof (cases i)
    case 0
    then show ?thesis using Cons.prems(1) by auto
  next
    case (Suc j)
    then show ?thesis using Cons.IH[of "insert x seen" j] Cons.prems by auto
  qed
qed simp

lemma find_self: "x \<in> set xs \<Longrightarrow> find (\<lambda>u. u = x) xs = Some x"
  by (induction xs) auto

section \<open>Binding\<close>

lemma dict_get_del_other: "dict_get (dict_del k d) n = (if n = k then None else dict_get d n)"
  by (simp add: dict_simps)

lemma bind_keywords:
  assumes "distinct (map prm_name ps)" and "dict_ok kw"
  shows "if (\<forall>p \<in> set ps. prm_default p = None \<longrightarrow> dict_has kw (prm_name p)) \<and> set (dict_keys kw) \<subseteq> set (map prm_name ps)
    then \<exists>b. bind_signature ps [] kw = Inr b \<and> (\<forall>n. dict_get b n = dict_get kw n)
    else bind_signature ps [] kw = Inl TypeError"
  using assms
proof (induction ps arbitrary: kw)
  case Nil
  then show ?case by (cases kw) auto
next
  case (Cons p ps)
  have ps: "distinct (map prm_name ps)" "prm_name p \<notin> set (map prm_name ps)" using Cons.prems(1) by simp_all
  show ?case
  proof (cases "dict_get kw (prm_name p)")
    case None
    then have n: "prm_name p \<notin> set (dict_keys kw)" "\<not> dict_has kw (prm_name p)" by (simp_all add: map_of_eq_None_iff dict_has_get)
    show ?thesis
    proof (cases "prm_default p = None")
      case True
      with None n show ?thesis by auto
    next
      case False
      have "set (dict_keys kw) \<subseteq> set (map prm_name (p # ps)) \<longleftrightarrow> set (dict_keys kw) \<subseteq> set (map prm_name ps)" using n(1)
        by (auto simp del: set_map)
      moreover obtain y where "prm_default p = Some y" using False by blast
      ultimately show ?thesis using Cons.IH[OF ps(1) Cons.prems(2)] None by (simp del: set_map)
    qed
  next
    case (Some v)
    let ?kw = "dict_del (prm_name p) kw"
    have has: "dict_has kw (prm_name p)" using Some by (simp add: dict_has_get)
    have keys: "set (dict_keys ?kw) = set (dict_keys kw) - {prm_name p}" by (simp add: delete_keys)
    have ok: "dict_ok ?kw" using Cons.prems(2) by simp
    have has': "dict_has ?kw (prm_name q) \<longleftrightarrow> dict_has kw (prm_name q)" if "q \<in> set ps" for q
    proof -
      have "prm_name q \<noteq> prm_name p" using that ps(2) by (metis image_eqI set_map)
      then show ?thesis by (simp add: dict_has_get dict_get_del_other)
    qed
    have iff: "((\<forall>q \<in> set ps. prm_default q = None \<longrightarrow> dict_has ?kw (prm_name q)) \<and> set (dict_keys ?kw) \<subseteq> set (map prm_name ps)) \<longleftrightarrow>
      ((\<forall>q \<in> set (p # ps). prm_default q = None \<longrightarrow> dict_has kw (prm_name q)) \<and> set (dict_keys kw) \<subseteq> set (map prm_name (p # ps)))"
      using has has' keys by (auto simp del: set_map)
    show ?thesis using Cons.IH[OF ps(1) ok] unfolding iff using Some
      by (auto simp: res_simps dict_get_del_other split: if_splits)
  qed
qed

lemma bind_all:
  assumes "distinct (map prm_name ps)" and "dict_ok kw"
  shows "if length as \<le> length ps \<and> (\<forall>p \<in> set (take (length as) ps). \<not> dict_has kw (prm_name p)) \<and>
      (\<forall>p \<in> set (drop (length as) ps). prm_default p = None \<longrightarrow> dict_has kw (prm_name p)) \<and>
      set (dict_keys kw) \<subseteq> set (map prm_name ps)
    then \<exists>b. bind_signature ps as kw = Inr b \<and>
      (\<forall>i < length as. dict_get b (prm_name (ps ! i)) = Some (as ! i)) \<and>
      (\<forall>n. n \<notin> set (map prm_name (take (length as) ps)) \<longrightarrow> dict_get b n = dict_get kw n)
    else bind_signature ps as kw = Inl TypeError"
  using assms
proof (induction as arbitrary: ps)
  case Nil
  then show ?case using bind_keywords[OF Nil.prems] by (auto split: if_splits)
next
  case (Cons a as)
  show ?case
  proof (cases ps)
    case Nil
    then show ?thesis by simp
  next
    case ps: (Cons p qs)
    have d: "distinct (map prm_name qs)" "prm_name p \<notin> set (map prm_name qs)" using Cons.prems(1) ps by simp_all
    show ?thesis
    proof (cases "dict_has kw (prm_name p)")
      case True
      then show ?thesis using ps by simp
    next
      case False
      then have sub: "set (dict_keys kw) \<subseteq> set (map prm_name (p # qs)) \<longleftrightarrow> set (dict_keys kw) \<subseteq> set (map prm_name qs)"
        by (auto simp: dict_has_def simp del: set_map)
      let ?ok = "length as \<le> length qs \<and> (\<forall>p \<in> set (take (length as) qs). \<not> dict_has kw (prm_name p)) \<and>
        (\<forall>p \<in> set (drop (length as) qs). prm_default p = None \<longrightarrow> dict_has kw (prm_name p)) \<and>
        set (dict_keys kw) \<subseteq> set (map prm_name qs)"
      note IH = Cons.IH[OF d(1) Cons.prems(2)]
      show ?thesis
      proof (cases ?ok)
        case True
        with IH obtain b where b: "bind_signature qs as kw = Inr b" "\<forall>i < length as. dict_get b (prm_name (qs ! i)) = Some (as ! i)"
          "\<forall>n. n \<notin> set (map prm_name (take (length as) qs)) \<longrightarrow> dict_get b n = dict_get kw n" by (auto simp del: set_map)
        have "prm_name (qs ! i) \<noteq> prm_name p" if "i < length as" for i
        proof -
          have "qs ! i \<in> set qs" using that True by simp
          then show ?thesis using d(2) by (metis image_eqI set_map)
        qed
        then have "\<forall>i < length (a # as). dict_get ((prm_name p, a) # b) (prm_name ((p # qs) ! i)) = Some ((a # as) ! i)"
          using b(2) by (auto simp: nth_Cons split: nat.splits)
        then show ?thesis using True False ps sub b(1,3) by (auto simp del: set_map)
      next
        case False': False
        then show ?thesis using IH False ps sub by (auto simp del: set_map)
      qed
    qed
  qed
qed

lemma distinct_partition:
  "distinct (map f xs) \<Longrightarrow> distinct (map f (filter (\<lambda>x. P x = None) xs @ filter (\<lambda>x. P x \<noteq> None) xs))"
  by (induction xs) auto

lemma signature_names:
  assumes "dict_ok flds"
  shows "distinct (map prm_name (construct_call_signature flds))"
proof -
  have "distinct (map prm_name (map field_param (filter (\<lambda>(n, f). n \<noteq> []) flds)))"
    using assms by (simp add: dict_ok_def comp_def field_param_def distinct_map_filter)
  from distinct_partition[OF this] show ?thesis by (simp add: construct_call_signature_def Let_def)
qed

text \<open>When arguments fit a signature, and the value a parameter gets.\<close>

definition arguments_fit :: "param list \<Rightarrow> pyval list \<Rightarrow> (string, pyval) dict \<Rightarrow> bool" where
  "arguments_fit ps as kw \<longleftrightarrow>
     length as \<le> length ps \<and> (\<forall>p \<in> set (take (length as) ps). \<not> dict_has kw (prm_name p)) \<and>
     (\<forall>p \<in> set (drop (length as) ps). prm_default p = None \<longrightarrow> dict_has kw (prm_name p)) \<and>
     set (dict_keys kw) \<subseteq> set (map prm_name ps)"

definition given_argument :: "param list \<Rightarrow> pyval list \<Rightarrow> (string, pyval) dict \<Rightarrow> string \<Rightarrow> pyval option" where
  "given_argument ps as kw n =
     (case dict_get (zip (map prm_name ps) as) n of Some v \<Rightarrow> Some v | None \<Rightarrow> dict_get kw n)"

lemma bind_fits:
  assumes "distinct (map prm_name ps)" and "dict_ok kw"
  shows "if arguments_fit ps as kw
    then \<exists>b. bind_signature ps as kw = Inr b \<and> (\<forall>n. dict_get b n = given_argument ps as kw n)
    else bind_signature ps as kw = Inl TypeError"
proof (cases "arguments_fit ps as kw")
  case True
  then have len: "length as \<le> length ps" by (simp add: arguments_fit_def)
  obtain b where b: "bind_signature ps as kw = Inr b" "\<forall>i < length as. dict_get b (prm_name (ps ! i)) = Some (as ! i)"
    "\<forall>n. n \<notin> set (map prm_name (take (length as) ps)) \<longrightarrow> dict_get b n = dict_get kw n"
    using bind_all[OF assms, of as] True unfolding arguments_fit_def by (auto simp del: set_map)
  have "dict_get b n = given_argument ps as kw n" for n
  proof (cases "dict_get (zip (map prm_name ps) as) n")
    case None
    then have "n \<notin> set (take (length as) (map prm_name ps))" using len by (simp add: map_of_eq_None_iff map_fst_zip_take min_absorb2 flip: set_map)
    then show ?thesis using b(3) None by (simp add: given_argument_def take_map del: set_map)
  next
    case (Some v)
    then obtain i where "i < length as" "n = map prm_name ps ! i" "v = as ! i"
      by (auto dest!: map_of_SomeD simp: in_set_zip)
    then show ?thesis using b(2) Some len by (simp add: given_argument_def)
  qed
  then show ?thesis using True b(1) by auto
next
  case False
  then show ?thesis using bind_all[OF assms, of as] unfolding arguments_fit_def[symmetric] by simp
qed

lemma bind_keys:
  "bind_signature ps as kw = Inr b \<Longrightarrow> distinct (map prm_name ps) \<Longrightarrow>
   dict_ok b \<and> set (dict_keys b) \<subseteq> set (map prm_name ps)"
proof (induction ps as kw arbitrary: b rule: bind_signature.induct)
  case (3 p ps a as kw)
  then obtain b' where "bind_signature ps as kw = Inr b'" "b = (prm_name p, a) # b'" "\<not> dict_has kw (prm_name p)"
    by (auto simp: res_simps split: if_splits)
  with 3 show ?case by (auto simp: dict_ok_def)
next
  case (4 p ps kw)
  show ?case
  proof (cases "dict_get kw (prm_name p)")
    case None
    with 4 show ?thesis by (auto split: if_splits)
  next
    case (Some v)
    with 4(3) obtain b' where "bind_signature ps [] (dict_del (prm_name p) kw) = Inr b'" "b = (prm_name p, v) # b'"
      by (auto simp: res_simps)
    with 4(2)[OF Some] 4(4) show ?thesis by (auto simp: dict_ok_def)
  qed
qed (auto split: if_splits)

lemma set_arguments_fields:
  assumes "dict_ok b" and "\<forall>n \<in> set (dict_keys b). \<exists>f. dict_get flds n = Some f \<and> field_name f = n"
    and "set_arguments cv flds key b s = (r, cache', attrs)"
  shows "case r of
      Some e \<Rightarrow> (\<exists>n f v. dict_get b n = Some v \<and> dict_get flds n = Some f \<and> field_value cv f v = Inl e)
    | None \<Rightarrow> (\<forall>n. case dict_get b n of
          None \<Rightarrow> dict_get attrs n = dict_get (snd s) n
        | Some v \<Rightarrow> (\<exists>f x. dict_get flds n = Some f \<and> field_value cv f v = Inr x \<and> dict_get attrs n = Some x))"
  using assms
proof (induction b arbitrary: s)
  case Nil
  then show ?case by (cases r) auto
next
  case (Cons nv b)
  obtain n v where nv: "nv = (n, v)" by (cases nv)
  obtain f where f: "dict_get flds n = Some f" "field_name f = n" using Cons.prems(2) nv by auto
  have n: "n \<notin> set (dict_keys b)" "dict_ok b" using Cons.prems(1) nv by (auto simp: dict_ok_def)
  show ?case
  proof (cases "field_value cv f v")
    case (Inl e)
    then have "r = Some e" using Cons.prems(3) nv f(1) by (simp add: field_set_def)
    then show ?thesis using Inl f(1) nv by auto
  next
    case (Inr x)
    let ?s = "(set_cache_for_pipeline_field key (field_name f) x (fst s), dict_set (field_name f) x (snd s))"
    have run: "set_arguments cv flds key b ?s = (r, cache', attrs)" using Cons.prems(3) nv f(1) Inr by (simp add: field_set_def)
    have ih: "case r of
        Some e \<Rightarrow> (\<exists>n f v. dict_get b n = Some v \<and> dict_get flds n = Some f \<and> field_value cv f v = Inl e)
      | None \<Rightarrow> (\<forall>n. case dict_get b n of
            None \<Rightarrow> dict_get attrs n = dict_get (snd ?s) n
          | Some v \<Rightarrow> (\<exists>f x. dict_get flds n = Some f \<and> field_value cv f v = Inr x \<and> dict_get attrs n = Some x))"
      by (rule Cons.IH[OF n(2) _ run]) (use Cons.prems(2) in auto)
    have none: "dict_get b n = None" using n(1) by (simp add: map_of_eq_None_iff)
    show ?thesis
    proof (cases r)
      case None
      have "dict_get attrs n = Some x" using ih None none f(2) by (auto simp: dict_simps dest!: spec[of _ n])
      moreover have "case dict_get b m of
            None \<Rightarrow> dict_get attrs m = dict_get (snd s) m
          | Some v \<Rightarrow> (\<exists>f x. dict_get flds m = Some f \<and> field_value cv f v = Inr x \<and> dict_get attrs m = Some x)" if "m \<noteq> n" for m
        using ih None f(2) that by (auto simp: dict_simps dest!: spec[of _ m] split: option.splits)
      ultimately show ?thesis using None nv f(1) Inr none by auto
    next
      case (Some e)
      then show ?thesis using ih nv none by (auto split: if_splits) (metis option.distinct(1))
    qed
  qed
qed

lemma signature_fields:
  assumes "p \<in> set (construct_call_signature flds)"
  shows "\<exists>f. (prm_name p, f) \<in> set flds"
  using assms by (auto simp: construct_call_signature_def Let_def field_param_def)

section \<open>The cache\<close>

text \<open>A write: the instance, the field and the value.\<close>

definition write_cache :: "cache_state \<Rightarrow> string \<times> string \<times> pyval \<Rightarrow> cache_state" where
  "write_cache st w = (case w of (key, fld, v) \<Rightarrow> set_cache_for_pipeline_field key fld v st)"

lemma write_cache_single:
  assumes "v \<noteq> PNone" and "f0 \<noteq> k0 \<or> k0 \<noteq> key"
  shows "write_cache [(''pipeline_cache'', [(k0, [(f0, v0)])])] (key, fld, v) = [(''pipeline_cache'', [(key, [(fld, v)])])]"
  using assms by (auto simp: write_cache_def set_cache_for_pipeline_field_def set_cache_def dict_has_def Let_def)

lemma write_cache_first: "v \<noteq> PNone \<Longrightarrow> write_cache [] (key, fld, v) = [(''pipeline_cache'', [(key, [(fld, v)])])]"
  by (simp add: write_cache_def set_cache_for_pipeline_field_def set_cache_def Let_def)

lemma write_cache_None: "write_cache st (key, fld, PNone) = st"
  by (simp add: write_cache_def set_cache_for_pipeline_field_def set_cache_def)

lemma writes_keep_last:
  assumes "\<forall>(key, fld, v) \<in> set ws. fld \<noteq> key"
  shows "foldl write_cache [] ws =
    (let ws' = filter (\<lambda>(key, fld, v). v \<noteq> PNone) ws
     in if ws' = [] then [] else case last ws' of (key, fld, v) \<Rightarrow> [(''pipeline_cache'', [(key, [(fld, v)])])])"
  using assms
proof (induction ws rule: rev_induct)
  case (snoc w ws)
  obtain key fld v where w: "w = (key, fld, v)" by (cases w)
  let ?f = "filter (\<lambda>(key, fld, v). v \<noteq> PNone) ws"
  have IH: "foldl write_cache [] ws = (let ws' = ?f
     in if ws' = [] then [] else case last ws' of (key, fld, v) \<Rightarrow> [(''pipeline_cache'', [(key, [(fld, v)])])])"
    by (rule snoc.IH) (use snoc.prems in auto)
  show ?case
  proof (cases "v = PNone")
    case True
    then show ?thesis using IH w by (simp add: write_cache_None)
  next
    case False
    show ?thesis
    proof (cases ?f)
      case Nil
      then have "foldl write_cache [] ws = []" using IH by simp
      then show ?thesis using w False Nil write_cache_first[OF False] by simp
    next
      case (Cons x xs)
      obtain k0 f0 v0 where l: "last ?f = (k0, f0, v0)" by (cases "last ?f")
      have "last ?f \<in> set ?f" by (rule last_in_set) (simp add: Cons)
      then have "f0 \<noteq> k0" using l snoc.prems by auto
      then have "write_cache [(''pipeline_cache'', [(k0, [(f0, v0)])])] (key, fld, v) = [(''pipeline_cache'', [(key, [(fld, v)])])]"
        using False by (intro write_cache_single) auto
      moreover have "foldl write_cache [] ws = [(''pipeline_cache'', [(k0, [(f0, v0)])])]" using IH Cons l by simp
      ultimately show ?thesis using w False by simp
    qed
  qed
qed simp

section \<open>Properties\<close>

text \<open>C24. \<open>start\<close> returns for every built pipeline, whatever the events do. A pipeline that has run
  is refused with EventDone unless the run is forced. Otherwise either an exception leaves the call,
  and only the start was signalled; or the run has a latest context, exactly one closing signal
  follows, the one its state calls for, and the next unforced start is refused.\<close>

theorem pipeline_start:
  assumes "make_class cname flds pointy file = Inr cls" and "fair_env env" and "3 * length (cls_tasks cls) \<le> fuel"
  shows "if started p \<and> \<not> force
    then start fuel env cls force p = Some (Inl (PExc EventDone []), [ExecutionStart])
    else (\<exists>x. start fuel env cls force p = Some (Inl x, [ExecutionStart])) \<or>
      (\<exists>st l sg. start fuel env cls force p = Some (Inr (p\<lparr>run := Some st\<rparr>), [ExecutionStart, sg]) \<and>
        latest_context st = Some l \<and> l < length (contexts st) \<and>
        (sg = Stopped \<longleftrightarrow> ctx_state (contexts st ! l) = CANCELLED) \<and>
        (sg = ShutDown \<longleftrightarrow> ctx_state (contexts st ! l) = ABORTED) \<and>
        (sg = ExecutionEnd \<longleftrightarrow> ctx_state (contexts st ! l) \<notin> {CANCELLED, ABORTED}) \<and>
        (\<forall>fuel' env'. start fuel' env' cls False (p\<lparr>run := Some st\<rparr>) = Some (Inl (PExc EventDone []), [ExecutionStart])))"
proof (cases "started p \<and> \<not> force")
  case True
  then show ?thesis by (simp add: start_def)
next
  case False
  obtain code where code: "build_pipeline_from_execution_code code = Inr (cls_start cls, cls_tasks cls)"
    using make_class_build[OF assms(1)] by blast
  obtain res where res: "execute_task fuel env (cls_tasks cls) (Some (cls_start cls)) None init_exec = Some res"
    using run_total[OF code assms(2,3)] by blast
  show ?thesis
  proof (cases res)
    case (Inl x)
    then show ?thesis using False res by (simp add: start_def)
  next
    case (Inr st)
    obtain c l where l: "root_context st = Some c" "latest_context st = Some l" "l < length (contexts st)"
      using run_root[OF res[unfolded Inr]] by blast
    have "start fuel env cls force p = Some (Inr (p\<lparr>run := Some st\<rparr>), [ExecutionStart, final_signal st])"
      using False res Inr by (simp add: start_def)
    moreover have "started (p\<lparr>run := Some st\<rparr>)" using l(1) by (simp add: started_def)
    ultimately show ?thesis using l False by (auto simp: final_signal_def start_def)
  qed
qed

definition demo_pipe :: pipeline where
  "demo_pipe = \<lparr>pipe_id = ''p1'', pipe_attrs = [], run = None\<rparr>"

theorem pipeline_start_witness:
  "\<exists>cls. make_class ''Demo'' [] ''A->B'' (Inr None) = Inr cls \<and>
     (\<exists>r sgs. start (3 * length (cls_tasks cls)) (demo_env (\<lambda>_. False)) cls False demo_pipe = Some (r, ExecutionStart # sgs))"
proof -
  have "case make_class ''Demo'' [] ''A->B'' (Inr None) of Inl e \<Rightarrow> False | Inr c \<Rightarrow> True" by code_simp
  then obtain cls where c: "make_class ''Demo'' [] ''A->B'' (Inr None) = Inr cls" by (auto split: sum.splits)
  have "\<not> started demo_pipe" by (simp add: started_def demo_pipe_def)
  with pipeline_start[OF c fair_demo_env[of "\<lambda>_. False"] order_refl, of demo_pipe False] c
  show ?thesis by auto
qed

text \<open>Looking up a task by its identity finds every task of the pipeline and raises
  EventDoesNotExist for any other identity. The calls that draw the tree are ones a tree accepts:
  no identity twice, the first node without parent, and every other node after its parent.\<close>

lemma pipeline_lookup:
  assumes "make_class cname flds pointy file = Inr cls" and "inj key"
  shows "\<exists>ts ns. bf_traversal (cls_tasks cls) (cls_start cls) = Some ts \<and>
    (\<forall>t \<in> set ts. get_task_by_id key cls (key t) = Some (Inr t)) \<and>
    (\<forall>pk. pk \<notin> key ` set ts \<longrightarrow> get_task_by_id key cls pk = Some (Inl EventDoesNotExist)) \<and>
    get_pipeline_tree key cls = Some ns \<and> map nd_id ns = map key ts \<and> distinct (map nd_id ns) \<and>
    ns \<noteq> [] \<and> nd_parent (hd ns) = None \<and>
    (\<forall>i. 0 < i \<and> i < length ns \<longrightarrow> (\<exists>j < i. nd_parent (ns ! i) = Some (nd_id (ns ! j))))"
proof -
  obtain code where code: "build_pipeline_from_execution_code code = Inr (cls_start cls, cls_tasks cls)"
    using make_class_build[OF assms(1)] by blast
  obtain t where t: "tid t = cls_start cls" "task_tree 0 (cls_tasks cls) t" using build_task_tree[OF code] by blast
  let ?h = "cls_tasks cls"
  have rp: "repr ?h None t" "distinct (ids t)" using t(2) by (auto simp: task_tree_def)
  have bf: "bf_traversal ?h (cls_start cls) = Some (ids t)" using bf_traversal_tree[OF rp] t(1) by simp
  obtain us where us: "t = TNode (cls_start cls) us" using t(1) by (cases t) auto
  have "parents_first ?h {cls_start cls} (ids_list us)"
  proof -
    have "set ws \<subseteq> set us \<Longrightarrow> cls_start cls \<in> seen \<Longrightarrow> parents_first ?h seen (ids_list ws)" for ws seen
      using rp(1) us by (induction ws arbitrary: seen) (auto simp: parents_first_append intro!: parents_first_ids)
    then show ?thesis by simp
  qed
  note pf = parents_first_nth[OF this]
  let ?ns = "map (draw_node key ?h) (ids t)"
  have par: "\<exists>j < i. nd_parent (?ns ! i) = Some (nd_id (?ns ! j))" if i: "0 < i" "i < length ?ns" for i
  proof -
    obtain i' where i': "i = Suc i'" "i' < length (ids_list us)" using i us by (cases i) auto
    obtain q where q: "parent_node (?h ! (ids t ! i)) = Some q" "q \<in> {cls_start cls} \<union> set (take i' (ids_list us))"
      using pf[OF i'(2)] us i'(1) by auto
    then have "q \<in> set (take i (ids t))" using us i'(1) by auto
    then obtain j where "j < i" "ids t ! j = q" by (auto simp: in_set_conv_nth)
    then show ?thesis using q(1) i(2) by (intro exI[of _ j]) (simp add: draw_node_def)
  qed
  have find: "find (\<lambda>u. key u = key x) (ids t) = Some x" if "x \<in> set (ids t)" for x
    using that find_self by (simp add: inj_eq[OF assms(2)])
  have miss: "find (\<lambda>u. key u = pk) (ids t) = None" if "pk \<notin> key ` set (ids t)" for pk
    using that by (auto simp: find_None_iff)
  have names: "map nd_id ?ns = map key (ids t)" by (simp add: draw_node_def comp_def)
  have "distinct (map key (ids t))" using rp(2) inj_on_subset[OF assms(2) subset_UNIV] by (simp add: distinct_map)
  moreover have "nd_parent (hd ?ns) = None" "?ns \<noteq> []" using rp(1) us by (simp_all add: draw_node_def)
  moreover have "\<forall>x \<in> set (ids t). get_task_by_id key cls (key x) = Some (Inr x)"
    "\<forall>pk. pk \<notin> key ` set (ids t) \<longrightarrow> get_task_by_id key cls pk = Some (Inl EventDoesNotExist)"
    using bf find miss by (simp_all add: get_task_by_id_def)
  moreover have "get_pipeline_tree key cls = Some ?ns" using bf by (simp add: get_pipeline_tree_def)
  ultimately show ?thesis using bf par names by metis
qed

text \<open>Constructing a pipeline: TypeError exactly when the arguments do not fit the signature built
  from the fields; otherwise an error is one a field raised for the argument given to it, and on success
  every argument that was given is stored under its field's name as the field checked it.\<close>

lemma pipeline_arguments:
  assumes "dict_ok (cls_fields cls)" and "dict_ok kw" and "\<forall>(n, f) \<in> set (cls_fields cls). field_name f = n"
    and "ps = construct_call_signature (cls_fields cls)"
  shows "case fst (pipeline_init cv cls pid as kw cache) of
      Inl e \<Rightarrow>
        (if arguments_fit ps as kw
         then \<exists>n f v. given_argument ps as kw n = Some v \<and> dict_get (cls_fields cls) n = Some f \<and> field_value cv f v = Inl e
         else e = TypeError)
    | Inr p \<Rightarrow> arguments_fit ps as kw \<and>
        (\<forall>n. case given_argument ps as kw n of
            None \<Rightarrow> dict_get (pipe_attrs p) n = None
          | Some v \<Rightarrow> (\<exists>f x. dict_get (cls_fields cls) n = Some f \<and> field_value cv f v = Inr x \<and> dict_get (pipe_attrs p) n = Some x))"
proof (cases "arguments_fit ps as kw")
  case False
  then have "bind_signature ps as kw = Inl TypeError" using bind_fits[OF signature_names[OF assms(1)] assms(2), of as] assms(4) by simp
  then show ?thesis using False assms(4) by (simp add: pipeline_init_def)
next
  case True
  then obtain b where b: "bind_signature ps as kw = Inr b" "\<forall>n. dict_get b n = given_argument ps as kw n"
    using bind_fits[OF signature_names[OF assms(1)] assms(2), of as] assms(4) by auto
  have keys: "dict_ok b" "set (dict_keys b) \<subseteq> set (map prm_name ps)"
    using bind_keys[OF b(1)] signature_names[OF assms(1)] assms(4) by (simp_all del: set_map)
  have flds: "\<forall>n \<in> set (dict_keys b). \<exists>f. dict_get (cls_fields cls) n = Some f \<and> field_name f = n"
  proof
    fix n assume "n \<in> set (dict_keys b)"
    then have "n \<in> set (map prm_name ps)" using keys(2) by blast
    then obtain f where "(n, f) \<in> set (cls_fields cls)" using signature_fields assms(4) by fastforce
    then show "\<exists>f. dict_get (cls_fields cls) n = Some f \<and> field_name f = n"
      using assms(3) dict_ok_get_iff[OF assms(1)] by auto
  qed
  obtain r cache' attrs where s: "set_arguments cv (cls_fields cls) (get_cache_key cls pid) b (cache, []) = (r, cache', attrs)"
    by (rule prod_cases3)
  note res = set_arguments_fields[OF keys(1) flds s]
  show ?thesis
  proof (cases r)
    case None
    then show ?thesis using res b s True assms(4) by (simp add: pipeline_init_def cong: option.case_cong)
  next
    case (Some e)
    then show ?thesis using res b s True assms(4) by (simp add: pipeline_init_def)
  qed
qed

text \<open>Of all the field values written to the cache, for all instances of a class, only the last one
  that is not \<open>None\<close> remains; and an instance loaded by its identity is built without any of the
  cached values.\<close>

lemma cache_keeps_last:
  assumes "\<forall>(key, fld, v) \<in> set ws. fld \<noteq> key \<and> fld \<noteq> ''pipeline_cache''" and "st = foldl write_cache [] ws"
  shows "st = (let ws' = filter (\<lambda>(key, fld, v). v \<noteq> PNone) ws
      in if ws' = [] then [] else case last ws' of (key, fld, v) \<Rightarrow> [(''pipeline_cache'', [(key, [(fld, v)])])]) \<and>
    restored_kwargs pk st = Inr [] \<and>
    map_sum (\<lambda>e. e) (\<lambda>p. pipe_attrs p) (load_class_by_id cv cls pk new_id st) =
      map_sum (\<lambda>e. e) (\<lambda>p. pipe_attrs p) (fst (pipeline_init cv cls new_id [] [] st))"
proof -
  let ?ws = "filter (\<lambda>(key, fld, v). v \<noteq> PNone) ws"
  have st: "st = (let ws' = ?ws
      in if ws' = [] then [] else case last ws' of (key, fld, v) \<Rightarrow> [(''pipeline_cache'', [(key, [(fld, v)])])])"
    unfolding assms(2) by (rule writes_keep_last) (use assms(1) in auto)
  have kw: "restored_kwargs pk st = Inr []"
  proof (cases "?ws = []")
    case True
    then show ?thesis using st by (simp add: restored_kwargs_def check_cache_exists_def)
  next
    case False
    obtain key fld v where l: "last ?ws = (key, fld, v)" by (cases "last ?ws")
    have "last ?ws \<in> set ?ws" using False by (rule last_in_set)
    then have "fld \<noteq> ''pipeline_cache''" using l assms(1) by auto
    then show ?thesis using st False l by (simp add: restored_kwargs_def chain_lookup_def Let_def)
  qed
  have "map_sum (\<lambda>e. e) (\<lambda>p. pipe_attrs p) (load_class_by_id cv cls pk new_id st) =
      map_sum (\<lambda>e. e) (\<lambda>p. pipe_attrs p) (fst (pipeline_init cv cls new_id [] [] st))"
    using kw by (cases "fst (pipeline_init cv cls new_id [] [] st)") (simp_all add: load_class_by_id_def)
  with st kw show ?thesis by blast
qed

end
