(* ===== verification/Batch.thy ===== *)
theory Batch
  imports Pipeline
begin

text \<open>
  Batch pipelines, the second half of \<^verbatim>\<open>src/nexus/pipeline.py\<close>: the batch iterators of the
  fields, the rounds that take one value from each of them, the pipelines \<open>execute\<close> submits, the
  results of the futures, and the execution metrics a monitor keeps.

  The generator \<open>_execute_field_batch_processors\<close> yields the same dictionary in every round, and
  \<open>execute\<close> adds the arguments of the other fields to it; \<open>run_rounds\<close> threads that dictionary.
  Calling the constructor of a field's type is the parameter \<open>ctor\<close>, except for lists and tuples;
  building the pipeline of a round is the parameter \<open>mk\<close>.
\<close>

section \<open>Iterators of the fields\<close>

type_synonym op_map = "(string \<times> field \<times> iter) list"

definition require_iter :: "exc_class + iter option \<Rightarrow> exc_class + iter" where
  "require_iter r = bind_res r (of_option TypeError)"

definition validated :: "batcher \<Rightarrow> processor \<Rightarrow> exc_class + unit" where
  "validated bt p = bind_res (validate_batch_processor bt p) (\<lambda>ok. if ok then Inr () else Inl ImproperlyConfigured)"

definition list_value :: "iter \<Rightarrow> pyval" where
  "list_value it = PList (items it)"

definition op_get :: "op_map \<Rightarrow> string \<Rightarrow> iter option" where
  "op_get ops n = (case find (\<lambda>(m, f, it). m = n) ops of None \<Rightarrow> None | Some (m, f, it) \<Rightarrow> Some it)"

fun op_set :: "string \<Rightarrow> field \<Rightarrow> iter \<Rightarrow> op_map \<Rightarrow> op_map" where
  "op_set n f it [] = [(n, f, it)]"
| "op_set n f it ((m, g, jt) # ops) = (if m = n then (n, f, it) # ops else (m, g, jt) # op_set n f it ops)"

text \<open>\<open>_gather_field_batch_methods\<close>: a batch method of the user on top of the field's own iterator, or on
  the field's value when there is none. An iterator that is passed on is given as the list of the values it
  will produce.\<close>

definition gather_field_batch_methods ::
  "batcher \<Rightarrow> (string, pyval) dict \<Rightarrow> field \<Rightarrow> processor \<Rightarrow> op_map \<Rightarrow> exc_class + op_map" where
  "gather_field_batch_methods bt attrs f p ops =
     bind_res (validated bt p) (\<lambda>_.
     bind_res (case op_get ops (field_name f) of
                 None \<Rightarrow> of_option AttributeError (dict_get attrs (field_name f))
               | Some it \<Rightarrow> Inr (list_value it)) (\<lambda>v.
     bind_res (require_iter (run_processor bt p v (batch_size f))) (\<lambda>it. Inr (op_set (field_name f) f it ops))))"

fun gather_iterators ::
  "batcher \<Rightarrow> (string, pyval) dict \<Rightarrow> (string \<Rightarrow> processor option) \<Rightarrow> (string, field) dict \<Rightarrow> op_map \<Rightarrow> exc_class + op_map" where
  "gather_iterators bt attrs methods [] ops = Inr ops"
| "gather_iterators bt attrs methods ((n, f) # flds) ops =
     bind_res (case batch_processor f of
                 None \<Rightarrow> Inr ops
               | Some p \<Rightarrow>
                   bind_res (validated bt p) (\<lambda>_.
                   bind_res (require_iter (run_processor bt p (case dict_get attrs n of Some v \<Rightarrow> v | None \<Rightarrow> PList []) (batch_size f))) (\<lambda>it.
                   Inr (op_set (field_name f) f it ops)))) (\<lambda>ops1.
     bind_res (case methods (n @ ''_batch'') of
                 None \<Rightarrow> Inr ops1
               | Some p \<Rightarrow> gather_field_batch_methods bt attrs f p ops1) (\<lambda>ops2.
     gather_iterators bt attrs methods flds ops2))"

text \<open>\<open>_adjust_batch_size\<close>, when the memory in use is above the limit: four fifths, rounded down, at
  least one.\<close>

definition adjust_batch_size :: "field \<Rightarrow> field" where
  "adjust_batch_size f = f\<lparr>batch_size := max 1 ((batch_size f * 4) div 5)\<rparr>"

definition check_memory_usage :: "rat \<Rightarrow> rat \<Rightarrow> op_map \<Rightarrow> op_map" where
  "check_memory_usage percent limit ops =
     (if percent > limit then map (\<lambda>(n, f, it). (n, adjust_batch_size f, it)) ops else ops)"

section \<open>Rounds\<close>

definition call_type :: "(string \<Rightarrow> pyval \<Rightarrow> exc_class + pyval) \<Rightarrow> dtype \<Rightarrow> pyval \<Rightarrow> exc_class + pyval" where
  "call_type ctor t v =
     (case t of
        UNKNOWN \<Rightarrow> Inl TypeError
      | DType n \<Rightarrow>
          (if n = ''list'' then bind_res (seq_of v) (\<lambda>xs. Inr (PList xs))
           else if n = ''tuple'' then bind_res (seq_of v) (\<lambda>xs. Inr (PTuple xs))
           else ctor n v))"

text \<open>\<open>_convert_value_to_field_data_type\<close>; the type of a value is compared, not its base classes.\<close>

definition convert_value :: "(string \<Rightarrow> pyval \<Rightarrow> exc_class + pyval) \<Rightarrow> field \<Rightarrow> pyval \<Rightarrow> exc_class + pyval" where
  "convert_value ctor f v =
     (if v = PNone then Inr PNone
      else if DType (type_name v) \<in> set (data_type f) then Inr v
      else (case data_type f of [] \<Rightarrow> Inl IndexError | t # ts \<Rightarrow> call_type ctor t v))"

text \<open>One round: the next value of every iterator, \<open>None\<close> when it is used up; whether all were.\<close>

fun batch_round ::
  "(string \<Rightarrow> pyval \<Rightarrow> exc_class + pyval) \<Rightarrow> op_map \<Rightarrow> (string, pyval) dict \<Rightarrow> exc_class + ((string, pyval) dict \<times> op_map \<times> bool)" where
  "batch_round ctor [] kw = Inr (kw, [], True)"
| "batch_round ctor ((n, f, it) # ops) kw =
     (case next_item it of
        (Inl e, it') \<Rightarrow>
          (if is_subclass e StopIteration
           then bind_res (batch_round ctor ops (dict_set n PNone kw)) (\<lambda>(kw', ops', all_done). Inr (kw', (n, f, it') # ops', all_done))
           else Inl e)
      | (Inr v, it') \<Rightarrow>
          bind_res (convert_value ctor f v) (\<lambda>x.
          bind_res (batch_round ctor ops (dict_set n x kw)) (\<lambda>(kw', ops', all_done). Inr (kw', (n, f, it') # ops', False))))"

definition any_value :: "(string, pyval) dict \<Rightarrow> bool" where
  "any_value kw \<longleftrightarrow> list_ex truthy (dict_values kw)"

text \<open>The loop of \<open>execute\<close> over the rounds: the arguments of the pipelines submitted, and the exception
  that ended the loop, if any.\<close>

fun run_rounds ::
  "nat \<Rightarrow> (string \<Rightarrow> pyval \<Rightarrow> exc_class + pyval) \<Rightarrow> ((string, pyval) dict \<Rightarrow> exc_class option) \<Rightarrow> (string, pyval) dict \<Rightarrow> op_map \<Rightarrow>
   (string, pyval) dict \<Rightarrow> (string, pyval) dict list \<Rightarrow> (exc_class option \<times> (string, pyval) dict list) option" where
  "run_rounds 0 ctor mk others ops kw subs = None"
| "run_rounds (Suc k) ctor mk others ops kw subs =
     (case batch_round ctor ops kw of
        Inl e \<Rightarrow> Some (Some e, subs)
      | Inr (kw1, ops1, all_done) \<Rightarrow>
          (if any_value kw1
           then (let kw2 = dict_update kw1 others
                 in case mk kw2 of
                      Some e \<Rightarrow> Some (Some e, subs)
                    | None \<Rightarrow>
                        (if all_done then Some (None, subs @ [kw2])
                         else run_rounds k ctor mk others ops1 kw2 (subs @ [kw2])))
           else if all_done then Some (None, subs)
           else run_rounds k ctor mk others ops1 kw1 subs))"

definition non_batch_args :: "(string, field) dict \<Rightarrow> (string, pyval) dict \<Rightarrow> (string, pyval) dict" where
  "non_batch_args flds attrs =
     map (\<lambda>(n, f). (n, case dict_get attrs n of Some v \<Rightarrow> v | None \<Rightarrow> PNone)) (filter (\<lambda>(n, f). \<not> has_batch_operation f) flds)"

datatype batch_status = BPending | BRunning | BFinished

text \<open>\<open>execute\<close>: the argument sets of the pipelines that were configured. Without batch iterators one
  pipeline is run in this process; an error in the loop is logged.\<close>

definition execute_batch ::
  "nat \<Rightarrow> batcher \<Rightarrow> (string \<Rightarrow> pyval \<Rightarrow> exc_class + pyval) \<Rightarrow> ((string, pyval) dict \<Rightarrow> exc_class option) \<Rightarrow> (string, field) dict \<Rightarrow>
   (string \<Rightarrow> processor option) \<Rightarrow> (string, pyval) dict \<Rightarrow> (exc_class + (string, pyval) dict list) option" where
  "execute_batch fuel bt ctor mk flds methods attrs =
     (case gather_iterators bt attrs methods flds [] of
        Inl e \<Rightarrow> Some (Inl e)
      | Inr ops \<Rightarrow>
          (let others = non_batch_args flds attrs
           in if ops = []
              then (case mk others of Some e \<Rightarrow> Some (Inl e) | None \<Rightarrow> Some (Inr [others]))
              else (case run_rounds fuel ctor mk others ops [] [] of
                      None \<Rightarrow> None
                    | Some (e, subs) \<Rightarrow> Some (if subs = [] then Inl PipelineConfigurationError else Inr subs))))"

section \<open>Results of the futures\<close>

datatype batch_result = BatchResult "nat option" "exc_class option"

text \<open>What a future gives: the pair returned by the wrapper, or an exception.\<close>

definition process_future :: "exc_class + (nat \<times> exc_class option) \<Rightarrow> batch_result list \<Rightarrow> batch_result list" where
  "process_future out results =
     (case out of
        Inr (p, e) \<Rightarrow> results @ [BatchResult (Some p) e]
      | Inl e \<Rightarrow> (if is_subclass e TimeoutError then results else results @ [BatchResult None (Some e)]))"

section \<open>Metrics\<close>

record metrics =
  total_pipelines :: nat
  m_started :: nat
  completed :: nat
  failed :: nat
  active :: nat
  start_time :: "rat option"
  end_time :: "rat option"
  durations :: "rat list"

definition mk_metrics :: metrics where
  "mk_metrics = \<lparr>total_pipelines = 0, m_started = 0, completed = 0, failed = 0, active = 0,
     start_time = None, end_time = None, durations = []\<rparr>"

definition success_rate :: "metrics \<Rightarrow> rat" where
  "success_rate m =
     (if 0 < completed m + failed m then of_nat (completed m) / of_nat (completed m + failed m) * 100 else 0)"

definition average_duration :: "metrics \<Rightarrow> rat" where
  "average_duration m = (if durations m = [] then 0 else sum_list (durations m) / of_nat (length (durations m)))"

definition completion_rate :: "metrics \<Rightarrow> rat" where
  "completion_rate m =
     (if 0 < total_pipelines m then of_nat (completed m + failed m) / of_nat (total_pipelines m) * 100 else 0)"

definition total_duration :: "rat \<Rightarrow> metrics \<Rightarrow> rat" where
  "total_duration now m =
     (case start_time m of
        None \<Rightarrow> 0
      | Some s \<Rightarrow>
          (if s = 0 then 0
           else (case end_time m of
                   Some e \<Rightarrow> (if e = 0 then now - s else e - s)
                 | None \<Rightarrow> now - s)))"

record monitor =
  m_metrics :: metrics
  active_pipelines :: "nat list"
  start_times :: "(nat, rat) dict"
  updates :: "nat"

text \<open>\<open>run\<close> before its loop: the estimate of the number of pipelines is the number of batch fields.\<close>

definition monitor_begin :: "nat \<Rightarrow> rat \<Rightarrow> monitor \<Rightarrow> monitor" where
  "monitor_begin batch_fields now mon =
     mon\<lparr>m_metrics := (m_metrics mon)\<lparr>start_time := Some now, total_pipelines := (if batch_fields = 0 then 1 else batch_fields)\<rparr>\<rparr>"

definition on_pipeline_started :: "nat option \<Rightarrow> rat \<Rightarrow> monitor \<Rightarrow> monitor" where
  "on_pipeline_started p now mon =
     (case p of
        None \<Rightarrow> mon
      | Some i \<Rightarrow>
          (let act = List.insert i (active_pipelines mon); m = m_metrics mon
           in mon\<lparr>active_pipelines := act, start_times := dict_set i now (start_times mon),
                  m_metrics := m\<lparr>m_started := m_started m + 1, active := length act\<rparr>, updates := updates mon + 1\<rparr>))"

text \<open>\<open>_on_pipeline_ended\<close>: without an execution context it logs and then fails on the missing attribute
  (the exception becomes the response of the listener); \<open>ok\<close> is whether the latest context succeeded.\<close>

definition on_pipeline_ended :: "nat option \<Rightarrow> bool \<Rightarrow> rat \<Rightarrow> monitor \<Rightarrow> monitor" where
  "on_pipeline_ended p ok now mon =
     (case p of
        None \<Rightarrow> mon
      | Some i \<Rightarrow>
          (let act = removeAll i (active_pipelines mon); m = m_metrics mon;
               ds = (case dict_get (start_times mon) i of
                       None \<Rightarrow> durations m
                     | Some s \<Rightarrow> (if s = 0 then durations m else durations m @ [now - s]))
           in mon\<lparr>active_pipelines := act, start_times := dict_del i (start_times mon),
                  m_metrics := m\<lparr>durations := ds, active := length act,
                     completed := completed m + (if ok then 1 else 0), failed := failed m + (if ok then 0 else 1)\<rparr>,
                  updates := updates mon + 1\<rparr>))"

definition on_batch_finished :: "rat \<Rightarrow> monitor \<Rightarrow> monitor" where
  "on_batch_finished now mon =
     (let m = m_metrics mon
      in if end_time m = None \<or> end_time m = Some 0 then mon\<lparr>m_metrics := m\<lparr>end_time := Some now\<rparr>\<rparr> else mon)"

datatype monitor_event = Started "nat option" rat | Ended "nat option" bool rat

definition monitor_step :: "monitor \<Rightarrow> monitor_event \<Rightarrow> monitor" where
  "monitor_step mon ev =
     (case ev of Started p t \<Rightarrow> on_pipeline_started p t mon | Ended p ok t \<Rightarrow> on_pipeline_ended p ok t mon)"

definition mk_monitor :: monitor where
  "mk_monitor = \<lparr>m_metrics = mk_metrics, active_pipelines = [], start_times = [], updates = 0\<rparr>"

end
