(* ===== verification/Batch_Props.thy ===== *)
theory Batch_Props
  imports Batch Pipeline_Props
begin

text \<open>
  Which pipelines a batch execution configures, and the balance of its metrics.
\<close>

section \<open>A round\<close>

text \<open>The value a round takes from an iterator, and the longest iterator.\<close>

definition round_value :: "(field \<Rightarrow> pyval \<Rightarrow> pyval) \<Rightarrow> nat \<Rightarrow> field \<times> iter \<Rightarrow> pyval" where
  "round_value conv j fi = (if j < length (items (snd fi)) then conv (fst fi) (items (snd fi) ! j) else PNone)"

definition longest :: "op_map \<Rightarrow> nat" where
  "longest ops = foldr (\<lambda>(n, f, it) m. max (length (items it)) m) ops 0"

text \<open>Iterators that end normally, whose values the field converts to something that counts as a value.\<close>

definition clean_ops :: "(string \<Rightarrow> pyval \<Rightarrow> exc_class + pyval) \<Rightarrow> (field \<Rightarrow> pyval \<Rightarrow> pyval) \<Rightarrow> op_map \<Rightarrow> bool" where
  "clean_ops ctor conv ops \<longleftrightarrow>
     (\<forall>(n, f, it) \<in> set ops. ending it = None \<and> (\<forall>v \<in> set (items it). convert_value ctor f v = Inr (conv f v) \<and> truthy (conv f v)))"

definition advance :: "op_map \<Rightarrow> op_map" where
  "advance ops = map (\<lambda>(n, f, it). (n, f, Iter (tl (items it)) (ending it))) ops"

lemma longest_Nil [simp]: "longest [] = 0"
  by (simp add: longest_def)

lemma longest_Cons [simp]: "longest ((n, f, it) # ops) = max (length (items it)) (longest ops)"
  by (simp add: longest_def)

lemma clean_ops_Cons [simp]:
  "clean_ops ctor conv ((n, f, it) # ops) \<longleftrightarrow>
     ending it = None \<and> (\<forall>v \<in> set (items it). convert_value ctor f v = Inr (conv f v) \<and> truthy (conv f v)) \<and> clean_ops ctor conv ops"
  by (auto simp: clean_ops_def)

lemma advance_simps [simp]:
  "advance [] = []" "advance ((n, f, it) # ops) = (n, f, Iter (tl (items it)) (ending it)) # advance ops"
  by (simp_all add: advance_def)

lemma longest_advance: "longest (advance ops) = longest ops - 1"
  by (induction ops) auto

lemma clean_advance: "clean_ops ctor conv ops \<Longrightarrow> clean_ops ctor conv (advance ops)"
proof (induction ops)
  case (Cons x ops)
  obtain n f it where x: "x = (n, f, it)" by (rule prod_cases3)
  have "set (tl (items it)) \<subseteq> set (items it)" by (cases "items it") auto
  then show ?case using Cons x by auto
qed simp

lemma names_advance: "map fst (advance ops) = map fst ops"
  by (induction ops) auto

lemma batch_round_clean:
  "clean_ops ctor conv ops \<Longrightarrow>
   batch_round ctor ops kw =
     Inr (dict_update kw (map (\<lambda>(n, fi). (n, round_value conv 0 fi)) ops), advance ops, longest ops = 0)"
proof (induction ops arbitrary: kw)
  case (Cons x ops)
  obtain n f its e where x: "x = (n, f, Iter its e)" by (metis iter.exhaust prod_cases3)
  show ?case
  proof (cases its)
    case Nil
    then show ?thesis using Cons x by (simp add: round_value_def)
  next
    case (Cons v vs)
    then show ?thesis using Cons.IH Cons.prems x by (simp add: round_value_def)
  qed
qed simp

lemma any_value_get: "dict_ok kw \<Longrightarrow> any_value kw \<longleftrightarrow> (\<exists>k v. dict_get kw k = Some v \<and> truthy v)"
proof -
  assume ok: "dict_ok kw"
  have "(\<exists>k v. dict_get kw k = Some v \<and> truthy v) \<longleftrightarrow> (\<exists>(k, v) \<in> set kw. truthy v)"
    using dict_ok_get_iff[OF ok] by simp blast
  moreover have "any_value kw \<longleftrightarrow> (\<exists>(k, v) \<in> set kw. truthy v)"
    by (simp add: any_value_def list_ex_iff case_prod_unfold)
  ultimately show ?thesis by simp
qed

section \<open>All rounds\<close>

text \<open>The dictionary between two rounds: the batch fields have some value or none, and the other
  arguments are all there or all missing.\<close>

definition shared_kwargs :: "op_map \<Rightarrow> (string, pyval) dict \<Rightarrow> bool \<Rightarrow> (string, pyval) dict \<Rightarrow> bool" where
  "shared_kwargs ops others merged kw \<longleftrightarrow> dict_ok kw \<and>
     (\<forall>k. k \<notin> set (map fst ops) \<longrightarrow> dict_get kw k = (if merged then dict_get others k else None))"

lemma round_kwargs:
  assumes "shared_kwargs ops others merged kw" and "distinct (map fst ops)"
    and "kw1 = dict_update kw (map (\<lambda>(n, fi). (n, round_value conv 0 fi)) ops)"
  shows "shared_kwargs ops others merged kw1 \<and> (\<forall>(n, fi) \<in> set ops. dict_get kw1 n = Some (round_value conv 0 fi))"
proof -
  let ?r = "map (\<lambda>(n, fi). (n, round_value conv 0 fi)) ops"
  have keys: "map fst ?r = map fst ops" by (induction ops) auto
  have ok: "dict_ok ?r" using assms(2) unfolding dict_ok_def keys by simp
  have get: "dict_get kw1 k = (case dict_get ?r k of None \<Rightarrow> dict_get kw k | Some v \<Rightarrow> Some v)" for k
    unfolding assms(3) by (rule dict_get_update[OF ok])
  have "dict_get ?r n = Some (round_value conv 0 fi)" if "(n, fi) \<in> set ops" for n fi
    using that dict_ok_get_iff[OF ok, of n "round_value conv 0 fi"] by force
  moreover have "dict_get ?r k = None" if "k \<notin> set (map fst ops)" for k
    using that unfolding keys[symmetric] by (simp add: map_of_eq_None_iff del: map_map)
  ultimately show ?thesis using assms(1,3) get by (auto simp: shared_kwargs_def simp del: set_map)
qed

lemma merge_kwargs:
  assumes "shared_kwargs ops others merged kw" and "dict_ok others" and "set (map fst ops) \<inter> set (dict_keys others) = {}"
    and "kw2 = dict_update kw others"
  shows "shared_kwargs ops others True kw2 \<and> (\<forall>n \<in> set (map fst ops). dict_get kw2 n = dict_get kw n) \<and>
    (\<forall>(k, v) \<in> set others. dict_get kw2 k = Some v)"
proof -
  have get: "dict_get kw2 k = (case dict_get others k of None \<Rightarrow> dict_get kw k | Some v \<Rightarrow> Some v)" for k
    unfolding assms(4) by (rule dict_get_update[OF assms(2)])
  have "dict_get others n = None" if "n \<in> set (map fst ops)" for n
    using that assms(3) by (auto simp: map_of_eq_None_iff simp del: set_map simp flip: set_map)
  then show ?thesis using assms(1,2,4) get
    by (auto simp: shared_kwargs_def dict_ok_get_iff simp del: set_map split: option.split)
qed

text \<open>When the batch fields have no value, only the other arguments decide whether there is one.\<close>

lemma any_value_shared:
  assumes "shared_kwargs ops others merged kw" and "\<forall>(n, fi) \<in> set ops. dict_get kw n = Some PNone"
    and "dict_ok others" and "set (map fst ops) \<inter> set (dict_keys others) = {}"
  shows "any_value kw \<longleftrightarrow> merged \<and> any_value others"
proof -
  have ok: "dict_ok kw" using assms(1) by (simp add: shared_kwargs_def)
  have other: "dict_get kw k = (if merged then dict_get others k else None)" if "k \<notin> set (map fst ops)" for k
    using that assms(1) unfolding shared_kwargs_def by blast
  have batch: "dict_get kw k = Some PNone" "dict_get others k = None" if "k \<in> set (map fst ops)" for k
  proof -
    show "dict_get kw k = Some PNone" using that assms(2) by auto
    have "k \<notin> set (dict_keys others)" using that assms(4) by blast
    then show "dict_get others k = None" by (simp add: map_of_eq_None_iff)
  qed
  have "(\<exists>v. dict_get kw k = Some v \<and> truthy v) \<longleftrightarrow> merged \<and> (\<exists>v. dict_get others k = Some v \<and> truthy v)" for k
    by (cases "k \<in> set (map fst ops)") (simp_all add: batch other del: set_map)
  then show ?thesis unfolding any_value_get[OF ok] any_value_get[OF assms(3)] by blast
qed

lemma round_any:
  assumes "clean_ops ctor conv ops" and "0 < longest ops"
  shows "\<exists>(n, fi) \<in> set ops. truthy (round_value conv 0 fi)"
  using assms
proof (induction ops)
  case (Cons x ops)
  obtain n f it where x: "x = (n, f, it)" by (rule prod_cases3)
  show ?case
  proof (cases "items it")
    case Nil
    then show ?thesis using Cons x by auto
  next
    case (Cons v vs)
    then show ?thesis using Cons.prems x by (auto simp: round_value_def)
  qed
qed simp

text \<open>The argument set of round \<open>j\<close>.\<close>

definition round_args :: "(field \<Rightarrow> pyval \<Rightarrow> pyval) \<Rightarrow> op_map \<Rightarrow> (string, pyval) dict \<Rightarrow> nat \<Rightarrow> (string, pyval) dict \<Rightarrow> bool" where
  "round_args conv ops others j kw \<longleftrightarrow>
     (\<forall>(n, fi) \<in> set ops. dict_get kw n = Some (round_value conv j fi)) \<and> (\<forall>(k, v) \<in> set others. dict_get kw k = Some v)"

lemma round_args_advance: "round_args conv (advance ops) others j kw \<longleftrightarrow> round_args conv ops others (Suc j) kw"
proof -
  have "round_value conv j (f, Iter (tl (items it)) (ending it)) = round_value conv (Suc j) (f, it)" for f it
    by (cases "items it") (auto simp: round_value_def)
  then show ?thesis by (force simp: round_args_def advance_def)
qed

lemma run_rounds_clean:
  assumes "clean_ops ctor conv ops" and "distinct (map fst ops)" and "dict_ok others"
    and "set (map fst ops) \<inter> set (dict_keys others) = {}" and "\<And>kw. mk kw = None"
    and "shared_kwargs ops others merged kw" and "longest ops < fuel"
  shows "\<exists>new. run_rounds fuel ctor mk others ops kw subs = Some (None, subs @ new) \<and>
    length new = longest ops + (if (merged \<or> 0 < longest ops) \<and> any_value others then 1 else 0) \<and>
    (\<forall>j < length new. round_args conv ops others j (new ! j))"
  using assms
proof (induction "longest ops" arbitrary: ops kw subs merged fuel)
  case 0
  obtain k where k: "fuel = Suc k" using "0.prems"(7) by (cases fuel) auto
  define kw1 where "kw1 = dict_update kw (map (\<lambda>(n, fi). (n, round_value conv 0 fi)) ops)"
  note r = round_kwargs[OF "0.prems"(6,2) kw1_def]
  have none: "round_value conv 0 fi = PNone" if "(n, fi) \<in> set ops" for n fi
    using that "0.hyps" by (induction ops) (auto simp: round_value_def)
  have "any_value kw1 \<longleftrightarrow> merged \<and> any_value others"
    using r none by (intro any_value_shared[OF _ _ "0.prems"(3,4)]) auto
  moreover note m = merge_kwargs[OF conjunct1[OF r] "0.prems"(3,4) refl]
  moreover have "batch_round ctor ops kw = Inr (kw1, advance ops, True)"
    using batch_round_clean[OF "0.prems"(1)] "0.hyps" by (simp add: kw1_def)
  ultimately show ?case using k "0.hyps" "0.prems"(5) r
    by (cases "merged \<and> any_value others") (fastforce simp: round_args_def Let_def)+
next
  case (Suc len)
  obtain k where k: "fuel = Suc k" using Suc.prems(7) by (cases fuel) auto
  define kw1 where "kw1 = dict_update kw (map (\<lambda>(n, fi). (n, round_value conv 0 fi)) ops)"
  define kw2 where "kw2 = dict_update kw1 others"
  note r = round_kwargs[OF Suc.prems(6,2) kw1_def]
  note m = merge_kwargs[OF conjunct1[OF r] Suc.prems(3,4) kw2_def]
  have "any_value kw1"
    using round_any[OF Suc.prems(1)] Suc.hyps(2) r any_value_get[of kw1] by (fastforce simp: shared_kwargs_def)
  moreover have "batch_round ctor ops kw = Inr (kw1, advance ops, False)"
    using batch_round_clean[OF Suc.prems(1), of kw] Suc.hyps(2) by (simp add: kw1_def)
  ultimately have step: "run_rounds fuel ctor mk others ops kw subs = run_rounds k ctor mk others (advance ops) kw2 (subs @ [kw2])"
    using k Suc.prems(5) by (simp add: kw2_def Let_def)
  have "len = longest (advance ops)" using Suc.hyps(2) by (simp add: longest_advance)
  moreover have "shared_kwargs (advance ops) others True kw2" using m by (simp add: shared_kwargs_def names_advance)
  ultimately obtain new where new:
      "run_rounds k ctor mk others (advance ops) kw2 (subs @ [kw2]) = Some (None, (subs @ [kw2]) @ new)"
      "length new = len + (if any_value others then 1 else 0)"
      "\<forall>j < length new. round_args conv (advance ops) others j (new ! j)"
    using Suc.hyps(1)[of "advance ops" True kw2 k "subs @ [kw2]"] Suc.prems clean_advance names_advance[of ops] k Suc.hyps(2) by auto
  have "round_args conv ops others 0 kw2" using r m by (fastforce simp: round_args_def)
  then have "\<forall>j < length (kw2 # new). round_args conv ops others j ((kw2 # new) ! j)"
    using new(3) by (auto simp: nth_Cons round_args_advance split: nat.splits)
  then show ?case using step new(1,2) Suc.hyps(2)[symmetric] by (intro exI[of _ "kw2 # new"]) auto
qed


section \<open>Batch executions\<close>

lemma op_set_names: "set (map fst (op_set n f it ops)) = insert n (set (map fst ops))"
  by (induction n f it ops rule: op_set.induct) (simp_all, blast)

lemma op_set_distinct: "distinct (map fst ops) \<Longrightarrow> distinct (map fst (op_set n f it ops))"
  by (induction n f it ops rule: op_set.induct) (auto simp add: op_set_names simp del: set_map)

lemma gather_methods_names:
  assumes "gather_field_batch_methods bt attrs f p ops = Inr ops1"
  shows "\<exists>it. ops1 = op_set (field_name f) f it ops"
  using assms by (auto simp: gather_field_batch_methods_def simp: res_simps)

text \<open>The iterators belong to different fields; where only fields with a batch processor have a batch
  method, no other field has one.\<close>

lemma gather_names:
  assumes "gather_iterators bt attrs methods flds ops = Inr ops'" and "distinct (map fst ops)"
    and "\<forall>(n, f) \<in> set flds. field_name f = n \<and> (has_batch_operation f \<or> methods (n @ ''_batch'') = None)"
  shows "distinct (map fst ops') \<and> set (map fst ops') \<subseteq> set (map fst ops) \<union> {n. \<exists>f. (n, f) \<in> set flds \<and> has_batch_operation f}"
  using assms
proof (induction flds arbitrary: ops)
  case (Cons x flds)
  obtain n f where x: "x = (n, f)" by (cases x)
  define ok where "ok = has_batch_operation f"
  from Cons.prems(1) x obtain ops1 ops2 where
    1: "(case batch_processor f of None \<Rightarrow> Inr ops
         | Some p \<Rightarrow> bind_res (validated bt p) (\<lambda>_.
             bind_res (require_iter (run_processor bt p (case dict_get attrs n of Some v \<Rightarrow> v | None \<Rightarrow> PList []) (batch_size f))) (\<lambda>it.
             Inr (op_set (field_name f) f it ops)))) = Inr ops1" and
    2: "(case methods (n @ ''_batch'') of None \<Rightarrow> Inr ops1 | Some p \<Rightarrow> gather_field_batch_methods bt attrs f p ops1) = Inr ops2" and
    3: "gather_iterators bt attrs methods flds ops2 = Inr ops'"
    by (auto simp: res_simps)
  have a: "ops1 = ops \<or> ok \<and> (\<exists>it. ops1 = op_set n f it ops)"
    using 1 Cons.prems(3) x by (auto simp: ok_def has_batch_operation_def simp: res_simps split: option.splits)
  have b: "ops2 = ops1 \<or> ok \<and> (\<exists>it. ops2 = op_set n f it ops1)"
    using 2 Cons.prems(3) x gather_methods_names by (auto simp: ok_def split: option.splits)
  have "distinct (map fst ops2)" and "set (map fst ops2) \<subseteq> set (map fst ops) \<union> (if ok then {n} else {})"
    using a b Cons.prems(2) op_set_distinct op_set_names by (auto simp del: set_map)
  moreover have "{n. \<exists>f. (n, f) \<in> set (x # flds) \<and> has_batch_operation f} =
      {n. \<exists>f. (n, f) \<in> set flds \<and> has_batch_operation f} \<union> (if ok then {n} else {})"
    using x by (auto simp: ok_def)
  ultimately show ?case using Cons.IH[OF 3] Cons.prems(3) by (auto simp del: set_map split: if_splits)
qed simp

lemma non_batch_args_keys: "dict_keys (non_batch_args flds attrs) = map fst (filter (\<lambda>(n, f). \<not> has_batch_operation f) flds)"
  by (simp add: non_batch_args_def comp_def case_prod_unfold)

lemma dict_ok_non_batch: "dict_ok flds \<Longrightarrow> dict_ok (non_batch_args flds attrs)"
  unfolding dict_ok_def non_batch_args_keys by (rule distinct_map_filter)

lemma batch_disjoint:
  assumes "dict_ok flds"
  shows "{n. \<exists>f. (n, f) \<in> set flds \<and> has_batch_operation f} \<inter> set (dict_keys (non_batch_args flds attrs)) = {}"
  using assms unfolding non_batch_args_keys by (auto simp: dict_ok_def dest: eq_key_imp_eq_value)



definition items_field :: field where
  "items_field = \<lparr>name = Some ''xs'', data_type = [DType ''list''], default = None, default_factory = None, required = True,
     batch_processor = Some ListBatch, batch_size = 2\<rparr>"

definition mode_field :: field where
  "mode_field = \<lparr>name = Some ''mode'', data_type = [DType ''str''], default = None, default_factory = None, required = False,
     batch_processor = None, batch_size = 100\<rparr>"

definition demo_batch_fields :: "(string, field) dict" where
  "demo_batch_fields = [(''xs'', items_field), (''mode'', mode_field)]"

definition demo_batch_attrs :: "(string, pyval) dict" where
  "demo_batch_attrs = [(''xs'', PList [PInt 1, PInt 2, PInt 3]), (''mode'', PStr ''fast'')]"

definition demo_batch_ops :: op_map where
  "demo_batch_ops = [(''xs'', items_field, Iter [PTuple [PInt 1, PInt 2], PTuple [PInt 3]] None)]"

definition as_list :: "field \<Rightarrow> pyval \<Rightarrow> pyval" where
  "as_list f v = (case seq_of v of Inr xs \<Rightarrow> PList xs | Inl e \<Rightarrow> PNone)"

lemma demo_batched: "chunks 2 [a, b, c] = [[a, b], [c]]" "chunks 2 [a] = [[a]]"
  by (simp_all add: chunks.simps)

lemmas demo_batch_defs = items_field_def mode_field_def demo_batch_fields_def demo_batch_attrs_def demo_batch_ops_def
  has_batch_operation_def field_name_def

lemma demo_batch_gather: "gather_iterators batch_lists demo_batch_attrs (\<lambda>m. None) demo_batch_fields [] = Inr demo_batch_ops"
  by (simp add: demo_batch_defs validated_def validate_batch_processor_def trial_call_def proc_parameters_def bad_default_def bad_name_def
      run_processor_def list_batch_processor_def require_iter_def batch_lists_def seq_of_def demo_batched)

lemma demo_batch_clean: "clean_ops (\<lambda>n v. Inl TypeError) as_list demo_batch_ops"
  by (simp add: demo_batch_defs clean_ops_def convert_value_def call_type_def as_list_def seq_of_def)


section \<open>Metrics\<close>

text \<open>The events of a monitor: each pipeline starts at most once, and only one that is running ends.\<close>

fun well_ordered :: "nat list \<Rightarrow> nat list \<Rightarrow> monitor_event list \<Rightarrow> bool" where
  "well_ordered seen running [] = True"
| "well_ordered seen running (Started (Some i) t # es) =
     (i \<notin> set seen \<and> 0 < t \<and> well_ordered (i # seen) (i # running) es)"
| "well_ordered seen running (Ended (Some i) ok t # es) =
     (i \<in> set running \<and> well_ordered seen (removeAll i running) es)"
| "well_ordered seen running (ev # es) = well_ordered seen running es"

definition balanced :: "monitor \<Rightarrow> bool" where
  "balanced mon \<longleftrightarrow>
     (let m = m_metrics mon
      in distinct (active_pipelines mon) \<and> active m = length (active_pipelines mon) \<and>
         m_started m = completed m + failed m + active m \<and>
         length (durations m) = completed m + failed m \<and>
         (\<forall>i \<in> set (active_pipelines mon). \<exists>s. dict_get (start_times mon) i = Some s \<and> s \<noteq> 0))"

lemma started_balanced:
  assumes "balanced mon" and "i \<notin> set (active_pipelines mon)" and "0 < t"
  shows "balanced (on_pipeline_started (Some i) t mon)"
  using assms by (auto simp: balanced_def on_pipeline_started_def Let_def dict_simps)

lemma ended_balanced:
  assumes "balanced mon" and "i \<in> set (active_pipelines mon)"
  shows "balanced (on_pipeline_ended (Some i) ok t mon)"
proof -
  have "length (removeAll i (active_pipelines mon)) = length (active_pipelines mon) - 1" "0 < length (active_pipelines mon)"
    using assms by (auto simp: balanced_def Let_def distinct_remove1_removeAll[symmetric] length_remove1)
  moreover obtain s where "dict_get (start_times mon) i = Some s" "s \<noteq> 0"
    using assms by (auto simp: balanced_def Let_def)
  ultimately show ?thesis using assms
    by (auto simp: balanced_def on_pipeline_ended_def Let_def dict_simps distinct_removeAll)
qed

lemma active_started: "set (active_pipelines (on_pipeline_started (Some i) t mon)) = insert i (set (active_pipelines mon))"
  by (simp add: on_pipeline_started_def Let_def)

lemma active_ended: "set (active_pipelines (on_pipeline_ended (Some i) ok t mon)) = set (active_pipelines mon) - {i}"
  by (simp add: on_pipeline_ended_def Let_def)

lemma monitor_step_simps [simp]:
  "monitor_step mon (Started None t) = mon" "monitor_step mon (Ended None ok t) = mon"
  "monitor_step mon (Started (Some i) t) = on_pipeline_started (Some i) t mon"
  "monitor_step mon (Ended (Some i) ok t) = on_pipeline_ended (Some i) ok t mon"
  by (simp_all add: monitor_step_def on_pipeline_started_def on_pipeline_ended_def)

lemma balanced_run:
  assumes "well_ordered seen running es" and "balanced mon" and "set (active_pipelines mon) = set running" and "set running \<subseteq> set seen"
  shows "balanced (foldl monitor_step mon es)"
  using assms
proof (induction seen running es arbitrary: mon rule: well_ordered.induct)
  case (2 seen running i t es)
  then have "balanced (on_pipeline_started (Some i) t mon)" by (intro started_balanced) auto
  moreover have "set (i # running) \<subseteq> set (i # seen)" using "2.prems"(4) by auto
  ultimately show ?case using 2 active_started[of i t mon] by simp
next
  case (3 seen running i ok t es)
  then have "balanced (on_pipeline_ended (Some i) ok t mon)" by (intro ended_balanced) auto
  moreover have "set (removeAll i running) \<subseteq> set seen" using "3.prems"(4) by auto
  ultimately show ?case using 3 active_ended[of i ok t mon] by simp
qed simp_all

lemma success_rate_bounds: "0 \<le> success_rate m \<and> success_rate m \<le> 100"
proof (cases "completed m + failed m = 0")
  case False
  then have "0 < (of_nat (completed m + failed m) :: rat)" by (simp only: of_nat_0_less_iff)
  moreover have "(of_nat (completed m) :: rat) \<le> of_nat (completed m + failed m)" by (simp only: of_nat_le_iff)
  ultimately show ?thesis unfolding success_rate_def by (simp add: divide_le_eq zero_le_divide_iff)
qed (simp add: success_rate_def)

text \<open>When every pipeline starts at most once and ends only while it runs, the metrics of a batch add up at
  every moment: the pipelines started are those completed, failed and active, the active ones are those of
  the monitor's set, there is one duration for every pipeline that ended, and the success rate is a percentage.\<close>

lemma metrics_balance:
  assumes "well_ordered [] [] es" and "mon = foldl monitor_step (monitor_begin n now mk_monitor) es" and "m = m_metrics mon"
  shows "m_started m = completed m + failed m + active m \<and> active m = card (set (active_pipelines mon)) \<and>
    length (durations m) = completed m + failed m \<and> 0 \<le> success_rate m \<and> success_rate m \<le> 100"
proof -
  have "balanced (monitor_begin n now mk_monitor)"
    by (simp add: balanced_def monitor_begin_def mk_monitor_def mk_metrics_def)
  then have "balanced mon"
    unfolding assms(2) by (rule balanced_run[OF assms(1)]) (simp_all add: monitor_begin_def mk_monitor_def)
  then show ?thesis
    using success_rate_bounds[of m] by (simp add: balanced_def Let_def assms(3) distinct_card)
qed

end
