(* ===== verification/Wrapper.thy ===== *)
theory Wrapper
  imports Batch
begin

text \<open>
  The wrapper that runs one pipeline of a batch in a child process
  (\<^verbatim>\<open>src/nexus/pipeline_wrapper.py\<close>), the messages it puts on the queue, and what the monitor does
  with them (\<open>_handle_wrapper_lifecycle_event\<close> and the loop of \<open>run\<close> in
  \<^verbatim>\<open>src/nexus/pipeline.py\<close>).

  A message carries the state of the wrapper when it was sent. Whether the queue takes a message and
  whether a signal can be imported and connected belong to the environment; both failures are
  logged. The contexts a run leaves behind when an exception ends it are not described: the wrapper
  then keeps the pipeline as it was.
\<close>

section \<open>State and messages\<close>

datatype wrapper_state = W_INITIALIZED | W_INITIALIZING | W_RUNNING | W_COMPLETED | W_FAILED | W_FINISHED

datatype lifecycle =
    Wrapper_Started
  | Pipeline_Execution_Start pipeline
  | Pipeline_Execution_End pipeline
  | Wrapper_Failed pyval
  | Wrapper_Finished (execution_duration: rat) (final_state: wrapper_state) (had_exception: bool)

record message =
  event_type :: lifecycle
  msg_state :: wrapper_state

record wrapper =
  w_pipeline :: pipeline
  focus_on_signals :: "string list"
  connected_signals :: "string list"
  w_state :: wrapper_state
  w_start_time :: "rat option"
  w_end_time :: "rat option"
  w_exception :: "pyval option"
  sent :: "message list"

definition mk_wrapper :: "pipeline \<Rightarrow> string list \<Rightarrow> wrapper" where
  "mk_wrapper p focus =
     \<lparr>w_pipeline = p, focus_on_signals = focus, connected_signals = [], w_state = W_INITIALIZED,
      w_start_time = None, w_end_time = None, w_exception = None, sent = []\<rparr>"

record wrapper_env =
  w_exec :: exec_env
  queue_accepts :: "message \<Rightarrow> bool"
  connectable :: "string \<Rightarrow> bool"
  started_at :: rat
  ended_at :: rat

section \<open>Operations\<close>

definition connect_signals :: "wrapper_env \<Rightarrow> wrapper \<Rightarrow> wrapper" where
  "connect_signals we w =
     (if focus_on_signals w = [] then w
      else w\<lparr>connected_signals := connected_signals w @ filter (connectable we) (focus_on_signals w)\<rparr>)"

definition disconnect_signals :: "wrapper \<Rightarrow> wrapper" where
  "disconnect_signals w = w\<lparr>connected_signals := []\<rparr>"

definition send_wrapper_lifecycle_event :: "wrapper_env \<Rightarrow> lifecycle \<Rightarrow> wrapper \<Rightarrow> wrapper" where
  "send_wrapper_lifecycle_event we ev w =
     (let m = \<lparr>event_type = ev, msg_state = w_state w\<rparr>
      in if queue_accepts we m then w\<lparr>sent := sent w @ [m]\<rparr> else w)"

text \<open>The handler of exceptions in \<open>_handle_pipeline_execution\<close>.\<close>

definition fail_wrapper :: "wrapper_env \<Rightarrow> pyval \<Rightarrow> wrapper \<Rightarrow> wrapper" where
  "fail_wrapper we x w =
     send_wrapper_lifecycle_event we (Wrapper_Failed x) (w\<lparr>w_exception := Some x, w_state := W_FAILED\<rparr>)"

definition complete_wrapper :: "wrapper_env \<Rightarrow> wrapper \<Rightarrow> wrapper" where
  "complete_wrapper we w =
     (let w1 = w\<lparr>w_state := W_COMPLETED\<rparr>
      in send_wrapper_lifecycle_event we (Pipeline_Execution_End (w_pipeline w1)) w1)"

text \<open>\<open>_handle_pipeline_execution\<close>. A failed run is recorded after its first failed context was looked up
  for the log, and nothing is sent.\<close>

definition judge_run :: "wrapper_env \<Rightarrow> pipeline_class \<Rightarrow> wrapper \<Rightarrow> wrapper option" where
  "judge_run we cls w =
     (case run (w_pipeline w) of
        None \<Rightarrow> Some (complete_wrapper we w)
      | Some st \<Rightarrow>
          (if root_context st = None then Some (complete_wrapper we w)
           else (case latest_context st of
              None \<Rightarrow> None
            | Some l \<Rightarrow>
                (case execution_failed (w_exec we) (cls_tasks cls) (contexts st ! l) of
                   Inl x \<Rightarrow> Some (fail_wrapper we x w)
                 | Inr False \<Rightarrow> Some (complete_wrapper we w)
                 | Inr True \<Rightarrow>
                     (case get_first_error_execution_node (w_exec we) cls (w_pipeline w) of
                        None \<Rightarrow> None
                      | Some (Inl x) \<Rightarrow> Some (fail_wrapper we x w)
                      | Some (Inr node) \<Rightarrow> Some (w\<lparr>w_state := W_FAILED\<rparr>))))))"

definition handle_pipeline_execution :: "nat \<Rightarrow> wrapper_env \<Rightarrow> pipeline_class \<Rightarrow> wrapper \<Rightarrow> wrapper option" where
  "handle_pipeline_execution fuel we cls w =
     (let w0 = w\<lparr>w_state := W_RUNNING\<rparr>;
          w1 = send_wrapper_lifecycle_event we (Pipeline_Execution_Start (w_pipeline w0)) w0
      in case start fuel (w_exec we) cls True (w_pipeline w1) of
           None \<Rightarrow> None
         | Some (Inl x, sgs) \<Rightarrow> Some (fail_wrapper we x w1)
         | Some (Inr p, sgs) \<Rightarrow> judge_run we cls (w1\<lparr>w_pipeline := p\<rparr>))"

definition wrapper_run ::
  "nat \<Rightarrow> wrapper_env \<Rightarrow> pipeline_class \<Rightarrow> wrapper \<Rightarrow> (wrapper \<times> pipeline \<times> pyval option) option" where
  "wrapper_run fuel we cls w =
     (let w1 = w\<lparr>w_start_time := Some (started_at we), w_state := W_INITIALIZING\<rparr>;
          w2 = connect_signals we (send_wrapper_lifecycle_event we Wrapper_Started w1)
      in case handle_pipeline_execution fuel we cls w2 of
           None \<Rightarrow> None
         | Some w3 \<Rightarrow>
             (let duration = (case w_start_time w3 of
                                None \<Rightarrow> 0
                              | Some s \<Rightarrow> (if s = 0 then 0 else ended_at we - s));
                  w4 = w3\<lparr>w_end_time := Some (ended_at we), w_state := W_FINISHED\<rparr>;
                  w5 = send_wrapper_lifecycle_event we (Wrapper_Finished duration (w_state w4) (w_exception w4 \<noteq> None)) w4;
                  w6 = disconnect_signals w5
              in Some (w6, w_pipeline w6, w_exception w6)))"

section \<open>The monitor\<close>

text \<open>How the monitor judges a pipeline that ended: by its latest context, and as a success when that
  cannot be evaluated.\<close>

definition judged_ok :: "exec_env \<Rightarrow> pipeline_class \<Rightarrow> pipeline \<Rightarrow> bool" where
  "judged_ok env cls p =
     (case run p of
        None \<Rightarrow> True
      | Some st \<Rightarrow>
          (case latest_context st of
             None \<Rightarrow> True
           | Some l \<Rightarrow> execution_failed env (cls_tasks cls) (contexts st ! l) \<noteq> Inr True))"

text \<open>\<open>_handle_wrapper_lifecycle_event\<close> with the listeners of the signals it emits. \<open>num\<close> numbers the
  pipelines by their identity.\<close>

definition handle_lifecycle ::
  "exec_env \<Rightarrow> pipeline_class \<Rightarrow> (string \<Rightarrow> nat) \<Rightarrow> rat \<Rightarrow> monitor \<Rightarrow> message \<Rightarrow> monitor" where
  "handle_lifecycle env cls num now mon msg =
     (case event_type msg of
        Pipeline_Execution_Start p \<Rightarrow> on_pipeline_started (Some (num (pipe_id p))) now mon
      | Pipeline_Execution_End p \<Rightarrow>
          on_pipeline_ended (if started p then Some (num (pipe_id p)) else None) (judged_ok env cls p) now mon
      | _ \<Rightarrow> mon)"

end
