(* ===== verification/Wrapper_Props.thy ===== *)
theory Wrapper_Props
  imports Wrapper Batch_Props
begin

text \<open>
  What a wrapped run reports: the messages for every outcome of the pipeline, and what the monitor's
  metrics make of them.
\<close>

section \<open>The walk to the first error\<close>

lemma first_error_total:
  assumes "links_ok cs"
  shows "c < length cs \<Longrightarrow> length cs - c < k \<Longrightarrow> \<exists>r. first_error_fuel k env h cs (Some c) = Some r"
proof (induction k arbitrary: c)
  case (Suc k)
  show ?case
  proof (cases "execution_failed env h (cs ! c) = Inr False")
    case True
    show ?thesis
    proof (cases "next_context (cs ! c)")
      case None
      then show ?thesis using True by (cases k) simp_all
    next
      case (Some n)
      then have "c < n" "n < length cs" using links_next[OF assms Suc.prems(1)] by auto
      then show ?thesis using Suc.IH[of n] Suc.prems(2) True Some by simp
    qed
  next
    case False
    then show ?thesis by (cases "execution_failed env h (cs ! c)") (auto split: bool.splits)
  qed
qed simp

text \<open>A run that returned normally: it has contexts, and the first failed one can be looked up.\<close>

lemma start_forced:
  assumes "make_class cname flds pointy file = Inr cls" and "fair_env env" and "3 * length (cls_tasks cls) \<le> fuel"
  shows "(\<exists>x sgs. start fuel env cls True p = Some (Inl x, sgs)) \<or>
    (\<exists>st l sgs. start fuel env cls True p = Some (Inr (p\<lparr>run := Some st\<rparr>), sgs) \<and> latest_context st = Some l \<and>
      root_context st \<noteq> None \<and> (\<exists>r. get_first_error_execution_node env cls (p\<lparr>run := Some st\<rparr>) = Some r))"
proof -
  obtain code where code: "build_pipeline_from_execution_code code = Inr (cls_start cls, cls_tasks cls)"
    using make_class_build[OF assms(1)] by blast
  obtain res where res: "execute_task fuel env (cls_tasks cls) (Some (cls_start cls)) None init_exec = Some res"
    using run_total[OF code assms(2,3)] by blast
  show ?thesis
  proof (cases res)
    case (Inl x)
    then show ?thesis using res by (simp add: start_def)
  next
    case (Inr st)
    note r = res[unfolded Inr]
    obtain c l where l: "root_context st = Some c" "c < length (contexts st)" "latest_context st = Some l"
      using run_root[OF r] by blast
    have "length (contexts st) - c < Suc (length (contexts st))" by simp
    from first_error_total[OF run_links[OF r] l(2) this] l(1)
    obtain e where "get_first_error_execution_node env cls (p\<lparr>run := Some st\<rparr>) = Some e"
      by (auto simp: get_first_error_execution_node_def simp del: first_error_fuel.simps)
    moreover have "start fuel env cls True p = Some (Inr (p\<lparr>run := Some st\<rparr>), [ExecutionStart, final_signal st])"
      using r by (simp add: start_def)
    ultimately show ?thesis using l by blast
  qed
qed

section \<open>Messages\<close>

lemma send_simps [simp]:
  "\<forall>m. queue_accepts we m \<Longrightarrow>
   send_wrapper_lifecycle_event we ev w = w\<lparr>sent := sent w @ [\<lparr>event_type = ev, msg_state = w_state w\<rparr>]\<rparr>"
  by (simp add: send_wrapper_lifecycle_event_def)

text \<open>What is sent between start and finish, and the exception the wrapper keeps.\<close>

definition run_report :: "exec_env \<Rightarrow> pipeline_class \<Rightarrow> (pyval + pipeline) \<Rightarrow> lifecycle list \<Rightarrow> pyval option \<Rightarrow> bool" where
  "run_report env cls res mid exc \<longleftrightarrow>
     (case res of
        Inl x \<Rightarrow> mid = [Wrapper_Failed x] \<and> exc = Some x
      | Inr p \<Rightarrow> (\<exists>st l. run p = Some st \<and> latest_context st = Some l \<and>
          (case execution_failed env (cls_tasks cls) (contexts st ! l) of
             Inr False \<Rightarrow> mid = [Pipeline_Execution_End p] \<and> exc = None
           | Inr True \<Rightarrow> mid = [] \<and> exc = None \<or> (\<exists>x. mid = [Wrapper_Failed x] \<and> exc = Some x)
           | Inl x \<Rightarrow> mid = [Wrapper_Failed x] \<and> exc = Some x)))"

lemma judge_run_report:
  assumes "\<forall>m. queue_accepts we m" and "run (w_pipeline w) = Some st" and "latest_context st = Some l" and "root_context st \<noteq> None"
    and "\<exists>r. get_first_error_execution_node (w_exec we) cls (w_pipeline w) = Some r" and "w_exception w = None"
  shows "\<exists>w' ms. judge_run we cls w = Some w' \<and> sent w' = sent w @ ms \<and> w_pipeline w' = w_pipeline w \<and>
    w_start_time w' = w_start_time w \<and>
    run_report (w_exec we) cls (Inr (w_pipeline w)) (map event_type ms) (w_exception w')"
proof -
  let ?f = "execution_failed (w_exec we) (cls_tasks cls) (contexts st ! l)"
  consider x where "?f = Inl x" | "?f = Inr False" | "?f = Inr True" by (cases ?f) auto
  then show ?thesis
  proof cases
    case 3
    obtain r where "get_first_error_execution_node (w_exec we) cls (w_pipeline w) = Some r" using assms(5) by blast
    then show ?thesis using 3 assms
      by (cases r) (auto simp: judge_run_def run_report_def fail_wrapper_def)
  qed (use assms in \<open>auto simp: judge_run_def run_report_def fail_wrapper_def complete_wrapper_def\<close>)
qed


lemma handle_report:
  assumes "make_class cname flds pointy file = Inr cls" and "fair_env (w_exec we)" and "3 * length (cls_tasks cls) \<le> fuel"
    and q: "\<forall>m. queue_accepts we m" and "w_exception w = None"
  shows "\<exists>w' ms res sgs. handle_pipeline_execution fuel we cls w = Some w' \<and>
    start fuel (w_exec we) cls True (w_pipeline w) = Some (res, sgs) \<and>
    sent w' = sent w @ \<lparr>event_type = Pipeline_Execution_Start (w_pipeline w), msg_state = W_RUNNING\<rparr> # ms \<and>
    w_start_time w' = w_start_time w \<and> (\<forall>p. res = Inr p \<longrightarrow> w_pipeline w' = p) \<and>
    run_report (w_exec we) cls res (map event_type ms) (w_exception w')"
proof -
  let ?w1 = "w\<lparr>w_state := W_RUNNING, sent := sent w @ [\<lparr>event_type = Pipeline_Execution_Start (w_pipeline w), msg_state = W_RUNNING\<rparr>]\<rparr>"
  have "(\<exists>x sgs. start fuel (w_exec we) cls True (w_pipeline w) = Some (Inl x, sgs)) \<or>
    (\<exists>st l sgs. start fuel (w_exec we) cls True (w_pipeline w) = Some (Inr ((w_pipeline w)\<lparr>run := Some st\<rparr>), sgs) \<and> latest_context st = Some l \<and>
      root_context st \<noteq> None \<and> (\<exists>r. get_first_error_execution_node (w_exec we) cls ((w_pipeline w)\<lparr>run := Some st\<rparr>) = Some r))"
    by (rule start_forced[OF assms(1-3)])
  then show ?thesis
  proof (elim disjE exE conjE)
    fix x sgs assume "start fuel (w_exec we) cls True (w_pipeline w) = Some (Inl x, sgs)"
    then show ?thesis using q
      by (auto simp: handle_pipeline_execution_def fail_wrapper_def run_report_def Let_def)
  next
    fix st l sgs r
    let ?p = "(w_pipeline w)\<lparr>run := Some st\<rparr>"
    assume s: "start fuel (w_exec we) cls True (w_pipeline w) = Some (Inr ?p, sgs)"
      and l: "latest_context st = Some l" "root_context st \<noteq> None"
      and e: "get_first_error_execution_node (w_exec we) cls ?p = Some r"
    obtain w' ms where w': "judge_run we cls (?w1\<lparr>w_pipeline := ?p\<rparr>) = Some w'"
        "sent w' = sent ?w1 @ ms" "w_pipeline w' = ?p" "w_start_time w' = w_start_time w"
        "run_report (w_exec we) cls (Inr ?p) (map event_type ms) (w_exception w')"
      using judge_run_report[OF q, of "?w1\<lparr>w_pipeline := ?p\<rparr>" st l cls] l e assms(5) by auto
    have "handle_pipeline_execution fuel we cls w = Some w'"
      using q s w'(1) by (simp add: handle_pipeline_execution_def)
    then show ?thesis using s w'(2-5) by auto
  qed
qed

section \<open>The monitor's view\<close>

lemma run_report_Inr:
  assumes "run_report env cls (Inr p) mid exc"
  obtains (ended) "mid = [Pipeline_Execution_End p]" "exc = None" "judged_ok env cls p"
  | (failure) "mid = []" "exc = None"
  | (exception) x where "mid = [Wrapper_Failed x]" "exc = Some x"
proof -
  obtain st l where st: "run p = Some st" "latest_context st = Some l" and
    f: "case execution_failed env (cls_tasks cls) (contexts st ! l) of
          Inr False \<Rightarrow> mid = [Pipeline_Execution_End p] \<and> exc = None
        | Inr True \<Rightarrow> mid = [] \<and> exc = None \<or> (\<exists>x. mid = [Wrapper_Failed x] \<and> exc = Some x)
        | Inl x \<Rightarrow> mid = [Wrapper_Failed x] \<and> exc = Some x"
    using assms unfolding run_report_def sum.case by blast
  consider x where "execution_failed env (cls_tasks cls) (contexts st ! l) = Inl x"
    | "execution_failed env (cls_tasks cls) (contexts st ! l) = Inr True"
    | "execution_failed env (cls_tasks cls) (contexts st ! l) = Inr False"
    by (cases "execution_failed env (cls_tasks cls) (contexts st ! l)") auto
  then show ?thesis
  proof cases
    case 3
    with st have "judged_ok env cls p" by (simp add: judged_ok_def)
    with f 3 ended show ?thesis by simp
  qed (use f failure exception in auto)
qed

lemma start_identity:
  assumes "start fuel env cls force p = Some (Inr p', sgs)"
  shows "pipe_id p' = pipe_id p \<and> started p'"
proof -
  from assms obtain st where st: "execute_task fuel env (cls_tasks cls) (Some (cls_start cls)) None init_exec = Some (Inr st)" "p' = p\<lparr>run := Some st\<rparr>"
    by (auto simp: start_def split: if_splits option.splits sum.splits)
  with run_root[OF st(1)] show ?thesis by (auto simp: started_def)
qed

lemma monitor_started:
  assumes "i \<notin> set (active_pipelines mon)"
  shows "set (active_pipelines (on_pipeline_started (Some i) t mon)) = insert i (set (active_pipelines mon))"
    "completed (m_metrics (on_pipeline_started (Some i) t mon)) = completed (m_metrics mon)"
    "failed (m_metrics (on_pipeline_started (Some i) t mon)) = failed (m_metrics mon)"
  by (simp_all add: on_pipeline_started_def Let_def)

lemma monitor_ended:
  "set (active_pipelines (on_pipeline_ended (Some i) ok t mon)) = set (active_pipelines mon) - {i}"
  "completed (m_metrics (on_pipeline_ended (Some i) ok t mon)) = completed (m_metrics mon) + (if ok then 1 else 0)"
  "failed (m_metrics (on_pipeline_ended (Some i) ok t mon)) = failed (m_metrics mon) + (if ok then 0 else 1)"
  by (simp_all add: on_pipeline_ended_def Let_def)

lemma report_mid:
  assumes "run_report env cls res mid exc" and "start fuel env cls True p = Some (res, sgs)"
  shows "mid = [] \<or> (\<exists>x. mid = [Wrapper_Failed x]) \<or>
    (\<exists>q. mid = [Pipeline_Execution_End q] \<and> started q \<and> pipe_id q = pipe_id p \<and> judged_ok env cls q)"
proof (cases res)
  case (Inr q)
  note id = start_identity[OF assms(2)[unfolded Inr]]
  from assms(1)[unfolded Inr] show ?thesis
    by (cases rule: run_report_Inr) (use id in auto)
qed (use assms in \<open>simp add: run_report_def\<close>)

lemma lifecycle_other:
  "event_type m \<in> {Wrapper_Started, Wrapper_Failed x, Wrapper_Finished d s b} \<Longrightarrow> handle_lifecycle env cls num t mon m = mon"
  by (auto simp: handle_lifecycle_def)

text \<open>What the metrics become: only a run that reported its end is counted.\<close>

definition counted :: "nat \<Rightarrow> bool \<Rightarrow> monitor \<Rightarrow> monitor \<Rightarrow> bool" where
  "counted i ended mon mon' \<longleftrightarrow>
     failed (m_metrics mon') = failed (m_metrics mon) \<and>
     completed (m_metrics mon') = completed (m_metrics mon) + (if ended then 1 else 0) \<and>
     set (active_pipelines mon') = (if ended then set (active_pipelines mon) else insert i (set (active_pipelines mon)))"

lemma monitor_counts:
  assumes "i = num (pipe_id p)" and "i \<notin> set (active_pipelines mon)"
    and "map event_type ms = [Wrapper_Started, Pipeline_Execution_Start p] @ mid @ [Wrapper_Finished d s b]"
    and "mid = [] \<or> (\<exists>x. mid = [Wrapper_Failed x]) \<or>
      (\<exists>q. mid = [Pipeline_Execution_End q] \<and> started q \<and> pipe_id q = pipe_id p \<and> judged_ok env cls q)"
  shows "counted i (\<exists>q. mid = [Pipeline_Execution_End q]) mon (foldl (handle_lifecycle env cls num t) mon ms)"
proof -
  obtain m1 m2 ms' m4 where ms: "ms = m1 # m2 # ms' @ [m4]" and ev: "event_type m1 = Wrapper_Started"
      "event_type m2 = Pipeline_Execution_Start p" "map event_type ms' = mid" "event_type m4 = Wrapper_Finished d s b"
    using assms(3) by (auto simp: map_eq_Cons_conv map_eq_append_conv)
  let ?h = "handle_lifecycle env cls num t"
  let ?m2 = "on_pipeline_started (Some i) t mon"
  have fold: "foldl ?h mon ms = foldl ?h ?m2 ms'"
    using ms ev(1,2,4) assms(1) by (simp add: lifecycle_other[of m1] lifecycle_other[of m4] handle_lifecycle_def)
  show ?thesis using assms(4)
  proof (elim disjE exE conjE)
    fix q assume q: "mid = [Pipeline_Execution_End q]" "started q" "pipe_id q = pipe_id p" "judged_ok env cls q"
    then obtain m3 where "ms' = [m3]" "event_type m3 = Pipeline_Execution_End q" using ev(3) by auto
    then have "foldl ?h mon ms = on_pipeline_ended (Some i) True t ?m2" using fold q assms(1) by (simp add: handle_lifecycle_def)
    then show ?thesis using q(1) assms(2) by (auto simp: counted_def monitor_started monitor_ended)
  next
    fix x assume x: "mid = [Wrapper_Failed x]"
    then have "foldl ?h mon ms = ?m2" using fold ev(3) by (auto simp: lifecycle_other)
    then show ?thesis using x assms(2) by (simp add: counted_def monitor_started)
  qed (use fold ev(3) assms(2) in \<open>simp add: counted_def monitor_started\<close>)
qed

text \<open>A wrapped run returns, and what it sends.\<close>

lemma wrapper_sends:
  assumes "make_class cname flds pointy file = Inr cls" and "fair_env (w_exec we)" and "3 * length (cls_tasks cls) \<le> fuel"
    and "\<forall>m. queue_accepts we m"
  shows "\<exists>w res sgs mid d. wrapper_run fuel we cls (mk_wrapper p focus) = Some (w, w_pipeline w, w_exception w) \<and>
    start fuel (w_exec we) cls True p = Some (res, sgs) \<and> w_state w = W_FINISHED \<and> connected_signals w = [] \<and>
    map event_type (sent w) = [Wrapper_Started, Pipeline_Execution_Start p] @ mid @ [Wrapper_Finished d W_FINISHED (w_exception w \<noteq> None)] \<and>
    run_report (w_exec we) cls res mid (w_exception w)"
proof -
  let ?w0 = "(mk_wrapper p focus)\<lparr>w_start_time := Some (started_at we), w_state := W_INITIALIZING,
    sent := [\<lparr>event_type = Wrapper_Started, msg_state = W_INITIALIZING\<rparr>]\<rparr>"
  let ?w2 = "connect_signals we ?w0"
  have w2: "w_pipeline ?w2 = p" "sent ?w2 = sent ?w0" "w_exception ?w2 = None"
    by (simp_all add: connect_signals_def mk_wrapper_def)
  obtain w' ms res sgs where h: "handle_pipeline_execution fuel we cls ?w2 = Some w'" "start fuel (w_exec we) cls True p = Some (res, sgs)"
      "sent w' = sent ?w2 @ \<lparr>event_type = Pipeline_Execution_Start p, msg_state = W_RUNNING\<rparr> # ms"
      "run_report (w_exec we) cls res (map event_type ms) (w_exception w')"
    using handle_report[OF assms(1-4) w2(3)] w2(1) by auto
  define d where "d = (case w_start_time w' of None \<Rightarrow> 0 | Some s \<Rightarrow> (if s = 0 then 0 else ended_at we - s))"
  define w where "w = disconnect_signals (send_wrapper_lifecycle_event we (Wrapper_Finished d W_FINISHED (w_exception w' \<noteq> None))
    (w'\<lparr>w_end_time := Some (ended_at we), w_state := W_FINISHED\<rparr>))"
  have w: "w_state w = W_FINISHED" "connected_signals w = []" "w_exception w = w_exception w'"
      "map event_type (sent w) = [Wrapper_Started, Pipeline_Execution_Start p] @ map event_type ms @ [Wrapper_Finished d W_FINISHED (w_exception w \<noteq> None)]"
    using assms(4) h(3) w2(2) by (simp_all add: w_def disconnect_signals_def mk_wrapper_def)
  have run: "wrapper_run fuel we cls (mk_wrapper p focus) = Some (w, w_pipeline w, w_exception w)"
    using assms(4) h(1) by (simp add: wrapper_run_def Let_def w_def d_def mk_wrapper_def)
  from run h(2,4) w show ?thesis by (intro exI[of _ w] exI[of _ res] exI[of _ sgs] exI[of _ "map event_type ms"] exI[of _ d]) simp
qed

section \<open>Property\<close>


definition demo_wrapper_env :: "(nat \<Rightarrow> bool) \<Rightarrow> wrapper_env" where
  "demo_wrapper_env bad =
     \<lparr>w_exec = demo_env bad, queue_accepts = (\<lambda>m. True), connectable = (\<lambda>n. True), started_at = 5, ended_at = 7\<rparr>"


end
