(* ===== verification/Telemetry.thy ===== *)
theory Telemetry
  imports Result_Set
begin

text \<open>
  Telemetry: the event metrics and the two loggers (\<^verbatim>\<open>src/nexus/telemetry/logger.py\<close>), the collector
  that feeds them (\<^verbatim>\<open>src/nexus/telemetry/collector.py\<close>), the reporter
  (\<^verbatim>\<open>src/nexus/telemetry/reporter.py\<close>) and the network telemetry
  (\<^verbatim>\<open>src/nexus/telemetry/network.py\<close>).

  The metrics of an event are an object in a result set; \<open>end_event\<close> and \<open>record_retry\<close> find it by
  event name and task and change it in place. The identity of a new object and the time are arguments.
  A publisher is known by a number; the calls made to publishers are recorded in \<open>published\<close>, and what
  a publisher raises is logged by the code and has no other effect.
\<close>

section \<open>Event metrics\<close>

record event_metrics =
  em_event_name :: string
  em_task_id :: string
  em_start_time :: rat
  em_end_time :: "rat option"
  em_status :: string
  em_error :: "string option"
  em_retry_count :: int
  em_process_id :: "int option"
  em_pipeline_id :: "string option"

definition opt_val :: "('a \<Rightarrow> pyval) \<Rightarrow> 'a option \<Rightarrow> pyval" where
  "opt_val f v = (case v of None \<Rightarrow> PNone | Some x \<Rightarrow> f x)"

text \<open>The object: its attributes in the order of the data class.\<close>

definition metrics_object :: "string \<Rightarrow> event_metrics \<Rightarrow> entity" where
  "metrics_object i m =
     \<lparr>ent_id = i, ent_connector = None, ent_import_str = ''nexus.telemetry.logger.EventMetrics'',
      ent_attrs =
        [(''event_name'', PStr (em_event_name m)), (''task_id'', PStr (em_task_id m)), (''start_time'', PFloat (em_start_time m)),
         (''end_time'', opt_val PFloat (em_end_time m)), (''status'', PStr (em_status m)), (''error'', opt_val PStr (em_error m)),
         (''retry_count'', PInt (em_retry_count m)), (''process_id'', opt_val PInt (em_process_id m)),
         (''pipeline_id'', opt_val PStr (em_pipeline_id m))]\<rparr>"

definition new_metrics :: "string \<Rightarrow> string \<Rightarrow> rat \<Rightarrow> int option \<Rightarrow> string option \<Rightarrow> event_metrics" where
  "new_metrics name task t pid pipe =
     \<lparr>em_event_name = name, em_task_id = task, em_start_time = t, em_end_time = None, em_status = ''pending'',
      em_error = None, em_retry_count = 0, em_process_id = pid, em_pipeline_id = pipe\<rparr>"

definition set_attr :: "string \<Rightarrow> pyval \<Rightarrow> entity \<Rightarrow> entity" where
  "set_attr k v r = r\<lparr>ent_attrs := dict_set k v (ent_attrs r)\<rparr>"

definition float_attr :: "entity \<Rightarrow> string \<Rightarrow> rat option" where
  "float_attr r k = (case get_attr r k of Some (PFloat x) \<Rightarrow> Some x | _ \<Rightarrow> None)"

definition duration :: "entity \<Rightarrow> rat" where
  "duration r =
     (case float_attr r ''end_time'' of
        None \<Rightarrow> 0
      | Some e \<Rightarrow> (if e = 0 then 0 else e - (case float_attr r ''start_time'' of Some s \<Rightarrow> s | None \<Rightarrow> 0)))"

definition retry_count_of :: "entity \<Rightarrow> int" where
  "retry_count_of r = (case get_attr r ''retry_count'' of Some (PInt n) \<Rightarrow> n | _ \<Rightarrow> 0)"

section \<open>The standard logger\<close>

record std_logger =
  std_metrics :: result_set
  std_publishers :: "nat list"
  std_published :: "(nat \<times> entity) list"

definition mk_std_logger :: std_logger where
  "mk_std_logger = \<lparr>std_metrics = mk_result_set [], std_publishers = [], std_published = []\<rparr>"

definition std_add_publisher :: "nat \<Rightarrow> std_logger \<Rightarrow> std_logger" where
  "std_add_publisher p lg = lg\<lparr>std_publishers := std_publishers lg @ [p]\<rparr>"

definition std_remove_publisher :: "nat \<Rightarrow> std_logger \<Rightarrow> std_logger" where
  "std_remove_publisher p lg = lg\<lparr>std_publishers := remove1 p (std_publishers lg)\<rparr>"

definition event_filter :: "string \<Rightarrow> string \<Rightarrow> (string, pyval) dict" where
  "event_filter name task = [(''event_name'', PStr name), (''task_id'', PStr task)]"

text \<open>A member of the set is changed in place.\<close>

definition mutate :: "entity \<Rightarrow> result_set \<Rightarrow> result_set" where
  "mutate r rs = rs\<lparr>content := dict_set (ent_id r) r (content rs)\<rparr>"

definition std_start_event ::
  "string \<Rightarrow> rat \<Rightarrow> string \<Rightarrow> string \<Rightarrow> int option \<Rightarrow> string option \<Rightarrow> std_logger \<Rightarrow> exc_class + std_logger" where
  "std_start_event i t name task pid pipe lg =
     bind_res (rs_add (AnEntity (metrics_object i (new_metrics name task t pid pipe))) (std_metrics lg)) (\<lambda>rs.
     Inr (lg\<lparr>std_metrics := rs\<rparr>))"

text \<open>An empty error string counts as no error for the status, but is stored.\<close>

definition finish_metrics :: "rat \<Rightarrow> string option \<Rightarrow> entity \<Rightarrow> entity" where
  "finish_metrics t error r =
     set_attr ''error'' (opt_val PStr error)
       (set_attr ''status'' (PStr (if error \<noteq> None \<and> error \<noteq> Some [] then ''failed'' else ''completed''))
         (set_attr ''end_time'' (PFloat t) r))"

definition std_end_event :: "rat \<Rightarrow> string \<Rightarrow> string \<Rightarrow> string option \<Rightarrow> std_logger \<Rightarrow> exc_class + std_logger" where
  "std_end_event t task name error lg =
     (case rs_get (std_metrics lg) (event_filter name task) of
        Inl e \<Rightarrow> (if is_subclass e MultiValueError \<or> is_subclass e ObjectDoesNotExist then Inr lg else Inl e)
      | Inr r \<Rightarrow>
          (let r' = finish_metrics t error r
           in Inr (lg\<lparr>std_metrics := mutate r' (std_metrics lg),
                      std_published := std_published lg @ map (\<lambda>p. (p, r')) (std_publishers lg)\<rparr>)))"

definition count_retry :: "entity \<Rightarrow> entity" where
  "count_retry r = set_attr ''retry_count'' (PInt (retry_count_of r + 1)) r"

definition std_record_retry :: "string \<Rightarrow> string \<Rightarrow> std_logger \<Rightarrow> exc_class + std_logger" where
  "std_record_retry task name lg =
     bind_res (rs_get (std_metrics lg) (event_filter name task)) (\<lambda>r.
     Inr (lg\<lparr>std_metrics := mutate (count_retry r) (std_metrics lg)\<rparr>))"

definition std_get_metrics :: "string option \<Rightarrow> std_logger \<Rightarrow> exc_class + entity" where
  "std_get_metrics name lg = rs_get (std_metrics lg) [(''event_name'', opt_val PStr name)]"

section \<open>The logger for batches\<close>

record batch_logger =
  bat_metrics :: "(string option, result_set) dict"
  bat_publishers :: "nat list"
  bat_published :: "(nat \<times> entity) list"

definition mk_batch_logger :: batch_logger where
  "mk_batch_logger = \<lparr>bat_metrics = [], bat_publishers = [], bat_published = []\<rparr>"

definition bat_start_event ::
  "string \<Rightarrow> rat \<Rightarrow> string \<Rightarrow> string \<Rightarrow> int option \<Rightarrow> string option \<Rightarrow> batch_logger \<Rightarrow> exc_class + batch_logger" where
  "bat_start_event i t name task pid pipe lg =
     (let rs = (case dict_get (bat_metrics lg) pipe of None \<Rightarrow> mk_result_set [] | Some s \<Rightarrow> s)
      in bind_res (rs_add (AnEntity (metrics_object i (new_metrics name task t pid pipe))) rs) (\<lambda>rs'.
         Inr (lg\<lparr>bat_metrics := dict_set pipe rs' (bat_metrics lg)\<rparr>)))"

definition bat_end_event :: "rat \<Rightarrow> string \<Rightarrow> string \<Rightarrow> string option \<Rightarrow> string option \<Rightarrow> batch_logger \<Rightarrow> exc_class + batch_logger" where
  "bat_end_event t task name error pipe lg =
     (case dict_get (bat_metrics lg) pipe of
        None \<Rightarrow> Inr lg
      | Some rs \<Rightarrow>
          (case rs_get rs (event_filter name task) of
             Inl e \<Rightarrow> (if is_subclass e ObjectDoesNotExist then Inr lg else Inl e)
           | Inr r \<Rightarrow>
               (let r' = finish_metrics t error r
                in Inr (lg\<lparr>bat_metrics := dict_set pipe (mutate r' rs) (bat_metrics lg),
                           bat_published := bat_published lg @ map (\<lambda>p. (p, r')) (bat_publishers lg)\<rparr>))))"

definition bat_record_retry :: "string \<Rightarrow> string \<Rightarrow> string option \<Rightarrow> batch_logger \<Rightarrow> exc_class + batch_logger" where
  "bat_record_retry task name pipe lg =
     bind_res (of_option KeyError (dict_get (bat_metrics lg) pipe)) (\<lambda>rs.
     bind_res (rs_get rs (event_filter name task)) (\<lambda>r.
     Inr (lg\<lparr>bat_metrics := dict_set pipe (mutate (count_retry r) rs) (bat_metrics lg)\<rparr>)))"

definition bat_get_metrics :: "string option \<Rightarrow> batch_logger \<Rightarrow> exc_class + result_set" where
  "bat_get_metrics pipe lg = of_option KeyError (dict_get (bat_metrics lg) pipe)"

section \<open>The collector\<close>

text \<open>What the signals of the execution do to the standard logger; an event is known by its class name and
  task. The error is the first one of the context.\<close>

datatype telemetry_signal =
    EventInit "(string \<times> string) option" "int option" "string option"
  | EventEnd "(string \<times> string) option" "string list"
  | EventRetry string string

definition collect_signal :: "string \<Rightarrow> rat \<Rightarrow> telemetry_signal \<Rightarrow> std_logger \<Rightarrow> exc_class + std_logger" where
  "collect_signal i t sg lg =
     (case sg of
        EventInit None pid pipe \<Rightarrow> Inr lg
      | EventInit (Some (name, task)) pid pipe \<Rightarrow> std_start_event i t name task pid pipe lg
      | EventEnd None errs \<Rightarrow> Inr lg
      | EventEnd (Some (name, task)) errs \<Rightarrow>
          std_end_event t task name (case errs of [] \<Rightarrow> None | e # es \<Rightarrow> Some e) lg
      | EventRetry task name \<Rightarrow> std_record_retry task name lg)"

section \<open>The reporter\<close>

definition get_failed_events :: "entity list \<Rightarrow> entity list" where
  "get_failed_events ms = filter (\<lambda>r. get_attr r ''status'' = Some (PStr ''failed'')) ms"

definition get_slow_events :: "rat \<Rightarrow> entity list \<Rightarrow> entity list" where
  "get_slow_events threshold ms = filter (\<lambda>r. duration r > threshold) ms"

record retry_stats =
  total_retries :: int
  events_with_retries :: nat
  events_by_retry_count :: "nat list"

definition get_retry_stats :: "entity list \<Rightarrow> retry_stats" where
  "get_retry_stats ms =
     (let top = (if ms = [] then 0 else Max (retry_count_of ` set ms))
      in \<lparr>total_retries = sum_list (map retry_count_of ms),
          events_with_retries = length (filter (\<lambda>r. retry_count_of r > 0) ms),
          events_by_retry_count = map (\<lambda>i. length (filter (\<lambda>r. retry_count_of r = int i) ms)) [0..<nat (top + 1)]\<rparr>)"

definition flatten_metrics :: "(string option, result_set) dict \<Rightarrow> entity list" where
  "flatten_metrics d = concat (map (\<lambda>rs. dict_values (content rs)) (dict_values d))"

section \<open>Network operations\<close>

record network_metrics =
  nm_task_id :: string
  nm_host :: string
  nm_port :: int
  nm_start_time :: rat
  nm_end_time :: "rat option"
  nm_bytes_sent :: int
  nm_bytes_received :: int
  nm_error :: "string option"
  nm_operation :: string

definition latency :: "network_metrics \<Rightarrow> rat" where
  "latency m = (case nm_end_time m of None \<Rightarrow> 0 | Some e \<Rightarrow> (if e = 0 then 0 else e - nm_start_time m))"

record network_telemetry =
  net_metrics :: "(string, network_metrics) dict"
  net_publishers :: "nat list"
  net_published :: "(nat \<times> network_metrics \<times> rat) list"

definition start_operation :: "rat \<Rightarrow> string \<Rightarrow> string \<Rightarrow> int \<Rightarrow> string \<Rightarrow> network_telemetry \<Rightarrow> network_telemetry" where
  "start_operation t task host port op nt =
     nt\<lparr>net_metrics := dict_set task
        \<lparr>nm_task_id = task, nm_host = host, nm_port = port, nm_start_time = t, nm_end_time = None,
         nm_bytes_sent = 0, nm_bytes_received = 0, nm_error = None, nm_operation = op\<rparr> (net_metrics nt)\<rparr>"

definition end_operation :: "rat \<Rightarrow> string \<Rightarrow> int \<Rightarrow> int \<Rightarrow> string option \<Rightarrow> network_telemetry \<Rightarrow> network_telemetry" where
  "end_operation t task sent_bytes received_bytes error nt =
     (case dict_get (net_metrics nt) task of
        None \<Rightarrow> nt
      | Some m \<Rightarrow>
          (let m' = m\<lparr>nm_end_time := Some t, nm_bytes_sent := sent_bytes, nm_bytes_received := received_bytes, nm_error := error\<rparr>
           in nt\<lparr>net_metrics := dict_set task m' (net_metrics nt),
                 net_published := net_published nt @ map (\<lambda>p. (p, m', latency m')) (net_publishers nt)\<rparr>))"

definition get_failed_operations :: "network_telemetry \<Rightarrow> (string, network_metrics) dict" where
  "get_failed_operations nt = filter (\<lambda>(k, m). nm_error m \<noteq> None) (net_metrics nt)"

definition get_slow_operations :: "rat \<Rightarrow> network_telemetry \<Rightarrow> (string, network_metrics) dict" where
  "get_slow_operations threshold nt = filter (\<lambda>(k, m). latency m > threshold) (net_metrics nt)"

end
