(* ===== verification/Telemetry_Props.thy ===== *)
theory Telemetry_Props
  imports Telemetry
begin

text \<open>
  The standard telemetry logger refines a ledger: a list of event metrics in which an event is looked
  up by name and task, and changed only when exactly one entry matches.
\<close>

section \<open>The ledger\<close>

type_synonym ledger = "(string \<times> event_metrics) list"

definition is_event :: "string \<Rightarrow> string \<Rightarrow> string \<times> event_metrics \<Rightarrow> bool" where
  "is_event name task x \<longleftrightarrow> em_event_name (snd x) = name \<and> em_task_id (snd x) = task"

definition change :: "string \<Rightarrow> string \<Rightarrow> (event_metrics \<Rightarrow> event_metrics) \<Rightarrow> ledger \<Rightarrow> ledger" where
  "change name task f xs = map (\<lambda>x. if is_event name task x then (fst x, f (snd x)) else x) xs"

definition finished :: "rat \<Rightarrow> string option \<Rightarrow> event_metrics \<Rightarrow> event_metrics" where
  "finished t error m =
     m\<lparr>em_end_time := Some t, em_error := error,
       em_status := (case error of None \<Rightarrow> ''completed'' | Some e \<Rightarrow> if e = [] then ''completed'' else ''failed'')\<rparr>"

text \<open>One signal: the exception it ends with, if any, and the ledger after it. An end that matches several
  entries changes nothing.\<close>

definition ledger_step :: "string \<times> rat \<times> telemetry_signal \<Rightarrow> ledger \<Rightarrow> exc_class option \<times> ledger" where
  "ledger_step = (\<lambda>(i, t, sg) xs.
     case sg of
       EventInit None pid pipe \<Rightarrow> (None, xs)
     | EventInit (Some (name, task)) pid pipe \<Rightarrow> (None, xs @ [(i, new_metrics name task t pid pipe)])
     | EventEnd None errs \<Rightarrow> (None, xs)
     | EventEnd (Some (name, task)) errs \<Rightarrow>
         (case length (filter (is_event name task) xs) of
            0 \<Rightarrow> (Some KeyError, xs)
          | Suc 0 \<Rightarrow> (None, change name task (finished t (case errs of [] \<Rightarrow> None | e # es \<Rightarrow> Some e)) xs)
          | Suc (Suc n) \<Rightarrow> (None, xs))
     | EventRetry task name \<Rightarrow>
         (case length (filter (is_event name task) xs) of
            0 \<Rightarrow> (Some KeyError, xs)
          | Suc 0 \<Rightarrow> (None, change name task (\<lambda>m. m\<lparr>em_retry_count := em_retry_count m + 1\<rparr>) xs)
          | Suc (Suc n) \<Rightarrow> (Some MultiValueError, xs)))"

text \<open>The logger at a signal: an exception is the response of the listener and leaves the logger as it was.\<close>

definition logger_step :: "string \<times> rat \<times> telemetry_signal \<Rightarrow> std_logger \<Rightarrow> exc_class option \<times> std_logger" where
  "logger_step = (\<lambda>(i, t, sg) lg. case collect_signal i t sg lg of Inl e \<Rightarrow> (Some e, lg) | Inr lg' \<Rightarrow> (None, lg'))"

fun run_steps :: "('a \<Rightarrow> 's \<Rightarrow> 'e \<times> 's) \<Rightarrow> 'a list \<Rightarrow> 's \<Rightarrow> 'e list \<times> 's" where
  "run_steps f [] s = ([], s)"
| "run_steps f (x # xs) s = (let (e, s1) = f x s; (es, s2) = run_steps f xs s1 in (e # es, s2))"

section \<open>Correspondence\<close>

definition object_entry :: "string \<times> event_metrics \<Rightarrow> string \<times> entity" where
  "object_entry x = (fst x, metrics_object (fst x) (snd x))"

definition tracks :: "std_logger \<Rightarrow> ledger \<Rightarrow> bool" where
  "tracks lg xs \<longleftrightarrow> content (std_metrics lg) = map object_entry xs \<and> distinct (map fst xs)"

lemma object_entry_simps [simp]: "fst (object_entry x) = fst x" "snd (object_entry x) = metrics_object (fst x) (snd x)"
  by (simp_all add: object_entry_def)

lemma object_id [simp]: "ent_id (metrics_object i m) = i"
  by (simp add: metrics_object_def)

lemma tracks_ok: "tracks lg xs \<Longrightarrow> rs_ok (std_metrics lg)"
  by (auto simp: tracks_def rs_ok_def dict_ok_def comp_def object_entry_def metrics_object_def)

lemma object_matches:
  "matches_filters (metrics_object i m) (event_filter name task) = Inr (is_event name task (i, m))"
  by (auto simp: event_filter_def metrics_object_def matches_one_def get_attr_def is_event_def)

lemma get_event:
  assumes "tracks lg xs"
  shows "rs_get (std_metrics lg) (event_filter name task) =
    (case filter (is_event name task) xs of
       [] \<Rightarrow> Inl KeyError | [x] \<Rightarrow> Inr (metrics_object (fst x) (snd x)) | _ \<Rightarrow> Inl MultiValueError)"
proof -
  let ?rs = "std_metrics lg" and ?fs = "event_filter name task"
  have c: "content ?rs = map object_entry xs" using assms by (simp add: tracks_def)
  have m: "matches_filters (snd (object_entry x)) ?fs = Inr (is_event name task x)" for x
    using object_matches[of "fst x" "snd x"] by simp
  have "\<forall>r \<in> set (dict_values (content ?rs)). \<exists>b. matches_filters r ?fs = Inr b" using c m by auto
  then obtain q where q: "rs_filter ?rs ?fs = Inr q"
    using filter_loop_total[of "dict_values (content ?rs)" ?fs] by (auto simp: rs_filter_def rs_filter_slow_def event_filter_def)
  have "filter (\<lambda>x. matches_filters (snd x) ?fs = Inr True) (content ?rs) = map object_entry (filter (is_event name task) xs)"
    unfolding c filter_map by (simp add: comp_def object_matches)
  then show ?thesis using rs_get_unique[OF tracks_ok[OF assms] q] by (auto split: list.splits)
qed

lemma finish_object: "finish_metrics t error (metrics_object i m) = metrics_object i (finished t error m)"
  by (cases error) (simp_all add: finish_metrics_def finished_def metrics_object_def set_attr_def opt_val_def)

lemma retry_object:
  "count_retry (metrics_object i m) = metrics_object i (m\<lparr>em_retry_count := em_retry_count m + 1\<rparr>)"
  by (simp add: count_retry_def retry_count_of_def get_attr_def metrics_object_def set_attr_def)

lemma dict_set_replace: "distinct (map fst d) \<Longrightarrow> k \<in> set (map fst d) \<Longrightarrow> dict_set k v d = map (\<lambda>x. if fst x = k then (k, v) else x) d"
proof (induction d)
  case (Cons x d)
  obtain k' v' where x: "x = (k', v')" by (cases x)
  show ?case
  proof (cases "k' = k")
    case True
    then have "\<forall>y \<in> set d. fst y \<noteq> k" using Cons.prems(1) x by auto
    then have "map (\<lambda>x. if fst x = k then (k, v) else x) d = d" by (induction d) auto
    then show ?thesis using True x by simp
  next
    case False
    then show ?thesis using Cons x by auto
  qed
qed simp

lemma mutate_tracks:
  assumes "tracks lg xs" and "filter (is_event name task) xs = [x]"
  shows "content (mutate (metrics_object (fst x) (f (snd x))) (std_metrics lg)) = map object_entry (change name task f xs)"
proof -
  have c: "content (std_metrics lg) = map object_entry xs" and d: "distinct (map fst xs)" using assms(1) by (simp_all add: tracks_def)
  have "x \<in> set (filter (is_event name task) xs)" using assms(2) by simp
  then have x: "x \<in> set xs" "is_event name task x" by simp_all
  have only: "is_event name task y \<longleftrightarrow> fst y = fst x" if "y \<in> set xs" for y
  proof
    assume "is_event name task y"
    then have "y \<in> set (filter (is_event name task) xs)" using that by simp
    then show "fst y = fst x" using assms(2) by simp
  next
    assume "fst y = fst x"
    then have "y = x" using that x(1) d by (metis eq_key_imp_eq_value prod.collapse)
    then show "is_event name task y" using x(2) by simp
  qed
  have "distinct (map fst (map object_entry xs))" "fst x \<in> set (map fst (map object_entry xs))"
    using d x(1) by (simp_all add: comp_def)
  then have "content (mutate (metrics_object (fst x) (f (snd x))) (std_metrics lg)) =
      map (\<lambda>e. if fst e = fst x then (fst x, metrics_object (fst x) (f (snd x))) else e) (map object_entry xs)"
    using dict_set_replace[of "map object_entry xs" "fst x"] c by (simp add: mutate_def del: map_map set_map)
  also have "\<dots> = map object_entry (change name task f xs)"
  proof -
    have "(if fst e = fst x then (fst x, metrics_object (fst x) (f (snd x))) else object_entry e) =
        object_entry (if is_event name task e then (fst e, f (snd e)) else e)" if "e \<in> set xs" for e
    proof (cases "fst e = fst x")
      case True
      then have "e = x" using that x(1) d by (metis eq_key_imp_eq_value prod.collapse)
      then show ?thesis using only[OF that] by (simp add: object_entry_def)
    qed (use only[OF that] in \<open>simp\<close>)
    then show ?thesis by (simp add: change_def comp_def)
  qed
  finally show ?thesis .
qed

lemma change_fst: "map fst (change name task f xs) = map fst xs"
  by (simp add: change_def comp_def)

text \<open>One signal: the same outcome, and the logger still tracks the ledger.\<close>

lemma step_tracks:
  assumes "tracks lg xs" and "i \<notin> set (map fst xs)" and "logger_step (i, t, sg) lg = (e, lg')" and "ledger_step (i, t, sg) xs = (e', xs')"
  shows "e = e' \<and> tracks lg' xs' \<and> set (map fst xs') \<subseteq> insert i (set (map fst xs))"
proof -
  note m = mutate_tracks[OF assms(1)]
  have d: "distinct (map fst xs)" using assms(1) by (simp add: tracks_def)
  have sub: "is_subclass KeyError MultiValueError = False" "is_subclass KeyError ObjectDoesNotExist = False" "is_subclass MultiValueError MultiValueError"
    by code_simp+
  have cases3: "(\<exists>x. ys = [x]) \<or> ys = [] \<or> (\<exists>x y zs. ys = x # y # zs)" for ys :: ledger
    by (cases ys rule: remdups_adj.cases) auto
  show ?thesis
  proof (cases sg)
    case (EventInit ev pid pipe)
    show ?thesis
    proof (cases ev)
      case (Some nk)
      obtain name task where nk: "nk = (name, task)" by (cases nk)
      have "\<not> dict_has (content (std_metrics lg)) i" using assms(1,2) by (simp add: dict_has_def tracks_def comp_def)
      then show ?thesis using assms d EventInit Some nk
        by (auto simp: logger_step_def ledger_step_def collect_signal_def std_start_event_def rs_add_def insert_entity_def tracks_def
            object_entry_def metrics_object_def dict_set_new)
    qed (use assms EventInit in \<open>auto simp: logger_step_def ledger_step_def collect_signal_def\<close>)
  next
    case (EventEnd ev errs)
    show ?thesis
    proof (cases ev)
      case (Some nk)
      obtain name task where nk: "nk = (name, task)" by (cases nk)
      let ?err = "case errs of [] \<Rightarrow> None | e # es \<Rightarrow> Some e"
      from cases3[of "filter (is_event name task) xs"] show ?thesis
      proof (elim disjE exE)
        fix x assume x: "filter (is_event name task) xs = [x]"
        then show ?thesis using assms(3,4) get_event[OF assms(1), of name task] m[OF x, of "finished t ?err"] EventEnd Some nk d
          by (auto simp: logger_step_def ledger_step_def collect_signal_def std_end_event_def Let_def tracks_def change_fst finish_object simp del: set_map)
      qed (use assms get_event[OF assms(1), of name task] EventEnd Some nk sub in
        \<open>auto simp: logger_step_def ledger_step_def collect_signal_def std_end_event_def\<close>)
    qed (use assms EventEnd in \<open>auto simp: logger_step_def ledger_step_def collect_signal_def\<close>)
  next
    case (EventRetry task name)
    from cases3[of "filter (is_event name task) xs"] show ?thesis
    proof (elim disjE exE)
      fix x assume x: "filter (is_event name task) xs = [x]"
      then show ?thesis using assms(3,4) get_event[OF assms(1), of name task]
          m[OF x, of "\<lambda>m. m\<lparr>em_retry_count := em_retry_count m + 1\<rparr>"] EventRetry d
        by (auto simp: logger_step_def ledger_step_def collect_signal_def std_record_retry_def tracks_def change_fst retry_object simp del: set_map)
    qed (use assms get_event[OF assms(1), of name task] EventRetry in
      \<open>auto simp: logger_step_def ledger_step_def collect_signal_def std_record_retry_def\<close>)
  qed
qed

lemma run_tracks:
  assumes "tracks lg xs" and "distinct (map fst sgs)" and "set (map fst sgs) \<inter> set (map fst xs) = {}"
    and "run_steps logger_step sgs lg = (es, lg')" and "run_steps ledger_step sgs xs = (es', xs')"
  shows "es = es' \<and> tracks lg' xs'"
  using assms
proof (induction sgs arbitrary: lg xs es es')
  case (Cons sg sgs)
  obtain i t s where sg: "sg = (i, t, s)" by (rule prod_cases3)
  obtain e1 lg1 e1' xs1 where 1: "logger_step sg lg = (e1, lg1)" "ledger_step sg xs = (e1', xs1)" by (metis surj_pair)
  obtain es1 es1' where 2: "run_steps logger_step sgs lg1 = (es1, lg')" "run_steps ledger_step sgs xs1 = (es1', xs')"
      "es = e1 # es1" "es' = e1' # es1'"
    using Cons.prems(4,5) 1 by (auto simp: Let_def split: prod.splits)
  have i: "i \<notin> set (map fst xs)" using Cons.prems(3) sg by auto
  from step_tracks[OF Cons.prems(1) this 1[unfolded sg]]
  have s: "e1 = e1'" "tracks lg1 xs1" "set (map fst xs1) \<subseteq> insert i (set (map fst xs))" by blast+
  have "set (map fst sgs) \<inter> set (map fst xs1) = {}" "distinct (map fst sgs)"
    using Cons.prems(2,3) s(3) sg by (auto simp del: set_map simp add: list.simps(9)) 
  with Cons.IH[OF s(2) _ _ 2(1,2)] s(1) 2(3,4) show ?case by simp
qed simp

section \<open>Reports\<close>

lemma retry_count_object [simp]: "retry_count_of (metrics_object i m) = em_retry_count m"
  by (simp add: retry_count_of_def metrics_object_def get_attr_def)

lemma status_object [simp]: "get_attr (metrics_object i m) ''status'' = Some (PStr (em_status m))"
  by (simp add: metrics_object_def get_attr_def)

definition retries :: "ledger \<Rightarrow> int" where
  "retries xs = sum_list (map (\<lambda>x. em_retry_count (snd x)) xs)"

lemma change_retries:
  assumes "length (filter (is_event name task) xs) = Suc 0" and "\<And>m. em_retry_count (f m) = em_retry_count m + d"
  shows "retries (change name task f xs) = retries xs + d"
proof -
  have "retries (change name task f xs) = retries xs + int (length (filter (is_event name task) xs)) * d"
    using assms(2) by (induction xs) (auto simp: retries_def change_def algebra_simps)
  then show ?thesis using assms(1) by simp
qed

text \<open>The retry signals that were counted.\<close>

definition counted_retries :: "(string \<times> rat \<times> telemetry_signal) list \<Rightarrow> exc_class option list \<Rightarrow> nat" where
  "counted_retries sgs es =
     length (filter (\<lambda>((i, t, sg), e). e = None \<and> (case sg of EventRetry task name \<Rightarrow> True | _ \<Rightarrow> False)) (zip sgs es))"

lemma step_retries:
  assumes "ledger_step (i, t, sg) xs = (e, xs')"
  shows "retries xs' = retries xs + (if e = None \<and> (case sg of EventRetry task name \<Rightarrow> True | _ \<Rightarrow> False) then 1 else 0)"
proof (cases sg)
  case (EventInit ev pid pipe)
  then show ?thesis using assms
    by (cases ev) (auto simp: ledger_step_def retries_def new_metrics_def)
next
  case (EventEnd ev errs)
  have "em_retry_count (finished t x m) = em_retry_count m + 0" for x m by (simp add: finished_def)
  then show ?thesis using assms EventEnd change_retries[where d = 0]
    by (cases ev) (auto simp: ledger_step_def split: nat.splits)
next
  case (EventRetry task name)
  then show ?thesis using assms change_retries[where d = 1 and f = "\<lambda>m. m\<lparr>em_retry_count := em_retry_count m + 1\<rparr>"]
    by (auto simp: ledger_step_def split: nat.splits)
qed

lemma run_retries:
  "run_steps ledger_step sgs xs = (es, xs') \<Longrightarrow> retries xs' = retries xs + int (counted_retries sgs es)"
proof (induction sgs arbitrary: xs es)
  case (Cons sg sgs)
  obtain i t s where sg: "sg = (i, t, s)" by (rule prod_cases3)
  obtain e1 xs1 es1 where 1: "ledger_step (i, t, s) xs = (e1, xs1)" "run_steps ledger_step sgs xs1 = (es1, xs')" "es = e1 # es1"
    using Cons.prems sg by (auto simp: Let_def split: prod.splits)
  from Cons.IH[OF 1(2)] step_retries[OF 1(1)] 1(3) sg show ?case by (simp add: counted_retries_def)
qed (simp add: counted_retries_def)

text \<open>C27. The standard telemetry logger, driven by any sequence of signals with fresh identities, gives every
  signal the outcome the ledger prescribes and holds exactly its entries: an end or a retry takes effect
  when exactly one entry has its event name and task, both raise KeyError when there is none, and with
  several the end is ignored and the retry raises MultiValueError. The reporter lists as failed the entries
  that ended with a non-empty error, and its total is the number of retries that were counted.\<close>

theorem telemetry_ledger:
  assumes "distinct (map fst sgs)" and "run_steps logger_step sgs mk_std_logger = (es, lg)" and "run_steps ledger_step sgs [] = (es', xs)"
    and "objs = dict_values (content (std_metrics lg))"
  shows "es = es' \<and> objs = map (\<lambda>(i, m). metrics_object i m) xs \<and>
    get_failed_events objs = map (\<lambda>(i, m). metrics_object i m) (filter (\<lambda>(i, m). em_status m = ''failed'') xs) \<and>
    total_retries (get_retry_stats objs) = int (counted_retries sgs es)"
proof -
  have t: "tracks mk_std_logger []" by (simp add: tracks_def mk_std_logger_def mk_result_set_def empty_set_def)
  from run_tracks[OF t assms(1) _ assms(2,3)] have r: "es = es'" "tracks lg xs" by simp_all
  have objs: "objs = map (\<lambda>(i, m). metrics_object i m) xs"
    using r(2) assms(4) by (simp add: tracks_def case_prod_unfold)
  have failed: "get_failed_events objs = map (\<lambda>(i, m). metrics_object i m) (filter (\<lambda>(i, m). em_status m = ''failed'') xs)"
    unfolding objs get_failed_events_def filter_map by (simp add: comp_def case_prod_unfold)
  have "total_retries (get_retry_stats objs) = retries xs"
    by (simp add: get_retry_stats_def retries_def objs comp_def case_prod_unfold Let_def)
  then show ?thesis using r(1) objs failed run_retries[OF assms(3)] by (simp add: retries_def)
qed

definition demo_signals :: "(string \<times> rat \<times> telemetry_signal) list" where
  "demo_signals =
     [(''1'', 10, EventInit (Some (''Fetch'', ''t1'')) None None), (''2'', 11, EventRetry ''t1'' ''Fetch''),
      (''3'', 12, EventEnd (Some (''Fetch'', ''t1'')) [''boom'']), (''4'', 13, EventEnd (Some (''Store'', ''t2'')) [])]"

theorem telemetry_ledger_witness:
  "\<exists>es lg. run_steps logger_step demo_signals mk_std_logger = (es, lg) \<and> es = [None, None, None, Some KeyError] \<and>
     length (get_failed_events (dict_values (content (std_metrics lg)))) = 1 \<and>
     total_retries (get_retry_stats (dict_values (content (std_metrics lg)))) = 1"
proof -
  obtain es lg where r: "run_steps logger_step demo_signals mk_std_logger = (es, lg)" by (cases "run_steps logger_step demo_signals mk_std_logger")
  have l: "\<exists>xs. run_steps ledger_step demo_signals [] = ([None, None, None, Some KeyError], xs) \<and>
      length (filter (\<lambda>(i, m). em_status m = ''failed'') xs) = 1"
    by (simp add: demo_signals_def ledger_step_def is_event_def new_metrics_def change_def finished_def)
  then obtain xs where xs: "run_steps ledger_step demo_signals [] = ([None, None, None, Some KeyError], xs)"
      "length (filter (\<lambda>(i, m). em_status m = ''failed'') xs) = 1" by blast
  have "distinct (map fst demo_signals)" by (simp add: demo_signals_def)
  note t = telemetry_ledger[OF this r xs(1) refl]
  have es: "es = [None, None, None, Some KeyError]" using t by blast
  have "counted_retries demo_signals es = 1" by (simp add: es counted_retries_def demo_signals_def)
  then have "total_retries (get_retry_stats (dict_values (content (std_metrics lg)))) = 1" using t by linarith
  moreover have "length (get_failed_events (dict_values (content (std_metrics lg)))) = 1"
    using t xs(2) by (metis length_map)
  ultimately show ?thesis using r es by blast
qed

end
