(* ===== verification/Remote.thy ===== *)
theory Remote
  imports Telemetry "HOL-Library.Word"
begin

text \<open>
  Remote execution over a socket: the framing of messages (\<open>send_data_over_socket\<close> and
  \<open>receive_data_from_socket\<close> in \<^verbatim>\<open>src/nexus/utils.py\<close>), the client
  (\<open>RemoteExecutor._send_task\<close> in \<^verbatim>\<open>src/nexus/executors/remote_executor.py\<close>) with the network
  telemetry it keeps, and the server (\<open>RemoteTaskManager._handle_client\<close> in
  \<^verbatim>\<open>src/nexus/manager/remote_manager.py\<close>).

  A connection that is read from is the list of byte segments still to arrive: \<open>recv n\<close> returns the
  next segment, or its first \<open>n\<close> bytes, and the empty string at the end of the stream. The encoding of
  objects (cloudpickle and zlib) and the function of a task are parameters; what they raise is a value.
\<close>

section \<open>Framing\<close>

type_synonym byte = "8 word"

abbreviation OverflowError :: exc_class where
  "OverflowError \<equiv> UserExc ''OverflowError'' Exception"

text \<open>\<open>int.to_bytes(k, "big")\<close> for a number that fits, and \<open>int.from_bytes\<close>.\<close>

fun to_bytes :: "nat \<Rightarrow> nat \<Rightarrow> byte list" where
  "to_bytes 0 n = []"
| "to_bytes (Suc k) n = to_bytes k (n div 256) @ [word_of_nat (n mod 256)]"

definition from_bytes :: "byte list \<Rightarrow> nat" where
  "from_bytes bs = foldl (\<lambda>acc b. acc * 256 + unat b) 0 bs"

text \<open>What is written to the socket, one entry per call of \<open>sendall\<close>, and the count that is returned.
  A chunk size of zero reads nothing from the buffer and ends the loop.\<close>

definition send_data_over_socket :: "byte list \<Rightarrow> int option \<Rightarrow> exc_class + nat \<times> byte list list" where
  "send_data_over_socket data chunk =
     (if 2 ^ 64 \<le> length data then Inl OverflowError
      else
        (let header = to_bytes 8 (length data)
         in case chunk of
              None \<Rightarrow> Inr (length data, [header, data])
            | Some c \<Rightarrow> (let ws = chunks (nat \<bar>c\<bar>) data in Inr (length (concat ws), header # ws))))"

definition recv :: "nat \<Rightarrow> byte list list \<Rightarrow> byte list \<times> byte list list" where
  "recv n segs =
     (case segs of
        [] \<Rightarrow> ([], [])
      | s # ss \<Rightarrow> (if n < length s then (take n s, drop n s # ss) else (s, ss)))"

lemma recv_length: "recv n segs = (c, rest) \<Longrightarrow> length c \<le> n \<and> length (concat rest) + length c = length (concat segs)"
  by (auto simp: recv_def split: list.splits if_splits)

text \<open>The loop of \<open>receive_data_from_socket\<close>; reading with a negative size is a ValueError.\<close>

function receive_loop :: "int \<Rightarrow> nat \<Rightarrow> byte list \<Rightarrow> byte list list \<Rightarrow> exc_class + byte list \<times> byte list list" where
  "receive_loop chunk want acc segs =
     (if length acc < want
      then
        (if chunk < 0 then Inl ValueError
         else
           (case recv (min (nat chunk) (want - length acc)) segs of
              (c, rest) \<Rightarrow> (if c = [] then Inr (acc, rest) else receive_loop chunk want (acc @ c) rest)))
      else Inr (acc, segs))"
  by pat_completeness auto
termination
  by (relation "measure (\<lambda>(chunk, want, acc, segs). want - length acc)") (auto simp: diff_less_mono2 simp flip: length_greater_0_conv)

declare receive_loop.simps [simp del]

definition receive_data_from_socket :: "int \<Rightarrow> byte list list \<Rightarrow> exc_class + byte list \<times> byte list list" where
  "receive_data_from_socket chunk segs =
     (case recv 8 segs of (h, rest) \<Rightarrow> receive_loop chunk (from_bytes h) [] rest)"

section \<open>Messages\<close>

text \<open>What is encoded: a \<open>TaskMessage\<close> with the fields the server uses, a function, or any other object.\<close>

datatype payload =
    TaskMessage (task_fn: string) (task_args: "pyval list") (task_kwargs: "(string, pyval) dict")
  | Function string
  | Plain pyval

record codec =
  serialize :: "payload \<Rightarrow> exc_class + byte list"
  deserialize :: "byte list \<Rightarrow> exc_class + payload"

abbreviation ZlibError :: exc_class where
  "ZlibError \<equiv> UserExc ''zlib.error'' Exception"

abbreviation UnpicklingError :: exc_class where
  "UnpicklingError \<equiv> UserExc ''UnpicklingError'' Exception"

abbreviation ModuleNotFoundError :: exc_class where
  "ModuleNotFoundError \<equiv> UserExc ''ModuleNotFoundError'' ImportError"

definition bad_data :: "exc_class \<Rightarrow> bool" where
  "bad_data e \<longleftrightarrow> is_subclass e ZlibError \<or> is_subclass e UnpicklingError"

section \<open>Server\<close>

text \<open>\<open>_handle_client\<close>: the writes of the answer; \<open>None\<close> when an error was logged and the connection
  closed without one. Calling the function gives its value or the exception it raises, and both are
  sent back as objects.\<close>

definition task_result :: "(string \<Rightarrow> pyval list \<Rightarrow> (string, pyval) dict \<Rightarrow> pyval + pyval) \<Rightarrow> exc_class + payload \<Rightarrow> pyval option" where
  "task_result call_fn msg =
     (case msg of
        Inl e \<Rightarrow>
          (if bad_data e then Some (PExc ValueError [])
           else if is_subclass e ModuleNotFoundError then Some (PExc e [])
           else None)
      | Inr (TaskMessage f as kw) \<Rightarrow> Some (case call_fn f as kw of Inl x \<Rightarrow> x | Inr v \<Rightarrow> v)
      | Inr _ \<Rightarrow> Some (PExc ValueError []))"

definition handle_client ::
  "codec \<Rightarrow> int \<Rightarrow> (string \<Rightarrow> pyval list \<Rightarrow> (string, pyval) dict \<Rightarrow> pyval + pyval) \<Rightarrow> byte list list \<Rightarrow> byte list list option" where
  "handle_client cd chunk call_fn segs =
     (case receive_data_from_socket chunk segs of
        Inl e \<Rightarrow> None
      | Inr (data, rest) \<Rightarrow>
          (case task_result call_fn (deserialize cd data) of
             None \<Rightarrow> None
           | Some v \<Rightarrow>
               (case bind_res (serialize cd (Plain v)) (\<lambda>bs. send_data_over_socket bs (Some chunk)) of
                  Inl e \<Rightarrow> None
                | Inr (n, ws) \<Rightarrow> Some ws)))"

section \<open>Client\<close>

record client_env =
  cl_codec :: codec
  cl_chunk :: int
  cl_host :: string
  cl_port :: int
  cl_connect_error :: "exc_class option"
  cl_exc_str :: "pyval \<Rightarrow> string"
  cl_now :: rat

text \<open>The outer handler: the operation is recorded as failed, and the exception goes on.\<close>

definition network_failure :: "client_env \<Rightarrow> string \<Rightarrow> pyval \<Rightarrow> network_telemetry \<Rightarrow> (pyval + payload) \<times> network_telemetry" where
  "network_failure env tid x nt =
     (Inl x, end_operation (cl_now env) tid 0 0 (Some (''Network operation failed: '' @ cl_exc_str env x)) nt)"

text \<open>The handlers around decoding: bad data and missing modules become other exceptions, and are recorded
  before the outer handler records them again.\<close>

definition decode_failure :: "client_env \<Rightarrow> string \<Rightarrow> nat \<Rightarrow> nat \<Rightarrow> pyval \<Rightarrow> network_telemetry \<Rightarrow> (pyval + payload) \<times> network_telemetry" where
  "decode_failure env tid n_sent n_recv x nt =
     (if bad_data (exc_of x)
      then (let error = ''Failed to decompress message: '' @ cl_exc_str env x
            in network_failure env tid (message_exc ValueError error) (end_operation (cl_now env) tid (int n_sent) (int n_recv) (Some error) nt))
      else if is_subclass (exc_of x) ModuleNotFoundError
      then (let error = ''Failed to load task result: '' @ cl_exc_str env x
            in network_failure env tid (message_exc ImportError error) (end_operation (cl_now env) tid (int n_sent) (int n_recv) (Some error) nt))
      else network_failure env tid x nt)"

definition read_answer ::
  "client_env \<Rightarrow> string \<Rightarrow> nat \<Rightarrow> byte list list \<Rightarrow> network_telemetry \<Rightarrow> (pyval + payload) \<times> network_telemetry" where
  "read_answer env tid n_sent segs nt =
     (case receive_data_from_socket (cl_chunk env) segs of
        Inl e \<Rightarrow> network_failure env tid (PExc e []) nt
      | Inr (data, rest) \<Rightarrow>
          (case deserialize (cl_codec env) data of
             Inl e \<Rightarrow> decode_failure env tid n_sent (length data) (PExc e []) nt
           | Inr r \<Rightarrow>
               (let nt1 = end_operation (cl_now env) tid (int n_sent) (int (length data)) None nt
                in case r of
                     Plain v \<Rightarrow> (if is_exception v then decode_failure env tid n_sent (length data) v nt1 else (Inr r, nt1))
                   | _ \<Rightarrow> (Inr r, nt1))))"

text \<open>\<open>_send_task\<close>. \<open>peer\<close> is the other side: the segments that arrive in answer to what was written.\<close>

definition send_task ::
  "client_env \<Rightarrow> (byte list list \<Rightarrow> byte list list) \<Rightarrow> string \<Rightarrow> payload \<Rightarrow> network_telemetry \<Rightarrow> (pyval + payload) \<times> network_telemetry" where
  "send_task env peer tid msg nt =
     (let nt1 = start_operation (cl_now env) tid (cl_host env) (cl_port env) ''remote_call'' nt
      in case cl_connect_error env of
           Some e \<Rightarrow> network_failure env tid (PExc e []) nt1
         | None \<Rightarrow>
             (case bind_res (serialize (cl_codec env) msg) (\<lambda>bs. send_data_over_socket bs (Some (cl_chunk env))) of
                Inl e \<Rightarrow> network_failure env tid (PExc e []) nt1
              | Inr (n, ws) \<Rightarrow>
                  (if n = 0
                   then (let error = ''Failed to send data to remote server''
                         in network_failure env tid (message_exc ValueError error) (end_operation (cl_now env) tid 0 0 (Some error) nt1))
                   else read_answer env tid n (peer ws) nt1)))"

end
