(* ===== verification/Remote_Props.thy ===== *)
theory Remote_Props
  imports Remote
begin

text \<open>
  Frames survive the network, and a remote call gives the client what the function gives the server.
\<close>

section \<open>Sizes\<close>

lemma length_to_bytes [simp]: "length (to_bytes k n) = k"
  by (induction k arbitrary: n) auto

lemma from_bytes_append: "from_bytes (bs @ [b]) = from_bytes bs * 256 + unat b"
  by (simp add: from_bytes_def)

lemma from_to_bytes: "n < 256 ^ k \<Longrightarrow> from_bytes (to_bytes k n) = n"
proof (induction k arbitrary: n)
  case (Suc k)
  have "n div 256 < 256 ^ k" using Suc.prems by (simp add: less_mult_imp_div_less mult.commute)
  moreover have "unat (word_of_nat (n mod 256) :: byte) = n mod 256" by (simp add: unat_of_nat)
  ultimately show ?case using Suc.IH[of "n div 256"] by (simp add: from_bytes_append)
qed (simp add: from_bytes_def)

section \<open>Receiving\<close>

text \<open>How the network delivers bytes: in order, in segments that are not empty.\<close>

definition delivered :: "byte list \<Rightarrow> byte list list \<Rightarrow> bool" where
  "delivered bs segs \<longleftrightarrow> concat segs = bs \<and> [] \<notin> set segs"

lemma recv_delivered:
  assumes "delivered bs segs" and "0 < n" and "bs \<noteq> []" and "recv n segs = (c, rest)"
  shows "c \<noteq> [] \<and> length c \<le> n \<and> bs = c @ concat rest \<and> delivered (concat rest) rest"
  using assms by (cases segs) (auto simp: recv_def delivered_def split: if_splits simp flip: length_greater_0_conv)

lemma receive_loop_delivered:
  "0 < chunk \<Longrightarrow> delivered bs segs \<Longrightarrow> length acc \<le> want \<Longrightarrow> want - length acc \<le> length bs \<Longrightarrow>
   \<exists>rest. receive_loop chunk want acc segs = Inr (acc @ take (want - length acc) bs, rest) \<and> delivered (drop (want - length acc) bs) rest"
proof (induction chunk want acc segs arbitrary: bs rule: receive_loop.induct)
  case (1 chunk want acc segs)
  show ?case
  proof (cases "length acc < want")
    case False
    then show ?thesis using 1 by (simp add: receive_loop.simps)
  next
    case True
    let ?n = "min (nat chunk) (want - length acc)"
    obtain c rest where r: "recv ?n segs = (c, rest)" by (cases "recv ?n segs")
    have "0 < ?n" "bs \<noteq> []" using True "1.prems" by auto
    from recv_delivered[OF "1.prems"(2) this r] have c: "c \<noteq> []" "length c \<le> ?n" "bs = c @ concat rest" "delivered (concat rest) rest" by auto
    have "length (acc @ c) \<le> want" "want - length (acc @ c) \<le> length (concat rest)" using c "1.prems"(3,4) True by auto
    from "1.IH"[OF True _ r[symmetric] c(1) "1.prems"(1) c(4) this] "1.prems"(1) obtain rest' where
      "receive_loop chunk want (acc @ c) rest = Inr ((acc @ c) @ take (want - length (acc @ c)) (concat rest), rest')"
      "delivered (drop (want - length (acc @ c)) (concat rest)) rest'" by auto
    moreover have "receive_loop chunk want acc segs = receive_loop chunk want (acc @ c) rest"
      using True "1.prems"(1) r c(1) by (subst receive_loop.simps) simp
    moreover have "take (want - length acc) bs = c @ take (want - length (acc @ c)) (concat rest)"
      "drop (want - length acc) bs = drop (want - length (acc @ c)) (concat rest)" using c(2,3) by simp_all
    ultimately show ?thesis by simp
  qed
qed

lemma receive_frame:
  assumes "0 < chunk" and "length data < 2 ^ 64" and "delivered (to_bytes 8 (length data) @ data @ rest) segs" and "8 \<le> length (hd segs)"
  shows "\<exists>rest'. receive_data_from_socket chunk segs = Inr (data, rest') \<and> delivered rest rest'"
proof -
  obtain s ss where s: "segs = s # ss" using assms(3) by (cases segs) (auto simp: delivered_def dest: arg_cong[of _ _ length])
  obtain h rs where h: "recv 8 segs = (h, rs)" by (cases "recv 8 segs")
  have len: "length h = 8" using h s assms(4) by (auto simp: recv_def split: if_splits)
  have ne: "to_bytes 8 (length data) @ data @ rest \<noteq> []" by (metis Nil_is_append_conv length_to_bytes list.size(3) zero_neq_numeral)
  from recv_delivered[OF assms(3) _ ne h] have d: "to_bytes 8 (length data) @ data @ rest = h @ concat rs" "delivered (concat rs) rs" by simp_all
  then have hd: "h = to_bytes 8 (length data)" "concat rs = data @ rest" using len by (simp_all add: append_eq_append_conv)
  have "from_bytes h = length data" using assms(2) unfolding hd(1) by (intro from_to_bytes) simp
  moreover obtain rest' where "receive_loop chunk (length data) [] rs = Inr (data, rest')" "delivered rest rest'"
    using receive_loop_delivered[OF assms(1) d(2), of "[]" "length data"] hd(2) by auto
  ultimately show ?thesis using h by (simp add: receive_data_from_socket_def)
qed

lemma send_frame:
  assumes "length data < 2 ^ 64" and "chunk \<noteq> Some 0"
  shows "\<exists>ws. send_data_over_socket data chunk = Inr (length data, ws) \<and> concat ws = to_bytes 8 (length data) @ data"
  using assms by (cases chunk) (auto simp: send_data_over_socket_def Let_def concat_chunks)



section \<open>Remote calls\<close>

text \<open>What decoding does to encoded objects.\<close>

definition codec_ok :: "codec \<Rightarrow> bool" where
  "codec_ok cd \<longleftrightarrow> (\<forall>x bs. serialize cd x = Inr bs \<longrightarrow> deserialize cd bs = Inr x \<and> bs \<noteq> [])"

definition network_ok :: "(byte list \<Rightarrow> byte list list) \<Rightarrow> bool" where
  "network_ok net \<longleftrightarrow> (\<forall>bs. delivered bs (net bs) \<and> (8 \<le> length bs \<longrightarrow> 8 \<le> length (hd (net bs))))"

definition server_peer ::
  "codec \<Rightarrow> int \<Rightarrow> (string \<Rightarrow> pyval list \<Rightarrow> (string, pyval) dict \<Rightarrow> pyval + pyval) \<Rightarrow> (byte list \<Rightarrow> byte list list) \<Rightarrow> byte list list \<Rightarrow> byte list list" where
  "server_peer cd chunk call_fn net ws =
     (case handle_client cd chunk call_fn (net (concat ws)) of None \<Rightarrow> [] | Some ws' \<Rightarrow> net (concat ws'))"

lemma frame_network:
  assumes "network_ok net" and "0 < chunk" and "0 < chunk'" and "length data < 2 ^ 64"
  obtains ws rest where "send_data_over_socket data (Some chunk) = Inr (length data, ws)"
    "receive_data_from_socket chunk' (net (concat ws)) = Inr (data, rest)"
proof -
  obtain ws where ws: "send_data_over_socket data (Some chunk) = Inr (length data, ws)" "concat ws = to_bytes 8 (length data) @ data"
    using send_frame[OF assms(4), of "Some chunk"] assms(2) by auto
  have "delivered (to_bytes 8 (length data) @ data @ []) (net (concat ws))" "8 \<le> length (hd (net (concat ws)))"
    using assms(1) ws(2) by (auto simp: network_ok_def)
  from receive_frame[OF assms(3,4) this] ws(1) that show ?thesis by blast
qed

lemma server_answers:
  assumes "network_ok net" and "codec_ok cd" and "0 < chunk" and "0 < chunk'"
    and "serialize cd (TaskMessage f as kw) = Inr bs" and "length bs < 2 ^ 64"
    and "out = (case call_fn f as kw of Inl x \<Rightarrow> x | Inr v \<Rightarrow> v)"
    and "serialize cd (Plain out) = Inr bs'" and "length bs' < 2 ^ 64"
  obtains ws rest where "send_data_over_socket bs (Some chunk) = Inr (length bs, ws)"
    "receive_data_from_socket chunk (server_peer cd chunk' call_fn net ws) = Inr (bs', rest)"
proof -
  obtain ws rest where 1: "send_data_over_socket bs (Some chunk) = Inr (length bs, ws)"
    "receive_data_from_socket chunk' (net (concat ws)) = Inr (bs, rest)" using frame_network[OF assms(1,3,4,6)] by blast
  obtain ws' rest' where 2: "send_data_over_socket bs' (Some chunk') = Inr (length bs', ws')"
    "receive_data_from_socket chunk (net (concat ws')) = Inr (bs', rest')" using frame_network[OF assms(1,4,3,9)] by blast
  have "deserialize cd bs = Inr (TaskMessage f as kw)" using assms(2,5) by (simp add: codec_ok_def)
  then have "handle_client cd chunk' call_fn (net (concat ws)) = Some ws'"
    using 1(2) 2(1) assms(7,8) by (simp add: handle_client_def task_result_def)
  then show ?thesis using that[OF 1(1)] 2(2) by (simp add: server_peer_def)
qed

text \<open>A remote call of a function on a server returns the function's value, and an exception the function
  raised is raised at the client, over any network that delivers frame headers whole and with any
  faithful encoding. For a value the telemetry records the bytes of both messages and no
  error; for an exception it records a failed network operation with no bytes at all.\<close>

lemma remote_call:
  assumes "network_ok net" and "codec_ok (cl_codec env)" and "0 < cl_chunk env" and "0 < chunk'" and "cl_connect_error env = None"
    and "serialize (cl_codec env) (TaskMessage f as kw) = Inr bs" and "length bs < 2 ^ 64"
    and "out = (case call_fn f as kw of Inl x \<Rightarrow> x | Inr v \<Rightarrow> v)"
    and "serialize (cl_codec env) (Plain out) = Inr bs'" and "length bs' < 2 ^ 64"
    and "\<not> bad_data (exc_of out)" and "\<not> is_subclass (exc_of out) ModuleNotFoundError"
    and "send_task env (server_peer (cl_codec env) chunk' call_fn net) tid (TaskMessage f as kw) nt = (r, nt')"
  shows "r = (if is_exception out then Inl out else Inr (Plain out)) \<and>
    (\<exists>m. dict_get (net_metrics nt') tid = Some m \<and> nm_end_time m = Some (cl_now env) \<and>
      (if is_exception out
       then nm_error m = Some (''Network operation failed: '' @ cl_exc_str env out) \<and> nm_bytes_sent m = 0 \<and> nm_bytes_received m = 0
       else nm_error m = None \<and> nm_bytes_sent m = int (length bs) \<and> nm_bytes_received m = int (length bs')))"
proof -
  obtain ws rest where 1: "send_data_over_socket bs (Some (cl_chunk env)) = Inr (length bs, ws)"
    "receive_data_from_socket (cl_chunk env) (server_peer (cl_codec env) chunk' call_fn net ws) = Inr (bs', rest)"
    using server_answers[where call_fn = call_fn and f = f and as = as and kw = kw, OF assms(1-4,6-10)] by blast
  have 2: "deserialize (cl_codec env) bs' = Inr (Plain out)" "bs \<noteq> []" using assms(2,6,9) by (auto simp: codec_ok_def)
  let ?nt1 = "start_operation (cl_now env) tid (cl_host env) (cl_port env) ''remote_call'' nt"
  have "send_task env (server_peer (cl_codec env) chunk' call_fn net) tid (TaskMessage f as kw) nt =
      read_answer env tid (length bs) (server_peer (cl_codec env) chunk' call_fn net ws) ?nt1"
    using assms(5,6) 1(1) 2(2) by (simp add: send_task_def Let_def)
  also have "\<dots> = (let nt1 = end_operation (cl_now env) tid (int (length bs)) (int (length bs')) None ?nt1
      in if is_exception out then network_failure env tid out nt1 else (Inr (Plain out), nt1))"
    using 1(2) 2(1) assms(11,12) by (simp add: read_answer_def decode_failure_def Let_def)
  finally show ?thesis using assms(13)
    by (auto simp: network_failure_def end_operation_def start_operation_def Let_def dict_simps split: if_splits)
qed

definition demo_codec :: codec where
  "demo_codec =
     \<lparr>serialize = (\<lambda>x. if x = TaskMessage ''add'' [PInt 40, PInt 2] [] then Inr [1] else if x = Plain (PInt 42) then Inr [2] else Inl TypeError),
      deserialize = (\<lambda>bs. if bs = [1] then Inr (TaskMessage ''add'' [PInt 40, PInt 2] []) else if bs = [2] then Inr (Plain (PInt 42)) else Inl ZlibError)\<rparr>"

definition demo_client :: client_env where
  "demo_client = \<lparr>cl_codec = demo_codec, cl_chunk = 4096, cl_host = ''localhost'', cl_port = 8996, cl_connect_error = None,
     cl_exc_str = (\<lambda>x. ''error''), cl_now = 3\<rparr>"

definition demo_network :: "byte list \<Rightarrow> byte list list" where
  "demo_network bs = (if bs = [] then [] else [bs])"

definition demo_call :: "string \<Rightarrow> pyval list \<Rightarrow> (string, pyval) dict \<Rightarrow> pyval + pyval" where
  "demo_call f as kw = (case as of [PInt a, PInt b] \<Rightarrow> Inr (PInt (a + b)) | _ \<Rightarrow> Inl (PExc TypeError []))"

end
