(* ===== verification/Remote_Queue.thy ===== *)
theory Remote_Queue
  imports Remote_Props "HOL-Library.Multiset"
begin

text \<open>
  The queue of the remote executor: \<open>submit\<close>, the worker thread and \<open>shutdown\<close> of
  \<^verbatim>\<open>src/nexus/executors/remote_executor.py\<close>, over \<open>send_task\<close>.

  Client threads and the worker interleave between the points where they meet: the flag, the lock and the queue. A
  submission is three steps (the guard, taking the lock, putting the task into the queue, where it blocks with the lock while the
  queue is full), and a turn of the worker is the test of the flag, taking a task and sending it. Setting the outcome of a future that
  runs cannot fail, so the worker never leaves its loop by an exception.
\<close>

section \<open>State\<close>

datatype rfut = Waiting | Withdrawn | Running | Settled "pyval + payload"

datatype worker = Testing | Getting | Sending nat | Ended

text \<open>A future is its place in \<open>rx_futs\<close>, with the message of its task. \<open>rx_put\<close> and \<open>rx_taken\<close> record the order in which
  tasks entered and left the queue.\<close>

record remote_exec =
  rx_shutdown :: bool
  rx_futs :: "(payload \<times> rfut) list"
  rx_submitting :: "nat list"
  rx_lock :: "nat option"
  rx_tracked :: "nat list"
  rx_queue :: "nat list"
  rx_worker :: worker
  rx_net :: network_telemetry
  rx_put :: "nat list"
  rx_taken :: "nat list"

text \<open>What is outside: the size of the queue, and for each task the environment of its call, the other side and \<open>str(id(task_message))\<close>.\<close>

record remote_conf =
  rc_size :: int
  rc_env :: "nat \<Rightarrow> client_env"
  rc_peer :: "nat \<Rightarrow> byte list list \<Rightarrow> byte list list"
  rc_key :: "nat \<Rightarrow> string"

definition remote_init :: "network_telemetry \<Rightarrow> remote_exec" where
  "remote_init nt =
     \<lparr>rx_shutdown = False, rx_futs = [], rx_submitting = [], rx_lock = None, rx_tracked = [], rx_queue = [], rx_worker = Testing, rx_net = nt,
      rx_put = [], rx_taken = []\<rparr>"

definition set_fut :: "nat \<Rightarrow> rfut \<Rightarrow> remote_exec \<Rightarrow> remote_exec" where
  "set_fut n f s = s\<lparr>rx_futs := (rx_futs s)[n := (fst (rx_futs s ! n), f)]\<rparr>"

section \<open>Clients\<close>

text \<open>\<open>submit\<close> up to the lock: the new future, or RuntimeError.\<close>

definition submit_begin :: "payload \<Rightarrow> remote_exec \<Rightarrow> exc_class + (nat \<times> remote_exec)" where
  "submit_begin msg s =
     (if rx_shutdown s then Inl RuntimeError
      else
        (let n = length (rx_futs s)
         in Inr (n, s\<lparr>rx_futs := rx_futs s @ [(msg, Waiting)], rx_submitting := rx_submitting s @ [n]\<rparr>)))"

definition submit_lock :: "nat \<Rightarrow> remote_exec \<Rightarrow> remote_exec option" where
  "submit_lock n s =
     (if n \<in> set (rx_submitting s) \<and> rx_lock s = None
      then Some (s\<lparr>rx_submitting := remove1 n (rx_submitting s), rx_lock := Some n, rx_tracked := rx_tracked s @ [n]\<rparr>)
      else None)"

definition has_room :: "int \<Rightarrow> nat list \<Rightarrow> bool" where
  "has_room limit q \<longleftrightarrow> limit \<le> 0 \<or> int (length q) < limit"

definition submit_put :: "remote_conf \<Rightarrow> remote_exec \<Rightarrow> remote_exec option" where
  "submit_put cf s =
     (case rx_lock s of
        None \<Rightarrow> None
      | Some n \<Rightarrow>
          (if has_room (rc_size cf) (rx_queue s)
           then Some (s\<lparr>rx_lock := None, rx_queue := rx_queue s @ [n], rx_put := rx_put s @ [n]\<rparr>)
           else None))"

definition client_cancel :: "nat \<Rightarrow> remote_exec \<Rightarrow> remote_exec" where
  "client_cancel n s = (if n < length (rx_futs s) \<and> snd (rx_futs s ! n) = Waiting then set_fut n Withdrawn s else s)"

text \<open>\<open>shutdown\<close>: the flag; with \<open>wait\<close> it returns when the worker has ended. \<open>cancel_futures\<close> is ignored.\<close>

definition remote_shutdown :: "bool \<Rightarrow> remote_exec \<Rightarrow> remote_exec" where
  "remote_shutdown cancel_futures s = s\<lparr>rx_shutdown := True\<rparr>"

definition shutdown_returns :: "bool \<Rightarrow> remote_exec \<Rightarrow> bool" where
  "shutdown_returns wait s \<longleftrightarrow> \<not> wait \<or> rx_worker s = Ended"

section \<open>The worker\<close>

definition take_task :: "remote_exec \<Rightarrow> remote_exec" where
  "take_task s =
     (case rx_queue s of
        [] \<Rightarrow> s\<lparr>rx_worker := Testing\<rparr>
      | n # q \<Rightarrow>
          (let s' = s\<lparr>rx_queue := q, rx_taken := rx_taken s @ [n]\<rparr>
           in if snd (rx_futs s ! n) = Waiting then (set_fut n Running s')\<lparr>rx_worker := Sending n\<rparr>
              else s'\<lparr>rx_worker := Testing\<rparr>))"

definition process_task :: "remote_conf \<Rightarrow> nat \<Rightarrow> remote_exec \<Rightarrow> remote_exec" where
  "process_task cf n s =
     (case send_task (rc_env cf n) (rc_peer cf n) (rc_key cf n) (fst (rx_futs s ! n)) (rx_net s) of
        (r, nt) \<Rightarrow> (set_fut n (Settled r) s)\<lparr>rx_net := nt, rx_worker := Testing\<rparr>)"

definition worker_step :: "remote_conf \<Rightarrow> remote_exec \<Rightarrow> remote_exec" where
  "worker_step cf s =
     (case rx_worker s of
        Testing \<Rightarrow> s\<lparr>rx_worker := if rx_shutdown s then Ended else Getting\<rparr>
      | Getting \<Rightarrow> take_task s
      | Sending n \<Rightarrow> process_task cf n s
      | Ended \<Rightarrow> s)"

section \<open>Interleavings\<close>

inductive rx_step :: "remote_conf \<Rightarrow> remote_exec \<Rightarrow> remote_exec \<Rightarrow> bool" for cf where
  Begin: "submit_begin msg s = Inr (n, s') \<Longrightarrow> rx_step cf s s'"
| Lock: "submit_lock n s = Some s' \<Longrightarrow> rx_step cf s s'"
| Put: "submit_put cf s = Some s' \<Longrightarrow> rx_step cf s s'"
| Cancel: "rx_step cf s (client_cancel n s)"
| Shutdown: "rx_step cf s (remote_shutdown c s)"
| Work: "rx_step cf s (worker_step cf s)"

inductive rx_steps :: "remote_conf \<Rightarrow> remote_exec \<Rightarrow> remote_exec \<Rightarrow> bool" for cf where
  Stay: "rx_steps cf s s"
| More: "rx_steps cf s s' \<Longrightarrow> rx_step cf s' s'' \<Longrightarrow> rx_steps cf s s''"

inductive_cases rx_stepE: "rx_step cf s s'"

definition rx_reach :: "remote_conf \<Rightarrow> remote_exec \<Rightarrow> bool" where
  "rx_reach cf s \<longleftrightarrow> (\<exists>nt. rx_steps cf (remote_init nt) s)"

section \<open>Invariant\<close>

text \<open>Every future is on its way to the queue, in it, in the hands of the worker, or was taken from it.\<close>

definition underway :: "remote_exec \<Rightarrow> nat list" where
  "underway s = rx_submitting s @ (case rx_lock s of None \<Rightarrow> [] | Some n \<Rightarrow> [n]) @ rx_queue s"

abbreviation fut_of :: "remote_exec \<Rightarrow> nat \<Rightarrow> rfut" where
  "fut_of s n \<equiv> snd (rx_futs s ! n)"

definition outcome_of :: "remote_conf \<Rightarrow> nat \<Rightarrow> payload \<Rightarrow> pyval + payload \<Rightarrow> bool" where
  "outcome_of cf n msg r \<longleftrightarrow> (\<exists>nt. r = fst (send_task (rc_env cf n) (rc_peer cf n) (rc_key cf n) msg nt))"

definition rx_inv :: "remote_conf \<Rightarrow> remote_exec \<Rightarrow> bool" where
  "rx_inv cf s \<longleftrightarrow>
     mset (underway s) + mset (rx_taken s) = mset [0..<length (rx_futs s)] \<and>
     rx_put s = rx_taken s @ rx_queue s \<and>
     (rc_size cf \<le> 0 \<or> int (length (rx_queue s)) \<le> rc_size cf) \<and>
     (\<forall>n < length (rx_futs s). fut_of s n = Running \<longleftrightarrow> rx_worker s = Sending n) \<and>
     (\<forall>n. rx_worker s = Sending n \<longrightarrow> n < length (rx_futs s)) \<and>
     (\<forall>n \<in> set (underway s). fut_of s n = Waiting \<or> fut_of s n = Withdrawn) \<and>
     (\<forall>n \<in> set (rx_taken s). fut_of s n \<noteq> Waiting) \<and>
     (\<forall>n < length (rx_futs s). \<forall>r. fut_of s n = Settled r \<longrightarrow> outcome_of cf n (fst (rx_futs s ! n)) r)"

lemma rx_inv_bound:
  assumes "rx_inv cf s"
  shows "n \<in> set (underway s) \<Longrightarrow> n < length (rx_futs s)" "n \<in> set (rx_taken s) \<Longrightarrow> n < length (rx_futs s)"
    and "n < length (rx_futs s) \<Longrightarrow> n \<in> set (underway s) \<or> n \<in> set (rx_taken s)"
proof -
  have "set_mset (mset (underway s) + mset (rx_taken s)) = set_mset (mset [0..<length (rx_futs s)])"
    using assms unfolding rx_inv_def by simp
  then have "set (underway s) \<union> set (rx_taken s) = {0..<length (rx_futs s)}" by simp
  then show "n \<in> set (underway s) \<Longrightarrow> n < length (rx_futs s)" "n \<in> set (rx_taken s) \<Longrightarrow> n < length (rx_futs s)"
    "n < length (rx_futs s) \<Longrightarrow> n \<in> set (underway s) \<or> n \<in> set (rx_taken s)" by auto
qed

lemma rx_inv_init: "rx_inv cf (remote_init nt)"
  by (auto simp: rx_inv_def remote_init_def underway_def)

lemma rx_inv_begin:
  assumes "rx_inv cf s" "submit_begin msg s = Inr (n, s')"
  shows "rx_inv cf s'"
proof -
  have s': "s' = s\<lparr>rx_futs := rx_futs s @ [(msg, Waiting)], rx_submitting := rx_submitting s @ [length (rx_futs s)]\<rparr>"
    using assms(2) by (auto simp: submit_begin_def Let_def split: if_splits)
  have u: "set (underway s') = insert (length (rx_futs s)) (set (underway s))" "mset (underway s') = add_mset (length (rx_futs s)) (mset (underway s))"
    by (simp_all add: s' underway_def)
  show ?thesis
    using assms(1) rx_inv_bound[OF assms(1)] u unfolding rx_inv_def
    by (simp add: s' nth_append less_Suc_eq) (metis less_irrefl)
qed

lemma rx_inv_lock:
  assumes "rx_inv cf s" "submit_lock n s = Some s'"
  shows "rx_inv cf s'"
proof -
  have n: "n \<in> set (rx_submitting s)" "rx_lock s = None"
    and s': "s' = s\<lparr>rx_submitting := remove1 n (rx_submitting s), rx_lock := Some n, rx_tracked := rx_tracked s @ [n]\<rparr>"
    using assms(2) by (auto simp: submit_lock_def split: if_splits)
  have u: "mset (underway s') = mset (underway s)" using n by (simp add: s' underway_def)
  then have "set (underway s') = set (underway s)" by (metis set_mset_mset)
  with u assms(1) show ?thesis unfolding rx_inv_def by (simp add: s')
qed

lemma rx_inv_put:
  assumes "rx_inv cf s" "submit_put cf s = Some s'"
  shows "rx_inv cf s'"
proof -
  obtain n where n: "rx_lock s = Some n" "has_room (rc_size cf) (rx_queue s)"
    and s': "s' = s\<lparr>rx_lock := None, rx_queue := rx_queue s @ [n], rx_put := rx_put s @ [n]\<rparr>"
    using assms(2) by (auto simp: submit_put_def split: if_splits option.splits)
  have u: "mset (underway s') = mset (underway s)" using n by (simp add: s' underway_def)
  then have "set (underway s') = set (underway s)" by (metis set_mset_mset)
  with u assms(1) n(2) show ?thesis unfolding rx_inv_def has_room_def by (auto simp: s')
qed

lemma underway_update [simp]:
  "underway (s\<lparr>rx_worker := w\<rparr>) = underway s" "underway (s\<lparr>rx_net := nt\<rparr>) = underway s" "underway (s\<lparr>rx_shutdown := b\<rparr>) = underway s"
  by (simp_all add: underway_def)

lemma underway_set_fut [simp]: "underway (set_fut n f s) = underway s"
  by (simp add: set_fut_def underway_def)

lemma set_fut_simps [simp]:
  "rx_taken (set_fut n f s) = rx_taken s" "rx_queue (set_fut n f s) = rx_queue s" "rx_put (set_fut n f s) = rx_put s"
  "rx_worker (set_fut n f s) = rx_worker s" "length (rx_futs (set_fut n f s)) = length (rx_futs s)"
  "rx_shutdown (set_fut n f s) = rx_shutdown s" "rx_lock (set_fut n f s) = rx_lock s" "rx_submitting (set_fut n f s) = rx_submitting s"
  by (simp_all add: set_fut_def)

lemma set_fut_nth:
  "n < length (rx_futs s) \<Longrightarrow> rx_futs (set_fut n f s) ! m = (if m = n then (fst (rx_futs s ! n), f) else rx_futs s ! m)"
  by (simp add: set_fut_def nth_list_update)

lemma rx_inv_cancel:
  assumes "rx_inv cf s"
  shows "rx_inv cf (client_cancel n s)"
proof (cases "n < length (rx_futs s) \<and> fut_of s n = Waiting")
  case True
  with assms show ?thesis unfolding rx_inv_def by (auto simp: client_cancel_def set_fut_nth)
qed (use assms in \<open>auto simp: client_cancel_def\<close>)

lemma rx_inv_take:
  assumes "rx_inv cf s" "rx_worker s = Getting"
  shows "rx_inv cf (take_task s)"
proof (cases "rx_queue s")
  case Nil
  with assms show ?thesis unfolding rx_inv_def by (auto simp: take_task_def underway_def)
next
  case (Cons n q)
  define s1 where "s1 = s\<lparr>rx_queue := q, rx_taken := rx_taken s @ [n]\<rparr>"
  have u: "mset (underway s) = add_mset n (mset (underway s1))" "n \<in> set (underway s)" "set (underway s1) \<subseteq> set (underway s)"
    by (auto simp: s1_def underway_def Cons)
  have n: "n < length (rx_futs s)" using rx_inv_bound(1)[OF assms(1) u(2)] .
  have "distinct (underway s @ rx_taken s)"
    using assms(1) unfolding rx_inv_def by (metis distinct_upt mset_append mset_eq_imp_distinct_iff)
  then have d: "n \<notin> set (underway s1)" using u(1) by (auto simp: s1_def underway_def Cons split: option.splits)
  have w: "fut_of s n = Waiting \<or> fut_of s n = Withdrawn" using assms(1) u(2) unfolding rx_inv_def by blast
  show ?thesis
  proof (cases "fut_of s n = Waiting")
    case True
    then have "take_task s = (set_fut n Running s1)\<lparr>rx_worker := Sending n\<rparr>" by (simp add: take_task_def Cons s1_def)
    moreover have "rx_futs s1 = rx_futs s" "rx_taken s1 = rx_taken s @ [n]" "rx_queue s1 = q" "rx_put s1 = rx_put s" by (simp_all add: s1_def)
    ultimately show ?thesis using assms u n d
      unfolding rx_inv_def by (auto simp: set_fut_nth Cons)
  next
    case False
    then have "take_task s = s1\<lparr>rx_worker := Testing\<rparr>" by (simp add: take_task_def Cons s1_def)
    moreover have "rx_futs s1 = rx_futs s" "rx_taken s1 = rx_taken s @ [n]" "rx_queue s1 = q" "rx_put s1 = rx_put s" by (simp_all add: s1_def)
    ultimately show ?thesis using assms u n False w
      unfolding rx_inv_def by (auto simp: Cons)
  qed
qed

lemma rx_inv_process:
  assumes "rx_inv cf s" "rx_worker s = Sending n"
  shows "rx_inv cf (process_task cf n s)"
proof -
  obtain r nt where r: "send_task (rc_env cf n) (rc_peer cf n) (rc_key cf n) (fst (rx_futs s ! n)) (rx_net s) = (r, nt)"
    by fastforce
  then have out: "outcome_of cf n (fst (rx_futs s ! n)) r" by (metis fst_conv outcome_of_def)
  have n: "n < length (rx_futs s)" "fut_of s n = Running" using assms unfolding rx_inv_def by blast+
  then have "n \<notin> set (underway s)" using assms(1) unfolding rx_inv_def by force
  with assms n out show ?thesis unfolding rx_inv_def by (auto simp: process_task_def r set_fut_nth)
qed

lemma rx_inv_work:
  assumes "rx_inv cf s"
  shows "rx_inv cf (worker_step cf s)"
proof (cases "rx_worker s")
  case Testing
  with assms show ?thesis unfolding rx_inv_def by (auto simp: worker_step_def)
qed (use assms rx_inv_take rx_inv_process in \<open>auto simp: worker_step_def\<close>)

lemma rx_inv_step: "rx_step cf s s' \<Longrightarrow> rx_inv cf s \<Longrightarrow> rx_inv cf s'"
proof (induction rule: rx_step.induct)
  case (Shutdown s c)
  then show ?case unfolding rx_inv_def by (auto simp: remote_shutdown_def)
qed (auto intro: rx_inv_begin rx_inv_lock rx_inv_put rx_inv_cancel rx_inv_work)

lemma rx_steps_invariant:
  assumes "\<And>s s'. rx_step cf s s' \<Longrightarrow> P s \<Longrightarrow> P s'"
  shows "rx_steps cf s s' \<Longrightarrow> P s \<Longrightarrow> P s'"
  by (induction rule: rx_steps.induct) (auto intro: assms)

lemma rx_inv_reach: "rx_reach cf s \<Longrightarrow> rx_inv cf s"
  using rx_steps_invariant[of cf "rx_inv cf", OF rx_inv_step] rx_inv_init by (auto simp: rx_reach_def)

section \<open>The worker serves the queue\<close>

abbreviation works :: "remote_conf \<Rightarrow> nat \<Rightarrow> remote_exec \<Rightarrow> remote_exec" where
  "works cf k \<equiv> worker_step cf ^^ k"

lemma works_inv: "rx_inv cf s \<Longrightarrow> rx_inv cf (works cf k s)"
  by (induction k) (auto intro: rx_inv_work)

lemma worker_step_keeps [simp]: "rx_put (worker_step cf s) = rx_put s" "rx_shutdown (worker_step cf s) = rx_shutdown s"
  by (auto simp: worker_step_def take_task_def process_task_def Let_def split: worker.split list.split prod.split)

lemma works_keeps [simp]: "rx_put (works cf k s) = rx_put s" "rx_shutdown (works cf k s) = rx_shutdown s"
  by (induction k) simp_all

text \<open>Within two steps a worker that has not ended is at its test again, and the queue has not grown.\<close>

lemma back_to_test:
  assumes "rx_worker s \<noteq> Ended"
  shows "\<exists>k \<le> 2. rx_worker (works cf k s) = Testing \<and> length (rx_queue (works cf k s)) \<le> length (rx_queue s)"
proof -
  have send: "rx_worker (process_task cf n s) = Testing \<and> rx_queue (process_task cf n s) = rx_queue s" for n s
    by (simp add: process_task_def split: prod.split)
  show ?thesis
  proof (cases "rx_worker s")
    case Testing
    then show ?thesis by (intro exI[of _ 0]) simp
  next
    case (Sending n)
    then show ?thesis using send by (intro exI[of _ 1]) (simp add: worker_step_def)
  next
    case Getting
    have le: "length (rx_queue (take_task s)) \<le> length (rx_queue s)" by (simp add: take_task_def Let_def split: list.split)
    have "rx_worker (take_task s) = Testing \<or> (\<exists>n. rx_worker (take_task s) = Sending n)"
      by (simp add: take_task_def Let_def split: list.split)
    then show ?thesis
    proof
      assume "rx_worker (take_task s) = Testing"
      then show ?thesis using Getting le by (intro exI[of _ 1]) (simp add: worker_step_def)
    next
      assume "\<exists>n. rx_worker (take_task s) = Sending n"
      then show ?thesis using Getting le send
        by (intro exI[of _ 2]) (auto simp: worker_step_def numeral_2_eq_2)
    qed
  qed (use assms in simp)
qed

lemma one_round:
  assumes "rx_worker s = Testing" "\<not> rx_shutdown s" "rx_queue s = n # q"
  shows "\<exists>k \<le> 3. rx_worker (works cf k s) = Testing \<and> rx_queue (works cf k s) = q"
proof -
  let ?s = "take_task (s\<lparr>rx_worker := Getting\<rparr>)"
  have 2: "works cf 2 s = ?s" using assms by (simp add: worker_step_def numeral_2_eq_2)
  have q: "rx_queue ?s = q" using assms(3) by (simp add: take_task_def Let_def)
  show ?thesis
  proof (cases "fut_of s n = Waiting")
    case True
    then have "rx_worker ?s = Sending n" using assms(3) by (simp add: take_task_def Let_def)
    then have "rx_worker (works cf 3 s) = Testing \<and> rx_queue (works cf 3 s) = q"
      using 2 q by (simp add: numeral_3_eq_3 numeral_2_eq_2 worker_step_def[of cf "take_task _"] process_task_def split: prod.split)
    then show ?thesis by blast
  next
    case False
    then have "rx_worker ?s = Testing" using assms(3) by (simp add: take_task_def Let_def)
    then show ?thesis using 2 q by (intro exI[of _ 2]) simp
  qed
qed

lemma drain_from_test:
  assumes "\<not> rx_shutdown s"
  shows "rx_worker s = Testing \<Longrightarrow> \<exists>k \<le> 3 * length (rx_queue s). rx_worker (works cf k s) = Testing \<and> rx_queue (works cf k s) = []"
  using assms
proof (induction "rx_queue s" arbitrary: s)
  case Nil
  then show ?case by (intro exI[of _ 0]) simp
next
  case (Cons n q)
  obtain k where k: "k \<le> 3" "rx_worker (works cf k s) = Testing" "rx_queue (works cf k s) = q"
    using one_round[OF Cons.prems Cons.hyps(2)[symmetric]] by blast
  obtain k' where k': "k' \<le> 3 * length q" "rx_worker (works cf k' (works cf k s)) = Testing" "rx_queue (works cf k' (works cf k s)) = []"
    using Cons.hyps(1)[of "works cf k s"] k Cons.prems(2) by auto
  have "works cf (k' + k) s = works cf k' (works cf k s)" by (simp add: funpow_add)
  then show ?case using k k' Cons.hyps(2)[symmetric] by (intro exI[of _ "k' + k"]) auto
qed

lemma drain:
  assumes "\<not> rx_shutdown s" "rx_worker s \<noteq> Ended"
  shows "\<exists>k \<le> 3 * length (rx_queue s) + 2. rx_worker (works cf k s) = Testing \<and> rx_queue (works cf k s) = []"
proof -
  obtain k where k: "k \<le> 2" "rx_worker (works cf k s) = Testing" "length (rx_queue (works cf k s)) \<le> length (rx_queue s)"
    using back_to_test[OF assms(2)] by blast
  obtain k' where k': "k' \<le> 3 * length (rx_queue (works cf k s))" "rx_worker (works cf k' (works cf k s)) = Testing"
    "rx_queue (works cf k' (works cf k s)) = []"
    using drain_from_test[of "works cf k s" cf] k(2) assms(1) by auto
  have "works cf (k' + k) s = works cf k' (works cf k s)" by (simp add: funpow_add)
  then show ?thesis using k k' by (intro exI[of _ "k' + k"]) auto
qed

lemma queue_served:
  assumes inv: "rx_inv cf s" and "\<not> rx_shutdown s" "rx_worker s \<noteq> Ended"
  shows "\<exists>k \<le> 3 * length (rx_queue s) + 2. rx_queue (works cf k s) = [] \<and> (\<forall>n \<in> set (rx_queue s). fut_of (works cf k s) n = Withdrawn \<or>
      (\<exists>r. fut_of (works cf k s) n = Settled r \<and> outcome_of cf n (fst (rx_futs (works cf k s) ! n)) r))"
proof -
  obtain k where k: "k \<le> 3 * length (rx_queue s) + 2" "rx_worker (works cf k s) = Testing" "rx_queue (works cf k s) = []"
    using drain[OF assms(2,3)] by blast
  let ?s = "works cf k s"
  note inv' = works_inv[OF inv, of k]
  have "rx_put s = rx_taken ?s" using inv' k(3) unfolding rx_inv_def by simp
  then have "n \<in> set (rx_taken ?s)" if "n \<in> set (rx_queue s)" for n using that inv unfolding rx_inv_def by (metis Un_iff set_append)
  then have "fut_of ?s n \<noteq> Waiting \<and> n < length (rx_futs ?s)" if "n \<in> set (rx_queue s)" for n
    using that inv' rx_inv_bound(2)[OF inv'] unfolding rx_inv_def by blast
  moreover have "fut_of ?s n \<noteq> Running" if "n < length (rx_futs ?s)" for n using that inv' k(2) unfolding rx_inv_def by auto
  ultimately have "\<forall>n \<in> set (rx_queue s). fut_of ?s n = Withdrawn \<or> (\<exists>r. fut_of ?s n = Settled r \<and> outcome_of cf n (fst (rx_futs ?s ! n)) r)"
    using inv' unfolding rx_inv_def by (metis rfut.exhaust)
  with k show ?thesis by blast
qed

lemma worker_ends:
  assumes "rx_shutdown s"
  shows "\<exists>k \<le> 3. rx_worker (works cf k s) = Ended"
proof (cases "rx_worker s = Ended")
  case False
  then obtain k where k: "k \<le> 2" "rx_worker (works cf k s) = Testing" using back_to_test by blast
  then have "rx_worker (works cf (Suc k) s) = Ended" using assms by (simp add: worker_step_def)
  then show ?thesis using k(1) by (intro exI[of _ "Suc k"]) simp
qed (intro exI[of _ 0], simp)

text \<open>An ended worker has seen the flag.\<close>

lemma ended_shutdown:
  assumes "rx_reach cf s" "rx_worker s = Ended"
  shows "rx_shutdown s"
proof -
  have step: "rx_worker s' = Ended \<longrightarrow> rx_shutdown s'" if "rx_step cf s s'" "rx_worker s = Ended \<longrightarrow> rx_shutdown s" for s s'
    using that
    by (cases rule: rx_step.cases)
      (auto simp: submit_begin_def submit_lock_def submit_put_def client_cancel_def remote_shutdown_def worker_step_def take_task_def
        process_task_def Let_def split: if_splits option.splits worker.splits list.splits prod.splits)
  obtain nt where "rx_steps cf (remote_init nt) s" using assms(1) by (auto simp: rx_reach_def)
  from rx_steps_invariant[of cf "\<lambda>s. rx_worker s = Ended \<longrightarrow> rx_shutdown s", OF step this] assms(2) show ?thesis
    by (simp add: remote_init_def)
qed

text \<open>Once the worker has ended no future is settled any more, and nobody takes from the queue.\<close>

definition dead :: "remote_exec \<Rightarrow> remote_exec \<Rightarrow> bool" where
  "dead s s' \<longleftrightarrow> rx_worker s' = Ended \<and> rx_shutdown s' \<and> length (rx_futs s') = length (rx_futs s) \<and> (\<exists>q. rx_queue s' = rx_queue s @ q) \<and>
     (\<forall>n < length (rx_futs s). \<forall>r. fut_of s' n = Settled r \<longrightarrow> fut_of s n = Settled r)"

lemma dead_step: "rx_step cf s1 s2 \<Longrightarrow> dead s s1 \<Longrightarrow> dead s s2"
proof (induction rule: rx_step.induct)
  case (Cancel s n)
  then show ?case by (auto simp: dead_def client_cancel_def set_fut_nth)
qed (auto simp: dead_def submit_begin_def submit_lock_def submit_put_def remote_shutdown_def worker_step_def split: if_splits option.splits)

lemma dead_steps:
  assumes "rx_steps cf s s'" "rx_worker s = Ended" "rx_shutdown s"
  shows "dead s s'"
  by (rule rx_steps_invariant[OF dead_step assms(1)]) (use assms(2,3) in \<open>auto simp: dead_def\<close>)

text \<open>A settled future keeps its outcome.\<close>

lemma settled_step:
  assumes "rx_inv cf s" "rx_step cf s s'" "n < length (rx_futs s)" "fut_of s n = Settled r"
  shows "n < length (rx_futs s') \<and> fut_of s' n = Settled r"
  using assms(2)
proof (cases rule: rx_step.cases)
  case Work
  have no: "rx_worker s \<noteq> Sending n" using assms(1,3,4) unfolding rx_inv_def by auto
  have "fut_of (take_task s) n = Settled r"
  proof (cases "rx_queue s")
    case (Cons m q)
    then have "m \<in> set (underway s)" by (simp add: underway_def)
    then have "m < length (rx_futs s)" using rx_inv_bound(1)[OF assms(1)] by blast
    then show ?thesis using assms(4) Cons by (auto simp: take_task_def Let_def set_fut_def nth_list_update)
  qed (use assms(4) in \<open>simp add: take_task_def\<close>)
  moreover have "fut_of (process_task cf m s) n = Settled r" if "m \<noteq> n" for m
    using assms(4) that by (simp add: process_task_def set_fut_def split: prod.split)
  moreover have "length (rx_futs (take_task s)) = length (rx_futs s)" "\<And>m. length (rx_futs (process_task cf m s)) = length (rx_futs s)"
    by (simp_all add: take_task_def process_task_def Let_def split: list.split prod.split)
  ultimately show ?thesis using Work no assms(3,4) by (auto simp: worker_step_def split: worker.split)
qed (use assms(3,4) in \<open>auto simp: submit_begin_def submit_lock_def submit_put_def client_cancel_def remote_shutdown_def set_fut_nth nth_append Let_def
    split: if_splits option.splits\<close>)

lemma settled_steps:
  assumes "rx_inv cf s" "rx_steps cf s s'" "n < length (rx_futs s)" "fut_of s n = Settled r"
  shows "fut_of s' n = Settled r"
  using rx_steps_invariant[of cf "\<lambda>s. rx_inv cf s \<and> n < length (rx_futs s) \<and> fut_of s n = Settled r", OF _ assms(2)]
    rx_inv_step settled_step assms by blast

section \<open>Properties\<close>

text \<open>C36. The queue of the remote executor, for every interleaving of clients that submit, cancel and shut down with the worker.
  Tasks leave the queue in the order in which they were put into it and it never exceeds its size; a settled
  future has the outcome of sending its own message and keeps it. As long as
  nobody shuts down, the worker alone settles everything that is in the queue, except what was cancelled, within
  three steps for each task and two more. After a shutdown the worker ends within three steps, so waiting for it returns; but from then on no
  future is settled any more, whatever is still in the queue or is put there.\<close>

theorem remote_queue:
  assumes "rx_reach cf s"
  shows "rx_put s = rx_taken s @ rx_queue s \<and> (0 < rc_size cf \<longrightarrow> int (length (rx_queue s)) \<le> rc_size cf) \<and>
    (\<forall>n r. n < length (rx_futs s) \<and> fut_of s n = Settled r \<longrightarrow>
       outcome_of cf n (fst (rx_futs s ! n)) r \<and> (\<forall>s'. rx_steps cf s s' \<longrightarrow> fut_of s' n = Settled r)) \<and>
    (\<not> rx_shutdown s \<longrightarrow> (\<exists>k \<le> 3 * length (rx_queue s) + 2. rx_queue (works cf k s) = [] \<and>
       (\<forall>n \<in> set (rx_queue s). fut_of (works cf k s) n = Withdrawn \<or>
          (\<exists>r. fut_of (works cf k s) n = Settled r \<and> outcome_of cf n (fst (rx_futs (works cf k s) ! n)) r)))) \<and>
    (rx_shutdown s \<longrightarrow> (\<exists>k \<le> 3. shutdown_returns True (works cf k s))) \<and>
    (rx_worker s = Ended \<longrightarrow> (\<forall>s' n r. rx_steps cf s s' \<and> n < length (rx_futs s') \<and> fut_of s' n = Settled r \<longrightarrow> fut_of s n = Settled r))"
proof (intro conjI impI allI)
  note inv = rx_inv_reach[OF assms]
  show "rx_put s = rx_taken s @ rx_queue s" "0 < rc_size cf \<Longrightarrow> int (length (rx_queue s)) \<le> rc_size cf"
    using inv unfolding rx_inv_def by linarith+
  fix n r
  assume n: "n < length (rx_futs s) \<and> fut_of s n = Settled r"
  then show "outcome_of cf n (fst (rx_futs s ! n)) r" using inv unfolding rx_inv_def by blast
  show "fut_of s' n = Settled r" if "rx_steps cf s s'" for s' using settled_steps[OF inv that] n by blast
next
  assume "\<not> rx_shutdown s"
  with queue_served[OF rx_inv_reach[OF assms]] ended_shutdown[OF assms]
  show "\<exists>k \<le> 3 * length (rx_queue s) + 2. rx_queue (works cf k s) = [] \<and> (\<forall>n \<in> set (rx_queue s). fut_of (works cf k s) n = Withdrawn \<or>
      (\<exists>r. fut_of (works cf k s) n = Settled r \<and> outcome_of cf n (fst (rx_futs (works cf k s) ! n)) r))" by blast
next
  assume "rx_shutdown s"
  then show "\<exists>k \<le> 3. shutdown_returns True (works cf k s)"
    unfolding shutdown_returns_def using worker_ends by blast
next
  fix s' n r
  assume "rx_worker s = Ended" and s': "rx_steps cf s s' \<and> n < length (rx_futs s') \<and> fut_of s' n = Settled r"
  then show "fut_of s n = Settled r" using dead_steps[of cf s s'] ended_shutdown[OF assms] by (auto simp: dead_def)
qed

definition demo_remote :: remote_conf where
  "demo_remote = \<lparr>rc_size = 1, rc_env = (\<lambda>_. demo_client), rc_peer = (\<lambda>_. server_peer demo_codec 1024 demo_call demo_network), rc_key = (\<lambda>_. ''t'')\<rparr>"

theorem remote_queue_witness:
  "\<exists>s k. rx_reach demo_remote s \<and> rx_queue s = [0] \<and> rx_queue (works demo_remote k s) = [] \<and> fut_of (works demo_remote k s) 0 \<noteq> Waiting"
proof -
  let ?nt = "\<lparr>net_metrics = [], net_publishers = [], net_published = []\<rparr>"
  let ?m = "TaskMessage ''add'' [PInt 40, PInt 2] []"
  let ?s1 = "(remote_init ?nt)\<lparr>rx_futs := [(?m, Waiting)], rx_submitting := [0]\<rparr>"
  let ?s2 = "?s1\<lparr>rx_submitting := [], rx_lock := Some 0, rx_tracked := [0]\<rparr>"
  let ?s3 = "?s2\<lparr>rx_lock := None, rx_queue := [0], rx_put := [0]\<rparr>"
  have "rx_step demo_remote (remote_init ?nt) ?s1" by (rule rx_step.Begin[of ?m _ 0]) (simp add: submit_begin_def remote_init_def)
  moreover have "rx_step demo_remote ?s1 ?s2" by (rule rx_step.Lock[of 0]) (simp add: submit_lock_def remote_init_def)
  moreover have "rx_step demo_remote ?s2 ?s3" by (rule rx_step.Put) (simp add: submit_put_def has_room_def demo_remote_def remote_init_def)
  ultimately have r: "rx_reach demo_remote ?s3" unfolding rx_reach_def by (meson rx_steps.intros)
  have s3: "\<not> rx_shutdown ?s3" "rx_queue ?s3 = [0]" by (simp_all add: remote_init_def)
  from remote_queue[OF r] s3 obtain k where "rx_queue (works demo_remote k ?s3) = []"
    "\<forall>n \<in> set (rx_queue ?s3). fut_of (works demo_remote k ?s3) n = Withdrawn \<or> (\<exists>r. fut_of (works demo_remote k ?s3) n = Settled r)" by blast
  with s3(2) have "rx_queue (works demo_remote k ?s3) = []" "fut_of (works demo_remote k ?s3) 0 \<noteq> Waiting" by auto
  with r s3(2) show ?thesis by blast
qed

end
