(* ===== verification/Futures.thy ===== *)
theory Futures
  imports Values
begin

text \<open>
  Futures of \<open>concurrent.futures\<close> as the executors of the repository use them: a future is created
  pending and nobody marks it as running, so it is pending, cancelled, or finished with a value or an
  exception. Setting the outcome of a future that is cancelled or finished raises \<open>InvalidStateError\<close>.
  \<open>DefaultExecutor\<close> (\<^verbatim>\<open>src/nexus/executors/default_executor.py\<close>) calls the function at once.

  The locale \<open>task_runner\<close> is what a client may rely on whatever executor runs its task.
\<close>

section \<open>Futures\<close>

datatype 'v fut = Pending | Cancelled | Finished "pyval + 'v"

abbreviation InvalidStateError :: exc_class where
  "InvalidStateError \<equiv> UserExc ''InvalidStateError'' Exception"

fun fut_done :: "'v fut \<Rightarrow> bool" where
  "fut_done Pending = False"
| "fut_done Cancelled = True"
| "fut_done (Finished r) = True"

definition set_outcome :: "pyval + 'v \<Rightarrow> 'v fut \<Rightarrow> exc_class + 'v fut" where
  "set_outcome r f = (if fut_done f then Inl InvalidStateError else Inr (Finished r))"

abbreviation fut_set_result :: "'v \<Rightarrow> 'v fut \<Rightarrow> exc_class + 'v fut" where
  "fut_set_result v \<equiv> set_outcome (Inr v)"

abbreviation fut_set_exception :: "pyval \<Rightarrow> 'v fut \<Rightarrow> exc_class + 'v fut" where
  "fut_set_exception x \<equiv> set_outcome (Inl x)"

fun fut_cancel :: "'v fut \<Rightarrow> 'v fut" where
  "fut_cancel Pending = Cancelled"
| "fut_cancel f = f"

text \<open>\<open>result()\<close>; \<open>None\<close> when the caller blocks.\<close>

fun fut_result :: "'v fut \<Rightarrow> (pyval + 'v) option" where
  "fut_result Pending = None"
| "fut_result Cancelled = Some (Inl (PExc CancelledError []))"
| "fut_result (Finished r) = Some r"

lemma set_outcome_simps [simp]:
  "set_outcome r Pending = Inr (Finished r)" "fut_done f \<Longrightarrow> set_outcome r f = Inl InvalidStateError"
  by (simp_all add: set_outcome_def)

lemma fut_cancel_done [simp]: "fut_done f \<Longrightarrow> fut_cancel f = f" "fut_done (fut_cancel f)"
  by (cases f; simp)+

lemma fut_result_None [simp]: "fut_result f = None \<longleftrightarrow> \<not> fut_done f"
  by (cases f) simp_all

lemma fut_pending [simp]: "\<not> fut_done f \<longleftrightarrow> f = Pending"
  by (cases f) simp_all

section \<open>DefaultExecutor\<close>

type_synonym callee = "string \<Rightarrow> pyval list \<Rightarrow> (string, pyval) dict \<Rightarrow> pyval + pyval"

definition default_submit :: "callee \<Rightarrow> string \<Rightarrow> pyval list \<Rightarrow> (string, pyval) dict \<Rightarrow> exc_class + pyval fut" where
  "default_submit call_fn f as kw =
     (case call_fn f as kw of
        Inr v \<Rightarrow> fut_set_result v Pending
      | Inl x \<Rightarrow> fut_set_exception x Pending)"

lemma default_submit_Inr: "default_submit call_fn f as kw = Inr (Finished (call_fn f as kw))"
  by (simp add: default_submit_def split: sum.split)

section \<open>What a client relies on\<close>

text \<open>\<open>run t\<close> is the future of task \<open>t\<close> when its executor is through with it, \<open>call t\<close> the outcome of
  calling the task's function, and \<open>good t\<close> says that the task and its outcome can be sent.\<close>

locale task_runner =
  fixes run :: "'t \<Rightarrow> 'v fut" and call :: "'t \<Rightarrow> pyval + 'v" and good :: "'t \<Rightarrow> bool"
  assumes run_value: "good t \<Longrightarrow> call t = Inr v \<Longrightarrow> run t = Finished (Inr v)"
    and run_error: "good t \<Longrightarrow> call t = Inl x \<Longrightarrow> \<exists>y. run t = Finished (Inl y)"
begin

text \<open>A client that waits is never left waiting, and learns whether the function succeeded.\<close>

lemma result_returns: "good t \<Longrightarrow> \<exists>r. fut_result (run t) = Some r"
  using run_value[of t] run_error[of t] by (cases "call t") auto

lemma result_value: "good t \<Longrightarrow> fut_result (run t) = Some (Inr v) \<longleftrightarrow> call t = Inr v"
  using run_value[of t] run_error[of t] by (cases "call t") auto

text \<open>Waiting for the futures of several tasks in turn, as \<open>shutdown\<close> and \<open>wait\<close> do.\<close>

lemma results_return: "\<forall>t \<in> set ts. good t \<Longrightarrow> \<exists>rs. map (\<lambda>t. fut_result (run t)) ts = map Some rs \<and> length rs = length ts"
proof (induction ts)
  case (Cons t ts)
  then obtain r rs where "fut_result (run t) = Some r" "map (\<lambda>t. fut_result (run t)) ts = map Some rs" "length rs = length ts"
    using result_returns[of t] by auto
  then have "map (\<lambda>t. fut_result (run t)) (t # ts) = map Some (r # rs)" "length (r # rs) = length (t # ts)" by simp_all
  then show ?case by blast
qed simp

end

end
