(* ===== verification/Rpc.thy ===== *)
theory Rpc
  imports Remote Futures
begin

text \<open>
  Execution over XML-RPC and gRPC: the clients \<open>XMLRPCExecutor\<close>
  (\<^verbatim>\<open>src/nexus/executors/rpc_executor.py\<close>) and \<open>GRPCExecutor\<close>
  (\<^verbatim>\<open>src/nexus/executors/grpc_executor.py\<close>), and the servers \<open>XMLRPCManager\<close>
  (\<^verbatim>\<open>src/nexus/manager/rpc_manager.py\<close>) and \<open>TaskExecutorServicer\<close>
  (\<^verbatim>\<open>src/nexus/manager/grpc_manager.py\<close>).

  The record \<open>rpc_env\<close> holds what the repository does not decide: the encoding of objects, the text of
  an exception, and whether the transport fails before the server is reached. A call that raises on an
  XML-RPC server arrives as a \<open>Fault\<close>, one that raises on a gRPC server as an \<open>RpcError\<close>.
\<close>

abbreviation XmlRpcError :: exc_class where
  "XmlRpcError \<equiv> UserExc ''xmlrpc.client.Error'' Exception"

abbreviation Fault :: exc_class where
  "Fault \<equiv> UserExc ''Fault'' XmlRpcError"

abbreviation ProtocolError :: exc_class where
  "ProtocolError \<equiv> UserExc ''ProtocolError'' XmlRpcError"

abbreviation RpcError :: exc_class where
  "RpcError \<equiv> UserExc ''RpcError'' Exception"

record rpc_env =
  rpc_codec :: codec
  rpc_exc_str :: "pyval \<Rightarrow> string"
  rpc_transport :: "exc_class option"

text \<open>\<open>future.set_result\<close> or \<open>future.set_exception\<close> inside a \<open>try\<close> whose handlers call \<open>set_exception\<close> on the
  same future: on a future that is no longer pending each of them raises, the last one to the caller.\<close>

definition settle :: "pyval + 'v \<Rightarrow> 'v fut \<Rightarrow> exc_class option \<times> 'v fut" where
  "settle r f =
     (case set_outcome r f of
        Inr f' \<Rightarrow> (None, f')
      | Inl e \<Rightarrow>
          (case fut_set_exception (PExc e []) f of
             Inr f' \<Rightarrow> (None, f')
           | Inl e' \<Rightarrow> (case fut_set_exception (PExc e' []) f of Inr f' \<Rightarrow> (None, f') | Inl e'' \<Rightarrow> (Some e'', f))))"

lemma settle_simps [simp]:
  "settle r Pending = (None, Finished r)" "fut_done f \<Longrightarrow> settle r f = (Some InvalidStateError, f)"
  by (simp_all add: settle_def)

section \<open>XML-RPC\<close>

text \<open>\<open>XMLRPCManager.execute\<close>: a function that fails gives its exception as the result. A message that is
  not a task has no attribute \<open>fn\<close>.\<close>

definition xmlrpc_execute :: "rpc_env \<Rightarrow> callee \<Rightarrow> byte list \<Rightarrow> exc_class + byte list" where
  "xmlrpc_execute env call_fn data =
     serialize (rpc_codec env)
       (Plain (case deserialize (rpc_codec env) data of
                 Inl e \<Rightarrow> PExc e []
               | Inr (TaskMessage f as kw) \<Rightarrow> (case call_fn f as kw of Inl x \<Rightarrow> x | Inr v \<Rightarrow> v)
               | Inr _ \<Rightarrow> PExc AttributeError []))"

text \<open>The call of the proxy.\<close>

definition proxy_execute :: "rpc_env \<Rightarrow> (byte list \<Rightarrow> exc_class + byte list) \<Rightarrow> byte list \<Rightarrow> exc_class + byte list" where
  "proxy_execute env server data =
     (case rpc_transport env of
        Some e \<Rightarrow> Inl e
      | None \<Rightarrow> (case server data of Inl e \<Rightarrow> Inl Fault | Inr bs \<Rightarrow> Inr bs))"

definition xmlrpc_outcome :: "rpc_env \<Rightarrow> exc_class + payload \<Rightarrow> pyval + payload" where
  "xmlrpc_outcome env answer =
     (case answer of
        Inl e \<Rightarrow>
          Inl (if is_subclass e Fault then message_exc Exception (''RPC error: '' @ rpc_exc_str env (PExc e []))
               else if is_subclass e ProtocolError then message_exc Exception (''Protocol error: '' @ rpc_exc_str env (PExc e []))
               else PExc e [])
      | Inr (Plain v) \<Rightarrow> (if is_exception v then Inl v else Inr (Plain v))
      | Inr p \<Rightarrow> Inr p)"

text \<open>\<open>_submit_task\<close>: what it raises and the future it leaves.\<close>

definition xmlrpc_submit_task ::
  "rpc_env \<Rightarrow> (byte list \<Rightarrow> exc_class + byte list) \<Rightarrow> string \<Rightarrow> pyval list \<Rightarrow> (string, pyval) dict \<Rightarrow>
   payload fut \<Rightarrow> exc_class option \<times> payload fut" where
  "xmlrpc_submit_task env server f as kw fut =
     settle
       (xmlrpc_outcome env
          (bind_res (serialize (rpc_codec env) (TaskMessage f as kw)) (\<lambda>bs.
           bind_res (proxy_execute env server bs) (deserialize (rpc_codec env)))))
       fut"

text \<open>\<open>submit\<close>, with the state of the future when the worker thread has run the task.\<close>

definition xmlrpc_submit ::
  "rpc_env \<Rightarrow> (byte list \<Rightarrow> exc_class + byte list) \<Rightarrow> bool \<Rightarrow> string \<Rightarrow> pyval list \<Rightarrow> (string, pyval) dict \<Rightarrow>
   exc_class + payload fut" where
  "xmlrpc_submit env server down f as kw =
     (if down then Inl RuntimeError else Inr (snd (xmlrpc_submit_task env server f as kw Pending)))"

section \<open>gRPC server\<close>

record task_request =
  rq_task_id :: string
  rq_fn :: "byte list"
  rq_name :: string
  rq_args :: "byte list"
  rq_kwargs :: "byte list"

record task_response =
  rs_success :: bool
  rs_result :: "byte list"
  rs_error :: string

datatype status = PENDING_ST | RUNNING_ST | COMPLETED_ST | FAILED_ST

record task_status =
  ts_status :: status
  ts_result :: "byte list"
  ts_message :: string

definition decode_request :: "codec \<Rightarrow> task_request \<Rightarrow> exc_class + payload \<times> payload \<times> payload" where
  "decode_request cd rq =
     bind_res (deserialize cd (rq_fn rq)) (\<lambda>f.
     bind_res (deserialize cd (rq_args rq)) (\<lambda>as.
     bind_res (deserialize cd (rq_kwargs rq)) (\<lambda>kw. Inr (f, as, kw))))"

text \<open>\<open>fn(*args, **kwargs)\<close> of decoded objects; what is no function, tuple and dictionary cannot be called so.\<close>

definition apply_decoded :: "callee \<Rightarrow> payload \<times> payload \<times> payload \<Rightarrow> pyval + pyval" where
  "apply_decoded call_fn r =
     (case r of
        (Function f, Plain (PTuple as), Plain (PDict kw)) \<Rightarrow> call_fn f as kw
      | _ \<Rightarrow> Inl (PExc TypeError []))"

text \<open>The body of the \<open>try\<close>: the encoded result, or the exception that reaches the handler.\<close>

definition run_decoded :: "codec \<Rightarrow> callee \<Rightarrow> payload \<times> payload \<times> payload \<Rightarrow> pyval + byte list" where
  "run_decoded cd call_fn r =
     bind_res (apply_decoded call_fn r) (\<lambda>v.
       case serialize cd (Plain v) of Inl e \<Rightarrow> Inl (PExc e []) | Inr bs \<Rightarrow> Inr bs)"

definition run_request :: "codec \<Rightarrow> callee \<Rightarrow> task_request \<Rightarrow> pyval + byte list" where
  "run_request cd call_fn rq =
     (case decode_request cd rq of Inl e \<Rightarrow> Inl (PExc e []) | Inr r \<Rightarrow> run_decoded cd call_fn r)"

text \<open>\<open>Execute\<close>.\<close>

definition grpc_execute :: "rpc_env \<Rightarrow> callee \<Rightarrow> task_request \<Rightarrow> exc_class + task_response" where
  "grpc_execute env call_fn rq =
     (case run_request (rpc_codec env) call_fn rq of
        Inr bs \<Rightarrow> Inr \<lparr>rs_success = True, rs_result = bs, rs_error = ''''\<rparr>
      | Inl x \<Rightarrow>
          bind_res (serialize (rpc_codec env) (Plain x)) (\<lambda>bs.
            Inr \<lparr>rs_success = False, rs_result = bs, rs_error = rpc_exc_str env x\<rparr>))"

text \<open>\<open>ExecuteStream\<close>: the messages that are yielded, and the exception that ends the generator, if any.\<close>

definition stream_failure :: "rpc_env \<Rightarrow> pyval \<Rightarrow> task_status list \<times> exc_class option" where
  "stream_failure env x =
     (case serialize (rpc_codec env) (Plain x) of
        Inl e \<Rightarrow> ([], Some e)
      | Inr bs \<Rightarrow> ([\<lparr>ts_status = FAILED_ST, ts_result = bs, ts_message = rpc_exc_str env x\<rparr>], None))"

definition then_yield :: "task_status \<Rightarrow> task_status list \<times> exc_class option \<Rightarrow> task_status list \<times> exc_class option" where
  "then_yield s r = (s # fst r, snd r)"

definition grpc_execute_stream :: "rpc_env \<Rightarrow> callee \<Rightarrow> task_request \<Rightarrow> task_status list \<times> exc_class option" where
  "grpc_execute_stream env call_fn rq =
     then_yield \<lparr>ts_status = PENDING_ST, ts_result = [], ts_message = ''Task received''\<rparr>
       (case decode_request (rpc_codec env) rq of
          Inl e \<Rightarrow> stream_failure env (PExc e [])
        | Inr r \<Rightarrow>
            then_yield \<lparr>ts_status = RUNNING_ST, ts_result = [], ts_message = ''Task started''\<rparr>
              (case run_decoded (rpc_codec env) call_fn r of
                 Inl x \<Rightarrow> stream_failure env x
               | Inr bs \<Rightarrow> ([\<lparr>ts_status = COMPLETED_ST, ts_result = bs, ts_message = ''Task completed''\<rparr>], None)))"

section \<open>gRPC client\<close>

text \<open>A \<open>StreamingFuture\<close> with its callbacks; \<open>calls\<close> is what they were called with. An exception of a
  callback is logged and the others are still called.\<close>

record stream_future =
  sf_fut :: "payload fut"
  sf_callbacks :: "string list"
  sf_calls :: "(string \<times> status \<times> string) list"

definition add_status_callback :: "string \<Rightarrow> stream_future \<Rightarrow> stream_future" where
  "add_status_callback fn sf = sf\<lparr>sf_callbacks := sf_callbacks sf @ [fn]\<rparr>"

definition status_update :: "status \<Rightarrow> string \<Rightarrow> stream_future \<Rightarrow> stream_future" where
  "status_update st msg sf = sf\<lparr>sf_calls := sf_calls sf @ map (\<lambda>c. (c, st, msg)) (sf_callbacks sf)\<rparr>"

text \<open>The request. A name is text, so it always fits.\<close>

definition make_request :: "rpc_env \<Rightarrow> string \<Rightarrow> string \<Rightarrow> string \<Rightarrow> pyval list \<Rightarrow> (string, pyval) dict \<Rightarrow> exc_class + task_request" where
  "make_request env tid name f as kw =
     bind_res (serialize (rpc_codec env) (Function f)) (\<lambda>bf.
     bind_res (serialize (rpc_codec env) (Plain (PTuple as))) (\<lambda>ba.
     bind_res (serialize (rpc_codec env) (Plain (PDict kw))) (\<lambda>bk.
     Inr \<lparr>rq_task_id = tid, rq_fn = bf, rq_name = name, rq_args = ba, rq_kwargs = bk\<rparr>)))"

definition settle_stream :: "pyval + payload \<Rightarrow> stream_future \<Rightarrow> exc_class option \<times> stream_future" where
  "settle_stream r sf = (case settle r (sf_fut sf) of (e, f) \<Rightarrow> (e, sf\<lparr>sf_fut := f\<rparr>))"

definition exc_result :: "exc_class + 'v \<Rightarrow> pyval + 'v" where
  "exc_result r = (case r of Inl e \<Rightarrow> Inl (PExc e []) | Inr v \<Rightarrow> Inr v)"

text \<open>The loop over the stream; a stream that ends without a final status leaves the future as it is.\<close>

fun stream_loop :: "rpc_env \<Rightarrow> task_status list \<times> exc_class option \<Rightarrow> stream_future \<Rightarrow> exc_class option \<times> stream_future" where
  "stream_loop env ([], None) sf = (None, sf)"
| "stream_loop env ([], Some e) sf = settle_stream (Inl (PExc e [])) sf"
| "stream_loop env (s # ss, e) sf =
     (case ts_status s of
        COMPLETED_ST \<Rightarrow> settle_stream (exc_result (deserialize (rpc_codec env) (ts_result s))) sf
      | FAILED_ST \<Rightarrow> settle_stream (Inl (message_exc Exception (ts_message s))) sf
      | _ \<Rightarrow> stream_loop env (ss, e) (status_update (ts_status s) (ts_message s) sf))"

text \<open>The stub: a transport failure comes before the first message, an exception of the servicer after the last.\<close>

definition call_stream :: "rpc_env \<Rightarrow> (task_request \<Rightarrow> task_status list \<times> exc_class option) \<Rightarrow> task_request \<Rightarrow> task_status list \<times> exc_class option" where
  "call_stream env server rq =
     (case rpc_transport env of
        Some e \<Rightarrow> ([], Some e)
      | None \<Rightarrow> (fst (server rq), map_option (\<lambda>_. RpcError) (snd (server rq))))"

definition call_unary :: "rpc_env \<Rightarrow> (task_request \<Rightarrow> exc_class + task_response) \<Rightarrow> task_request \<Rightarrow> exc_class + task_response" where
  "call_unary env server rq =
     (case rpc_transport env of
        Some e \<Rightarrow> Inl e
      | None \<Rightarrow> (case server rq of Inl e \<Rightarrow> Inl RpcError | Inr r \<Rightarrow> Inr r))"

definition unary_outcome :: "rpc_env \<Rightarrow> exc_class + task_response \<Rightarrow> pyval + payload" where
  "unary_outcome env answer =
     (case answer of
        Inl e \<Rightarrow> Inl (PExc e [])
      | Inr r \<Rightarrow>
          (if rs_success r then exc_result (deserialize (rpc_codec env) (rs_result r))
           else Inl (message_exc Exception (rs_error r))))"

record grpc_server =
  srv_execute :: "task_request \<Rightarrow> exc_class + task_response"
  srv_stream :: "task_request \<Rightarrow> task_status list \<times> exc_class option"

text \<open>\<open>_submit_task\<close>. The flag says whether the future is a \<open>StreamingFuture\<close>; a request that cannot be
  built goes to the outer handler.\<close>

definition grpc_submit_task ::
  "rpc_env \<Rightarrow> grpc_server \<Rightarrow> bool \<Rightarrow> string \<Rightarrow> string \<Rightarrow> string \<Rightarrow> pyval list \<Rightarrow> (string, pyval) dict \<Rightarrow>
   stream_future \<Rightarrow> exc_class option \<times> stream_future" where
  "grpc_submit_task env srv streaming tid name f as kw sf =
     (case make_request env tid name f as kw of
        Inl e \<Rightarrow> settle_stream (Inl (PExc e [])) sf
      | Inr rq \<Rightarrow>
          (if streaming then stream_loop env (call_stream env (srv_stream srv) rq) sf
           else settle_stream (unary_outcome env (call_unary env (srv_execute srv) rq)) sf))"

text \<open>\<open>submit\<close>: the flag \<open>long_running\<close> is taken out of the keyword arguments; the future is as the worker
  thread leaves it. \<open>cbs\<close> are the callbacks the caller adds before the first message arrives.\<close>

definition pop_long_running :: "(string, pyval) dict \<Rightarrow> bool \<times> (string, pyval) dict" where
  "pop_long_running kw =
     ((case dict_get kw ''long_running'' of None \<Rightarrow> False | Some v \<Rightarrow> truthy v), dict_del ''long_running'' kw)"

definition grpc_submit ::
  "rpc_env \<Rightarrow> grpc_server \<Rightarrow> bool \<Rightarrow> string \<Rightarrow> string \<Rightarrow> string list \<Rightarrow> string \<Rightarrow> pyval list \<Rightarrow> (string, pyval) dict \<Rightarrow>
   exc_class + stream_future" where
  "grpc_submit env srv down tid name cbs f as kw =
     (if down then Inl RuntimeError
      else
        (case pop_long_running kw of
           (streaming, kw') \<Rightarrow>
             (let new = \<lparr>sf_fut = Pending, sf_callbacks = [], sf_calls = []\<rparr>;
                  sf = (if streaming then foldl (\<lambda>sf c. add_status_callback c sf) new cbs else new)
              in Inr (snd (grpc_submit_task env srv streaming tid name f as kw' sf)))))"

end
