(* ===== verification/Rpc_Props.thy ===== *)
theory Rpc_Props
  imports Rpc Remote_Props
begin

text \<open>
  The executors agree on values: calling the function at once, over XML-RPC, over a unary gRPC call or
  over a gRPC stream gives the future the same value. They differ on exceptions: gRPC replaces the exception by
  a plain \<open>Exception\<close> with its text.
\<close>

section \<open>What can be sent\<close>

definition sendable :: "rpc_env \<Rightarrow> payload \<Rightarrow> bool" where
  "sendable env p \<longleftrightarrow> (\<exists>bs. serialize (rpc_codec env) p = Inr bs)"

lemma codec_inverse: "codec_ok cd \<Longrightarrow> serialize cd p = Inr bs \<Longrightarrow> deserialize cd bs = Inr p"
  by (simp add: codec_ok_def)

text \<open>The value or exception that travels back, and a task whose messages can all be encoded. A function must
  not return an exception as its value: XML-RPC could not tell it from one that is raised.\<close>

definition answer_of :: "pyval + pyval \<Rightarrow> pyval" where
  "answer_of r = (case r of Inl x \<Rightarrow> x | Inr v \<Rightarrow> v)"

definition task_good :: "rpc_env \<Rightarrow> callee \<Rightarrow> string \<Rightarrow> pyval list \<Rightarrow> (string, pyval) dict \<Rightarrow> bool" where
  "task_good env call_fn f as kw \<longleftrightarrow>
     codec_ok (rpc_codec env) \<and> rpc_transport env = None \<and>
     sendable env (TaskMessage f as kw) \<and> sendable env (Function f) \<and> sendable env (Plain (PTuple as)) \<and> sendable env (Plain (PDict kw)) \<and>
     sendable env (Plain (answer_of (call_fn f as kw))) \<and>
     dict_get kw ''long_running'' = None \<and>
     (is_exception (answer_of (call_fn f as kw)) \<longleftrightarrow> isl (call_fn f as kw))"

section \<open>XML-RPC\<close>

lemma xmlrpc_run:
  assumes "task_good env call_fn f as kw"
  shows "xmlrpc_submit env (xmlrpc_execute env call_fn) False f as kw = Inr (Finished (map_sum id Plain (call_fn f as kw)))"
proof -
  obtain bs bs' where s: "serialize (rpc_codec env) (TaskMessage f as kw) = Inr bs" "deserialize (rpc_codec env) bs = Inr (TaskMessage f as kw)"
    "serialize (rpc_codec env) (Plain (answer_of (call_fn f as kw))) = Inr bs'"
    "deserialize (rpc_codec env) bs' = Inr (Plain (answer_of (call_fn f as kw)))"
    using assms by (auto simp: task_good_def sendable_def dest: codec_inverse)
  then have "xmlrpc_execute env call_fn bs = Inr bs'" by (simp add: xmlrpc_execute_def answer_of_def)
  then show ?thesis using assms s
    by (cases "call_fn f as kw")
      (simp_all add: xmlrpc_submit_def xmlrpc_submit_task_def proxy_execute_def xmlrpc_outcome_def task_good_def answer_of_def)
qed

section \<open>gRPC\<close>

text \<open>What gRPC makes of an outcome.\<close>

definition grpc_view :: "rpc_env \<Rightarrow> pyval + pyval \<Rightarrow> pyval + payload" where
  "grpc_view env r = map_sum (\<lambda>x. message_exc Exception (rpc_exc_str env x)) Plain r"

lemma request_decodes:
  assumes "task_good env call_fn f as kw"
  obtains rq where "make_request env tid name f as kw = Inr rq"
    "decode_request (rpc_codec env) rq = Inr (Function f, Plain (PTuple as), Plain (PDict kw))"
proof -
  obtain bf ba bk where "serialize (rpc_codec env) (Function f) = Inr bf" "serialize (rpc_codec env) (Plain (PTuple as)) = Inr ba"
    "serialize (rpc_codec env) (Plain (PDict kw)) = Inr bk"
    using assms by (auto simp: task_good_def sendable_def)
  moreover from this have "deserialize (rpc_codec env) bf = Inr (Function f)" "deserialize (rpc_codec env) ba = Inr (Plain (PTuple as))"
    "deserialize (rpc_codec env) bk = Inr (Plain (PDict kw))"
    using assms by (auto simp: task_good_def intro: codec_inverse)
  ultimately show ?thesis using that by (simp add: make_request_def decode_request_def)
qed

lemma answer_encodes:
  assumes "task_good env call_fn f as kw"
  obtains bs where "serialize (rpc_codec env) (Plain (answer_of (call_fn f as kw))) = Inr bs"
    "deserialize (rpc_codec env) bs = Inr (Plain (answer_of (call_fn f as kw)))"
  using assms by (auto simp: task_good_def sendable_def dest: codec_inverse)

definition servicer :: "rpc_env \<Rightarrow> callee \<Rightarrow> grpc_server" where
  "servicer env call_fn = \<lparr>srv_execute = grpc_execute env call_fn, srv_stream = grpc_execute_stream env call_fn\<rparr>"

lemma grpc_unary_task:
  assumes "task_good env call_fn f as kw" and "sf_fut sf = Pending"
  shows "grpc_submit_task env (servicer env call_fn) False tid name f as kw sf = (None, sf\<lparr>sf_fut := Finished (grpc_view env (call_fn f as kw))\<rparr>)"
proof -
  obtain rq where rq: "make_request env tid name f as kw = Inr rq"
    "decode_request (rpc_codec env) rq = Inr (Function f, Plain (PTuple as), Plain (PDict kw))" using request_decodes[OF assms(1)] .
  obtain bs where bs: "serialize (rpc_codec env) (Plain (answer_of (call_fn f as kw))) = Inr bs"
    "deserialize (rpc_codec env) bs = Inr (Plain (answer_of (call_fn f as kw)))" using answer_encodes[OF assms(1)] .
  have "rpc_transport env = None" using assms(1) by (simp add: task_good_def)
  with rq bs assms(2) show ?thesis
    by (cases "call_fn f as kw")
      (simp_all add: grpc_submit_task_def servicer_def call_unary_def grpc_execute_def run_request_def run_decoded_def apply_decoded_def
        answer_of_def unary_outcome_def exc_result_def grpc_view_def settle_stream_def)
qed

lemma grpc_stream_task:
  assumes "task_good env call_fn f as kw" and "sf_fut sf = Pending"
  shows "grpc_submit_task env (servicer env call_fn) True tid name f as kw sf =
    (None, (status_update RUNNING_ST ''Task started'' (status_update PENDING_ST ''Task received'' sf))
      \<lparr>sf_fut := Finished (grpc_view env (call_fn f as kw))\<rparr>)"
proof -
  obtain rq where rq: "make_request env tid name f as kw = Inr rq"
    "decode_request (rpc_codec env) rq = Inr (Function f, Plain (PTuple as), Plain (PDict kw))" using request_decodes[OF assms(1)] .
  obtain bs where bs: "serialize (rpc_codec env) (Plain (answer_of (call_fn f as kw))) = Inr bs"
    "deserialize (rpc_codec env) bs = Inr (Plain (answer_of (call_fn f as kw)))" using answer_encodes[OF assms(1)] .
  have "rpc_transport env = None" using assms(1) by (simp add: task_good_def)
  with rq bs assms(2) show ?thesis
    by (cases "call_fn f as kw")
      (simp_all add: grpc_submit_task_def servicer_def call_stream_def grpc_execute_stream_def run_decoded_def apply_decoded_def
        then_yield_def stream_failure_def answer_of_def exc_result_def grpc_view_def settle_stream_def status_update_def)
qed

lemma fold_callbacks: "foldl (\<lambda>sf c. add_status_callback c sf) sf cbs = sf\<lparr>sf_callbacks := sf_callbacks sf @ cbs\<rparr>"
  by (induction cbs arbitrary: sf) (simp_all add: add_status_callback_def)

lemma grpc_unary_run:
  assumes "task_good env call_fn f as kw"
  shows "\<exists>sf. grpc_submit env (servicer env call_fn) False tid name cbs f as kw = Inr sf \<and> sf_fut sf = Finished (grpc_view env (call_fn f as kw)) \<and> sf_calls sf = []"
proof -
  have "dict_get kw ''long_running'' = None" using assms by (simp add: task_good_def)
  then have "pop_long_running kw = (False, kw)" by (simp add: pop_long_running_def dict_del_absent)
  then show ?thesis using grpc_unary_task[OF assms] by (simp add: grpc_submit_def Let_def)
qed

lemma grpc_stream_run:
  assumes "task_good env call_fn f as kw" and "truthy flag"
  shows "\<exists>sf. grpc_submit env (servicer env call_fn) False tid name cbs f as (kw @ [(''long_running'', flag)]) = Inr sf \<and>
    sf_fut sf = Finished (grpc_view env (call_fn f as kw)) \<and>
    sf_calls sf = map (\<lambda>c. (c, PENDING_ST, ''Task received'')) cbs @ map (\<lambda>c. (c, RUNNING_ST, ''Task started'')) cbs"
proof -
  have "dict_get kw ''long_running'' = None" using assms by (simp add: task_good_def)
  moreover from this have "dict_del ''long_running'' (kw @ [(''long_running'', flag)]) = kw"
    by (rule dict_del_last)
  ultimately have "pop_long_running (kw @ [(''long_running'', flag)]) = (True, kw)"
    using assms(2) by (simp add: pop_long_running_def map_add_def)
  then show ?thesis using grpc_stream_task[OF assms(1)] by (simp add: grpc_submit_def Let_def fold_callbacks status_update_def)
qed

section \<open>The contract of an executor\<close>

type_synonym task_call = "string \<times> pyval list \<times> (string, pyval) dict"

fun default_run :: "callee \<Rightarrow> task_call \<Rightarrow> pyval fut" where
  "default_run call_fn (f, as, kw) = projr (default_submit call_fn f as kw)"

fun xmlrpc_run_task :: "rpc_env \<Rightarrow> callee \<Rightarrow> task_call \<Rightarrow> payload fut" where
  "xmlrpc_run_task env call_fn (f, as, kw) = projr (xmlrpc_submit env (xmlrpc_execute env call_fn) False f as kw)"

fun grpc_run_task :: "rpc_env \<Rightarrow> callee \<Rightarrow> task_call \<Rightarrow> payload fut" where
  "grpc_run_task env call_fn (f, as, kw) = sf_fut (projr (grpc_submit env (servicer env call_fn) False ''task'' f [] f as kw))"

fun task_outcome :: "callee \<Rightarrow> task_call \<Rightarrow> pyval + pyval" where
  "task_outcome call_fn (f, as, kw) = call_fn f as kw"

fun good_call :: "rpc_env \<Rightarrow> callee \<Rightarrow> task_call \<Rightarrow> bool" where
  "good_call env call_fn (f, as, kw) \<longleftrightarrow> task_good env call_fn f as kw"

interpretation local_run: task_runner "default_run call_fn" "task_outcome call_fn" "\<lambda>_. True"
  by unfold_locales (auto simp: default_submit_Inr)

interpretation xmlrpc: task_runner "xmlrpc_run_task env call_fn" "\<lambda>t. map_sum id Plain (task_outcome call_fn t)" "good_call env call_fn"
  by unfold_locales (auto simp: xmlrpc_run)

interpretation grpc: task_runner "grpc_run_task env call_fn" "\<lambda>t. map_sum id Plain (task_outcome call_fn t)" "good_call env call_fn"
proof unfold_locales
  have run: "grpc_run_task env call_fn t = Finished (grpc_view env (task_outcome call_fn t))" if "good_call env call_fn t" for t
  proof -
    obtain f as kw where t: "t = (f, as, kw)" by (cases t)
    then show ?thesis using that grpc_unary_run[of env call_fn f as kw "''task''" f "[]"] by auto
  qed
  show "grpc_run_task env call_fn t = Finished (Inr v)" if "good_call env call_fn t" "map_sum id Plain (task_outcome call_fn t) = Inr v" for t v
    using that run by (cases "task_outcome call_fn t") (auto simp: grpc_view_def)
  show "\<exists>y. grpc_run_task env call_fn t = Finished (Inl y)" if "good_call env call_fn t" "map_sum id Plain (task_outcome call_fn t) = Inl x" for t x
    using that run by (cases "task_outcome call_fn t") (auto simp: grpc_view_def)
qed

text \<open>C29. For a task that can be sent, the future of every executor ends with the outcome of the function: the
  default executor and XML-RPC give the value or the very exception, gRPC the value or a plain \<open>Exception\<close>
  with the text of the exception, by a unary call and by a stream alike; a stream reports exactly the states
  pending and running to every callback before that. Waiting for any number of such futures returns.\<close>

theorem executors_agree:
  assumes "task_good env call_fn f as kw" and "truthy flag" and "\<forall>t \<in> set ts. good_call env call_fn t"
  shows "default_submit call_fn f as kw = Inr (Finished (call_fn f as kw))
    \<and> xmlrpc_submit env (xmlrpc_execute env call_fn) False f as kw = Inr (Finished (map_sum id Plain (call_fn f as kw)))
    \<and> (\<exists>sf. grpc_submit env (servicer env call_fn) False tid name cbs f as kw = Inr sf \<and>
         sf_fut sf = Finished (map_sum (\<lambda>x. message_exc Exception (rpc_exc_str env x)) Plain (call_fn f as kw)) \<and> sf_calls sf = [])
    \<and> (\<exists>sf. grpc_submit env (servicer env call_fn) False tid name cbs f as (kw @ [(''long_running'', flag)]) = Inr sf \<and>
         sf_fut sf = Finished (map_sum (\<lambda>x. message_exc Exception (rpc_exc_str env x)) Plain (call_fn f as kw)) \<and>
         sf_calls sf = map (\<lambda>c. (c, PENDING_ST, ''Task received'')) cbs @ map (\<lambda>c. (c, RUNNING_ST, ''Task started'')) cbs)
    \<and> (\<exists>rs. map (\<lambda>t. fut_result (xmlrpc_run_task env call_fn t)) ts = map Some rs \<and> length rs = length ts)
    \<and> (\<exists>rs. map (\<lambda>t. fut_result (grpc_run_task env call_fn t)) ts = map Some rs \<and> length rs = length ts)"
  using default_submit_Inr xmlrpc_run[OF assms(1)] grpc_unary_run[OF assms(1), of tid name cbs] grpc_stream_run[OF assms(1,2), of tid name cbs]
    xmlrpc.results_return[OF assms(3)] grpc.results_return[OF assms(3)]
  unfolding grpc_view_def by blast

definition pair_codec :: codec where
  "pair_codec =
     (let table = [(TaskMessage ''add'' [PInt 40, PInt 2] [], [1]), (Function ''add'', [2]), (Plain (PTuple [PInt 40, PInt 2]), [3]),
        (Plain (PDict []), [4]), (Plain (PInt 42), [5])]
      in \<lparr>serialize = (\<lambda>x. of_option TypeError (map_of table x)),
          deserialize = (\<lambda>bs. of_option ZlibError (map_of (map (\<lambda>(x, b). (b, x)) table) bs))\<rparr>)"

definition demo_rpc :: rpc_env where
  "demo_rpc = \<lparr>rpc_codec = pair_codec, rpc_exc_str = (\<lambda>x. ''error''), rpc_transport = None\<rparr>"

lemma demo_rpc_good: "task_good demo_rpc demo_call ''add'' [PInt 40, PInt 2] []"
proof -
  have "codec_ok pair_codec" by (auto simp: codec_ok_def pair_codec_def Let_def res_simps split: if_splits)
  then show ?thesis
    by (simp add: task_good_def sendable_def answer_of_def demo_rpc_def demo_call_def pair_codec_def is_exception_def)
qed

theorem executors_agree_witness:
  "xmlrpc_submit demo_rpc (xmlrpc_execute demo_rpc demo_call) False ''add'' [PInt 40, PInt 2] [] = Inr (Finished (Inr (Plain (PInt 42)))) \<and>
   (\<exists>sf. grpc_submit demo_rpc (servicer demo_rpc demo_call) False ''1'' ''add'' [''log''] ''add'' [PInt 40, PInt 2] [(''long_running'', PBool True)] = Inr sf \<and>
     sf_fut sf = Finished (Inr (Plain (PInt 42))) \<and>
     sf_calls sf = [(''log'', PENDING_ST, ''Task received''), (''log'', RUNNING_ST, ''Task started'')])"
  using executors_agree[OF demo_rpc_good, of "PBool True" "[(''add'', [PInt 40, PInt 2], [])]" "''1''" "''add''" "[''log'']"] demo_rpc_good
  by (simp add: demo_call_def)

end
