(* ===== verification/Actions.thy ===== *)
theory Actions
  imports Main
begin

text \<open>
  Code that changes a state and may raise: an action takes the state to an outcome and a new state, and an
  exception keeps the state reached so far. \<open>keeps R\<close> says that an action relates the state before to the
  state after by \<open>R\<close>; it holds of a composed action when it holds of its parts.
\<close>

section \<open>Operations with a state\<close>

type_synonym ('s, 'e, 'a) action = "'s \<Rightarrow> ('e + 'a) \<times> 's"

definition ret_act :: "'a \<Rightarrow> ('s, 'e, 'a) action" where
  "ret_act x s = (Inr x, s)"

definition raise_act :: "'e \<Rightarrow> ('s, 'e, 'a) action" where
  "raise_act x s = (Inl x, s)"

definition bind_act :: "('s, 'e, 'a) action \<Rightarrow> ('a \<Rightarrow> ('s, 'e, 'b) action) \<Rightarrow> ('s, 'e, 'b) action" where
  "bind_act m f s = (case m s of (Inl x, s') \<Rightarrow> (Inl x, s') | (Inr v, s') \<Rightarrow> f v s')"

definition modify_act :: "('s \<Rightarrow> 's) \<Rightarrow> ('s, 'e, unit) action" where
  "modify_act f s = (Inr (), f s)"

definition catch_act :: "('s, 'e, 'a) action \<Rightarrow> ('e \<Rightarrow> ('s, 'e, 'a) action) \<Rightarrow> ('s, 'e, 'a) action" where
  "catch_act m h s = (case m s of (Inl x, s') \<Rightarrow> h x s' | (Inr v, s') \<Rightarrow> (Inr v, s'))"

named_theorems act_simps "outcomes of operations with a state"

lemma act_basics [act_simps]:
  "ret_act x s = (Inr x, s)" "raise_act e s = (Inl e, s)" "modify_act f s = (Inr (), f s)"
  by (simp_all add: ret_act_def raise_act_def modify_act_def)

lemma bind_act_Inr [act_simps]: "bind_act m f s = (Inr v, s'') \<longleftrightarrow> (\<exists>x s'. m s = (Inr x, s') \<and> f x s' = (Inr v, s''))"
  by (auto simp: bind_act_def split: prod.splits sum.splits)

lemma bind_act_Inl [act_simps]:
  "bind_act m f s = (Inl e, s'') \<longleftrightarrow> m s = (Inl e, s'') \<or> (\<exists>x s'. m s = (Inr x, s') \<and> f x s' = (Inl e, s''))"
  by (auto simp: bind_act_def split: prod.splits sum.splits)

text \<open>A relation between states that every part keeps is kept by the whole.\<close>

definition keeps :: "('s \<Rightarrow> 's \<Rightarrow> bool) \<Rightarrow> ('s, 'e, 'a) action \<Rightarrow> bool" where
  "keeps R m \<longleftrightarrow> (\<forall>s. R s (snd (m s)))"

lemma keepsD: "keeps R m \<Longrightarrow> m s = (r, s') \<Longrightarrow> R s s'"
  by (metis keeps_def snd_conv)

lemma keeps_bind [intro]:
  assumes "transp R" and "keeps R m" and "\<And>x. keeps R (f x)"
  shows "keeps R (bind_act m f)"
  unfolding keeps_def
proof
  fix s
  obtain r s' where ms: "m s = (r, s')" by (cases "m s")
  then have 1: "R s s'" by (rule keepsD[OF assms(2)])
  show "R s (snd (bind_act m f s))"
  proof (cases r)
    case (Inr v)
    have "R s' (snd (f v s'))" using assms(3) by (simp add: keeps_def)
    then show ?thesis using 1 ms Inr assms(1) by (auto simp: bind_act_def dest: transpD)
  qed (use 1 ms in \<open>simp add: bind_act_def\<close>)
qed

lemma keeps_catch [intro]:
  assumes "transp R" and "keeps R m" and "\<And>x. keeps R (h x)"
  shows "keeps R (catch_act m h)"
  unfolding keeps_def
proof
  fix s
  obtain r s' where ms: "m s = (r, s')" by (cases "m s")
  then have 1: "R s s'" by (rule keepsD[OF assms(2)])
  show "R s (snd (catch_act m h s))"
  proof (cases r)
    case (Inl e)
    have "R s' (snd (h e s'))" using assms(3) by (simp add: keeps_def)
    then show ?thesis using 1 ms Inl assms(1) by (auto simp: catch_act_def dest: transpD)
  qed (use 1 ms in \<open>simp add: catch_act_def\<close>)
qed

end
