(* ===== verification/Hadoop.thy ===== *)
theory Hadoop
  imports Futures Actions
begin

text \<open>
  Execution on a Hadoop cluster: \<open>HadoopConnector\<close> and \<open>HadoopExecutor\<close> of
  \<^verbatim>\<open>src/nexus/executors/hadoop_executer.py\<close>.

  The client libraries are the record \<open>hadoop_api\<close>: each call takes the state of the world (cluster, file
  system, clock) and may raise. An operation of the connector is a function from its state to an outcome and
  a new state; \<open>bind_act\<close> composes them, an exception keeps the state reached so far. The executor is shared
  by the polling thread and its clients: \<open>hadoop_step\<close> interleaves their steps, with the lock and the
  futures as the code uses them.
\<close>

type_synonym ('s, 'a) act = "('s, pyval, 'a) action"

section \<open>Jobs and the client libraries\<close>

abbreviation HadoopJobError :: exc_class where
  "HadoopJobError \<equiv> UserExc ''HadoopJobError'' Exception"

text \<open>The states of \<open>concurrent.futures\<close> the code uses for jobs.\<close>

datatype job_status = J_PENDING | J_RUNNING | J_FINISHED | J_CANCELLED | J_CANCELLED_AND_NOTIFIED

record job_info =
  ji_status :: job_status
  ji_start_time :: rat
  ji_job_path :: string
  ji_output_path :: string
  ji_job_name :: string
  ji_error :: "string option"

text \<open>A task: its identity, its \<open>__name__\<close> if it has one, and whether it is an \<open>EventBase\<close>.\<close>

record task_fn =
  fn_id :: string
  fn_name :: "string option"
  fn_is_event :: bool

record job_config =
  jc_function :: task_fn
  jc_args :: "pyval list"
  jc_kwargs :: "(string, pyval) dict"
  jc_job_name :: string

record hadoop_job =
  hj_name :: string
  hj_mapper :: string
  hj_reducer :: string
  hj_input :: string
  hj_output :: string
  hj_files :: "string list"
  hj_properties :: "(string \<times> string option) list"

record hadoop_settings =
  hs_host :: string
  hs_port :: int
  hs_username :: "string option"
  hs_password :: "string option"
  hs_kerb_ticket :: "string option"
  hs_hdfs_config :: "(string, string) dict"
  hs_yarn_config :: "(string, string) dict"

record ('w, 'b) hadoop_api =
  hd_libs :: bool
  hd_connect :: "string \<Rightarrow> int \<Rightarrow> string option \<Rightarrow> string option \<Rightarrow> (string, string) dict \<Rightarrow> ('w, unit) act"
  hd_yarn :: "string \<Rightarrow> string option \<Rightarrow> string option \<Rightarrow> string option \<Rightarrow> (string, string) dict \<Rightarrow> ('w, unit) act"
  hd_job_client :: "('w, unit) act"
  hd_close :: "('w, unit) act"
  hd_yarn_close :: "('w, unit) act"
  hd_dump :: "task_fn \<Rightarrow> pyval list \<Rightarrow> (string, pyval) dict \<Rightarrow> pyval + 'b"
  hd_exists :: "string \<Rightarrow> ('w, bool) act"
  hd_mkdir :: "string \<Rightarrow> ('w, unit) act"
  hd_upload :: "string \<Rightarrow> 'b \<Rightarrow> ('w, unit) act"
  hd_ls :: "string \<Rightarrow> ('w, string list) act"
  hd_load :: "string \<Rightarrow> ('w, pyval) act"
  hd_create_job :: "string \<Rightarrow> string \<Rightarrow> string \<Rightarrow> ('w, unit) act"
  hd_submit :: "hadoop_job \<Rightarrow> ('w, string) act"
  hd_output_path :: "hadoop_job \<Rightarrow> ('w, string) act"
  hd_status :: "string \<Rightarrow> ('w, string) act"
  hd_kill :: "string \<Rightarrow> ('w, bool) act"
  hd_time :: "'w \<Rightarrow> rat"
  hd_timestamp :: "'w \<Rightarrow> string"
  hd_str_exc :: "pyval \<Rightarrow> string"

section \<open>HadoopConnector\<close>

text \<open>Which clients are set, the tracked jobs, the temporary files left on the local disk, and the seconds
  spent in \<open>sleep\<close>.\<close>

record 'w hadoop_conn =
  hc_hdfs :: bool
  hc_yarn :: bool
  hc_job_client :: bool
  hc_jobs :: "(string, job_info) dict"
  hc_temp_files :: nat
  hc_slept :: nat
  hc_world :: 'w

definition mk_hadoop_conn :: "'w \<Rightarrow> 'w hadoop_conn" where
  "mk_hadoop_conn w =
     \<lparr>hc_hdfs = False, hc_yarn = False, hc_job_client = False, hc_jobs = [], hc_temp_files = 0, hc_slept = 0, hc_world = w\<rparr>"

definition call_api :: "('w, 'a) act \<Rightarrow> ('w hadoop_conn, 'a) act" where
  "call_api m c = (case m (hc_world c) of (r, w) \<Rightarrow> (r, c\<lparr>hc_world := w\<rparr>))"

text \<open>A method of a client that is \<open>None\<close> is an AttributeError.\<close>

definition on_client :: "('w hadoop_conn \<Rightarrow> bool) \<Rightarrow> ('w, 'a) act \<Rightarrow> ('w hadoop_conn, 'a) act" where
  "on_client is_set m c = (if is_set c then call_api m c else (Inl (PExc AttributeError []), c))"

definition read_world :: "('w \<Rightarrow> 'a) \<Rightarrow> ('w hadoop_conn, 'a) act" where
  "read_world f c = (Inr (f (hc_world c)), c)"

definition kerb_argument :: "hadoop_settings \<Rightarrow> string option" where
  "kerb_argument cfg =
     (case hs_kerb_ticket cfg of
        Some (c # t) \<Rightarrow> Some (c # t)
      | _ \<Rightarrow> (case hs_password cfg of Some (c # t) \<Rightarrow> None | _ \<Rightarrow> Some ''default''))"

definition hdfs_extra_conf :: "hadoop_settings \<Rightarrow> (string, string) dict" where
  "hdfs_extra_conf cfg =
     dict_update [(''dfs.client.read.shortcircuit'', ''true''), (''dfs.domain.socket.path'', ''/var/lib/hadoop-hdfs/dn_socket'')] (hs_hdfs_config cfg)"

definition yarn_conf :: "hadoop_settings \<Rightarrow> (string, string) dict" where
  "yarn_conf cfg =
     dict_update
       [(''yarn.resourcemanager.hostname'', hs_host cfg),
        (''yarn.resourcemanager.address'', hs_host cfg @ '':8032''),
        (''yarn.resourcemanager.scheduler.address'', hs_host cfg @ '':8030'')]
       (hs_yarn_config cfg)"

definition connect_once :: "('w, 'b) hadoop_api \<Rightarrow> hadoop_settings \<Rightarrow> ('w hadoop_conn, unit) act" where
  "connect_once api cfg =
     bind_act (call_api (hd_connect api (hs_host cfg) (hs_port cfg) (hs_username cfg) (kerb_argument cfg) (hdfs_extra_conf cfg))) (\<lambda>_.
     bind_act (modify_act (\<lambda>c. c\<lparr>hc_hdfs := True\<rparr>)) (\<lambda>_.
     bind_act (call_api (hd_yarn api (hs_host cfg) (hs_username cfg) (hs_password cfg) (hs_kerb_ticket cfg) (yarn_conf cfg))) (\<lambda>_.
     bind_act (modify_act (\<lambda>c. c\<lparr>hc_yarn := True\<rparr>)) (\<lambda>_.
     bind_act (call_api (hd_job_client api)) (\<lambda>_.
     modify_act (\<lambda>c. c\<lparr>hc_job_client := True\<rparr>))))))"

fun connect_attempts :: "('w, 'b) hadoop_api \<Rightarrow> hadoop_settings \<Rightarrow> nat list \<Rightarrow> ('w hadoop_conn, bool) act" where
  "connect_attempts api cfg [] c = (Inr False, c)"
| "connect_attempts api cfg (a # as) c =
     (case connect_once api cfg c of
        (Inr _, c') \<Rightarrow> (Inr True, c')
      | (Inl e, c') \<Rightarrow> connect_attempts api cfg as (c'\<lparr>hc_slept := hc_slept c' + min (2 ^ a) 10\<rparr>))"

definition hadoop_connect :: "('w, 'b) hadoop_api \<Rightarrow> hadoop_settings \<Rightarrow> ('w hadoop_conn, bool) act" where
  "hadoop_connect api cfg c =
     (if \<not> hd_libs api then (Inl (PExc ImportError []), c)
      else if hc_hdfs c then (Inr True, c)
      else connect_attempts api cfg [0, 1, 2] c)"

text \<open>\<open>disconnect\<close> logs what a client raises on closing; the clients after it keep their state.\<close>

definition hadoop_disconnect :: "('w, 'b) hadoop_api \<Rightarrow> ('w hadoop_conn, unit) act" where
  "hadoop_disconnect api c =
     (if hc_hdfs c
      then
        catch_act
          (bind_act (call_api (hd_close api)) (\<lambda>_.
           bind_act (modify_act (\<lambda>c. c\<lparr>hc_hdfs := False\<rparr>)) (\<lambda>_.
           bind_act (\<lambda>c. if hc_yarn c then bind_act (call_api (hd_yarn_close api)) (\<lambda>_. modify_act (\<lambda>c. c\<lparr>hc_yarn := False\<rparr>)) c else (Inr (), c)) (\<lambda>_.
           modify_act (\<lambda>c. c\<lparr>hc_job_client := False\<rparr>)))))
          (\<lambda>_. ret_act ()) c
      else (Inr (), c))"

text \<open>Text of numbers and of an optional user name in an f-string.\<close>

fun show_nat :: "nat \<Rightarrow> string" where
  "show_nat n = (if n < 10 then [char_of (48 + n)] else show_nat (n div 10) @ [char_of (48 + n mod 10)])"

declare show_nat.simps [simp del]

definition show_user :: "hadoop_settings \<Rightarrow> string" where
  "show_user cfg = (case hs_username cfg of None \<Rightarrow> ''None'' | Some u \<Rightarrow> u)"

definition fn_label :: "task_fn \<Rightarrow> string" where
  "fn_label fn = (case fn_name fn of None \<Rightarrow> ''anonymous_task'' | Some n \<Rightarrow> n)"

definition job_dir :: "hadoop_settings \<Rightarrow> string" where
  "job_dir cfg = ''/tmp/hadoop_executor/'' @ show_user cfg @ ''/jobs''"

definition upload_job :: "('w, 'b) hadoop_api \<Rightarrow> hadoop_settings \<Rightarrow> task_fn \<Rightarrow> 'b \<Rightarrow> ('w hadoop_conn, string) act" where
  "upload_job api cfg fn data =
     bind_act (on_client hc_hdfs (hd_exists api (job_dir cfg))) (\<lambda>present.
     bind_act (if present then ret_act () else on_client hc_hdfs (hd_mkdir api (job_dir cfg))) (\<lambda>_.
     bind_act (read_world (hd_timestamp api)) (\<lambda>stamp.
     let path = job_dir cfg @ ''/'' @ fn_label fn @ ''_'' @ stamp @ ''.pkl''
     in bind_act (on_client hc_hdfs (hd_upload api path data)) (\<lambda>_. ret_act path))))"

text \<open>\<open>_serialize_job\<close>: the temporary file is created before the arguments are pickled and removed after the
  upload, whatever the upload does.\<close>

definition serialize_job ::
  "('w, 'b) hadoop_api \<Rightarrow> hadoop_settings \<Rightarrow> task_fn \<Rightarrow> pyval list \<Rightarrow> (string, pyval) dict \<Rightarrow> ('w hadoop_conn, string) act" where
  "serialize_job api cfg fn as kw c =
     (let c1 = c\<lparr>hc_temp_files := Suc (hc_temp_files c)\<rparr>
      in case hd_dump api fn as kw of
           Inl e \<Rightarrow> (Inl e, c1)
         | Inr data \<Rightarrow> (case upload_job api cfg fn data c1 of (r, c2) \<Rightarrow> (r, c2\<lparr>hc_temp_files := hc_temp_files c2 - 1\<rparr>)))"

definition output_dir :: "hadoop_settings \<Rightarrow> string \<Rightarrow> rat \<Rightarrow> string" where
  "output_dir cfg name t = ''/tmp/hadoop_executor/'' @ show_user cfg @ ''/output/'' @ name @ ''_'' @ show_nat (nat \<lfloor>t\<rfloor>)"

definition build_job :: "hadoop_settings \<Rightarrow> string \<Rightarrow> string \<Rightarrow> rat \<Rightarrow> hadoop_job" where
  "build_job cfg name path t =
     \<lparr>hj_name = name, hj_mapper = ''python /hadoop_executor/mapper.py'', hj_reducer = ''python /hadoop_executor/reducer.py'',
      hj_input = path, hj_output = output_dir cfg name t, hj_files = [''/hadoop_executor/executor_runtime.py''],
      hj_properties = [(''hadoop.job.ugi'', hs_username cfg), (''mapreduce.job.queuename'', Some ''default'')]\<rparr>"

definition ensure_connected :: "('w, 'b) hadoop_api \<Rightarrow> hadoop_settings \<Rightarrow> ('w hadoop_conn, unit) act" where
  "ensure_connected api cfg c =
     (if hc_hdfs c \<and> hc_yarn c then (Inr (), c)
      else bind_act (hadoop_connect api cfg) (\<lambda>b. if b then ret_act () else raise_act (PExc ConnectionError [])) c)"

definition track_job :: "string \<Rightarrow> job_info \<Rightarrow> ('w hadoop_conn, unit) act" where
  "track_job jid info = modify_act (\<lambda>c. c\<lparr>hc_jobs := dict_set jid info (hc_jobs c)\<rparr>)"

definition submit_job :: "('w, 'b) hadoop_api \<Rightarrow> hadoop_settings \<Rightarrow> job_config \<Rightarrow> ('w hadoop_conn, string) act" where
  "submit_job api cfg jc =
     bind_act (ensure_connected api cfg) (\<lambda>_.
     bind_act (serialize_job api cfg (jc_function jc) (jc_args jc) (jc_kwargs jc)) (\<lambda>path.
     bind_act (on_client hc_job_client (hd_create_job api (jc_job_name jc) ''default'' ''streaming'')) (\<lambda>_.
     bind_act (read_world (hd_time api)) (\<lambda>t.
     let job = build_job cfg (jc_job_name jc) path t
     in bind_act (call_api (hd_submit api job)) (\<lambda>jid.
        bind_act (read_world (hd_time api)) (\<lambda>start.
        bind_act (call_api (hd_output_path api job)) (\<lambda>out.
        bind_act (track_job jid \<lparr>ji_status = J_PENDING, ji_start_time = start, ji_job_path = path, ji_output_path = out,
                                 ji_job_name = jc_job_name jc, ji_error = None\<rparr>) (\<lambda>_.
        ret_act jid))))))))"

definition status_mapping :: "(string, job_status) dict" where
  "status_mapping =
     [(''NEW'', J_PENDING), (''INITED'', J_PENDING), (''RUNNING'', J_RUNNING), (''SUCCEEDED'', J_FINISHED),
      (''FAILED'', J_FINISHED), (''KILLED'', J_CANCELLED), (''ERROR'', J_FINISHED)]"

definition map_status :: "string \<Rightarrow> job_status" where
  "map_status s = (case dict_get status_mapping s of None \<Rightarrow> J_RUNNING | Some st \<Rightarrow> st)"

definition update_info :: "string \<Rightarrow> job_info \<Rightarrow> job_info" where
  "update_info s info =
     (let info1 = info\<lparr>ji_status := map_status s\<rparr>
      in if s = ''FAILED'' \<or> s = ''ERROR'' then info1\<lparr>ji_error := Some (''Job failed with status: '' @ s)\<rparr> else info1)"

definition get_job_status :: "('w, 'b) hadoop_api \<Rightarrow> string \<Rightarrow> ('w hadoop_conn, job_status) act" where
  "get_job_status api jid c =
     (case dict_get (hc_jobs c) jid of
        None \<Rightarrow> (Inl (PExc KeyError []), c)
      | Some info \<Rightarrow>
          (case on_client hc_job_client (hd_status api jid) c of
             (Inl e, c') \<Rightarrow> (Inr (ji_status info), c')
           | (Inr s, c') \<Rightarrow> (Inr (map_status s), c'\<lparr>hc_jobs := dict_set jid (update_info s info) (hc_jobs c')\<rparr>)))"

text \<open>Finding and reading the result file: the body of the last \<open>try\<close> of \<open>get_job_result\<close>.\<close>

definition read_result :: "('w, 'b) hadoop_api \<Rightarrow> string \<Rightarrow> ('w hadoop_conn, pyval) act" where
  "read_result api out =
     bind_act (on_client hc_hdfs (hd_exists api (out @ ''/part-00000''))) (\<lambda>present.
     bind_act
       (if present then ret_act (out @ ''/part-00000'')
        else
          bind_act (on_client hc_hdfs (hd_ls api out)) (\<lambda>files.
            case filter (\<lambda>f. str_endswith f ''part-00000'' \<or> str_endswith f ''part-r-00000'') files of
              [] \<Rightarrow> raise_act (message_exc HadoopJobError (''No result file found in output directory: '' @ out))
            | f # fs \<Rightarrow> ret_act f))
       (\<lambda>file. on_client hc_hdfs (hd_load api file)))"

text \<open>\<open>get_job_result\<close>; \<open>job_info\<close> is the tracked object itself, so an error that \<open>get_job_status\<close> records is seen.\<close>

definition get_job_result :: "('w, 'b) hadoop_api \<Rightarrow> string \<Rightarrow> ('w hadoop_conn, pyval) act" where
  "get_job_result api jid =
     bind_act (get_job_status api jid) (\<lambda>st c.
       if st \<notin> {J_FINISHED, J_CANCELLED, J_CANCELLED_AND_NOTIFIED} then (Inl (PExc RuntimeError []), c)
       else
         (case dict_get (hc_jobs c) jid of
            None \<Rightarrow> (Inl (PExc KeyError []), c)
          | Some info \<Rightarrow>
              (case ji_error info of
                 Some (x # err) \<Rightarrow> (Inl (message_exc HadoopJobError (x # err)), c)
               | _ \<Rightarrow>
                   catch_act (read_result api (ji_output_path info))
                     (\<lambda>e. raise_act (message_exc HadoopJobError (''Failed to retrieve job result: '' @ hd_str_exc api e))) c)))"

definition cancel_job :: "('w, 'b) hadoop_api \<Rightarrow> string \<Rightarrow> 'w hadoop_conn \<Rightarrow> bool \<times> 'w hadoop_conn" where
  "cancel_job api jid c =
     (case dict_get (hc_jobs c) jid of
        None \<Rightarrow> (False, c)
      | Some info \<Rightarrow>
          (if ji_status info \<in> {J_FINISHED, J_CANCELLED, J_CANCELLED_AND_NOTIFIED} then (False, c)
           else
             (case on_client hc_job_client (hd_kill api jid) c of
                (Inr True, c') \<Rightarrow> (True, c'\<lparr>hc_jobs := dict_set jid (info\<lparr>ji_status := J_CANCELLED\<rparr>) (hc_jobs c')\<rparr>)
              | (_, c') \<Rightarrow> (False, c'))))"

end
