(* ===== verification/Hadoop_Executor.thy ===== *)
theory Hadoop_Executor
  imports Hadoop
begin

text \<open>
  \<open>HadoopExecutor\<close>: submission of tasks, the polling thread that settles their futures, cancellation and
  shutdown. A future is its index in the list of futures created so far.

  Threads meet at the lock: \<open>hx_waiting\<close> is \<open>Some is\<close> while \<open>shutdown\<close> holds it and still waits for the
  futures \<open>is\<close>, and the other sections that take the lock are single events. The polling thread is where
  \<open>hx_poller\<close> says: before the test of its loop, before the lock, in a round over a copy of the jobs, or
  stopped. \<open>hx_event\<close> is one move of a thread, of a client of a future, or of the cluster.
\<close>

section \<open>The executor\<close>

datatype poller = P_test | P_lock | P_round "(nat \<times> string) list" | P_stopped

record 'w hadoop_exec =
  hx_conn :: "'w hadoop_conn"
  hx_shutdown :: bool
  hx_jobs :: "(nat, string) dict"
  hx_futs :: "pyval fut list"
  hx_poller :: poller
  hx_waiting :: "nat list option"

definition hadoop_init :: "('w, 'b) hadoop_api \<Rightarrow> hadoop_settings \<Rightarrow> 'w \<Rightarrow> pyval + 'w hadoop_exec" where
  "hadoop_init api cfg w =
     (case hadoop_connect api cfg (mk_hadoop_conn w) of
        (Inl e, c) \<Rightarrow> Inl e
      | (Inr b, c) \<Rightarrow> Inr \<lparr>hx_conn = c, hx_shutdown = False, hx_jobs = [], hx_futs = [], hx_poller = P_test, hx_waiting = None\<rparr>)"

text \<open>Creating a future and submitting its job: the part \<open>submit\<close> and \<open>submit_batch\<close> share.\<close>

definition launch :: "('w, 'b) hadoop_api \<Rightarrow> hadoop_settings \<Rightarrow> job_config \<Rightarrow> 'w hadoop_exec \<Rightarrow> nat \<times> 'w hadoop_exec" where
  "launch api cfg jc ex =
     (let i = length (hx_futs ex)
      in case submit_job api cfg jc (hx_conn ex) of
           (Inr jid, c) \<Rightarrow> (i, ex\<lparr>hx_conn := c, hx_futs := hx_futs ex @ [Pending], hx_jobs := dict_set i jid (hx_jobs ex)\<rparr>)
         | (Inl e, c) \<Rightarrow> (i, ex\<lparr>hx_conn := c, hx_futs := hx_futs ex @ [Finished (Inl e)]\<rparr>))"

definition hadoop_submit ::
  "('w, 'b) hadoop_api \<Rightarrow> hadoop_settings \<Rightarrow> task_fn \<Rightarrow> pyval list \<Rightarrow> (string, pyval) dict \<Rightarrow> ('w hadoop_exec, nat) act" where
  "hadoop_submit api cfg fn as kw ex =
     (if hx_shutdown ex then (Inl (PExc RuntimeError []), ex)
      else if \<not> fn_is_event fn then (Inl (PExc TypeError []), ex)
      else
        (case launch api cfg \<lparr>jc_function = fn, jc_args = as, jc_kwargs = kw, jc_job_name = fn_label fn\<rparr> ex of
           (i, ex') \<Rightarrow> (Inr i, ex')))"

text \<open>The arguments of task number \<open>i\<close> of a batch.\<close>

definition batch_arguments :: "pyval list \<Rightarrow> nat \<Rightarrow> pyval list \<times> (string, pyval) dict" where
  "batch_arguments args_list i =
     (if i < length args_list
      then (case args_list ! i of PTuple as \<Rightarrow> (as, []) | PDict kw \<Rightarrow> ([], kw) | v \<Rightarrow> ([v], []))
      else ([], []))"

definition batch_config :: "task_fn \<Rightarrow> pyval list \<Rightarrow> nat \<Rightarrow> job_config" where
  "batch_config fn args_list i =
     (case batch_arguments args_list i of
        (as, kw) \<Rightarrow> \<lparr>jc_function = fn, jc_args = as, jc_kwargs = kw,
          jc_job_name = (case fn_name fn of None \<Rightarrow> ''batch_task_'' @ show_nat i | Some n \<Rightarrow> n)\<rparr>)"

fun launch_all ::
  "('w, 'b) hadoop_api \<Rightarrow> hadoop_settings \<Rightarrow> (nat \<times> task_fn) list \<Rightarrow> pyval list \<Rightarrow> 'w hadoop_exec \<Rightarrow> nat list \<times> 'w hadoop_exec" where
  "launch_all api cfg [] args_list ex = ([], ex)"
| "launch_all api cfg ((k, fn) # fns) args_list ex =
     (case launch api cfg (batch_config fn args_list k) ex of
        (i, ex1) \<Rightarrow> (case launch_all api cfg fns args_list ex1 of (is, ex2) \<Rightarrow> (i # is, ex2)))"

definition hadoop_submit_batch ::
  "('w, 'b) hadoop_api \<Rightarrow> hadoop_settings \<Rightarrow> task_fn list \<Rightarrow> pyval list \<Rightarrow> ('w hadoop_exec, nat list) act" where
  "hadoop_submit_batch api cfg fns args_list ex =
     (if hx_shutdown ex then (Inl (PExc RuntimeError []), ex)
      else if list_ex (\<lambda>fn. \<not> fn_is_event fn) fns then (Inl (PExc TypeError []), ex)
      else (case launch_all api cfg (enumerate 0 fns) args_list ex of (is, ex') \<Rightarrow> (Inr is, ex')))"

text \<open>One job of a polling round. An exception of \<open>get_job_result\<close> that is no \<open>HadoopJobError\<close> reaches the
  outer handler, which sets it on the future as well.\<close>

definition check_job :: "('w, 'b) hadoop_api \<Rightarrow> nat \<Rightarrow> string \<Rightarrow> 'w hadoop_exec \<Rightarrow> 'w hadoop_exec" where
  "check_job api i jid ex =
     (if fut_done (hx_futs ex ! i) then ex
      else
        (case get_job_status api jid (hx_conn ex) of
           (Inl e, c) \<Rightarrow> ex\<lparr>hx_conn := c, hx_futs := (hx_futs ex)[i := Finished (Inl e)]\<rparr>
         | (Inr st, c) \<Rightarrow>
             (if st = J_FINISHED
              then (case get_job_result api jid c of
                      (r, c') \<Rightarrow> ex\<lparr>hx_conn := c', hx_futs := (hx_futs ex)[i := Finished r]\<rparr>)
              else if st \<in> {J_CANCELLED, J_CANCELLED_AND_NOTIFIED}
              then ex\<lparr>hx_conn := c, hx_futs := (hx_futs ex)[i := fut_cancel (hx_futs ex ! i)]\<rparr>
              else ex\<lparr>hx_conn := c\<rparr>)))"

definition hadoop_cancel :: "('w, 'b) hadoop_api \<Rightarrow> nat \<Rightarrow> 'w hadoop_exec \<Rightarrow> bool \<times> 'w hadoop_exec" where
  "hadoop_cancel api i ex =
     (case dict_get (hx_jobs ex) i of
        None \<Rightarrow> (False, ex)
      | Some jid \<Rightarrow> (case cancel_job api jid (hx_conn ex) of (b, c) \<Rightarrow> (b, ex\<lparr>hx_conn := c\<rparr>)))"

definition begin_shutdown :: "bool \<Rightarrow> 'w hadoop_exec \<Rightarrow> 'w hadoop_exec" where
  "begin_shutdown wait ex = ex\<lparr>hx_shutdown := True, hx_waiting := Some (if wait then dict_keys (hx_jobs ex) else [])\<rparr>"

definition end_shutdown :: "('w, 'b) hadoop_api \<Rightarrow> 'w hadoop_exec \<Rightarrow> 'w hadoop_exec" where
  "end_shutdown api ex = ex\<lparr>hx_conn := snd (hadoop_disconnect api (hx_conn ex)), hx_waiting := None\<rparr>"

section \<open>Interleaving\<close>

datatype 'w hx_event =
    Submit task_fn "pyval list" "(string, pyval) dict"
  | SubmitBatch "task_fn list" "pyval list"
  | Cancel nat
  | CancelFuture nat
  | Cluster 'w
  | Poll
  | Shutdown bool
  | Wait

text \<open>The polling thread. Without jobs it sleeps inside the lock and tests again.\<close>

definition poll_step :: "('w, 'b) hadoop_api \<Rightarrow> 'w hadoop_exec \<Rightarrow> 'w hadoop_exec option" where
  "poll_step api ex =
     (case hx_poller ex of
        P_test \<Rightarrow> Some (ex\<lparr>hx_poller := (if hx_shutdown ex then P_stopped else P_lock)\<rparr>)
      | P_lock \<Rightarrow>
          (if hx_waiting ex \<noteq> None then None
           else Some (ex\<lparr>hx_poller := (if hx_jobs ex = [] then P_test else P_round (hx_jobs ex))\<rparr>))
      | P_round [] \<Rightarrow> Some (ex\<lparr>hx_poller := P_test\<rparr>)
      | P_round ((i, jid) # js) \<Rightarrow> Some ((check_job api i jid ex)\<lparr>hx_poller := P_round js\<rparr>)
      | P_stopped \<Rightarrow> None)"

text \<open>The thread inside \<open>shutdown\<close>: the next future it waits for is done, or all are and it disconnects.\<close>

definition wait_step :: "('w, 'b) hadoop_api \<Rightarrow> 'w hadoop_exec \<Rightarrow> 'w hadoop_exec option" where
  "wait_step api ex =
     (case hx_waiting ex of
        None \<Rightarrow> None
      | Some [] \<Rightarrow> Some (end_shutdown api ex)
      | Some (i # is) \<Rightarrow> (if fut_done (hx_futs ex ! i) then Some (ex\<lparr>hx_waiting := Some is\<rparr>) else None))"

definition locked :: "'w hadoop_exec \<Rightarrow> 'a \<Rightarrow> 'a option" where
  "locked ex x = (if hx_waiting ex = None then Some x else None)"

fun hx_step :: "('w, 'b) hadoop_api \<Rightarrow> hadoop_settings \<Rightarrow> 'w hx_event \<Rightarrow> 'w hadoop_exec \<Rightarrow> 'w hadoop_exec option" where
  "hx_step api cfg (Submit fn as kw) ex = locked ex (snd (hadoop_submit api cfg fn as kw ex))"
| "hx_step api cfg (SubmitBatch fns al) ex = locked ex (snd (hadoop_submit_batch api cfg fns al ex))"
| "hx_step api cfg (Cancel i) ex = locked ex (snd (hadoop_cancel api i ex))"
| "hx_step api cfg (CancelFuture i) ex = Some (ex\<lparr>hx_futs := (hx_futs ex)[i := fut_cancel (hx_futs ex ! i)]\<rparr>)"
| "hx_step api cfg (Cluster w) ex = Some (ex\<lparr>hx_conn := (hx_conn ex)\<lparr>hc_world := w\<rparr>\<rparr>)"
| "hx_step api cfg Poll ex = poll_step api ex"
| "hx_step api cfg (Shutdown wait) ex = locked ex (begin_shutdown wait ex)"
| "hx_step api cfg Wait ex = wait_step api ex"

inductive hx_steps ::
  "('w, 'b) hadoop_api \<Rightarrow> hadoop_settings \<Rightarrow> 'w hadoop_exec \<Rightarrow> 'w hx_event list \<Rightarrow> 'w hadoop_exec \<Rightarrow> bool"
  for api cfg where
  hx_refl: "hx_steps api cfg ex [] ex"
| hx_next: "hx_steps api cfg ex es ex' \<Longrightarrow> hx_step api cfg e ex' = Some ex'' \<Longrightarrow> hx_steps api cfg ex (es @ [e]) ex''"

definition hx_reach :: "('w, 'b) hadoop_api \<Rightarrow> hadoop_settings \<Rightarrow> 'w hadoop_exec \<Rightarrow> bool" where
  "hx_reach api cfg ex \<longleftrightarrow> (\<exists>w ex0 es. hadoop_init api cfg w = Inr ex0 \<and> hx_steps api cfg ex0 es ex)"

end
