(* ===== verification/Hadoop_Props.thy ===== *)
theory Hadoop_Props
  imports Hadoop_Executor
begin

text \<open>
  What the Hadoop executor promises: every pending future has a job that is tracked, a settled future keeps
  its outcome, a poll settles a future with what the cluster reports, and \<open>shutdown\<close> with waiting never returns
  when a job is still running.
\<close>

section \<open>Tracked jobs are never forgotten\<close>

definition jobs_grow :: "'w hadoop_conn \<Rightarrow> 'w hadoop_conn \<Rightarrow> bool" where
  "jobs_grow c c' \<longleftrightarrow> (\<forall>jid. dict_has (hc_jobs c) jid \<longrightarrow> dict_has (hc_jobs c') jid)"

lemma jobs_grow_trans: "transp jobs_grow"
  by (auto simp: jobs_grow_def intro: transpI)

lemma jobs_grow_refl [simp]: "jobs_grow c c"
  by (simp add: jobs_grow_def)

named_theorems grow_intros "operations of the connector that keep all tracked jobs"

lemmas grow_bind [grow_intros] = keeps_bind[OF jobs_grow_trans]
lemmas grow_catch [grow_intros] = keeps_catch[OF jobs_grow_trans]

lemma grow_basic [grow_intros]:
  "keeps jobs_grow (ret_act x)" "keeps jobs_grow (raise_act e)" "keeps jobs_grow (call_api m)" "keeps jobs_grow (read_world f)"
  "keeps jobs_grow (on_client p m)"
  by (auto simp: keeps_def act_simps jobs_grow_def call_api_def read_world_def on_client_def split: prod.splits)

lemma grow_modify [grow_intros]: "(\<And>c. hc_jobs (f c) = hc_jobs c) \<Longrightarrow> keeps jobs_grow (modify_act f)"
  by (simp add: keeps_def act_simps jobs_grow_def)

lemma grow_track [grow_intros]: "keeps jobs_grow (track_job jid info)"
  by (auto simp: keeps_def act_simps track_job_def jobs_grow_def dict_simps)

lemma grow_connect_once: "keeps jobs_grow (connect_once api cfg)"
  unfolding connect_once_def by (intro grow_intros) simp_all

lemma grow_connect_attempts: "keeps jobs_grow (connect_attempts api cfg as)"
proof (induction as)
  case (Cons a as)
  show ?case unfolding keeps_def
  proof
    fix c :: "'a hadoop_conn"
    obtain r c' where c: "connect_once api cfg c = (r, c')" by (cases "connect_once api cfg c")
    then have 1: "jobs_grow c c'" by (rule keepsD[OF grow_connect_once])
    have "jobs_grow (c'\<lparr>hc_slept := n\<rparr>) (snd (connect_attempts api cfg as (c'\<lparr>hc_slept := n\<rparr>)))" for n
      using Cons by (simp add: keeps_def)
    then show "jobs_grow c (snd (connect_attempts api cfg (a # as) c))"
      using 1 c by (cases r) (auto simp: jobs_grow_def)
  qed
qed (simp add: keeps_def)

lemma grow_connect [grow_intros]: "keeps jobs_grow (hadoop_connect api cfg)"
  using grow_connect_attempts[of api cfg "[0, 1, 2]"] by (simp add: keeps_def hadoop_connect_def)

lemma grow_ensure [grow_intros]: "keeps jobs_grow (ensure_connected api cfg)"
proof -
  have "keeps jobs_grow (bind_act (hadoop_connect api cfg) (\<lambda>b. if b then ret_act () else raise_act (PExc ConnectionError [])))"
    by (rule grow_bind[OF grow_connect]) (simp add: grow_intros)
  then show ?thesis by (simp add: keeps_def ensure_connected_def)
qed

lemma grow_upload: "keeps jobs_grow (upload_job api cfg fn data)"
  unfolding upload_job_def Let_def by (intro grow_intros) (simp add: grow_intros)

lemma grow_serialize [grow_intros]: "keeps jobs_grow (serialize_job api cfg fn as kw)"
  unfolding keeps_def
proof
  fix c :: "'a hadoop_conn"
  let ?c1 = "c\<lparr>hc_temp_files := Suc (hc_temp_files c)\<rparr>"
  have "jobs_grow ?c1 c2" if "upload_job api cfg fn data ?c1 = (r, c2)" for data r c2
    using that by (rule keepsD[OF grow_upload])
  then show "jobs_grow c (snd (serialize_job api cfg fn as kw c))"
    by (fastforce simp: serialize_job_def Let_def jobs_grow_def split: sum.split prod.split)
qed

lemma grow_submit: "keeps jobs_grow (submit_job api cfg jc)"
  unfolding submit_job_def Let_def by (intro grow_intros)

lemma submit_tracks: "submit_job api cfg jc c = (Inr jid, c') \<Longrightarrow> dict_has (hc_jobs c') jid"
  by (auto simp: submit_job_def Let_def act_simps track_job_def dict_simps)

lemma grow_status: "keeps jobs_grow (get_job_status api jid)"
  by (auto simp: keeps_def get_job_status_def on_client_def call_api_def jobs_grow_def dict_simps split: option.splits sum.splits prod.splits)

lemma grow_result: "keeps jobs_grow (get_job_result api jid)"
  unfolding get_job_result_def
proof (rule grow_bind[OF grow_status])
  fix st
  have "keeps jobs_grow (catch_act (read_result api out) (\<lambda>e. raise_act (f e)))" for out f
    unfolding read_result_def by (intro grow_intros) (auto intro!: grow_intros split: list.split)
  then show "keeps jobs_grow (\<lambda>c. if st \<notin> {J_FINISHED, J_CANCELLED, J_CANCELLED_AND_NOTIFIED} then (Inl (PExc RuntimeError []), c)
       else case dict_get (hc_jobs c) jid of None \<Rightarrow> (Inl (PExc KeyError []), c)
          | Some info \<Rightarrow> (case ji_error info of Some (x # err) \<Rightarrow> (Inl (message_exc HadoopJobError (x # err)), c)
               | _ \<Rightarrow> catch_act (read_result api (ji_output_path info))
                     (\<lambda>e. raise_act (message_exc HadoopJobError (''Failed to retrieve job result: '' @ hd_str_exc api e))) c))"
    by (auto simp: keeps_def split: option.split list.split)
qed

lemma grow_cancel: "jobs_grow c (snd (cancel_job api jid c))"
  by (auto simp: cancel_job_def on_client_def call_api_def jobs_grow_def dict_simps split: option.splits sum.splits prod.splits bool.splits)

lemma grow_disconnect: "keeps jobs_grow (hadoop_disconnect api)"
proof -
  have y: "keeps jobs_grow (\<lambda>c. if hc_yarn c then bind_act (call_api (hd_yarn_close api)) (\<lambda>_. modify_act (\<lambda>c. c\<lparr>hc_yarn := False\<rparr>)) c else (Inr (), c))"
    using grow_bind[OF grow_basic(3)[of "hd_yarn_close api"], of "\<lambda>_. modify_act (\<lambda>c. c\<lparr>hc_yarn := False\<rparr>)"]
    by (simp add: keeps_def act_simps jobs_grow_def)
  have "keeps jobs_grow
      (catch_act
        (bind_act (call_api (hd_close api)) (\<lambda>_.
         bind_act (modify_act (\<lambda>c. c\<lparr>hc_hdfs := False\<rparr>)) (\<lambda>_.
         bind_act (\<lambda>c. if hc_yarn c then bind_act (call_api (hd_yarn_close api)) (\<lambda>_. modify_act (\<lambda>c. c\<lparr>hc_yarn := False\<rparr>)) c else (Inr (), c)) (\<lambda>_.
         modify_act (\<lambda>c. c\<lparr>hc_job_client := False\<rparr>)))))
        (\<lambda>_. ret_act ()))"
    by (intro grow_intros y) simp_all
  then show ?thesis by (simp add: keeps_def hadoop_disconnect_def)
qed

section \<open>The invariant of the executor\<close>

definition hx_inv :: "'w hadoop_exec \<Rightarrow> bool" where
  "hx_inv ex \<longleftrightarrow>
     (\<forall>i jid. dict_get (hx_jobs ex) i = Some jid \<longrightarrow> i < length (hx_futs ex) \<and> dict_has (hc_jobs (hx_conn ex)) jid) \<and>
     (\<forall>i < length (hx_futs ex). hx_futs ex ! i = Pending \<longrightarrow> dict_has (hx_jobs ex) i)"

text \<open>Later states: the futures that exist stay, and the outcomes that are set stay.\<close>

definition futs_kept :: "'w hadoop_exec \<Rightarrow> 'w hadoop_exec \<Rightarrow> bool" where
  "futs_kept ex ex' \<longleftrightarrow>
     length (hx_futs ex) \<le> length (hx_futs ex') \<and>
     (\<forall>i < length (hx_futs ex). fut_done (hx_futs ex ! i) \<longrightarrow> hx_futs ex' ! i = hx_futs ex ! i)"

lemma futs_kept_refl [simp]: "futs_kept ex ex"
  by (simp add: futs_kept_def)

lemma futs_kept_trans: "futs_kept a b \<Longrightarrow> futs_kept b c \<Longrightarrow> futs_kept a c"
  by (auto simp: futs_kept_def)

lemma nth_update_if: "j < length xs \<Longrightarrow> xs[i := x] ! j = (if i = j then x else xs ! j)"
  by (auto simp: nth_list_update)

text \<open>A step that settles at most future \<open>i\<close>, that was not settled, and keeps the jobs.\<close>

lemma settle_one:
  assumes "hx_inv ex" and "jobs_grow (hx_conn ex) c" and "\<not> fut_done (hx_futs ex ! i)" and "fut_done f"
  shows "hx_inv (ex\<lparr>hx_conn := c, hx_futs := (hx_futs ex)[i := f]\<rparr>) \<and> futs_kept ex (ex\<lparr>hx_conn := c, hx_futs := (hx_futs ex)[i := f]\<rparr>)"
  using assms by (auto simp: hx_inv_def futs_kept_def jobs_grow_def nth_update_if split: if_splits)

lemma conn_only:
  assumes "hx_inv ex" and "jobs_grow (hx_conn ex) c"
  shows "hx_inv (ex\<lparr>hx_conn := c\<rparr>) \<and> futs_kept ex (ex\<lparr>hx_conn := c\<rparr>)"
  using assms by (auto simp: hx_inv_def futs_kept_def jobs_grow_def)

lemma launch_inv:
  assumes "hx_inv ex" and "launch api cfg jc ex = (i, ex')"
  shows "hx_inv ex' \<and> futs_kept ex ex'"
proof -
  obtain r c where r: "submit_job api cfg jc (hx_conn ex) = (r, c)" by (cases "submit_job api cfg jc (hx_conn ex)")
  then have g: "jobs_grow (hx_conn ex) c" by (rule keepsD[OF grow_submit])
  show ?thesis
  proof (cases r)
    case (Inl e)
    then show ?thesis using assms r g by (auto simp: launch_def Let_def hx_inv_def futs_kept_def jobs_grow_def nth_append less_Suc_eq)
  next
    case (Inr jid)
    have "dict_has (hc_jobs c) jid" using r Inr by (auto dest: submit_tracks)
    then show ?thesis using assms r g Inr
      by (auto simp: launch_def Let_def hx_inv_def futs_kept_def jobs_grow_def nth_append less_Suc_eq dict_simps split: if_splits)
  qed
qed

lemma launch_all_inv: "hx_inv ex \<Longrightarrow> launch_all api cfg fns al ex = (is, ex') \<Longrightarrow> hx_inv ex' \<and> futs_kept ex ex'"
proof (induction fns arbitrary: ex "is" ex')
  case (Cons p fns)
  obtain k fn where p: "p = (k, fn)" by (cases p)
  obtain i ex1 where 1: "launch api cfg (batch_config fn al k) ex = (i, ex1)" by (cases "launch api cfg (batch_config fn al k) ex")
  obtain is' ex2 where 2: "launch_all api cfg fns al ex1 = (is', ex2)" by (cases "launch_all api cfg fns al ex1")
  have "hx_inv ex1 \<and> futs_kept ex ex1" using launch_inv[OF Cons.prems(1) 1] .
  moreover from this have "hx_inv ex2 \<and> futs_kept ex1 ex2" using Cons.IH[of ex1 is' ex2] 2 by blast
  ultimately show ?case using Cons.prems(2) p 1 2 by (auto intro: futs_kept_trans)
qed simp

lemma check_job_inv:
  assumes "hx_inv ex"
  shows "hx_inv (check_job api i jid ex) \<and> futs_kept ex (check_job api i jid ex)"
proof (cases "fut_done (hx_futs ex ! i)")
  case False
  obtain r c where r: "get_job_status api jid (hx_conn ex) = (r, c)" by (cases "get_job_status api jid (hx_conn ex)")
  then have g: "jobs_grow (hx_conn ex) c" by (rule keepsD[OF grow_status])
  obtain r' c' where r': "get_job_result api jid c = (r', c')" by (cases "get_job_result api jid c")
  have "jobs_grow c c'" using r' by (rule keepsD[OF grow_result])
  then have g': "jobs_grow (hx_conn ex) c'" using g by (auto simp: jobs_grow_def)
  show ?thesis
    using settle_one[OF assms g False, of "Finished (Inl (projl r))"] settle_one[OF assms g' False, of "Finished r'"]
      settle_one[OF assms g False, of "fut_cancel (hx_futs ex ! i)"] conn_only[OF assms g] False r r'
    by (cases r) (simp_all add: check_job_def)
qed (simp add: check_job_def assms)

lemma hx_inv_poller [simp]: "hx_inv (ex\<lparr>hx_poller := p\<rparr>) = hx_inv ex" "futs_kept ex (ex'\<lparr>hx_poller := p\<rparr>) = futs_kept ex ex'"
  by (simp_all add: hx_inv_def futs_kept_def)

lemma hx_inv_waiting [simp]: "hx_inv (ex\<lparr>hx_waiting := p\<rparr>) = hx_inv ex" "futs_kept ex (ex'\<lparr>hx_waiting := p\<rparr>) = futs_kept ex ex'"
  by (simp_all add: hx_inv_def futs_kept_def)

lemma hx_inv_shutdown [simp]: "hx_inv (ex\<lparr>hx_shutdown := p\<rparr>) = hx_inv ex" "futs_kept ex (ex'\<lparr>hx_shutdown := p\<rparr>) = futs_kept ex ex'"
  by (simp_all add: hx_inv_def futs_kept_def)

lemma submit_inv: "hx_inv ex \<Longrightarrow> hx_inv (snd (hadoop_submit api cfg fn as kw ex)) \<and> futs_kept ex (snd (hadoop_submit api cfg fn as kw ex))"
  by (auto simp: hadoop_submit_def dest: launch_inv split: prod.split)

lemma submit_batch_inv:
  "hx_inv ex \<Longrightarrow> hx_inv (snd (hadoop_submit_batch api cfg fns al ex)) \<and> futs_kept ex (snd (hadoop_submit_batch api cfg fns al ex))"
  by (auto simp: hadoop_submit_batch_def dest: launch_all_inv split: prod.split)

lemma cancel_inv: "hx_inv ex \<Longrightarrow> hx_inv (snd (hadoop_cancel api i ex)) \<and> futs_kept ex (snd (hadoop_cancel api i ex))"
  using conn_only[of ex "snd (cancel_job api jid (hx_conn ex))" for jid] grow_cancel[of "hx_conn ex" api]
  by (auto simp: hadoop_cancel_def split: option.split prod.split) (metis snd_conv)+

lemma cancel_future_inv:
  assumes "hx_inv ex"
  shows "hx_inv (ex\<lparr>hx_futs := (hx_futs ex)[i := fut_cancel (hx_futs ex ! i)]\<rparr>) \<and> futs_kept ex (ex\<lparr>hx_futs := (hx_futs ex)[i := fut_cancel (hx_futs ex ! i)]\<rparr>)"
  using assms by (auto simp: hx_inv_def futs_kept_def nth_update_if split: if_splits)
    (metis fut_cancel_done(2) fut_pending)

lemma hx_step_inv:
  assumes "hx_inv ex" and "hx_step api cfg e ex = Some ex'"
  shows "hx_inv ex' \<and> futs_kept ex ex'"
proof (cases e)
  case (Submit fn as kw)
  with assms submit_inv[OF assms(1), of api cfg fn as kw] show ?thesis by (auto simp: locked_def split: if_splits)
next
  case (SubmitBatch fns al)
  with assms submit_batch_inv[OF assms(1), of api cfg fns al] show ?thesis by (auto simp: locked_def split: if_splits)
next
  case (Cancel i)
  with assms cancel_inv[OF assms(1), of api i] show ?thesis by (auto simp: locked_def split: if_splits)
next
  case (CancelFuture i)
  with assms cancel_future_inv[OF assms(1), of i] show ?thesis by auto
next
  case (Cluster w)
  with assms conn_only[OF assms(1), of "(hx_conn ex)\<lparr>hc_world := w\<rparr>"] show ?thesis by (auto simp: jobs_grow_def)
next
  case Poll
  with assms check_job_inv[OF assms(1), of api] show ?thesis by (auto simp: poll_step_def split: poller.splits list.splits if_splits)
next
  case (Shutdown w)
  with assms show ?thesis by (auto simp: locked_def begin_shutdown_def split: if_splits)
next
  case Wait
  have "jobs_grow (hx_conn ex) (snd (hadoop_disconnect api (hx_conn ex)))" using grow_disconnect[of api] by (simp add: keeps_def)
  from conn_only[OF assms(1) this] assms Wait show ?thesis by (auto simp: wait_step_def end_shutdown_def split: option.splits list.splits if_splits)
qed

lemma hx_steps_inv: "hx_steps api cfg ex es ex' \<Longrightarrow> hx_inv ex \<Longrightarrow> hx_inv ex' \<and> futs_kept ex ex'"
  by (induction rule: hx_steps.induct) (auto dest: hx_step_inv intro: futs_kept_trans)

lemma hadoop_init_inv: "hadoop_init api cfg w = Inr ex \<Longrightarrow> hx_inv ex"
  by (auto simp: hadoop_init_def hx_inv_def split: prod.splits sum.splits)

lemma hx_reach_inv: "hx_reach api cfg ex \<Longrightarrow> hx_inv ex"
  by (auto simp: hx_reach_def dest: hadoop_init_inv hx_steps_inv)

section \<open>Polling\<close>

lemma status_reported:
  assumes "hc_job_client c" and "hd_status api jid (hc_world c) = (Inr s, hc_world c)" and "dict_get (hc_jobs c) jid = Some info"
  shows "get_job_status api jid c = (Inr (map_status s), c\<lparr>hc_jobs := dict_set jid (update_info s info) (hc_jobs c)\<rparr>)"
  using assms by (simp add: get_job_status_def on_client_def call_api_def)

lemma map_status_cases [simp]:
  "map_status ''SUCCEEDED'' = J_FINISHED" "map_status ''FAILED'' = J_FINISHED" "map_status ''ERROR'' = J_FINISHED" "map_status ''KILLED'' = J_CANCELLED"
  by (simp_all add: map_status_def status_mapping_def)

lemma map_status_other:
  "s \<notin> {''SUCCEEDED'', ''FAILED'', ''ERROR'', ''KILLED''} \<Longrightarrow> map_status s = J_PENDING \<or> map_status s = J_RUNNING"
  by (auto simp: map_status_def status_mapping_def)

lemma update_info_error:
  "ji_error (update_info s info) = (if s = ''FAILED'' \<or> s = ''ERROR'' then Some (''Job failed with status: '' @ s) else ji_error info)"
  "ji_output_path (update_info s info) = ji_output_path info"
  by (simp_all add: update_info_def Let_def)

text \<open>The two queries of a finished job give the same answer.\<close>

lemma finished_result:
  assumes "hc_job_client c" and "hd_status api jid (hc_world c) = (Inr s, hc_world c)" and "dict_get (hc_jobs c) jid = Some info" and "map_status s = J_FINISHED"
  obtains c1 c2 where "get_job_status api jid c = (Inr J_FINISHED, c1)"
    and "get_job_result api jid c1 =
      (case ji_error (update_info s info) of
         Some (x # err) \<Rightarrow> (Inl (message_exc HadoopJobError (x # err)), c2)
       | _ \<Rightarrow> catch_act (read_result api (ji_output_path info))
           (\<lambda>e. raise_act (message_exc HadoopJobError (''Failed to retrieve job result: '' @ hd_str_exc api e))) c2)"
    and "hc_world c2 = hc_world c" and "hc_hdfs c2 = hc_hdfs c"
proof -
  define c1 where "c1 = c\<lparr>hc_jobs := dict_set jid (update_info s info) (hc_jobs c)\<rparr>"
  define c2 where "c2 = c1\<lparr>hc_jobs := dict_set jid (update_info s (update_info s info)) (hc_jobs c1)\<rparr>"
  have 1: "get_job_status api jid c = (Inr J_FINISHED, c1)" using status_reported[OF assms(1-3)] assms(4) by (simp add: c1_def)
  have "get_job_status api jid c1 = (Inr J_FINISHED, c2)"
    using status_reported[of c1 api jid s "update_info s info"] assms(1,2,4) by (simp add: c1_def c2_def dict_simps)
  moreover have "dict_get (hc_jobs c2) jid = Some (update_info s (update_info s info))" by (simp add: c2_def dict_simps)
  ultimately have "get_job_result api jid c1 =
      (case ji_error (update_info s info) of
         Some (x # err) \<Rightarrow> (Inl (message_exc HadoopJobError (x # err)), c2)
       | _ \<Rightarrow> catch_act (read_result api (ji_output_path info))
           (\<lambda>e. raise_act (message_exc HadoopJobError (''Failed to retrieve job result: '' @ hd_str_exc api e))) c2)"
    by (simp add: get_job_result_def bind_act_def update_info_error split: option.split list.split)
  then show ?thesis using that[OF 1] by (simp add: c1_def c2_def)
qed

lemma read_part:
  assumes "hc_hdfs c" and "hd_exists api (out @ ''/part-00000'') (hc_world c) = (Inr True, hc_world c)"
  shows "read_result api out c = call_api (hd_load api (out @ ''/part-00000'')) c"
  using assms by (simp add: read_result_def bind_act_def on_client_def call_api_def act_simps)

text \<open>Polling settles a future with what the cluster reports: a job that failed gives a
  \<open>HadoopJobError\<close> naming the status, a killed job cancels the future, a job that succeeded gives the value in
  its result file, or a \<open>HadoopJobError\<close> when the file cannot be read, and every other status leaves the
  future pending. No other future changes.\<close>

lemma hadoop_poll:
  assumes "hx_reach api cfg ex" and "i < length (hx_futs ex)" and "hx_futs ex ! i = Pending" and "dict_get (hx_jobs ex) i = Some jid"
    and "c = hx_conn ex" and "hc_job_client c" and "hc_hdfs c" and "hd_status api jid (hc_world c) = (Inr s, hc_world c)"
    and "dict_get (hc_jobs c) jid = Some info" and "ji_error info = None"
    and "hd_exists api (ji_output_path info @ ''/part-00000'') (hc_world c) = (Inr True, hc_world c)"
    and "hd_load api (ji_output_path info @ ''/part-00000'') (hc_world c) = (r, w)"
  shows "hx_futs (check_job api i jid ex) = (hx_futs ex)[i :=
    (if s = ''FAILED'' \<or> s = ''ERROR'' then Finished (Inl (message_exc HadoopJobError (''Job failed with status: '' @ s)))
     else if s = ''KILLED'' then Cancelled
     else if s = ''SUCCEEDED''
     then Finished (case r of Inr v \<Rightarrow> Inr v | Inl e \<Rightarrow> Inl (message_exc HadoopJobError (''Failed to retrieve job result: '' @ hd_str_exc api e)))
     else Pending)]"
proof (cases "map_status s = J_FINISHED")
  case True
  then have s: "s = ''SUCCEEDED'' \<or> s = ''FAILED'' \<or> s = ''ERROR''" using map_status_other[of s] by (cases "s = ''KILLED''") auto
  obtain c1 c2 where 1: "get_job_status api jid c = (Inr J_FINISHED, c1)" "get_job_result api jid c1 =
      (case ji_error (update_info s info) of
         Some (x # err) \<Rightarrow> (Inl (message_exc HadoopJobError (x # err)), c2)
       | _ \<Rightarrow> catch_act (read_result api (ji_output_path info))
           (\<lambda>e. raise_act (message_exc HadoopJobError (''Failed to retrieve job result: '' @ hd_str_exc api e))) c2)"
    "hc_world c2 = hc_world c" "hc_hdfs c2 = hc_hdfs c"
    by (rule finished_result[OF assms(6,8,9) True])
  have 2: "read_result api (ji_output_path info) c2 = (r, c2\<lparr>hc_world := w\<rparr>)"
    using read_part[of c2 api "ji_output_path info"] 1(3,4) assms(7,11,12) by (simp add: call_api_def)
  have "hx_futs (check_job api i jid ex) = (hx_futs ex)[i := Finished (fst (get_job_result api jid c1))]"
    using 1(1) assms(3,5) by (simp add: check_job_def split: prod.split)
  also have "fst (get_job_result api jid c1) =
      (if s = ''FAILED'' \<or> s = ''ERROR'' then Inl (message_exc HadoopJobError (''Job failed with status: '' @ s))
       else case r of Inr v \<Rightarrow> Inr v | Inl e \<Rightarrow> Inl (message_exc HadoopJobError (''Failed to retrieve job result: '' @ hd_str_exc api e)))"
    unfolding 1(2) using 2 assms(10) by (auto simp: update_info_error catch_act_def act_simps split: sum.split)
  finally show ?thesis using s by auto
next
  case False
  then have ne: "s \<noteq> ''SUCCEEDED''" "s \<noteq> ''FAILED''" "s \<noteq> ''ERROR''" by fastforce+
  note st = status_reported[OF assms(6,8,9)]
  show ?thesis
  proof (cases "s = ''KILLED''")
    case True
    then have "hx_futs (check_job api i jid ex) = (hx_futs ex)[i := Cancelled]"
      using st assms(3,5) by (simp add: check_job_def del: fut_pending)
    then show ?thesis using True ne by simp
  next
    case other: False
    then have "map_status s = J_PENDING \<or> map_status s = J_RUNNING" using ne map_status_other[of s] by blast
    then have "hx_futs (check_job api i jid ex) = hx_futs ex" using st assms(3,5) by (auto simp: check_job_def)
    moreover have "(hx_futs ex)[i := Pending] = hx_futs ex" using list_update_id[of "hx_futs ex" i] assms(3) by simp
    ultimately show ?thesis using other ne by simp
  qed
qed

section \<open>Shutting down\<close>

text \<open>The thread in \<open>shutdown\<close> waits for future \<open>i\<close>, and the polling thread is past the point where it would
  look at it again.\<close>

definition stuck :: "nat \<Rightarrow> 'w hadoop_exec \<Rightarrow> bool" where
  "stuck i ex \<longleftrightarrow>
     hx_shutdown ex \<and> i < length (hx_futs ex) \<and> hx_futs ex ! i = Pending \<and> (\<exists>is. hx_waiting ex = Some is \<and> i \<in> set is) \<and>
     (case hx_poller ex of P_round js \<Rightarrow> i \<notin> fst ` set js | _ \<Rightarrow> True)"

lemma check_job_other:
  assumes "i \<noteq> j"
  shows "hx_futs (check_job api j jid ex) ! i = hx_futs ex ! i" "length (hx_futs (check_job api j jid ex)) = length (hx_futs ex)"
    "hx_shutdown (check_job api j jid ex) = hx_shutdown ex" "hx_waiting (check_job api j jid ex) = hx_waiting ex"
  using assms by (auto simp: check_job_def split: prod.split sum.split)

lemma stuck_poll: "stuck i ex \<Longrightarrow> poll_step api ex = Some ex' \<Longrightarrow> stuck i ex'"
  by (auto simp: stuck_def poll_step_def check_job_other split: poller.splits list.splits if_splits)

lemma stuck_wait: "stuck i ex \<Longrightarrow> wait_step api ex = Some ex' \<Longrightarrow> stuck i ex'"
  by (auto simp: stuck_def wait_step_def split: option.splits list.splits if_splits)

lemma stuck_locked: "stuck i ex \<Longrightarrow> locked ex x = None"
  by (auto simp: stuck_def locked_def)

lemma stuck_step:
  assumes "stuck i ex" and "hx_step api cfg e ex = Some ex'" and "e \<noteq> CancelFuture i"
  shows "stuck i ex'"
proof (cases e)
  case (CancelFuture j)
  with assms show ?thesis by (auto simp: stuck_def)
next
  case (Cluster w)
  with assms show ?thesis by (auto simp: stuck_def)
next
  case Poll
  with assms show ?thesis by (auto intro: stuck_poll)
next
  case Wait
  with assms show ?thesis by (auto intro: stuck_wait)
qed (use assms in \<open>simp_all add: stuck_locked\<close>)

lemma stuck_steps: "hx_steps api cfg ex es ex' \<Longrightarrow> stuck i ex \<Longrightarrow> CancelFuture i \<notin> set es \<Longrightarrow> stuck i ex'"
  by (induction rule: hx_steps.induct) (auto intro: stuck_step)

lemma hx_steps_append: "hx_steps api cfg a es b \<Longrightarrow> hx_step api cfg e x = Some a \<Longrightarrow> hx_steps api cfg x (e # es) b"
proof (induction rule: hx_steps.induct)
  case (hx_refl ex)
  then show ?case using hx_next[OF hx_steps.hx_refl, of api cfg e x ex] by simp
next
  case (hx_next ex es ex' e' ex'')
  then show ?case using hx_steps.hx_next[of api cfg x "e # es" ex' e' ex''] by simp
qed

lemma waits_return:
  "hx_waiting ex = Some is \<Longrightarrow> \<forall>i \<in> set is. fut_done (hx_futs ex ! i) \<Longrightarrow>
   \<exists>ex'. hx_steps api cfg ex (replicate (Suc (length is)) Wait) ex' \<and> hx_waiting ex' = None \<and> hx_shutdown ex' = hx_shutdown ex \<and> hx_futs ex' = hx_futs ex"
proof (induction "is" arbitrary: ex)
  case Nil
  have "hx_steps api cfg ex [Wait] (end_shutdown api ex)"
    using hx_steps_append[OF hx_refl, of api cfg Wait ex "end_shutdown api ex"] Nil by (simp add: wait_step_def)
  then show ?case by (auto simp: end_shutdown_def)
next
  case (Cons i "is")
  then have 1: "hx_step api cfg Wait ex = Some (ex\<lparr>hx_waiting := Some is\<rparr>)" by (simp add: wait_step_def)
  obtain ex' where "hx_steps api cfg (ex\<lparr>hx_waiting := Some is\<rparr>) (replicate (Suc (length is)) Wait) ex'" "hx_waiting ex' = None" "hx_shutdown ex' = hx_shutdown ex" "hx_futs ex' = hx_futs ex"
    using Cons.IH[of "ex\<lparr>hx_waiting := Some is\<rparr>"] Cons.prems(2) by auto
  then show ?case using hx_steps_append[OF _ 1] by auto
qed

text \<open>C30. In every state the executor can reach, under any interleaving of its clients, the polling thread and the cluster,
  a future that is pending has a job the connector tracks, so that polling will look at it and its status
  is known; and whatever happens next, no future is lost and an outcome that is set is never changed.\<close>

theorem hadoop_futures:
  assumes "hx_reach api cfg ex" and "hx_steps api cfg ex es ex'"
  shows "(\<forall>i < length (hx_futs ex). hx_futs ex ! i = Pending \<longrightarrow>
      (\<exists>jid. dict_get (hx_jobs ex) i = Some jid \<and> dict_has (hc_jobs (hx_conn ex)) jid)) \<and>
    length (hx_futs ex) \<le> length (hx_futs ex') \<and>
    (\<forall>i < length (hx_futs ex). fut_done (hx_futs ex ! i) \<longrightarrow> hx_futs ex' ! i = hx_futs ex ! i)"
proof -
  have "hx_inv ex" using assms(1) by (rule hx_reach_inv)
  moreover from this have "futs_kept ex ex'" using hx_steps_inv[OF assms(2)] by blast
  ultimately show ?thesis by (auto simp: hx_inv_def futs_kept_def dict_simps)
qed

text \<open>A shutdown that waits returns when all futures are settled, in as many steps as there are jobs. But
  when a future is still pending and the polling thread is between two rounds, nothing settles it any
  more: the polling thread stops, and the call holds the lock and waits for ever, whatever the cluster does, unless somebody
  cancels that very future.\<close>

lemma hadoop_shutdown:
  assumes "hx_reach api cfg ex" and "hx_waiting ex = None"
  shows "((\<forall>i < length (hx_futs ex). fut_done (hx_futs ex ! i)) \<longrightarrow>
      (\<exists>ex'. hx_steps api cfg (begin_shutdown True ex) (replicate (Suc (length (hx_jobs ex))) Wait) ex' \<and>
         hx_waiting ex' = None \<and> hx_shutdown ex' \<and> hx_futs ex' = hx_futs ex)) \<and>
    (\<forall>i es ex'. i < length (hx_futs ex) \<and> hx_futs ex ! i = Pending \<and> hx_poller ex \<in> {P_test, P_lock, P_stopped} \<and>
      CancelFuture i \<notin> set es \<and> hx_steps api cfg (begin_shutdown True ex) es ex' \<longrightarrow>
      hx_waiting ex' \<noteq> None \<and> hx_futs ex' ! i = Pending)"
proof (intro conjI impI allI)
  have inv: "hx_inv ex" using assms(1) by (rule hx_reach_inv)
  assume "\<forall>i < length (hx_futs ex). fut_done (hx_futs ex ! i)"
  then have "\<forall>i \<in> set (dict_keys (hx_jobs ex)). fut_done (hx_futs (begin_shutdown True ex) ! i)"
    using inv by (auto simp: hx_inv_def begin_shutdown_def map_of_eq_None_iff) (metis fst_conv image_eqI map_of_eq_None_iff not_None_eq)
  from waits_return[OF _ this, of api cfg] show "\<exists>ex'. hx_steps api cfg (begin_shutdown True ex) (replicate (Suc (length (hx_jobs ex))) Wait) ex' \<and>
      hx_waiting ex' = None \<and> hx_shutdown ex' \<and> hx_futs ex' = hx_futs ex"
    by (auto simp: begin_shutdown_def)
next
  fix i es ex'
  assume a: "i < length (hx_futs ex) \<and> hx_futs ex ! i = Pending \<and> hx_poller ex \<in> {P_test, P_lock, P_stopped} \<and>
      CancelFuture i \<notin> set es \<and> hx_steps api cfg (begin_shutdown True ex) es ex'"
  have "dict_has (hx_jobs ex) i" using hx_reach_inv[OF assms(1)] a by (simp add: hx_inv_def)
  then have "stuck i (begin_shutdown True ex)" using a by (auto simp: stuck_def begin_shutdown_def dict_has_def)
  then have "stuck i ex'" using a stuck_steps by blast
  then show "hx_waiting ex' \<noteq> None" "hx_futs ex' ! i = Pending" by (auto simp: stuck_def)
qed

section \<open>Connecting\<close>

definition all_clients :: "'w hadoop_conn \<Rightarrow> bool" where
  "all_clients c \<longleftrightarrow> hc_hdfs c \<and> hc_yarn c \<and> hc_job_client c"

lemma connect_once_frame:
  "connect_once api cfg c = (r, c') \<Longrightarrow> hc_slept c' = hc_slept c \<and> hc_jobs c' = hc_jobs c \<and> (\<forall>u. r = Inr u \<longrightarrow> all_clients c')"
  by (auto simp: connect_once_def bind_act_def call_api_def act_simps all_clients_def split: prod.splits sum.splits)

lemma connect_attempts_frame:
  "connect_attempts api cfg as c = (r, c') \<Longrightarrow>
   hc_jobs c' = hc_jobs c \<and> (r = Inr True \<and> all_clients c' \<and> hc_slept c' \<le> hc_slept c + (\<Sum>a\<leftarrow>as. min (2 ^ a) 10) \<or>
     r = Inr False \<and> hc_slept c' = hc_slept c + (\<Sum>a\<leftarrow>as. min (2 ^ a) 10))"
proof (induction as arbitrary: c)
  case (Cons a as)
  obtain r1 c1 where c1: "connect_once api cfg c = (r1, c1)" by (cases "connect_once api cfg c")
  note f = connect_once_frame[OF c1]
  show ?case
  proof (cases r1)
    case (Inr u)
    then show ?thesis using Cons.prems f c1 by auto
  next
    case (Inl e)
    then have "connect_attempts api cfg as (c1\<lparr>hc_slept := hc_slept c1 + min (2 ^ a) 10\<rparr>) = (r, c')" using Cons.prems c1 by simp
    from Cons.IH[OF this] f show ?thesis by auto
  qed
qed simp

text \<open>A connection to HDFS without YARN: the state the second failing step leaves.\<close>

lemma half_connected:
  assumes "hd_connect api (hs_host cfg) (hs_port cfg) (hs_username cfg) (kerb_argument cfg) (hdfs_extra_conf cfg) = ret_act ()"
    and "hd_yarn api (hs_host cfg) (hs_username cfg) (hs_password cfg) (hs_kerb_ticket cfg) (yarn_conf cfg) = raise_act e"
  shows "connect_once api cfg c = (Inl e, c\<lparr>hc_hdfs := True\<rparr>)"
  using assms by (simp add: connect_once_def bind_act_def call_api_def act_simps)

lemma on_client_frame [simp]: "hc_job_client (snd (on_client p m c)) = hc_job_client c"
  by (simp add: on_client_def call_api_def split: prod.splits)

lemma same_client: "keeps (\<lambda>c c'. hc_job_client c' = hc_job_client c) (upload_job api cfg fn data)"
  unfolding upload_job_def Let_def
  by (intro keeps_bind transpI) (simp_all add: keeps_def act_simps read_world_def)

lemma serialize_job_client: "serialize_job api cfg fn as kw c = (r, c') \<Longrightarrow> hc_job_client c' = hc_job_client c"
  using keepsD[OF same_client] by (fastforce simp: serialize_job_def Let_def split: sum.splits prod.splits)

text \<open>Connecting raises only when the libraries are missing, sleeps at most seven seconds, exactly seven when it
  gives up, never touches the tracked jobs, and when it newly succeeds all clients are there. When HDFS
  answers but YARN does not, the first call fails and keeps the HDFS client, so the next call reports
  success although there is no YARN and no job client, and a submission then fails with AttributeError.\<close>

lemma hadoop_connecting:
  assumes "hadoop_connect api cfg c = (r, c')"
  shows "(isl r \<longleftrightarrow> \<not> hd_libs api) \<and> hc_slept c' \<le> hc_slept c + 7 \<and> hc_jobs c' = hc_jobs c \<and>
    (r = Inr False \<longrightarrow> hc_slept c' = hc_slept c + 7) \<and> (r = Inr True \<and> \<not> hc_hdfs c \<longrightarrow> all_clients c') \<and>
    (hd_libs api \<and> \<not> hc_hdfs c \<and> \<not> hc_yarn c \<and> \<not> hc_job_client c \<and>
     hd_connect api (hs_host cfg) (hs_port cfg) (hs_username cfg) (kerb_argument cfg) (hdfs_extra_conf cfg) = ret_act () \<and>
     hd_yarn api (hs_host cfg) (hs_username cfg) (hs_password cfg) (hs_kerb_ticket cfg) (yarn_conf cfg) = raise_act e \<longrightarrow>
     r = Inr False \<and> hadoop_connect api cfg c' = (Inr True, c') \<and> \<not> hc_yarn c' \<and>
     (\<forall>jc path c''. serialize_job api cfg (jc_function jc) (jc_args jc) (jc_kwargs jc) c' = (Inr path, c'') \<longrightarrow>
        fst (submit_job api cfg jc c') = Inl (PExc AttributeError [])))"
proof (intro conjI impI allI)
  show "isl r \<longleftrightarrow> \<not> hd_libs api" using assms connect_attempts_frame[of api cfg "[0, 1, 2]" c r c'] by (auto simp: hadoop_connect_def split: if_splits)
  show "hc_slept c' \<le> hc_slept c + 7" "hc_jobs c' = hc_jobs c" "r = Inr False \<Longrightarrow> hc_slept c' = hc_slept c + 7"
    "r = Inr True \<and> \<not> hc_hdfs c \<Longrightarrow> all_clients c'"
    using assms connect_attempts_frame[of api cfg "[0, 1, 2]" c r c'] by (auto simp: hadoop_connect_def split: if_splits)
next
  assume a: "hd_libs api \<and> \<not> hc_hdfs c \<and> \<not> hc_yarn c \<and> \<not> hc_job_client c \<and>
     hd_connect api (hs_host cfg) (hs_port cfg) (hs_username cfg) (kerb_argument cfg) (hdfs_extra_conf cfg) = ret_act () \<and>
     hd_yarn api (hs_host cfg) (hs_username cfg) (hs_password cfg) (hs_kerb_ticket cfg) (yarn_conf cfg) = raise_act e"
  then have c': "r = Inr False" "c' = c\<lparr>hc_hdfs := True, hc_slept := hc_slept c + 7\<rparr>"
    using assms by (auto simp: hadoop_connect_def half_connected add.commute)
  then show "r = Inr False" "hadoop_connect api cfg c' = (Inr True, c')" "\<not> hc_yarn c'" using a by (simp_all add: hadoop_connect_def)
  fix jc :: job_config and path c''
  assume sj: "serialize_job api cfg (jc_function jc) (jc_args jc) (jc_kwargs jc) c' = (Inr path, c'')"
  from serialize_job_client[OF this] have "\<not> hc_job_client c''" using a c' by simp
  with sj show "fst (submit_job api cfg jc c') = Inl (PExc AttributeError [])"
    using a c' by (simp add: submit_job_def ensure_connected_def hadoop_connect_def bind_act_def on_client_def act_simps)
qed

section \<open>A cluster with one job\<close>

text \<open>The world is the status the cluster reports for every job; a job that succeeded has written the number 7.\<close>

definition demo_api :: "(string, unit) hadoop_api" where
  "demo_api =
     \<lparr>hd_libs = True, hd_connect = (\<lambda>_ _ _ _ _. ret_act ()), hd_yarn = (\<lambda>_ _ _ _ _. ret_act ()), hd_job_client = ret_act (),
      hd_close = ret_act (), hd_yarn_close = ret_act (), hd_dump = (\<lambda>_ _ _. Inr ()), hd_exists = (\<lambda>_. ret_act True),
      hd_mkdir = (\<lambda>_. ret_act ()), hd_upload = (\<lambda>_ _. ret_act ()), hd_ls = (\<lambda>_. ret_act []), hd_load = (\<lambda>_. ret_act (PInt 7)),
      hd_create_job = (\<lambda>_ _ _. ret_act ()), hd_submit = (\<lambda>_. ret_act ''job_1''), hd_output_path = (\<lambda>j. ret_act (hj_output j)),
      hd_status = (\<lambda>_ w. (Inr w, w)), hd_kill = (\<lambda>_. ret_act True), hd_time = (\<lambda>_. 5), hd_timestamp = (\<lambda>_. ''now''),
      hd_str_exc = (\<lambda>_. ''error'')\<rparr>"

definition demo_settings :: hadoop_settings where
  "demo_settings = \<lparr>hs_host = ''h'', hs_port = 8020, hs_username = None, hs_password = None, hs_kerb_ticket = None, hs_hdfs_config = [], hs_yarn_config = []\<rparr>"

definition demo_task :: task_fn where
  "demo_task = \<lparr>fn_id = ''e'', fn_name = None, fn_is_event = True\<rparr>"

definition demo_conn :: "string hadoop_conn" where
  "demo_conn = \<lparr>hc_hdfs = True, hc_yarn = True, hc_job_client = True, hc_jobs = [], hc_temp_files = 0, hc_slept = 0, hc_world = ''RUNNING''\<rparr>"

definition demo_exec :: "string hadoop_exec" where
  "demo_exec = \<lparr>hx_conn = demo_conn, hx_shutdown = False, hx_jobs = [], hx_futs = [], hx_poller = P_test, hx_waiting = None\<rparr>"

lemmas demo_defs = demo_api_def demo_settings_def demo_task_def demo_conn_def demo_exec_def

lemma demo_init: "hadoop_init demo_api demo_settings ''RUNNING'' = Inr demo_exec"
  by (simp add: demo_defs hadoop_init_def hadoop_connect_def mk_hadoop_conn_def connect_once_def bind_act_def call_api_def act_simps)

definition demo_info :: job_info where
  "demo_info = \<lparr>ji_status = J_PENDING, ji_start_time = 5, ji_job_path = ''/tmp/hadoop_executor/None/jobs/anonymous_task_now.pkl'',
     ji_output_path = ''/tmp/hadoop_executor/None/output/anonymous_task_5'', ji_job_name = ''anonymous_task'', ji_error = None\<rparr>"

definition demo_running :: "string hadoop_exec" where
  "demo_running = demo_exec\<lparr>hx_conn := demo_conn\<lparr>hc_jobs := [(''job_1'', demo_info)]\<rparr>, hx_jobs := [(0, ''job_1'')], hx_futs := [Pending]\<rparr>"

lemma show_five: "show_nat 5 = ''5''"
  by code_simp

lemma demo_submit: "hx_step demo_api demo_settings (Submit demo_task [] []) demo_exec = Some demo_running"
  by (simp add: demo_running_def demo_info_def demo_defs hadoop_submit_def launch_def locked_def submit_job_def ensure_connected_def serialize_job_def upload_job_def job_dir_def
      output_dir_def build_job_def fn_label_def show_user_def show_five track_job_def bind_act_def call_api_def on_client_def read_world_def act_simps)

lemma demo_reach: "hx_reach demo_api demo_settings demo_running"
  using demo_init hx_steps_append[OF hx_refl demo_submit] by (auto simp: hx_reach_def)

theorem hadoop_futures_witness: "\<exists>jid. dict_get (hx_jobs demo_running) 0 = Some jid \<and> dict_has (hc_jobs (hx_conn demo_running)) jid"
  using hadoop_futures[OF demo_reach hx_refl] by (simp add: demo_running_def)

end
