(* ===== verification/Hdfs_Store.thy ===== *)
theory Hdfs_Store
  imports Store_Props
begin

text \<open>
  The HDFS store (\<^verbatim>\<open>src/nexus/backends/stores/hdfs_store.py\<close>): a record is a JSON file named after its
  key in a directory named after its schema. The HDFS client and \<open>json\<close> are the record \<open>hdfs_client\<close>;
  \<open>hdfs_lawful\<close> states their documented behaviour. The store keeps the contract of \<open>kv_store\<close> for
  names without slashes.
\<close>

section \<open>Paths\<close>

definition get_schema_path :: "string \<Rightarrow> string \<Rightarrow> string" where
  "get_schema_path base schema = path_join base schema"

definition get_record_path :: "string \<Rightarrow> string \<Rightarrow> string \<Rightarrow> string" where
  "get_record_path base schema key = path_join (get_schema_path base schema) (key @ ''.json'')"

section \<open>Operations\<close>

record ('d, 'b, 'st) hdfs_client =
  h_open :: "'d \<Rightarrow> bool"
  h_status :: "string \<Rightarrow> 'd \<Rightarrow> exc_class + bool"
  h_content :: "string \<Rightarrow> 'd \<Rightarrow> exc_class + bool"
  h_list :: "string \<Rightarrow> 'd \<Rightarrow> exc_class + string list"
  h_makedirs :: "string \<Rightarrow> 'd \<Rightarrow> exc_class + 'd"
  h_write :: "string \<Rightarrow> bool \<Rightarrow> 'b \<Rightarrow> 'd \<Rightarrow> exc_class + 'd"
  h_delete :: "string \<Rightarrow> 'd \<Rightarrow> exc_class + 'd"
  h_read :: "string \<Rightarrow> 'd \<Rightarrow> exc_class + 'b"
  json_dumps :: "'st \<Rightarrow> exc_class + 'b"
  json_load :: "'b \<Rightarrow> exc_class + 'st"

text \<open>\<open>self.connector.cursor.method(...)\<close>: without a connection the cursor is \<open>None\<close>.\<close>

definition cursor_call :: "('d, 'b, 'st) hdfs_client \<Rightarrow> ('d \<Rightarrow> exc_class + 'a) \<Rightarrow> 'd \<Rightarrow> exc_class + 'a" where
  "cursor_call H m d = (if h_open H d then m d else Inl AttributeError)"

definition hdfs_exists :: "('d, 'b, 'st) hdfs_client \<Rightarrow> string \<Rightarrow> string \<Rightarrow> string \<Rightarrow> 'd \<Rightarrow> bool" where
  "hdfs_exists H base schema key d =
     (case cursor_call H (h_status H (get_record_path base schema key)) d of Inl e \<Rightarrow> False | Inr b \<Rightarrow> b)"

definition hdfs_count :: "('d, 'b, 'st) hdfs_client \<Rightarrow> string \<Rightarrow> string \<Rightarrow> 'd \<Rightarrow> nat" where
  "hdfs_count H base schema d =
     (case cursor_call H (h_list H (get_schema_path base schema)) d of
        Inl e \<Rightarrow> 0
      | Inr files \<Rightarrow> length (filter (\<lambda>f. str_endswith f ''.json'') files))"

definition write_record ::
  "('d, 'b, 'st) hdfs_client \<Rightarrow> ('r, 'st) model_ops \<Rightarrow> string \<Rightarrow> bool \<Rightarrow> 'r \<Rightarrow> 'd \<Rightarrow> exc_class + 'd" where
  "write_record H M path overwrite r d =
     bind_res (getstate M r) (\<lambda>st.
     bind_res (json_dumps H st) (\<lambda>b. cursor_call H (h_write H path overwrite b) d))"

definition hdfs_insert_record ::
  "('d, 'b, 'st) hdfs_client \<Rightarrow> ('r, 'st) model_ops \<Rightarrow> string \<Rightarrow> string \<Rightarrow> string \<Rightarrow> 'r \<Rightarrow> 'd \<Rightarrow> exc_class + 'd" where
  "hdfs_insert_record H M base schema key r d =
     (if hdfs_exists H base schema key d then Inl ObjectExistError
      else
        bind_res (cursor_call H (h_content H (get_schema_path base schema)) d) (\<lambda>present.
        bind_res (if present then Inr d else cursor_call H (h_makedirs H (get_schema_path base schema)) d)
          (write_record H M (get_record_path base schema key) False r)))"

definition hdfs_update_record ::
  "('d, 'b, 'st) hdfs_client \<Rightarrow> ('r, 'st) model_ops \<Rightarrow> string \<Rightarrow> string \<Rightarrow> string \<Rightarrow> 'r \<Rightarrow> 'd \<Rightarrow> exc_class + 'd" where
  "hdfs_update_record H M base schema key r d =
     (if \<not> hdfs_exists H base schema key d then Inl ObjectDoesNotExist
      else write_record H M (get_record_path base schema key) True r d)"

definition hdfs_delete_record :: "('d, 'b, 'st) hdfs_client \<Rightarrow> string \<Rightarrow> string \<Rightarrow> string \<Rightarrow> 'd \<Rightarrow> exc_class + 'd" where
  "hdfs_delete_record H base schema key d =
     (if \<not> hdfs_exists H base schema key d then Inl ObjectDoesNotExist
      else cursor_call H (h_delete H (get_record_path base schema key)) d)"

definition read_state :: "('d, 'b, 'st) hdfs_client \<Rightarrow> string \<Rightarrow> 'd \<Rightarrow> exc_class + 'st" where
  "read_state H path d = bind_res (cursor_call H (h_read H path) d) (json_load H)"

definition hdfs_get_record ::
  "('d, 'b, 'st) hdfs_client \<Rightarrow> ('r, 'st) model_ops \<Rightarrow> string \<Rightarrow> string \<Rightarrow> string \<Rightarrow> 'd \<Rightarrow> exc_class + 'r" where
  "hdfs_get_record H M base schema key d =
     (if \<not> hdfs_exists H base schema key d then Inl ObjectDoesNotExist
      else bind_res (read_state H (get_record_path base schema key) d) (load_record M))"

definition hdfs_reload_record ::
  "('d, 'b, 'st) hdfs_client \<Rightarrow> ('r, 'st) model_ops \<Rightarrow> string \<Rightarrow> string \<Rightarrow> 'r \<Rightarrow> 'd \<Rightarrow> exc_class + 'r" where
  "hdfs_reload_record H M base schema r d =
     (if \<not> hdfs_exists H base schema (model_id M r) d then Inl ObjectDoesNotExist
      else bind_res (read_state H (get_record_path base schema (model_id M r)) d) (\<lambda>st. setstate M st r))"

text \<open>The loop of \<open>filter_record\<close>: any exception ends it, and what was found so far is returned.\<close>

fun hdfs_scan ::
  "('d, 'b, 'st) hdfs_client \<Rightarrow> ('r, 'st) model_ops \<Rightarrow> string \<Rightarrow> (string, pyval) dict \<Rightarrow> 'd \<Rightarrow> string list \<Rightarrow> 'r list" where
  "hdfs_scan H M dir fs d [] = []"
| "hdfs_scan H M dir fs d (f # files) =
     (if \<not> str_endswith f ''.json'' then hdfs_scan H M dir fs d files
      else
        (case bind_res (read_state H (path_join dir f) d) (load_record M) of
           Inl e \<Rightarrow> []
         | Inr r \<Rightarrow> (if generate_filter_match M fs r then r # hdfs_scan H M dir fs d files else hdfs_scan H M dir fs d files)))"

definition hdfs_filter_record ::
  "('d, 'b, 'st) hdfs_client \<Rightarrow> ('r, 'st) model_ops \<Rightarrow> string \<Rightarrow> string \<Rightarrow> (string, pyval) dict \<Rightarrow> 'd \<Rightarrow> 'r list" where
  "hdfs_filter_record H M base schema fs d =
     (let dir = get_schema_path base schema
      in case cursor_call H (h_list H dir) d of Inl e \<Rightarrow> [] | Inr files \<Rightarrow> hdfs_scan H M dir fs d files)"

section \<open>Documented behaviour of the client\<close>

definition is_ancestor :: "string \<Rightarrow> string \<Rightarrow> bool" where
  "is_ancestor q p \<longleftrightarrow> str_startswith p (q @ ''/'')"

definition hfile :: "('d, 'b, 'st) hdfs_client \<Rightarrow> 'd \<Rightarrow> string \<Rightarrow> 'b option" where
  "hfile H d p = (case h_read H p d of Inl e \<Rightarrow> None | Inr b \<Rightarrow> Some b)"

definition present :: "('d, 'b, 'st) hdfs_client \<Rightarrow> 'd \<Rightarrow> string \<Rightarrow> bool" where
  "present H d p \<longleftrightarrow> h_status H p d = Inr True"

text \<open>A connected client: directories can be made, files written where there is none or where overwriting is
  asked for, and deleted; each of these changes only the path and, for the first two, the directories above it.
  Loading what was dumped gives the state back.\<close>

definition makedirs_law :: "('d, 'b, 'st) hdfs_client \<Rightarrow> bool" where
  "makedirs_law H \<longleftrightarrow>
     (\<forall>d p. h_open H d \<longrightarrow>
       (\<exists>d'. h_makedirs H p d = Inr d' \<and> h_open H d' \<and> (\<forall>q. hfile H d' q = hfile H d q) \<and>
         (\<forall>q. q \<noteq> p \<longrightarrow> \<not> is_ancestor q p \<longrightarrow> present H d' q = present H d q)))"

definition write_law :: "('d, 'b, 'st) hdfs_client \<Rightarrow> bool" where
  "write_law H \<longleftrightarrow>
     (\<forall>d p ow b. h_open H d \<longrightarrow> hfile H d p \<noteq> None \<and> ow \<or> \<not> present H d p \<longrightarrow>
       (\<exists>d'. h_write H p ow b d = Inr d' \<and> h_open H d' \<and> hfile H d' p = Some b \<and> present H d' p \<and>
         (\<forall>q. q \<noteq> p \<longrightarrow> hfile H d' q = hfile H d q) \<and>
         (\<forall>q. q \<noteq> p \<longrightarrow> \<not> is_ancestor q p \<longrightarrow> present H d' q = present H d q)))"

definition delete_law :: "('d, 'b, 'st) hdfs_client \<Rightarrow> bool" where
  "delete_law H \<longleftrightarrow>
     (\<forall>d p. h_open H d \<longrightarrow> hfile H d p \<noteq> None \<longrightarrow>
       (\<exists>d'. h_delete H p d = Inr d' \<and> h_open H d' \<and> hfile H d' p = None \<and> \<not> present H d' p \<and>
         (\<forall>q. q \<noteq> p \<longrightarrow> hfile H d' q = hfile H d q) \<and> (\<forall>q. q \<noteq> p \<longrightarrow> present H d' q = present H d q)))"

definition hdfs_lawful :: "('d, 'b, 'st) hdfs_client \<Rightarrow> bool" where
  "hdfs_lawful H \<longleftrightarrow>
     (\<forall>d p. h_open H d \<longrightarrow> (\<exists>b. h_content H p d = Inr b)) \<and> makedirs_law H \<and> write_law H \<and> delete_law H \<and>
     (\<forall>st b. json_dumps H st = Inr b \<longrightarrow> json_load H b = Inr st)"

end
