(* ===== verification/Hdfs_Store_Props.thy ===== *)
theory Hdfs_Store_Props
  imports Hdfs_Store
begin

text \<open>
  The HDFS store keeps the contract of a key-value store: different records have different paths, and no
  record lies above another one. What saving guarantees follows from the locale \<open>kv_store\<close>.
\<close>

section \<open>Paths of records\<close>

definition plain_name :: "string \<Rightarrow> bool" where
  "plain_name s \<longleftrightarrow> CHR ''/'' \<notin> set s"

definition hdfs_valid :: "string \<Rightarrow> string \<Rightarrow> bool" where
  "hdfs_valid n k \<longleftrightarrow> plain_name n \<and> n \<noteq> [] \<and> plain_name k"

definition path_root :: "string \<Rightarrow> string" where
  "path_root base = (if base = [] \<or> str_endswith base ''/'' then base else base @ ''/'')"

lemma plain_not_abs: "plain_name s \<Longrightarrow> \<not> str_startswith s ''/''"
  by (cases s) (auto simp: plain_name_def)

lemma plain_no_slash_end: "plain_name n \<Longrightarrow> n \<noteq> [] \<Longrightarrow> \<not> str_endswith (a @ n) ''/''"
  by (cases n rule: rev_cases) (auto simp: str_endswith_iff plain_name_def)

lemma schema_path: "plain_name n \<Longrightarrow> get_schema_path base n = path_root base @ n"
  by (simp add: get_schema_path_def path_join_def path_root_def plain_not_abs)

lemma record_path: "hdfs_valid n k \<Longrightarrow> get_record_path base n k = path_root base @ n @ ''/'' @ k @ ''.json''"
proof -
  assume v: "hdfs_valid n k"
  then have "\<not> str_startswith (k @ ''.json'') ''/''" by (intro plain_not_abs) (auto simp: hdfs_valid_def plain_name_def)
  then show ?thesis using v by (simp add: get_record_path_def schema_path hdfs_valid_def path_join_def plain_no_slash_end)
qed

lemma split_at_slash: "plain_name a \<Longrightarrow> plain_name b \<Longrightarrow> a @ CHR ''/'' # x = b @ CHR ''/'' # y \<Longrightarrow> a = b \<and> x = y"
proof (induction a arbitrary: b)
  case Nil
  then show ?case by (cases b) (auto simp: plain_name_def)
next
  case (Cons c a)
  then show ?case by (cases b) (auto simp: plain_name_def)
qed

lemma record_path_inject:
  assumes "hdfs_valid n k" and "hdfs_valid n' k'" and "get_record_path base n k = get_record_path base n' k'"
  shows "n = n' \<and> k = k'"
  using assms split_at_slash[of n n' "k @ ''.json''" "k' @ ''.json''"] by (auto simp: record_path hdfs_valid_def)

lemma record_no_ancestor:
  assumes "hdfs_valid n k" and "hdfs_valid n' k'"
  shows "\<not> is_ancestor (get_record_path base n k) (get_record_path base n' k')"
proof
  assume "is_ancestor (get_record_path base n k) (get_record_path base n' k')"
  then obtain t where "get_record_path base n' k' = (get_record_path base n k @ ''/'') @ t"
    unfolding is_ancestor_def str_startswith_iff by blast
  then have "n' @ CHR ''/'' # (k' @ ''.json'') = n @ CHR ''/'' # (k @ ''.json'' @ CHR ''/'' # t)"
    using assms by (simp add: record_path)
  then have "k' @ ''.json'' = k @ ''.json'' @ CHR ''/'' # t" using split_at_slash[of n' n] assms unfolding hdfs_valid_def by blast
  then have "CHR ''/'' \<in> set (k' @ ''.json'')" by (simp only:) simp
  then show False using assms(2) by (simp add: hdfs_valid_def plain_name_def)
qed

lemma record_above_schema:
  assumes "hdfs_valid n k" and "plain_name n'"
  shows "get_record_path base n k \<noteq> get_schema_path base n' \<and> \<not> is_ancestor (get_record_path base n k) (get_schema_path base n')"
proof -
  have "n' \<noteq> n @ CHR ''/'' # x" for x using assms(2) by (auto simp: plain_name_def)
  then show ?thesis using assms by (auto simp: is_ancestor_def str_startswith_iff record_path schema_path)
qed

section \<open>The contract\<close>

definition hdfs_lookup :: "('d, 'b, 'st) hdfs_client \<Rightarrow> string \<Rightarrow> 'd \<Rightarrow> string \<Rightarrow> string \<Rightarrow> 'b option" where
  "hdfs_lookup H base d n k = hfile H d (get_record_path base n k)"

text \<open>Connected, and what stands at the path of a record is a file.\<close>

definition hdfs_good :: "('d, 'b, 'st) hdfs_client \<Rightarrow> string \<Rightarrow> 'd \<Rightarrow> bool" where
  "hdfs_good H base d \<longleftrightarrow>
     h_open H d \<and> (\<forall>n k. hdfs_valid n k \<longrightarrow> present H d (get_record_path base n k) = (hdfs_lookup H base d n k \<noteq> None))"

definition hdfs_enc :: "('d, 'b, 'st) hdfs_client \<Rightarrow> ('r, 'st) model_ops \<Rightarrow> 'r \<Rightarrow> 'b option" where
  "hdfs_enc H M r = (case bind_res (getstate M r) (json_dumps H) of Inl e \<Rightarrow> None | Inr b \<Rightarrow> Some b)"

lemma write_record_enc: "hdfs_enc H M r = Some b \<Longrightarrow> write_record H M p ow r = cursor_call H (h_write H p ow b)"
  by (cases "getstate M r") (auto simp: hdfs_enc_def write_record_def fun_eq_iff split: sum.splits)

lemma exists_lookup:
  assumes "hdfs_good H base d" and "hdfs_valid n k"
  shows "hdfs_exists H base n k d \<longleftrightarrow> hdfs_lookup H base d n k \<noteq> None"
proof -
  have "h_open H d" "present H d (get_record_path base n k) = (hdfs_lookup H base d n k \<noteq> None)"
    using assms unfolding hdfs_good_def by blast+
  moreover have "hdfs_exists H base n k d = present H d (get_record_path base n k)"
    using \<open>h_open H d\<close> by (cases "h_status H (get_record_path base n k) d") (auto simp: hdfs_exists_def cursor_call_def present_def)
  ultimately show ?thesis by simp
qed

text \<open>The laws one at a time.\<close>

lemma law_content: "hdfs_lawful H \<Longrightarrow> h_open H d \<Longrightarrow> \<exists>b. h_content H p d = Inr b"
  unfolding hdfs_lawful_def by blast

lemma law_makedirs:
  assumes "hdfs_lawful H" and "h_open H d"
  shows "\<exists>d'. h_makedirs H p d = Inr d' \<and> h_open H d' \<and> (\<forall>q. hfile H d' q = hfile H d q) \<and>
    (\<forall>q. q \<noteq> p \<longrightarrow> \<not> is_ancestor q p \<longrightarrow> present H d' q = present H d q)"
proof -
  have "makedirs_law H" using assms(1) by (simp only: hdfs_lawful_def)
  then show ?thesis using assms(2) unfolding makedirs_law_def by blast
qed

lemma law_write:
  assumes "hdfs_lawful H" and "h_open H d" and "hfile H d p \<noteq> None \<and> ow \<or> \<not> present H d p"
  shows "\<exists>d'. h_write H p ow b d = Inr d' \<and> h_open H d' \<and> hfile H d' p = Some b \<and> present H d' p \<and>
    (\<forall>q. q \<noteq> p \<longrightarrow> hfile H d' q = hfile H d q) \<and> (\<forall>q. q \<noteq> p \<longrightarrow> \<not> is_ancestor q p \<longrightarrow> present H d' q = present H d q)"
proof -
  have "write_law H" using assms(1) by (simp only: hdfs_lawful_def)
  then show ?thesis using assms(2,3) unfolding write_law_def by metis
qed

lemma law_delete:
  assumes "hdfs_lawful H" and "h_open H d" and "hfile H d p \<noteq> None"
  shows "\<exists>d'. h_delete H p d = Inr d' \<and> h_open H d' \<and> hfile H d' p = None \<and> \<not> present H d' p \<and>
    (\<forall>q. q \<noteq> p \<longrightarrow> hfile H d' q = hfile H d q) \<and> (\<forall>q. q \<noteq> p \<longrightarrow> present H d' q = present H d q)"
proof -
  have "delete_law H" using assms(1) by (simp only: hdfs_lawful_def)
  then show ?thesis using assms(2,3) unfolding delete_law_def by blast
qed

lemma law_json: "hdfs_lawful H \<Longrightarrow> json_dumps H st = Inr b \<Longrightarrow> json_load H b = Inr st"
  by (simp add: hdfs_lawful_def)

text \<open>A change of one file that leaves the other records alone keeps the state good.\<close>

lemma file_change_good:
  assumes g: "hdfs_good H base d" and v: "hdfs_valid n k" and o: "h_open H d'"
    and here: "hfile H d' (get_record_path base n k) = b" "present H d' (get_record_path base n k) = (b \<noteq> None)"
    and other: "\<And>q. q \<noteq> get_record_path base n k \<Longrightarrow> hfile H d' q = hfile H d q"
      "\<And>q. q \<noteq> get_record_path base n k \<Longrightarrow> \<not> is_ancestor q (get_record_path base n k) \<Longrightarrow> present H d' q = present H d q"
  shows "hdfs_good H base d' \<and> stores (hdfs_lookup H base) hdfs_valid d n k b d'"
proof -
  have "hdfs_lookup H base d' n' k' = (if n' = n \<and> k' = k then b else hdfs_lookup H base d n' k') \<and>
      (present H d' (get_record_path base n' k') = (hdfs_lookup H base d' n' k' \<noteq> None))" if w: "hdfs_valid n' k'" for n' k'
  proof (cases "n' = n \<and> k' = k")
    case False
    then have ne: "get_record_path base n' k' \<noteq> get_record_path base n k" using record_path_inject w v by blast
    have "present H d (get_record_path base n' k') = (hdfs_lookup H base d n' k' \<noteq> None)" using g w by (simp add: hdfs_good_def del: not_None_eq)
    then show ?thesis using other(1)[OF ne] other(2)[OF ne record_no_ancestor[OF w v]] False by (auto simp: hdfs_lookup_def simp del: not_None_eq)
  qed (use here in \<open>simp add: hdfs_lookup_def del: not_None_eq\<close>)
  then show ?thesis using o by (simp add: hdfs_good_def stores_def del: not_None_eq)
qed

lemma insert_new:
  assumes L: "hdfs_lawful H" and g: "hdfs_good H base d" and v: "hdfs_valid n k" and e: "hdfs_enc H M r = Some b" and new: "hdfs_lookup H base d n k = None"
  shows "\<exists>d'. hdfs_insert_record H M base n k r d = Inr d' \<and> hdfs_good H base d' \<and> stores (hdfs_lookup H base) hdfs_valid d n k (Some b) d'"
proof -
  let ?p = "get_record_path base n k" and ?s = "get_schema_path base n"
  have o: "h_open H d" "plain_name n" using g v by (simp_all add: hdfs_good_def hdfs_valid_def)
  obtain c where c: "h_content H ?s d = Inr c" using law_content[OF L o(1)] by blast
  obtain dm where dm: "h_makedirs H ?s d = Inr dm" "h_open H dm" "\<And>q. hfile H dm q = hfile H d q"
    "\<And>q. q \<noteq> ?s \<Longrightarrow> \<not> is_ancestor q ?s \<Longrightarrow> present H dm q = present H d q" using law_makedirs[OF L o(1), of ?s] by blast
  have "hdfs_good H base dm" using g dm(2-4) record_above_schema[OF _ o(2)] by (simp add: hdfs_good_def hdfs_lookup_def del: not_None_eq)
  define d1 where "d1 = (if c then d else dm)"
  have d1: "hdfs_good H base d1" "\<And>n' k'. hdfs_lookup H base d1 n' k' = hdfs_lookup H base d n' k'" "h_open H d1"
    using \<open>hdfs_good H base dm\<close> g dm(2,3) o(1) by (simp_all add: d1_def hdfs_lookup_def)
  have "\<not> present H d1 ?p" using d1 new v by (simp add: hdfs_good_def)
  then obtain d2 where d2: "h_write H ?p False b d1 = Inr d2" "h_open H d2" "hfile H d2 ?p = Some b" "present H d2 ?p"
    "\<And>q. q \<noteq> ?p \<Longrightarrow> hfile H d2 q = hfile H d1 q" "\<And>q. q \<noteq> ?p \<Longrightarrow> \<not> is_ancestor q ?p \<Longrightarrow> present H d2 q = present H d1 q"
    using law_write[OF L d1(3), of ?p False b] by blast
  have "hdfs_insert_record H M base n k r d = Inr d2"
    using exists_lookup[OF g v] new o(1) c dm(1) d2(1) d1(3) by (simp add: hdfs_insert_record_def write_record_enc[OF e] cursor_call_def d1_def split: if_splits)
  moreover have "hdfs_good H base d2 \<and> stores (hdfs_lookup H base) hdfs_valid d1 n k (Some b) d2"
    using file_change_good[OF d1(1) v d2(2,3)] d2(4-6) by blast
  ultimately show ?thesis using d1(2) by (simp add: stores_def)
qed

lemma hdfs_kv:
  assumes L: "hdfs_lawful H"
  shows "kv_store (hdfs_lookup H base) (hdfs_good H base) hdfs_valid (hdfs_enc H M)
    (hdfs_insert_record H M base) (hdfs_update_record H M base) (hdfs_delete_record H base)"
proof
  fix s :: 'a and n k r b
  assume g: "hdfs_good H base s" and v: "hdfs_valid n k"
  then have o: "h_open H s" by (simp add: hdfs_good_def)
  let ?p = "get_record_path base n k"
  show "(hdfs_lookup H base s n k \<noteq> None \<and> hdfs_insert_record H M base n k r s = Inl ObjectExistError) \<or>
      (\<exists>s'. hdfs_insert_record H M base n k r s = Inr s' \<and> hdfs_good H base s' \<and> stores (hdfs_lookup H base) hdfs_valid s n k (Some b) s')"
    if "hdfs_enc H M r = Some b"
    using insert_new[OF L g v that] exists_lookup[OF g v] by (cases "hdfs_lookup H base s n k") (simp_all add: hdfs_insert_record_def)
  show "\<exists>s'. hdfs_update_record H M base n k r s = Inr s' \<and> hdfs_good H base s' \<and> stores (hdfs_lookup H base) hdfs_valid s n k (Some b) s'"
    if "hdfs_enc H M r = Some b" "hdfs_lookup H base s n k \<noteq> None"
  proof -
    have "hfile H s ?p \<noteq> None" using that(2) by (simp add: hdfs_lookup_def)
    then obtain s' where s': "h_write H ?p True b s = Inr s'" "h_open H s'" "hfile H s' ?p = Some b" "present H s' ?p"
      "\<And>q. q \<noteq> ?p \<Longrightarrow> hfile H s' q = hfile H s q" "\<And>q. q \<noteq> ?p \<Longrightarrow> \<not> is_ancestor q ?p \<Longrightarrow> present H s' q = present H s q"
      using law_write[OF L o, of ?p True b] by blast
    have "hdfs_good H base s' \<and> stores (hdfs_lookup H base) hdfs_valid s n k (Some b) s'"
      using file_change_good[OF g v s'(2,3)] s'(4-6) by blast
    then show ?thesis using exists_lookup[OF g v] that(2) o s'(1)
      by (simp add: hdfs_update_record_def write_record_enc[OF that(1)] cursor_call_def)
  qed
  show "\<exists>s'. hdfs_delete_record H base n k s = Inr s' \<and> hdfs_good H base s' \<and> stores (hdfs_lookup H base) hdfs_valid s n k None s'"
    if "hdfs_lookup H base s n k \<noteq> None"
  proof -
    have "hfile H s ?p \<noteq> None" using that by (simp add: hdfs_lookup_def)
    then obtain s' where s': "h_delete H ?p s = Inr s'" "h_open H s'" "hfile H s' ?p = None" "\<not> present H s' ?p"
      "\<And>q. q \<noteq> ?p \<Longrightarrow> hfile H s' q = hfile H s q" "\<And>q. q \<noteq> ?p \<Longrightarrow> present H s' q = present H s q" using law_delete[OF L o] by blast
    have "hdfs_good H base s' \<and> stores (hdfs_lookup H base) hdfs_valid s n k None s'"
      using file_change_good[OF g v s'(2,3)] s'(4-6) by blast
    then show ?thesis using s'(1) that o exists_lookup[OF g v] by (simp add: hdfs_delete_record_def cursor_call_def)
  qed
  show "hdfs_delete_record H base n k s = Inl ObjectDoesNotExist" if "hdfs_lookup H base s n k = None"
    using exists_lookup[OF g v] that by (simp add: hdfs_delete_record_def)
qed

section \<open>Properties\<close>

lemma hdfs_scan_all:
  assumes "\<And>f. f \<in> set files \<Longrightarrow> str_endswith f ''.json'' \<Longrightarrow> bind_res (read_state H (path_join dir f) d) (load_record M) = Inr (dec f)"
  shows "hdfs_scan H M dir fs d files = filter (generate_filter_match M fs) (map dec (filter (\<lambda>f. str_endswith f ''.json'') files))"
  using assms by (induction files) auto


text \<open>A client over a dictionary of files, where directories are implicit.\<close>

definition demo_hdfs :: "((string, nat) dict, nat, nat) hdfs_client" where
  "demo_hdfs =
     \<lparr>h_open = (\<lambda>d. True), h_status = (\<lambda>p d. if dict_get d p = None then Inl ValueError else Inr True), h_content = (\<lambda>p d. Inr False),
      h_list = (\<lambda>p d. Inr []), h_makedirs = (\<lambda>p d. Inr d), h_write = (\<lambda>p ow b d. Inr (dict_set p b d)), h_delete = (\<lambda>p d. Inr (dict_del p d)),
      h_read = (\<lambda>p d. of_option ValueError (dict_get d p)), json_dumps = Inr, json_load = Inr\<rparr>"

lemma demo_hdfs_file: "hfile demo_hdfs d p = dict_get d p" "present demo_hdfs d p = (dict_get d p \<noteq> None)"
  by (cases "dict_get d p"; simp add: hfile_def present_def demo_hdfs_def)+

lemma demo_hdfs_lawful: "hdfs_lawful demo_hdfs"
proof -
  have "makedirs_law demo_hdfs" by (simp add: makedirs_law_def demo_hdfs_file) (simp add: demo_hdfs_def)
  moreover have "write_law demo_hdfs" by (simp add: write_law_def demo_hdfs_file del: not_None_eq) (simp add: demo_hdfs_def dict_simps)
  moreover have "delete_law demo_hdfs" by (simp add: delete_law_def demo_hdfs_file del: not_None_eq) (simp add: demo_hdfs_def dict_simps)
  moreover have "\<exists>b. h_content demo_hdfs p d = Inr b" "json_dumps demo_hdfs st = Inr b' \<Longrightarrow> json_load demo_hdfs b' = Inr st" for p d st b'
    by (auto simp: demo_hdfs_def)
  ultimately show ?thesis by (simp add: hdfs_lawful_def)
qed


end
