(* ===== verification/Sql_Store.thy ===== *)
theory Sql_Store
  imports Store_Props Actions
begin

text \<open>
  The SQL stores: \<^verbatim>\<open>src/nexus/backends/stores/sqlite_store.py\<close>,
  \<^verbatim>\<open>src/nexus/backends/stores/postgres_store.py\<close> and \<^verbatim>\<open>src/nexus/backends/stores/sql_utils.py\<close>.
  They build statements as text with one placeholder per parameter and hand both to a cursor.

  The database is the record \<open>sql_engine\<close>: \<open>sq_exec\<close> runs a statement with its parameters and gives the rows
  and the row count, or raises. White space between the words of a statement is one blank here. An operation
  is an action on the database (\<open>Actions\<close>), so that what a statement changed stays when a later one raises.
\<close>

abbreviation DbError :: exc_class where
  "DbError \<equiv> UserExc ''Error'' Exception"

abbreviation UnboundLocalError :: exc_class where
  "UnboundLocalError \<equiv> UserExc ''UnboundLocalError'' Exception"

section \<open>Text\<close>

fun str_join :: "string \<Rightarrow> string list \<Rightarrow> string" where
  "str_join sep [] = []"
| "str_join sep [x] = x"
| "str_join sep (x # y # ys) = x @ sep @ str_join sep (y # ys)"

text \<open>\<open>key.rsplit("__", 1)\<close>, on the reversed key; \<open>None\<close> when the key has no double underscore.\<close>

fun rsplit_rev :: "string \<Rightarrow> string \<Rightarrow> (string \<times> string) option" where
  "rsplit_rev acc (a # b # cs) =
     (if a = CHR ''_'' \<and> b = CHR ''_'' then Some (rev cs, acc) else rsplit_rev (a # acc) (b # cs))"
| "rsplit_rev acc _ = None"

definition rsplit_key :: "string \<Rightarrow> (string \<times> string) option" where
  "rsplit_key key = rsplit_rev [] (rev key)"

text \<open>\<open>int(s)\<close>: surrounding white space, a sign, digits with single underscores between them.\<close>

definition is_space :: "char \<Rightarrow> bool" where
  "is_space c \<longleftrightarrow> c \<in> {CHR '' '', CHR 0x09, CHR 0x0A, CHR 0x0B, CHR 0x0C, CHR 0x0D}"

definition str_strip :: "string \<Rightarrow> string" where
  "str_strip s = rev (dropWhile is_space (rev (dropWhile is_space s)))"

fun digits_value :: "bool \<Rightarrow> int \<Rightarrow> string \<Rightarrow> int option" where
  "digits_value prev acc [] = (if prev then Some acc else None)"
| "digits_value prev acc (c # cs) =
     (let n = of_char c :: nat
      in if 48 \<le> n \<and> n \<le> 57 then digits_value True (acc * 10 + int (n - 48)) cs
         else if c = CHR ''_'' \<and> prev then digits_value False acc cs
         else None)"

definition parse_int :: "string \<Rightarrow> int option" where
  "parse_int s =
     (case str_strip s of
        c # cs \<Rightarrow>
          (if c = CHR ''-'' then map_option uminus (digits_value False 0 cs)
           else if c = CHR ''+'' then digits_value False 0 cs
           else digits_value False 0 (c # cs))
      | [] \<Rightarrow> None)"

section \<open>Databases and models\<close>

record ('db, 'st) sql_engine =
  sq_connected :: "'db \<Rightarrow> bool"
  sq_exec :: "string \<Rightarrow> pyval list \<Rightarrow> ('db, exc_class, pyval list list \<times> nat) action"
  sq_commit :: "('db, exc_class, unit) action"
  sq_dumps :: "'st \<Rightarrow> pyval"
  sq_loads :: "pyval \<Rightarrow> exc_class + 'st"
  sq_str :: "pyval \<Rightarrow> string"

datatype field_type = TBool | TInt | TFloat | TStr | TAny | TOther

text \<open>An annotation of a model class: the type \<open>get_type\<close> gives, the name of the class of the annotation, and
  whether its arguments contain the type of \<open>None\<close>.\<close>

record annotation =
  ann_name :: string
  ann_type :: field_type
  ann_class :: string
  ann_none :: bool

record ('r, 'st) sql_model = "('r, 'st) model_ops" +
  model_dict :: "'r \<Rightarrow> (string, pyval) dict"
  model_annotations :: "annotation list"

definition lift_res :: "'e + 'a \<Rightarrow> ('s, 'e, 'a) action" where
  "lift_res r s = (r, s)"

text \<open>\<open>except Error as e: raise SqlOperationError\<close>, and \<open>except Error: return False\<close>.\<close>

definition wrap_db :: "('s, exc_class, 'a) action \<Rightarrow> ('s, exc_class, 'a) action" where
  "wrap_db m = catch_act m (\<lambda>e. raise_act (if is_subclass e DbError then SqlOperationError else e))"

definition false_on_db :: "('s, exc_class, bool) action \<Rightarrow> ('s, exc_class, bool) action" where
  "false_on_db m = catch_act m (\<lambda>e. if is_subclass e DbError then ret_act False else raise_act e)"

definition check_connection :: "('db, 'st) sql_engine \<Rightarrow> ('db, exc_class, unit) action" where
  "check_connection E db = (if sq_connected E db then Inr () else Inl ConnectionError, db)"

text \<open>\<open>fetchone() is not None\<close>.\<close>

definition query_any :: "('db, 'st) sql_engine \<Rightarrow> string \<Rightarrow> pyval list \<Rightarrow> ('db, exc_class, bool) action" where
  "query_any E sql ps = bind_act (sq_exec E sql ps) (\<lambda>(rows, n). ret_act (rows \<noteq> []))"

definition run_commit :: "('db, 'st) sql_engine \<Rightarrow> string \<Rightarrow> pyval list \<Rightarrow> ('db, exc_class, unit) action" where
  "run_commit E sql ps = bind_act (sq_exec E sql ps) (\<lambda>_. sq_commit E)"

text \<open>\<open>if cursor.rowcount == 0: raise ObjectDoesNotExist\<close> between the statement and the commit.\<close>

definition run_counted :: "('db, 'st) sql_engine \<Rightarrow> string \<Rightarrow> pyval list \<Rightarrow> ('db, exc_class, unit) action" where
  "run_counted E sql ps =
     bind_act (sq_exec E sql ps) (\<lambda>(rows, n). if n = 0 then raise_act ObjectDoesNotExist else sq_commit E)"

definition fetch_one :: "('db, 'st) sql_engine \<Rightarrow> string \<Rightarrow> pyval list \<Rightarrow> ('db, exc_class, pyval list) action" where
  "fetch_one E sql ps =
     bind_act (sq_exec E sql ps) (\<lambda>(rows, n). case rows of [] \<Rightarrow> raise_act ObjectDoesNotExist | row # _ \<Rightarrow> ret_act row)"

definition column0 :: "pyval list \<Rightarrow> exc_class + pyval" where
  "column0 row = (case row of [] \<Rightarrow> Inl IndexError | v # _ \<Rightarrow> Inr v)"

definition int_value :: "('db, 'st) sql_engine \<Rightarrow> pyval \<Rightarrow> exc_class + int" where
  "int_value E v = (case v of PInt i \<Rightarrow> Inr i | PBool b \<Rightarrow> Inr (if b then 1 else 0) | PStr s \<Rightarrow> of_option ValueError (parse_int s) | _ \<Rightarrow> Inl TypeError)"

definition fetch_count :: "('db, 'st) sql_engine \<Rightarrow> string \<Rightarrow> ('db, exc_class, int) action" where
  "fetch_count E sql =
     bind_act (sq_exec E sql []) (\<lambda>(rows, n).
       case rows of [] \<Rightarrow> ret_act 0 | row # _ \<Rightarrow> (if row = [] then ret_act 0 else lift_res (bind_res (column0 row) (int_value E))))"

text \<open>\<open>load_record\<close> of both stores.\<close>

definition sql_load_record :: "('db, 'st) sql_engine \<Rightarrow> ('r, 'st) sql_model \<Rightarrow> pyval \<Rightarrow> exc_class + 'r" where
  "sql_load_record E M v =
     bind_res (sq_loads E v) (\<lambda>st. setstate M st (new_instance M))"

fun load_rows :: "(pyval list \<Rightarrow> exc_class + 'r) \<Rightarrow> pyval list list \<Rightarrow> exc_class + 'r list" where
  "load_rows f [] = Inr []"
| "load_rows f (row # rows) = bind_res (f row) (\<lambda>r. bind_res (load_rows f rows) (\<lambda>rs. Inr (r # rs)))"

text \<open>A dictionary as a parameter is its text.\<close>

definition sql_value :: "('db, 'st) sql_engine \<Rightarrow> pyval \<Rightarrow> pyval" where
  "sql_value E v = (case v of PDict d \<Rightarrow> PStr (sq_str E v) | _ \<Rightarrow> v)"

section \<open>SQLite\<close>

definition sqlite_check_schema :: "('db, 'st) sql_engine \<Rightarrow> string \<Rightarrow> ('db, exc_class, bool) action" where
  "sqlite_check_schema E schema =
     bind_act (check_connection E) (\<lambda>_.
     false_on_db (query_any E ''SELECT 1 FROM sqlite_master WHERE type='table' AND name=?'' [PStr schema]))"

fun sqlite_map_types :: "field_type \<Rightarrow> string" where
  "sqlite_map_types TBool = ''BOOLEAN''"
| "sqlite_map_types TInt = ''INTEGER''"
| "sqlite_map_types TFloat = ''REAL''"
| "sqlite_map_types TStr = ''VARCHAR''"
| "sqlite_map_types TAny = ''JSON''"
| "sqlite_map_types TOther = ''JSON''"

definition convert_key_type :: "pyval \<Rightarrow> pyval" where
  "convert_key_type key =
     (case key of PStr s \<Rightarrow> (case parse_int s of None \<Rightarrow> PStr s | Some i \<Rightarrow> PInt i) | _ \<Rightarrow> key)"

definition sqlite_field_def :: "annotation \<Rightarrow> string" where
  "sqlite_field_def a =
     ann_name a @ '' '' @ sqlite_map_types (ann_type a) @
     (if ann_class a = ''_UnionType'' \<and> ann_none a then '''' else '' NOT NULL'')"

definition sqlite_create_schema :: "('db, 'st) sql_engine \<Rightarrow> ('r, 'st) sql_model \<Rightarrow> string \<Rightarrow> ('db, exc_class, unit) action" where
  "sqlite_create_schema E M schema =
     bind_act (check_connection E) (\<lambda>_.
     bind_act (sqlite_check_schema E schema) (\<lambda>ex.
       if ex then raise_act ObjectExistError
       else
         wrap_db (run_commit E
           (''CREATE TABLE '' @ schema @ '' (id VARCHAR PRIMARY KEY, '' @ str_join '', '' (map sqlite_field_def (model_annotations M)) @ '')'') [])))"

definition sqlite_exists :: "('db, 'st) sql_engine \<Rightarrow> string \<Rightarrow> pyval \<Rightarrow> ('db, exc_class, bool) action" where
  "sqlite_exists E schema key =
     bind_act (check_connection E) (\<lambda>_.
     false_on_db (query_any E (''SELECT 1 FROM '' @ schema @ '' WHERE id = ? LIMIT 1'') [key]))"

definition sqlite_insert_record :: "('db, 'st) sql_engine \<Rightarrow> ('r, 'st) sql_model \<Rightarrow> string \<Rightarrow> string \<Rightarrow> 'r \<Rightarrow> ('db, exc_class, unit) action" where
  "sqlite_insert_record E M schema key r =
     bind_act (check_connection E) (\<lambda>_.
     wrap_db
       (bind_act (sqlite_check_schema E schema) (\<lambda>known.
        bind_act (if known then ret_act () else sqlite_create_schema E M schema) (\<lambda>_.
        bind_act (sqlite_exists E schema (PStr key)) (\<lambda>ex.
          if ex then raise_act ObjectExistError
          else
            (let data = dict_del ''_backend'' (dict_del ''_id'' (dict_set ''id'' (PStr key) (model_dict M r)));
                 fields = dict_keys data
             in run_commit E
                  (''INSERT INTO '' @ schema @ '' ('' @ str_join '', '' fields @ '') VALUES ('' @ str_join '', '' (map (\<lambda>_. ''?'') fields) @ '')'')
                  (map (sql_value E) (dict_values data))))))))"

definition sqlite_update_record :: "('db, 'st) sql_engine \<Rightarrow> ('r, 'st) sql_model \<Rightarrow> string \<Rightarrow> string \<Rightarrow> 'r \<Rightarrow> ('db, exc_class, unit) action" where
  "sqlite_update_record E M schema key r =
     bind_act (check_connection E) (\<lambda>_.
     wrap_db
       (bind_act (lift_res (getstate M r)) (\<lambda>st.
        let k = convert_key_type (PStr key);
            data = dict_set ''record_state'' (sq_dumps E st) (dict_set ''id'' k (model_dict M r));
            fields = dict_keys data;
            others = filter (\<lambda>(f, v). f \<noteq> ''id'') data
        in run_commit E
             (''INSERT INTO '' @ schema @ '' ('' @ str_join '', '' fields @ '') VALUES ('' @ str_join '', '' (map (\<lambda>_. ''?'') fields) @
              '') ON CONFLICT(id) DO UPDATE SET '' @ str_join '', '' (map (\<lambda>(f, v). f @ '' = ?'') others) @ '' WHERE id = ?'')
             (dict_values data @ dict_values others @ [k]))))"

definition sqlite_delete_record :: "('db, 'st) sql_engine \<Rightarrow> string \<Rightarrow> pyval \<Rightarrow> ('db, exc_class, unit) action" where
  "sqlite_delete_record E schema key =
     bind_act (check_connection E) (\<lambda>_.
     wrap_db (run_counted E (''DELETE FROM '' @ schema @ '' WHERE id = ?'') [convert_key_type key]))"

definition sqlite_get_record :: "('db, 'st) sql_engine \<Rightarrow> ('r, 'st) sql_model \<Rightarrow> string \<Rightarrow> pyval \<Rightarrow> ('db, exc_class, 'r) action" where
  "sqlite_get_record E M schema key =
     bind_act (check_connection E) (\<lambda>_.
     wrap_db
       (bind_act (fetch_one E (''SELECT * FROM '' @ schema @ '' WHERE id = ?'') [convert_key_type key]) (\<lambda>row.
        lift_res (bind_res (column0 row) (sql_load_record E M)))))"

definition sqlite_reload_record :: "('db, 'st) sql_engine \<Rightarrow> ('r, 'st) sql_model \<Rightarrow> string \<Rightarrow> 'r \<Rightarrow> ('db, exc_class, 'r) action" where
  "sqlite_reload_record E M schema r =
     bind_act (check_connection E) (\<lambda>_.
     wrap_db
       (bind_act (fetch_one E (''SELECT record_state FROM '' @ schema @ '' WHERE id = ?'') [convert_key_type (PStr (model_id M r))]) (\<lambda>row.
        lift_res (bind_res (column0 row) (\<lambda>v. bind_res (sq_loads E v) (\<lambda>st. setstate M st r))))))"

definition sqlite_count :: "('db, 'st) sql_engine \<Rightarrow> string \<Rightarrow> ('db, exc_class, int) action" where
  "sqlite_count E schema =
     bind_act (check_connection E) (\<lambda>_.
     wrap_db
       (bind_act (sqlite_check_schema E schema) (\<lambda>known.
          if known then fetch_count E (''SELECT COUNT(*) FROM '' @ schema) else raise_act ObjectDoesNotExist)))"

text \<open>The values of an \<open>in\<close> filter: iterating over the value.\<close>

definition iter_values :: "pyval \<Rightarrow> exc_class + pyval list" where
  "iter_values v =
     (case v of
        PList xs \<Rightarrow> Inr xs
      | PTuple xs \<Rightarrow> Inr xs
      | PStr s \<Rightarrow> Inr (map (\<lambda>c. PStr [c]) s)
      | PDict d \<Rightarrow> Inr (map (\<lambda>(k, x). PStr k) d)
      | _ \<Rightarrow> Inl TypeError)"

definition comparison :: "string \<Rightarrow> string option" where
  "comparison oper = map_of [(''gt'', ''>''), (''gte'', ''>=''), (''lt'', ''<''), (''lte'', ''<='')] oper"

text \<open>What one filter adds to the conditions and to the parameters; an operator that is not known adds nothing.\<close>

definition sqlite_condition :: "('db, 'st) sql_engine \<Rightarrow> string \<Rightarrow> pyval \<Rightarrow> exc_class + string list \<times> pyval list" where
  "sqlite_condition E key v =
     (case rsplit_key key of
        None \<Rightarrow> Inr ([key @ '' = ?''], [v])
      | Some (field, oper) \<Rightarrow>
          (if oper = ''contains'' then Inr ([field @ '' LIKE ?''], [PStr (''%'' @ sq_str E v @ ''%'')])
           else if oper = ''startswith'' then Inr ([field @ '' LIKE ?''], [PStr (sq_str E v @ ''%'')])
           else if oper = ''endswith'' then Inr ([field @ '' LIKE ?''], [PStr (''%'' @ sq_str E v)])
           else if oper = ''icontains'' then Inr ([''LOWER('' @ field @ '') LIKE LOWER(?)''], [PStr (''%'' @ sq_str E v @ ''%'')])
           else
             (case comparison oper of
                Some c \<Rightarrow> Inr ([field @ '' '' @ c @ '' ?''], [v])
              | None \<Rightarrow>
                  (if oper = ''in''
                   then bind_res (iter_values v) (\<lambda>xs. Inr ([field @ '' IN ('' @ str_join '','' (map (\<lambda>_. ''?'') xs) @ '')''], xs))
                   else if oper = ''isnull'' then Inr ([field @ '' IS '' @ (if truthy v then ''NULL'' else ''NOT NULL'')], [])
                   else if oper = ''exact'' then Inr ([field @ '' = ?''], [v])
                   else Inr ([], [])))))"

fun conditions_of :: "(string \<Rightarrow> pyval \<Rightarrow> exc_class + string list \<times> pyval list) \<Rightarrow> (string \<times> pyval) list \<Rightarrow> exc_class + string list \<times> pyval list" where
  "conditions_of f [] = Inr ([], [])"
| "conditions_of f ((k, v) # fs) =
     bind_res (f k v) (\<lambda>(cs, ps). bind_res (conditions_of f fs) (\<lambda>(cs', ps'). Inr (cs @ cs', ps @ ps')))"

text \<open>\<open>_build_sql_filter\<close>: the clause is assigned inside the loop, so there is none without a filter.\<close>

definition build_sql_filter :: "('db, 'st) sql_engine \<Rightarrow> (string, pyval) dict \<Rightarrow> exc_class + string \<times> pyval list" where
  "build_sql_filter E fs =
     bind_res (conditions_of (sqlite_condition E) fs) (\<lambda>(cs, ps).
       if fs = [] then Inl UnboundLocalError
       else Inr (if cs = [] then ''1'' else str_join '' AND '' cs, ps))"

definition sqlite_filter_record ::
  "('db, 'st) sql_engine \<Rightarrow> ('r, 'st) sql_model \<Rightarrow> string \<Rightarrow> (string, pyval) dict \<Rightarrow> ('db, exc_class, 'r list) action" where
  "sqlite_filter_record E M schema fs =
     bind_act (check_connection E) (\<lambda>_.
     wrap_db
       (bind_act (sqlite_check_schema E schema) (\<lambda>known.
          if \<not> known then raise_act ObjectDoesNotExist
          else
            bind_act (lift_res (build_sql_filter E fs)) (\<lambda>(clause, ps).
            bind_act (sq_exec E (''SELECT * FROM '' @ schema @ (if clause \<noteq> ''1'' then '' WHERE '' @ clause else '''')) ps) (\<lambda>(rows, n).
            lift_res (load_rows (\<lambda>row. sql_load_record E M (PTuple row)) rows))))))"

section \<open>PostgreSQL\<close>

definition pg_check_schema :: "('db, 'st) sql_engine \<Rightarrow> string \<Rightarrow> ('db, exc_class, bool) action" where
  "pg_check_schema E schema =
     bind_act (check_connection E) (\<lambda>_.
     false_on_db (query_any E ''SELECT 1 FROM information_schema.tables WHERE table_name = %s'' [PStr (str_lower schema)]))"

fun map_types :: "field_type \<Rightarrow> string" where
  "map_types TBool = ''BOOLEAN''"
| "map_types TInt = ''INTEGER''"
| "map_types TFloat = ''REAL''"
| "map_types _ = ''TEXT''"

definition pg_create_schema :: "('db, 'st) sql_engine \<Rightarrow> ('r, 'st) sql_model \<Rightarrow> string \<Rightarrow> ('db, exc_class, unit) action" where
  "pg_create_schema E M schema =
     bind_act (check_connection E) (\<lambda>_.
     bind_act (pg_check_schema E schema) (\<lambda>ex.
       if ex then raise_act ObjectExistError
       else
         wrap_db (run_commit E
           (''CREATE TABLE '' @ schema @ '' ( id TEXT PRIMARY KEY, '' @
            str_join '', '' (map (\<lambda>a. ann_name a @ '' '' @ map_types (ann_type a)) (model_annotations M)) @ '' )'') [])))"

definition pg_exists :: "('db, 'st) sql_engine \<Rightarrow> string \<Rightarrow> pyval \<Rightarrow> ('db, exc_class, bool) action" where
  "pg_exists E schema key =
     bind_act (check_connection E) (\<lambda>_.
     false_on_db (query_any E (''SELECT 1 FROM '' @ schema @ '' WHERE id = %s LIMIT 1'') [key]))"

definition pg_insert_record :: "('db, 'st) sql_engine \<Rightarrow> ('r, 'st) sql_model \<Rightarrow> string \<Rightarrow> string \<Rightarrow> 'r \<Rightarrow> ('db, exc_class, unit) action" where
  "pg_insert_record E M schema key r =
     bind_act (check_connection E) (\<lambda>_.
     wrap_db
       (bind_act (pg_check_schema E schema) (\<lambda>known.
        bind_act (if known then ret_act () else pg_create_schema E M schema) (\<lambda>_.
        bind_act (pg_exists E schema (PStr key)) (\<lambda>ex.
          if ex then raise_act ObjectExistError
          else
            (let data = dict_set ''id'' (PStr key) (dict_del ''_backend'' (dict_del ''_id'' (model_dict M r)));
                 fields = dict_keys data
             in run_commit E
                  (''INSERT INTO '' @ str_lower schema @ '' ('' @ str_join '', '' fields @ '') VALUES ('' @ str_join '', '' (map (\<lambda>_. ''%s'') fields) @ '') '')
                  (map (sql_value E) (dict_values data))))))))"

definition pg_update_record :: "('db, 'st) sql_engine \<Rightarrow> ('r, 'st) sql_model \<Rightarrow> string \<Rightarrow> string \<Rightarrow> 'r \<Rightarrow> ('db, exc_class, unit) action" where
  "pg_update_record E M schema key r =
     bind_act (check_connection E) (\<lambda>_.
     wrap_db
       (let data = dict_del ''_backend'' (dict_del ''_id'' (dict_set ''id'' (PStr key) (model_dict M r)));
            others = filter (\<lambda>(f, v). f \<noteq> ''id'') data
        in run_counted E
             (''UPDATE '' @ str_lower schema @ '' SET '' @ str_join '', '' (map (\<lambda>(f, v). f @ '' = %s'') others) @ '' WHERE id = %s'')
             (map (sql_value E) (dict_values others) @ [PStr key])))"

definition pg_delete_record :: "('db, 'st) sql_engine \<Rightarrow> string \<Rightarrow> pyval \<Rightarrow> ('db, exc_class, unit) action" where
  "pg_delete_record E schema key =
     bind_act (check_connection E) (\<lambda>_.
     wrap_db (run_counted E (''DELETE FROM '' @ str_lower schema @ '' WHERE id = %s'') [key]))"

definition pg_get_record :: "('db, 'st) sql_engine \<Rightarrow> ('r, 'st) sql_model \<Rightarrow> string \<Rightarrow> pyval \<Rightarrow> ('db, exc_class, 'r) action" where
  "pg_get_record E M schema key =
     bind_act (check_connection E) (\<lambda>_.
     wrap_db
       (bind_act (fetch_one E (''SELECT record_state FROM '' @ str_lower schema @ '' WHERE id = %s'') [key]) (\<lambda>row.
        lift_res (bind_res (column0 row) (sql_load_record E M)))))"

definition pg_reload_record :: "('db, 'st) sql_engine \<Rightarrow> ('r, 'st) sql_model \<Rightarrow> string \<Rightarrow> 'r \<Rightarrow> ('db, exc_class, 'r) action" where
  "pg_reload_record E M schema r =
     bind_act (check_connection E) (\<lambda>_.
     wrap_db
       (bind_act (fetch_one E (''SELECT record_state FROM '' @ str_lower schema @ '' WHERE id = %s'') [PStr (model_id M r)]) (\<lambda>row.
        lift_res (bind_res (column0 row) (\<lambda>v. bind_res (sq_loads E v) (\<lambda>st. setstate M st r))))))"

definition pg_count :: "('db, 'st) sql_engine \<Rightarrow> string \<Rightarrow> ('db, exc_class, int) action" where
  "pg_count E schema =
     bind_act (check_connection E) (\<lambda>_.
     wrap_db
       (bind_act (pg_check_schema E schema) (\<lambda>known.
          if known then fetch_count E (''SELECT COUNT(*) FROM '' @ str_lower schema) else raise_act ObjectDoesNotExist)))"

text \<open>\<open>build_filter_params\<close>: the conditions and the parameters of all filters.\<close>

definition pg_condition :: "('db, 'st) sql_engine \<Rightarrow> string \<Rightarrow> pyval \<Rightarrow> exc_class + string list \<times> pyval list" where
  "pg_condition E key v =
     (case rsplit_key key of
        None \<Rightarrow> Inr ([key @ '' = %s''], [v])
      | Some (field, oper) \<Rightarrow>
          (if oper = ''contains'' then Inr ([field @ '' LIKE %s''], [PStr (''%'' @ sq_str E v @ ''%'')])
           else if oper = ''startswith'' then Inr ([field @ '' LIKE %s''], [PStr (sq_str E v @ ''%'')])
           else if oper = ''endswith'' then Inr ([field @ '' LIKE %s''], [PStr (''%'' @ sq_str E v)])
           else (case comparison oper of Some c \<Rightarrow> Inr ([field @ '' '' @ c @ '' %s''], [v]) | None \<Rightarrow> Inr ([], []))))"

definition build_filter_params :: "('db, 'st) sql_engine \<Rightarrow> (string, pyval) dict \<Rightarrow> exc_class + string list \<times> pyval list" where
  "build_filter_params E fs = conditions_of (pg_condition E) fs"

definition pg_filter_record ::
  "('db, 'st) sql_engine \<Rightarrow> ('r, 'st) sql_model \<Rightarrow> string \<Rightarrow> (string, pyval) dict \<Rightarrow> ('db, exc_class, 'r list) action" where
  "pg_filter_record E M schema fs =
     bind_act (check_connection E) (\<lambda>_.
     wrap_db
       (bind_act (pg_check_schema E schema) (\<lambda>known.
          if \<not> known then raise_act ObjectDoesNotExist
          else
            bind_act (lift_res (build_filter_params E fs)) (\<lambda>(cs, ps).
            bind_act (sq_exec E (''SELECT record_state FROM '' @ str_lower schema @ (if cs \<noteq> [] then '' WHERE '' @ str_join '' AND '' cs else [])) ps) (\<lambda>(rows, n).
            lift_res (load_rows (\<lambda>row. bind_res (column0 row) (sql_load_record E M)) rows))))))"

end
