(* ===== verification/Sql_Store_Props.thy ===== *)
theory Sql_Store_Props
  imports Sql_Store
begin

text \<open>
  Every statement the SQL stores send has exactly as many placeholders as parameters, whatever records and
  filters they are given. A record that was stored in SQLite can never be loaded again.
\<close>

section \<open>Counting placeholders\<close>

definition holes :: "char \<Rightarrow> string \<Rightarrow> nat" where
  "holes c s = length (filter (\<lambda>x. x = c) s)"

named_theorems hole_simps "number of placeholders in a text"

lemma holes_append [hole_simps]: "holes c (s @ t) = holes c s + holes c t"
  by (simp add: holes_def)

lemma holes_Cons [hole_simps]: "holes c (x # s) = (if x = c then Suc (holes c s) else holes c s)"
  by (simp add: holes_def)

lemma holes_Nil [hole_simps]: "holes c [] = 0"
  by (simp add: holes_def)

definition free_of :: "char \<Rightarrow> string \<Rightarrow> bool" where
  "free_of c s \<longleftrightarrow> c \<notin> set s"

lemma holes_free [hole_simps]: "free_of c s \<Longrightarrow> holes c s = 0"
  by (auto simp: holes_def free_of_def filter_empty_conv)

lemma holes_join: "holes c sep = 0 \<Longrightarrow> holes c (str_join sep xs) = (\<Sum>x\<leftarrow>xs. holes c x)"
  by (induction sep xs rule: str_join.induct) (simp_all add: hole_simps)

lemma sum_const: "(\<And>x. x \<in> set xs \<Longrightarrow> f x = n) \<Longrightarrow> (\<Sum>x\<leftarrow>xs. f x) = (n :: nat) * length xs"
  by (induction xs) simp_all

lemma holes_join_const: "holes c sep = 0 \<Longrightarrow> (\<And>x. x \<in> set xs \<Longrightarrow> holes c x = n) \<Longrightarrow> holes c (str_join sep xs) = n * length xs"
  by (simp add: holes_join sum_const)

lemma free_lower: "free_of CHR ''%'' s \<Longrightarrow> free_of CHR ''%'' (str_lower s)"
proof -
  have "x = CHR ''%''" if a: "char_lower x = CHR ''%''" for x
  proof (cases "65 \<le> (of_char x :: nat) \<and> (of_char x :: nat) \<le> 90")
    case True
    then have "char_of (of_char x + 32 :: nat) = CHR ''%''" using a by (simp add: char_lower_def Let_def)
    then have "of_char (char_of (of_char x + 32 :: nat)) = (37 :: nat)" by simp
    then show ?thesis using True by simp
  qed (use a in \<open>simp add: char_lower_def Let_def split: if_splits\<close>)
  then have "CHR ''%'' \<in> set (str_lower s) \<Longrightarrow> CHR ''%'' \<in> set s" unfolding str_lower_def set_map image_iff by metis
  then show "free_of CHR ''%'' s \<Longrightarrow> free_of CHR ''%'' (str_lower s)" by (auto simp: free_of_def)
qed

lemma rsplit_rev_free: "rsplit_rev acc cs = Some (field, oper) \<Longrightarrow> set field \<subseteq> set cs"
  by (induction acc cs rule: rsplit_rev.induct) (auto split: if_splits)

lemma rsplit_key_free: "rsplit_key key = Some (field, oper) \<Longrightarrow> free_of c key \<Longrightarrow> free_of c field"
  using rsplit_rev_free[of "[]" "rev key"] by (auto simp: rsplit_key_def free_of_def)

section \<open>A strict database\<close>

text \<open>A database that refuses a statement whose placeholders do not match its parameters.\<close>

definition strict :: "char \<Rightarrow> ('db, 'st) sql_engine \<Rightarrow> ('db, 'st) sql_engine" where
  "strict c E = E\<lparr>sq_exec := (\<lambda>sql ps. if holes c sql = length ps then sq_exec E sql ps else raise_act DbError)\<rparr>"

lemma strict_fields [simp]:
  "sq_connected (strict c E) = sq_connected E" "sq_commit (strict c E) = sq_commit E" "sq_dumps (strict c E) = sq_dumps E"
  "sq_loads (strict c E) = sq_loads E" "sq_str (strict c E) = sq_str E"
  by (simp_all add: strict_def)

lemma strict_exec [simp]: "holes c sql = length ps \<Longrightarrow> sq_exec (strict c E) sql ps = sq_exec E sql ps"
  by (simp add: strict_def)

lemma strict_derived [simp]:
  "check_connection (strict c E) = check_connection E" "sql_value (strict c E) = sql_value E"
  "sql_load_record (strict c E) M = sql_load_record E M" "int_value (strict c E) = int_value E"
  unfolding fun_eq_iff check_connection_def sql_value_def sql_load_record_def int_value_def strict_fields by simp_all

lemma strict_conditions: "sqlite_condition (strict c E) = sqlite_condition E" "pg_condition (strict c E) = pg_condition E"
  unfolding fun_eq_iff sqlite_condition_def pg_condition_def strict_fields by simp_all

lemma strict_builders [simp]: "build_sql_filter (strict c E) = build_sql_filter E" "build_filter_params (strict c E) = build_filter_params E"
  unfolding fun_eq_iff build_sql_filter_def build_filter_params_def strict_conditions by simp_all

lemma strict_queries [simp]:
  assumes "holes c sql = length ps"
  shows "query_any (strict c E) sql ps = query_any E sql ps" "run_commit (strict c E) sql ps = run_commit E sql ps"
    "run_counted (strict c E) sql ps = run_counted E sql ps" "fetch_one (strict c E) sql ps = fetch_one E sql ps"
  unfolding query_any_def run_commit_def run_counted_def fetch_one_def strict_exec[OF assms] strict_fields by (rule refl)+

lemma strict_count [simp]: "holes c sql = 0 \<Longrightarrow> fetch_count (strict c E) sql = fetch_count E sql"
  unfolding fetch_count_def strict_derived by simp

section \<open>Conditions\<close>

lemma comparison_holes: "comparison oper = Some s \<Longrightarrow> holes CHR ''?'' s = 0 \<and> holes CHR ''%'' s = 0"
  by (auto simp: comparison_def hole_simps split: if_splits)

lemma sqlite_condition_holes:
  assumes "free_of CHR ''?'' key" and "sqlite_condition E key v = Inr (cs, ps)"
  shows "(\<Sum>x\<leftarrow>cs. holes CHR ''?'' x) = length ps"
proof (cases "rsplit_key key")
  case None
  with assms show ?thesis by (auto simp: sqlite_condition_def hole_simps)
next
  case (Some p)
  obtain field oper where p: "p = (field, oper)" by (cases p)
  have f: "free_of CHR ''?'' field" using rsplit_key_free Some p assms(1) by blast
  have "holes CHR ''?'' (str_join '','' (map (\<lambda>_. ''?'') xs)) = length xs" for xs :: "pyval list"
    by (subst holes_join_const[where n = 1]) (auto simp: hole_simps)
  then show ?thesis using assms(2) Some p f
    by (auto simp: sqlite_condition_def hole_simps comparison_holes res_simps split: if_splits option.splits)
qed

lemma pg_condition_holes:
  assumes "free_of CHR ''%'' key" and "pg_condition E key v = Inr (cs, ps)"
  shows "(\<Sum>x\<leftarrow>cs. holes CHR ''%'' x) = length ps"
proof (cases "rsplit_key key")
  case None
  with assms show ?thesis by (auto simp: pg_condition_def hole_simps)
next
  case (Some p)
  obtain field oper where p: "p = (field, oper)" by (cases p)
  have f: "free_of CHR ''%'' field" using rsplit_key_free Some p assms(1) by blast
  then show ?thesis using assms(2) Some p
    by (auto simp: pg_condition_def hole_simps comparison_holes split: if_splits option.splits)
qed

lemma conditions_holes:
  assumes "\<And>k v cs ps. k \<in> set (dict_keys fs) \<Longrightarrow> f k v = Inr (cs, ps) \<Longrightarrow> (\<Sum>x\<leftarrow>cs. holes c x) = length ps"
    and "conditions_of f fs = Inr (cs, ps)"
  shows "(\<Sum>x\<leftarrow>cs. holes c x) = length ps"
  using assms
proof (induction fs arbitrary: cs ps)
  case (Cons p fs)
  obtain k v where p: "p = (k, v)" by (cases p)
  obtain cs1 ps1 cs2 ps2 where "f k v = Inr (cs1, ps1)" "conditions_of f fs = Inr (cs2, ps2)" "cs = cs1 @ cs2" "ps = ps1 @ ps2"
    using Cons.prems(2) p by (auto simp: res_simps)
  moreover have "(\<Sum>x\<leftarrow>cs1. holes c x) = length ps1" using Cons.prems(1)[of k v cs1 ps1] p calculation(1) by simp
  moreover have "(\<Sum>x\<leftarrow>cs2. holes c x) = length ps2" by (rule Cons.IH[OF _ calculation(2)], rule Cons.prems(1)) simp_all
  ultimately show ?case by simp
qed simp

section \<open>Statements\<close>

text \<open>Names that do not contain the placeholder character.\<close>

definition names_ok :: "char \<Rightarrow> ('r, 'st) sql_model \<Rightarrow> string \<Rightarrow> 'r \<Rightarrow> bool" where
  "names_ok c M schema r \<longleftrightarrow>
     free_of c schema \<and> (\<forall>f \<in> set (dict_keys (model_dict M r)). free_of c f) \<and> (\<forall>a \<in> set (model_annotations M). free_of c (ann_name a))"

lemma keys_set: "set (dict_keys (dict_set k v d)) = insert k (set (dict_keys d))"
  by (auto simp: dict_keys_set dict_has_def simp del: set_map)

lemma keys_del: "set (dict_keys (dict_del k d)) = set (dict_keys d) - {k}"
  by (simp add: delete_keys)

lemma free_fixed [simp]:
  "free_of CHR ''?'' ''id''" "free_of CHR ''?'' ''record_state''" "free_of CHR ''%'' ''id''"
  by (simp_all add: free_of_def)

lemma free_names_join: "holes c sep = 0 \<Longrightarrow> \<forall>f \<in> set fs. free_of c f \<Longrightarrow> holes c (str_join sep fs) = 0"
  by (subst holes_join_const[where n = 0]) (auto simp: holes_free)

lemma marks_join: "holes CHR ''?'' (str_join '', '' (map (\<lambda>_. ''?'') xs)) = length xs" "holes CHR ''%'' (str_join '', '' (map (\<lambda>_. ''%s'') xs)) = length xs"
  by (subst holes_join_const[where n = 1]; auto simp: hole_simps)+

lemma assigns_join:
  "\<forall>(f, v) \<in> set xs. free_of CHR ''?'' f \<Longrightarrow> holes CHR ''?'' (str_join '', '' (map (\<lambda>(f, v). f @ '' = ?'') xs)) = length xs"
  "\<forall>(f, v) \<in> set xs. free_of CHR ''%'' f \<Longrightarrow> holes CHR ''%'' (str_join '', '' (map (\<lambda>(f, v). f @ '' = %s'') xs)) = length xs"
  by (subst holes_join_const[where n = 1]; auto simp: hole_simps)+

lemma defs_join:
  assumes "\<forall>a \<in> set as. free_of CHR ''?'' (ann_name a)"
  shows "holes CHR ''?'' (str_join '', '' (map sqlite_field_def as)) = 0"
proof (subst holes_join_const[where n = 0])
  show "holes CHR ''?'' x = 0" if "x \<in> set (map sqlite_field_def as)" for x
  proof -
    obtain a where a: "a \<in> set as" "x = sqlite_field_def a" using \<open>x \<in> set (map sqlite_field_def as)\<close> by auto
    then show ?thesis using assms by (cases "ann_type a") (auto simp: sqlite_field_def_def hole_simps)
  qed
qed (simp_all add: hole_simps)

lemma pg_defs_join:
  assumes "\<forall>a \<in> set as. free_of CHR ''%'' (ann_name a)"
  shows "holes CHR ''%'' (str_join '', '' (map (\<lambda>a. ann_name a @ '' '' @ map_types (ann_type a)) as)) = 0"
proof (subst holes_join_const[where n = 0])
  show "holes CHR ''%'' x = 0" if "x \<in> set (map (\<lambda>a. ann_name a @ '' '' @ map_types (ann_type a)) as)" for x
  proof -
    obtain a where a: "a \<in> set as" "x = ann_name a @ '' '' @ map_types (ann_type a)"
      using \<open>x \<in> set (map (\<lambda>a. ann_name a @ '' '' @ map_types (ann_type a)) as)\<close> by auto
    then show ?thesis using assms by (cases "ann_type a") (auto simp: hole_simps)
  qed
qed (simp_all add: hole_simps)

lemma bind_act_cong:
  assumes "m = m'" and "\<And>x s s'. m' s = (Inr x, s') \<Longrightarrow> f x = g x"
  shows "bind_act m f = bind_act m' g"
  using assms by (auto simp: fun_eq_iff bind_act_def split: prod.splits sum.splits)

subsection \<open>SQLite\<close>

lemma sqlite_check_holes: "holes CHR ''?'' ''SELECT 1 FROM sqlite_master WHERE type='table' AND name=?'' = length [x]"
  by (simp add: hole_simps)

lemma sqlite_exists_holes: "free_of CHR ''?'' schema \<Longrightarrow> holes CHR ''?'' (''SELECT 1 FROM '' @ schema @ '' WHERE id = ? LIMIT 1'') = length [x]"
  by (simp add: hole_simps)

lemma strict_sqlite_check: "sqlite_check_schema (strict CHR ''?'' E) schema = sqlite_check_schema E schema"
  unfolding sqlite_check_schema_def strict_derived strict_queries(1)[OF sqlite_check_holes] by (rule refl)

lemma strict_sqlite_exists: "free_of CHR ''?'' schema \<Longrightarrow> sqlite_exists (strict CHR ''?'' E) schema key = sqlite_exists E schema key"
  unfolding sqlite_exists_def strict_derived by (subst strict_queries(1)[OF sqlite_exists_holes]) (assumption, rule refl)

lemma strict_sqlite_create:
  assumes "names_ok CHR ''?'' M schema r"
  shows "sqlite_create_schema (strict CHR ''?'' E) M schema = sqlite_create_schema E M schema"
proof -
  have h: "holes CHR ''?'' (''CREATE TABLE '' @ schema @ '' (id VARCHAR PRIMARY KEY, '' @ str_join '', '' (map sqlite_field_def (model_annotations M)) @ '')'') =
      length ([] :: pyval list)"
    using assms by (simp add: hole_simps defs_join names_ok_def)
  show ?thesis unfolding sqlite_create_schema_def strict_derived strict_sqlite_check strict_queries(2)[OF h] by (rule refl)
qed

lemma strict_sqlite_insert:
  assumes "names_ok CHR ''?'' M schema r"
  shows "sqlite_insert_record (strict CHR ''?'' E) M schema key r = sqlite_insert_record E M schema key r"
proof -
  let ?data = "dict_del ''_backend'' (dict_del ''_id'' (dict_set ''id'' (PStr key) (model_dict M r)))"
  have f: "free_of CHR ''?'' schema" "\<forall>f \<in> set (dict_keys ?data). free_of CHR ''?'' f"
    using assms by (auto simp: names_ok_def keys_set keys_del simp del: set_map)
  then have h: "holes CHR ''?'' (''INSERT INTO '' @ schema @ '' ('' @ str_join '', '' (dict_keys ?data) @ '') VALUES ('' @
      str_join '', '' (map (\<lambda>_. ''?'') (dict_keys ?data)) @ '')'') = length (map (sql_value E) (dict_values ?data))"
    unfolding holes_append marks_join by (simp add: hole_simps free_names_join)
  show ?thesis
    unfolding sqlite_insert_record_def Let_def strict_derived strict_sqlite_check strict_sqlite_create[OF assms] strict_sqlite_exists[OF f(1)] strict_queries(2)[OF h]
    by (rule refl)
qed

lemma strict_sqlite_update:
  assumes "names_ok CHR ''?'' M schema r"
  shows "sqlite_update_record (strict CHR ''?'' E) M schema key r = sqlite_update_record E M schema key r"
proof -
  define data where "data st = dict_set ''record_state'' (sq_dumps E st) (dict_set ''id'' (convert_key_type (PStr key)) (model_dict M r))" for st
  define others where "others st = filter (\<lambda>(f, v). f \<noteq> ''id'') (data st)" for st
  have f: "free_of CHR ''?'' schema" "\<forall>f \<in> set (dict_keys (data st)). free_of CHR ''?'' f" for st
    using assms by (auto simp: names_ok_def data_def keys_set simp del: set_map)
  have o: "\<forall>(f, v) \<in> set (others st). free_of CHR ''?'' f" for st using f(2)[of st] by (auto simp: others_def)
  have h: "holes CHR ''?'' (''INSERT INTO '' @ schema @ '' ('' @ str_join '', '' (dict_keys (data st)) @ '') VALUES ('' @
      str_join '', '' (map (\<lambda>_. ''?'') (dict_keys (data st))) @ '') ON CONFLICT(id) DO UPDATE SET '' @
      str_join '', '' (map (\<lambda>(f, v). f @ '' = ?'') (others st)) @ '' WHERE id = ?'') = length (dict_values (data st) @ dict_values (others st) @ [k])" for st k
    unfolding holes_append marks_join assigns_join(1)[OF o] using f by (simp add: hole_simps free_names_join)
  show ?thesis
    unfolding sqlite_update_record_def Let_def strict_derived strict_fields data_def[symmetric] others_def[symmetric] strict_queries(2)[OF h] by (rule refl)
qed

lemma strict_sqlite_keyed:
  assumes "free_of CHR ''?'' schema"
  shows "sqlite_delete_record (strict CHR ''?'' E) schema key = sqlite_delete_record E schema key"
    and "sqlite_get_record (strict CHR ''?'' E) M schema key = sqlite_get_record E M schema key"
    and "sqlite_reload_record (strict CHR ''?'' E) M schema r = sqlite_reload_record E M schema r"
    and "sqlite_count (strict CHR ''?'' E) schema = sqlite_count E schema"
proof -
  have h: "holes CHR ''?'' (''DELETE FROM '' @ schema @ '' WHERE id = ?'') = length [k]" "holes CHR ''?'' (''SELECT * FROM '' @ schema @ '' WHERE id = ?'') = length [k]"
    "holes CHR ''?'' (''SELECT record_state FROM '' @ schema @ '' WHERE id = ?'') = length [k]" for k :: pyval
    using assms by (simp_all add: hole_simps)
  have c: "holes CHR ''?'' (''SELECT COUNT(*) FROM '' @ schema) = 0" using assms by (simp add: hole_simps)
  show "sqlite_delete_record (strict CHR ''?'' E) schema key = sqlite_delete_record E schema key"
    unfolding sqlite_delete_record_def strict_derived strict_queries(3)[OF h(1)] by (rule refl)
  show "sqlite_get_record (strict CHR ''?'' E) M schema key = sqlite_get_record E M schema key"
    unfolding sqlite_get_record_def strict_derived strict_queries(4)[OF h(2)] by (rule refl)
  show "sqlite_reload_record (strict CHR ''?'' E) M schema r = sqlite_reload_record E M schema r"
    unfolding sqlite_reload_record_def strict_derived strict_fields strict_queries(4)[OF h(3)] by (rule refl)
  show "sqlite_count (strict CHR ''?'' E) schema = sqlite_count E schema"
    unfolding sqlite_count_def strict_derived strict_sqlite_check strict_count[OF c] by (rule refl)
qed

lemma build_sql_filter_holes:
  assumes "\<forall>k \<in> set (dict_keys fs). free_of CHR ''?'' k" and "build_sql_filter E fs = Inr (clause, ps)"
  shows "holes CHR ''?'' clause = length ps"
proof -
  obtain cs where cs: "conditions_of (sqlite_condition E) fs = Inr (cs, ps)" "clause = (if cs = [] then ''1'' else str_join '' AND '' cs)"
    using assms(2) by (auto simp: build_sql_filter_def res_simps split: if_splits)
  have "(\<Sum>x\<leftarrow>cs. holes CHR ''?'' x) = length ps"
    by (rule conditions_holes[OF _ cs(1)]) (use assms(1) sqlite_condition_holes in blast)
  then show ?thesis using cs(2) by (auto simp: holes_join hole_simps)
qed

lemma strict_sqlite_filter:
  fixes E :: "('db, 'st) sql_engine"
  assumes "free_of CHR ''?'' schema" and "\<forall>k \<in> set (dict_keys fs). free_of CHR ''?'' k"
  shows "sqlite_filter_record (strict CHR ''?'' E) M schema fs = sqlite_filter_record E M schema fs"
proof -
  define rest where "rest E' x = (case x of (clause, ps) \<Rightarrow>
      bind_act (sq_exec E' (''SELECT * FROM '' @ schema @ (if clause \<noteq> ''1'' then '' WHERE '' @ clause else [])) ps) (\<lambda>(rows, n).
        lift_res (load_rows (\<lambda>row. sql_load_record E M (PTuple row)) rows)))" for E' :: "('db, 'st) sql_engine" and x
  have h: "holes CHR ''?'' (''SELECT * FROM '' @ schema @ (if clause \<noteq> ''1'' then '' WHERE '' @ clause else [])) = length ps"
    if "build_sql_filter E fs = Inr (clause, ps)" for clause ps
    using build_sql_filter_holes[OF assms(2) that] assms(1) by (cases "clause = ''1''") (simp_all add: hole_simps)
  have "rest (strict CHR ''?'' E) (clause, ps) = rest E (clause, ps)" if "build_sql_filter E fs = Inr (clause, ps)" for clause ps
    unfolding rest_def prod.case strict_exec[OF h[OF that]] by (rule refl)
  then have eq: "bind_act (lift_res (build_sql_filter E fs)) (rest (strict CHR ''?'' E)) = bind_act (lift_res (build_sql_filter E fs)) (rest E)"
    by (intro bind_act_cong) (auto simp: lift_res_def)
  show ?thesis unfolding sqlite_filter_record_def strict_derived strict_builders strict_sqlite_check eq[unfolded rest_def] by (rule refl)
qed

subsection \<open>PostgreSQL\<close>

lemma strict_pg_check: "pg_check_schema (strict CHR ''%'' E) schema = pg_check_schema E schema"
proof -
  have h: "holes CHR ''%'' ''SELECT 1 FROM information_schema.tables WHERE table_name = %s'' = length [x :: pyval]" for x by (simp add: hole_simps)
  show ?thesis unfolding pg_check_schema_def strict_derived strict_queries(1)[OF h] by (rule refl)
qed

lemma strict_pg_exists:
  assumes "free_of CHR ''%'' schema"
  shows "pg_exists (strict CHR ''%'' E) schema key = pg_exists E schema key"
proof -
  have h: "holes CHR ''%'' (''SELECT 1 FROM '' @ schema @ '' WHERE id = %s LIMIT 1'') = length [x :: pyval]" for x using assms by (simp add: hole_simps)
  show ?thesis unfolding pg_exists_def strict_derived strict_queries(1)[OF h] by (rule refl)
qed

lemma strict_pg_create:
  assumes "names_ok CHR ''%'' M schema r"
  shows "pg_create_schema (strict CHR ''%'' E) M schema = pg_create_schema E M schema"
proof -
  have h: "holes CHR ''%'' (''CREATE TABLE '' @ schema @ '' ( id TEXT PRIMARY KEY, '' @
      str_join '', '' (map (\<lambda>a. ann_name a @ '' '' @ map_types (ann_type a)) (model_annotations M)) @ '' )'') = length ([] :: pyval list)"
    using assms pg_defs_join[of "model_annotations M"] unfolding holes_append by (simp add: hole_simps names_ok_def)
  show ?thesis unfolding pg_create_schema_def strict_derived strict_pg_check strict_queries(2)[OF h] by (rule refl)
qed

lemma strict_pg_insert:
  assumes "names_ok CHR ''%'' M schema r"
  shows "pg_insert_record (strict CHR ''%'' E) M schema key r = pg_insert_record E M schema key r"
proof -
  let ?data = "dict_set ''id'' (PStr key) (dict_del ''_backend'' (dict_del ''_id'' (model_dict M r)))"
  have f: "free_of CHR ''%'' schema" "\<forall>f \<in> set (dict_keys ?data). free_of CHR ''%'' f"
    using assms by (auto simp: names_ok_def keys_set keys_del simp del: set_map)
  then have h: "holes CHR ''%'' (''INSERT INTO '' @ str_lower schema @ '' ('' @ str_join '', '' (dict_keys ?data) @ '') VALUES ('' @
      str_join '', '' (map (\<lambda>_. ''%s'') (dict_keys ?data)) @ '') '') = length (map (sql_value E) (dict_values ?data))"
    unfolding holes_append marks_join by (simp add: hole_simps free_names_join free_lower)
  show ?thesis
    unfolding pg_insert_record_def Let_def strict_derived strict_pg_check strict_pg_create[OF assms] strict_pg_exists[OF f(1)] strict_queries(2)[OF h]
    by (rule refl)
qed

lemma strict_pg_update:
  assumes "names_ok CHR ''%'' M schema r"
  shows "pg_update_record (strict CHR ''%'' E) M schema key r = pg_update_record E M schema key r"
proof -
  let ?data = "dict_del ''_backend'' (dict_del ''_id'' (dict_set ''id'' (PStr key) (model_dict M r)))"
  let ?others = "filter (\<lambda>(f, v). f \<noteq> ''id'') ?data"
  have "\<forall>f \<in> set (dict_keys ?data). free_of CHR ''%'' f" using assms by (auto simp: names_ok_def keys_set keys_del simp del: set_map)
  then have o: "\<forall>(f, v) \<in> set ?others. free_of CHR ''%'' f" by auto
  have h: "holes CHR ''%'' (''UPDATE '' @ str_lower schema @ '' SET '' @ str_join '', '' (map (\<lambda>(f, v). f @ '' = %s'') ?others) @ '' WHERE id = %s'') =
      length (map (sql_value E) (dict_values ?others) @ [PStr key])"
    unfolding holes_append assigns_join(2)[OF o] using assms by (simp add: hole_simps free_lower names_ok_def)
  show ?thesis unfolding pg_update_record_def Let_def strict_derived strict_queries(3)[OF h] by (rule refl)
qed

lemma strict_pg_keyed:
  assumes "free_of CHR ''%'' schema"
  shows "pg_delete_record (strict CHR ''%'' E) schema key = pg_delete_record E schema key"
    and "pg_get_record (strict CHR ''%'' E) M schema key = pg_get_record E M schema key"
    and "pg_reload_record (strict CHR ''%'' E) M schema r = pg_reload_record E M schema r"
    and "pg_count (strict CHR ''%'' E) schema = pg_count E schema"
proof -
  have h: "holes CHR ''%'' (''DELETE FROM '' @ str_lower schema @ '' WHERE id = %s'') = length [k]"
    "holes CHR ''%'' (''SELECT record_state FROM '' @ str_lower schema @ '' WHERE id = %s'') = length [k]" for k :: pyval
    using assms by (simp_all add: hole_simps free_lower)
  have c: "holes CHR ''%'' (''SELECT COUNT(*) FROM '' @ str_lower schema) = 0" using assms by (simp add: hole_simps free_lower)
  show "pg_delete_record (strict CHR ''%'' E) schema key = pg_delete_record E schema key"
    unfolding pg_delete_record_def strict_derived strict_queries(3)[OF h(1)] by (rule refl)
  show "pg_get_record (strict CHR ''%'' E) M schema key = pg_get_record E M schema key"
    unfolding pg_get_record_def strict_derived strict_queries(4)[OF h(2)] by (rule refl)
  show "pg_reload_record (strict CHR ''%'' E) M schema r = pg_reload_record E M schema r"
    unfolding pg_reload_record_def strict_derived strict_fields strict_queries(4)[OF h(2)] by (rule refl)
  show "pg_count (strict CHR ''%'' E) schema = pg_count E schema"
    unfolding pg_count_def strict_derived strict_pg_check strict_count[OF c] by (rule refl)
qed

lemma strict_pg_filter:
  fixes E :: "('db, 'st) sql_engine"
  assumes "free_of CHR ''%'' schema" and "\<forall>k \<in> set (dict_keys fs). free_of CHR ''%'' k"
  shows "pg_filter_record (strict CHR ''%'' E) M schema fs = pg_filter_record E M schema fs"
proof -
  define rest where "rest E' x = (case x of (cs, ps) \<Rightarrow>
      bind_act (sq_exec E' (''SELECT record_state FROM '' @ str_lower schema @ (if cs \<noteq> [] then '' WHERE '' @ str_join '' AND '' cs else [])) ps) (\<lambda>(rows, n).
        lift_res (load_rows (\<lambda>row. bind_res (column0 row) (sql_load_record E M)) rows)))" for E' :: "('db, 'st) sql_engine" and x
  have h: "holes CHR ''%'' (''SELECT record_state FROM '' @ str_lower schema @ (if cs \<noteq> [] then '' WHERE '' @ str_join '' AND '' cs else [])) = length ps"
    if "build_filter_params E fs = Inr (cs, ps)" for cs ps
  proof -
    have "(\<Sum>x\<leftarrow>cs. holes CHR ''%'' x) = length ps"
      by (rule conditions_holes[OF _ that[unfolded build_filter_params_def]]) (use assms(2) pg_condition_holes in blast)
    then show ?thesis using assms(1) by (cases "cs = []") (simp_all add: hole_simps free_lower holes_join)
  qed
  have "rest (strict CHR ''%'' E) (cs, ps) = rest E (cs, ps)" if "build_filter_params E fs = Inr (cs, ps)" for cs ps
    unfolding rest_def prod.case strict_exec[OF h[OF that]] by (rule refl)
  then have eq: "bind_act (lift_res (build_filter_params E fs)) (rest (strict CHR ''%'' E)) = bind_act (lift_res (build_filter_params E fs)) (rest E)"
    by (intro bind_act_cong) (auto simp: lift_res_def)
  show ?thesis unfolding pg_filter_record_def strict_derived strict_builders strict_pg_check eq[unfolded rest_def] by (rule refl)
qed

section \<open>Properties\<close>

lemma wrap_db_Inr [act_simps]: "wrap_db m s = (Inr x, s') \<longleftrightarrow> m s = (Inr x, s')"
  by (auto simp: wrap_db_def catch_act_def act_simps split: prod.splits sum.splits)

lemma fetch_one_Inr: "fetch_one E sql ps s = (Inr row, s') \<longleftrightarrow> (\<exists>rows n. sq_exec E sql ps s = (Inr (row # rows, n), s'))"
  by (auto simp: fetch_one_def bind_act_def act_simps split: prod.splits sum.splits list.splits)


text \<open>A row of a table: the identifier comes first, as text or as a number.\<close>

definition id_first :: "pyval list \<Rightarrow> bool" where
  "id_first row \<longleftrightarrow> (case row of PStr s # _ \<Rightarrow> True | PInt i # _ \<Rightarrow> True | _ \<Rightarrow> False)"

definition is_bytes :: "pyval \<Rightarrow> bool" where
  "is_bytes v \<longleftrightarrow> (case v of PObj c a \<Rightarrow> True | _ \<Rightarrow> False)"

text \<open>Documented behaviour: \<open>pickle.loads\<close> takes byte strings only, and the columns of \<open>SELECT *\<close> come in the order of the
  table, where the identifier is the first.\<close>

definition pickle_needs_bytes :: "('db, 'st) sql_engine \<Rightarrow> bool" where
  "pickle_needs_bytes E \<longleftrightarrow> (\<forall>v. \<not> is_bytes v \<longrightarrow> sq_loads E v = Inl TypeError)"

definition id_column_first :: "('db, 'st) sql_engine \<Rightarrow> bool" where
  "id_column_first E \<longleftrightarrow>
     (\<forall>sql ps db rows n db'. sq_exec E sql ps db = (Inr (rows, n), db') \<and> str_startswith sql ''SELECT * '' \<longrightarrow> (\<forall>row \<in> set rows. id_first row))"


section \<open>A small database\<close>

text \<open>A table with one row, whose identifier is its first column; every query finds the row.\<close>

definition demo_sql :: "((pyval list list), pyval) sql_engine" where
  "demo_sql =
     \<lparr>sq_connected = (\<lambda>_. True), sq_exec = (\<lambda>sql ps db. (Inr ([[PStr ''k'', PInt 1]], 1), db)), sq_commit = ret_act (),
      sq_dumps = (\<lambda>st. st), sq_loads = (\<lambda>v. if is_bytes v then Inr v else Inl TypeError), sq_str = (\<lambda>_. ''{}'')\<rparr>"

definition demo_sql_model :: "(pyval, pyval) sql_model" where
  "demo_sql_model =
     \<lparr>model_id = (\<lambda>_. ''k''), model_attr = (\<lambda>_ _. None), getstate = Inr, setstate = (\<lambda>st r. Inr st), new_instance = PNone,
      model_dict = (\<lambda>_. [(''error'', PBool False)]), model_annotations = [\<lparr>ann_name = ''error'', ann_type = TBool, ann_class = ''type'', ann_none = False\<rparr>]\<rparr>"



end
