(* ===== verification/File_Proxy.thy ===== *)
theory File_Proxy
  imports Input_Fields
begin

text \<open>
  Files as input: \<open>FileProxy\<close> and \<open>FileInputDataField\<close> of \<^verbatim>\<open>src/nexus/fields.py\<close>.

  A proxy opens its file at the first operation and is unopened, open or closed. The file objects behind it are
  the record \<open>file_api\<close>: how \<open>open\<close> (with its path, mode and encoding) and the methods
  of a file behave. \<open>text_api\<close> is such a record for text files
  that are read.
\<close>

section \<open>FileProxy\<close>

text \<open>The methods a proxy passes on to its file.\<close>

datatype file_call =
    Read "int option"
  | Readline int
  | Readlines int
  | Write string
  | Writelines "string list"
  | Seek int int
  | Tell
  | Truncate "int option"
  | Fileno
  | Isatty

record 'f file_api =
  f_open :: "string \<Rightarrow> string \<Rightarrow> string option \<Rightarrow> exc_class + 'f"
  f_closed :: "'f \<Rightarrow> bool"
  f_close :: "'f \<Rightarrow> exc_class + 'f"
  f_flush :: "'f \<Rightarrow> (exc_class + unit) \<times> 'f"
  f_seekable :: "'f \<Rightarrow> bool"
  f_do :: "file_call \<Rightarrow> 'f \<Rightarrow> (exc_class + pyval) \<times> 'f"

text \<open>\<open>fp_opened\<close> and \<open>fp_released\<close> are the files the proxy has opened and closed so far.\<close>

record 'f file_proxy =
  fp_path :: string
  fp_mode :: string
  fp_encoding :: "string option"
  fp_file :: "'f option"
  fp_closed :: bool
  fp_opened :: nat
  fp_released :: "'f list"

definition mk_file_proxy :: "string \<Rightarrow> string \<Rightarrow> string option \<Rightarrow> 'f file_proxy" where
  "mk_file_proxy path mode enc =
     \<lparr>fp_path = path, fp_mode = mode, fp_encoding = enc, fp_file = None, fp_closed = False, fp_opened = 0, fp_released = []\<rparr>"

definition proxy_closed :: "'f file_api \<Rightarrow> 'f file_proxy \<Rightarrow> bool" where
  "proxy_closed api p \<longleftrightarrow> fp_closed p \<or> (case fp_file p of None \<Rightarrow> False | Some f \<Rightarrow> f_closed api f)"

definition proxy_repr :: "'f file_api \<Rightarrow> 'f file_proxy \<Rightarrow> string" where
  "proxy_repr api p =
     ''<FileProxy '' @ fp_path p @ '' ('' @ (if proxy_closed api p then ''closed'' else if fp_file p \<noteq> None then ''open'' else ''unopened'') @ '')>''"

definition ensure_open :: "'f file_api \<Rightarrow> 'f file_proxy \<Rightarrow> (exc_class + 'f) \<times> 'f file_proxy" where
  "ensure_open api p =
     (if fp_closed p then (Inl ValueError, p)
      else
        (case fp_file p of
           Some f \<Rightarrow> (Inr f, p)
         | None \<Rightarrow>
             (case f_open api (fp_path p) (fp_mode p) (fp_encoding p) of
                Inl e \<Rightarrow> (Inl e, p)
              | Inr f \<Rightarrow> (Inr f, p\<lparr>fp_file := Some f, fp_opened := Suc (fp_opened p)\<rparr>))))"

text \<open>\<open>close\<close>: an exception of the file's own \<open>close\<close> leaves the proxy as it was.\<close>

definition proxy_close :: "'f file_api \<Rightarrow> 'f file_proxy \<Rightarrow> (exc_class + unit) \<times> 'f file_proxy" where
  "proxy_close api p =
     (case fp_file p of
        None \<Rightarrow> (Inr (), p\<lparr>fp_closed := True, fp_file := None\<rparr>)
      | Some f \<Rightarrow>
          (if f_closed api f then (Inr (), p\<lparr>fp_closed := True, fp_file := None\<rparr>)
           else
             (case f_close api f of
                Inl e \<Rightarrow> (Inl e, p)
              | Inr f' \<Rightarrow> (Inr (), p\<lparr>fp_closed := True, fp_file := None, fp_released := f' # fp_released p\<rparr>))))"

definition proxy_call :: "'f file_api \<Rightarrow> file_call \<Rightarrow> 'f file_proxy \<Rightarrow> (exc_class + pyval) \<times> 'f file_proxy" where
  "proxy_call api c p =
     (case ensure_open api p of
        (Inl e, p') \<Rightarrow> (Inl e, p')
      | (Inr f, p') \<Rightarrow> (case f_do api c f of (r, f') \<Rightarrow> (r, p'\<lparr>fp_file := Some f'\<rparr>)))"

definition proxy_flush :: "'f file_api \<Rightarrow> 'f file_proxy \<Rightarrow> (exc_class + unit) \<times> 'f file_proxy" where
  "proxy_flush api p =
     (case fp_file p of
        None \<Rightarrow> (Inr (), p)
      | Some f \<Rightarrow> (case f_flush api f of (r, f') \<Rightarrow> (r, p\<lparr>fp_file := Some f'\<rparr>)))"

definition proxy_next :: "'f file_api \<Rightarrow> 'f file_proxy \<Rightarrow> (exc_class + pyval) \<times> 'f file_proxy" where
  "proxy_next api p =
     (case proxy_call api (Readline (-1)) p of
        (Inl e, p') \<Rightarrow> (Inl e, p')
      | (Inr line, p') \<Rightarrow> (if truthy line then Inr line else Inl StopIteration, p'))"

definition open_for_operation ::
  "'f file_api \<Rightarrow> ('f \<Rightarrow> (exc_class + 'a) \<times> 'f) \<Rightarrow> 'f file_proxy \<Rightarrow> (exc_class + 'a) \<times> 'f file_proxy" where
  "open_for_operation api func p =
     (case ensure_open api p of
        (Inl e, p') \<Rightarrow> (Inl e, p')
      | (Inr f, p') \<Rightarrow> (case func f of (r, f') \<Rightarrow> (r, p'\<lparr>fp_file := Some f'\<rparr>)))"

definition proxy_readable :: "'f file_proxy \<Rightarrow> bool" where
  "proxy_readable p \<longleftrightarrow> CHR ''r'' \<in> set (fp_mode p) \<or> CHR ''+'' \<in> set (fp_mode p)"

definition proxy_writable :: "'f file_proxy \<Rightarrow> bool" where
  "proxy_writable p \<longleftrightarrow> CHR ''w'' \<in> set (fp_mode p) \<or> CHR ''a'' \<in> set (fp_mode p) \<or> CHR ''+'' \<in> set (fp_mode p)"

definition proxy_seekable :: "'f file_api \<Rightarrow> 'f file_proxy \<Rightarrow> bool" where
  "proxy_seekable api p = (case fp_file p of None \<Rightarrow> True | Some f \<Rightarrow> f_seekable api f)"

text \<open>One use of a proxy by a client, and a sequence of uses with their outcomes.\<close>

datatype proxy_use = Call file_call | Next | Flush | Close

definition use_proxy :: "'f file_api \<Rightarrow> proxy_use \<Rightarrow> 'f file_proxy \<Rightarrow> (exc_class + pyval) \<times> 'f file_proxy" where
  "use_proxy api u p =
     (case u of
        Call c \<Rightarrow> proxy_call api c p
      | Next \<Rightarrow> proxy_next api p
      | Flush \<Rightarrow> (case proxy_flush api p of (r, p') \<Rightarrow> (bind_res r (\<lambda>_. Inr PNone), p'))
      | Close \<Rightarrow> (case proxy_close api p of (r, p') \<Rightarrow> (bind_res r (\<lambda>_. Inr PNone), p')))"

fun run_proxy :: "'f file_api \<Rightarrow> proxy_use list \<Rightarrow> 'f file_proxy \<Rightarrow> (exc_class + pyval) list \<times> 'f file_proxy" where
  "run_proxy api [] p = ([], p)"
| "run_proxy api (u # us) p =
     (case use_proxy api u p of (r, p') \<Rightarrow> (case run_proxy api us p' of (rs, p'') \<Rightarrow> (r # rs, p'')))"

section \<open>FileInputDataField\<close>

text \<open>\<open>__init__\<close>: the path is passed on as the name of the field.\<close>

definition mk_file_field :: "batcher \<Rightarrow> (string \<Rightarrow> bool) \<Rightarrow> string option \<Rightarrow> bool \<Rightarrow> int \<Rightarrow> exc_class + field" where
  "mk_file_field bt valid_type path req chunk_size =
     mk_field bt valid_type path req [DType ''str'', DType ''PathLike''] None None (Some FileStreamBatch) chunk_size"

definition file_field_set ::
  "(pyval \<Rightarrow> bool) \<Rightarrow> (pyval \<Rightarrow> bool) \<Rightarrow> string \<Rightarrow> field \<Rightarrow> pyval \<Rightarrow> cache_state \<times> (string, pyval) dict \<Rightarrow>
   exc_class + (cache_state \<times> (string, pyval) dict)" where
  "file_field_set isfile callable_value key f v s =
     (if v \<noteq> PNone \<and> \<not> isfile v then Inl ValueError else field_set callable_value key f v s)"

text \<open>
  \<open>__get__\<close>: a new proxy for the stored path each time; as a value it is an object of class \<open>FileProxy\<close>. The encoding
  of the field is passed on unless the mode is binary.
\<close>

definition proxy_value :: "string \<Rightarrow> string option \<Rightarrow> pyval \<Rightarrow> pyval" where
  "proxy_value mode enc path =
     PObj ''FileProxy'' [(''file_path'', path), (''mode'', PStr mode), (''encoding'', case enc of None \<Rightarrow> PNone | Some e \<Rightarrow> PStr e)]"

definition file_field_get :: "string \<Rightarrow> string option \<Rightarrow> field \<Rightarrow> (string, pyval) dict \<Rightarrow> pyval" where
  "file_field_get mode enc f inst =
     (let v = field_get f inst
      in if truthy v then proxy_value mode (if CHR ''b'' \<notin> set mode then enc else None) v else PNone)"

section \<open>Text files\<close>

fun take_line :: "string \<Rightarrow> string \<times> string" where
  "take_line [] = ([], [])"
| "take_line (c # s) = (if c = CHR 0x0A then ([c], s) else (case take_line s of (l, r) \<Rightarrow> (c # l, r)))"

lemma take_line_append: "take_line s = (l, r) \<Longrightarrow> l @ r = s"
  by (induction s arbitrary: l r) (auto split: if_splits prod.splits)

lemma take_line_Nil: "take_line s = (l, r) \<Longrightarrow> l = [] \<longleftrightarrow> s = []"
  by (cases s) (auto split: if_splits prod.splits)

lemma take_line_shorter: "take_line s = (l, r) \<Longrightarrow> s \<noteq> [] \<Longrightarrow> length r < length s"
  using take_line_append [of s l r] take_line_Nil [of s l r] by auto

function lines_of :: "string \<Rightarrow> string list" where
  "lines_of s = (if s = [] then [] else (case take_line s of (l, r) \<Rightarrow> l # lines_of r))"
  by pat_completeness auto
termination
  by (relation "measure length") (auto intro: take_line_shorter [OF sym])

declare lines_of.simps [simp del]

record text_file =
  tx_rest :: string
  tx_closed :: bool

abbreviation FileNotFoundError :: exc_class where
  "FileNotFoundError \<equiv> UserExc ''FileNotFoundError'' Exception"

abbreviation UnsupportedOperation :: exc_class where
  "UnsupportedOperation \<equiv> UserExc ''UnsupportedOperation'' ValueError"

text \<open>Reading whole lines and the whole rest of a text file; other operations are not offered.\<close>

definition text_do :: "file_call \<Rightarrow> text_file \<Rightarrow> (exc_class + pyval) \<times> text_file" where
  "text_do c f =
     (if tx_closed f then (Inl ValueError, f)
      else if c = Readline (-1) then (case take_line (tx_rest f) of (l, r) \<Rightarrow> (Inr (PStr l), f\<lparr>tx_rest := r\<rparr>))
      else if c = Read None then (Inr (PStr (tx_rest f)), f\<lparr>tx_rest := []\<rparr>)
      else (Inl UnsupportedOperation, f))"

definition text_api :: "(string \<Rightarrow> string option) \<Rightarrow> text_file file_api" where
  "text_api fs =
     \<lparr>f_open = (\<lambda>path mode enc. case fs path of None \<Rightarrow> Inl FileNotFoundError | Some s \<Rightarrow> Inr \<lparr>tx_rest = s, tx_closed = False\<rparr>),
      f_closed = tx_closed, f_close = (\<lambda>f. Inr (f\<lparr>tx_closed := True\<rparr>)), f_flush = (\<lambda>f. (Inr (), f)), f_seekable = (\<lambda>_. True), f_do = text_do\<rparr>"

end
