(* ===== verification/File_Proxy_Props.thy ===== *)
theory File_Proxy_Props
  imports File_Proxy
begin

text \<open>
  The life of a proxy: over every sequence of uses it opens its file at most once, every file it opened is held or
  closed, and once closed it opens nothing any more. Iterating over a text file gives its lines. The values a file
  field hands out, and what the batch processor of such a field makes of them.
\<close>

section \<open>The life of a proxy\<close>

text \<open>What a proxy relies on: \<open>open\<close> gives an open file, \<open>close\<close> closes it, and nothing else does.\<close>

definition file_lawful :: "'f file_api \<Rightarrow> bool" where
  "file_lawful api \<longleftrightarrow>
     (\<forall>path mode enc f. f_open api path mode enc = Inr f \<longrightarrow> \<not> f_closed api f) \<and>
     (\<forall>f f'. f_close api f = Inr f' \<longrightarrow> f_closed api f') \<and>
     (\<forall>f. f_closed api (snd (f_flush api f)) = f_closed api f) \<and>
     (\<forall>c f. f_closed api (snd (f_do api c f)) = f_closed api f)"

text \<open>A proxy is unopened, open or closed, and accounts for the files it has opened.\<close>

definition proxy_wf :: "'f file_api \<Rightarrow> 'f file_proxy \<Rightarrow> bool" where
  "proxy_wf api p \<longleftrightarrow>
     list_all (f_closed api) (fp_released p) \<and>
     (case fp_file p of
        None \<Rightarrow> fp_opened p = length (fp_released p) \<and> fp_opened p \<le> 1 \<and> (fp_opened p = 1 \<longrightarrow> fp_closed p)
      | Some f \<Rightarrow> \<not> f_closed api f \<and> \<not> fp_closed p \<and> fp_opened p = 1 \<and> fp_released p = [])"

lemma proxy_wf_new: "proxy_wf api (mk_file_proxy path mode enc)"
  by (simp add: proxy_wf_def mk_file_proxy_def)

lemma ensure_open_wf:
  assumes "file_lawful api" "proxy_wf api p" "ensure_open api p = (r, p')"
  shows "proxy_wf api p'" "\<And>f. r = Inr f \<Longrightarrow> fp_file p' = Some f"
  using assms by (auto simp: file_lawful_def proxy_wf_def ensure_open_def le_Suc_eq split: if_splits option.splits sum.splits)

lemma proxy_wf_file:
  assumes "proxy_wf api p" "fp_file p = Some f" "f_closed api f' = f_closed api f"
  shows "proxy_wf api (p\<lparr>fp_file := Some f'\<rparr>)"
  using assms by (simp add: proxy_wf_def)

lemma proxy_call_wf:
  assumes api: "file_lawful api" and p: "proxy_wf api p"
  shows "proxy_wf api (snd (proxy_call api c p))"
proof (cases "ensure_open api p")
  case (Pair r p')
  show ?thesis
  proof (cases r)
    case (Inl e)
    then show ?thesis using ensure_open_wf(1)[OF api p Pair] Pair by (simp add: proxy_call_def)
  next
    case (Inr f)
    have "f_closed api (snd (f_do api c f)) = f_closed api f" using api by (simp add: file_lawful_def)
    with proxy_wf_file[OF ensure_open_wf(1)[OF api p Pair] ensure_open_wf(2)[OF api p Pair Inr]] Pair Inr
    show ?thesis by (simp add: proxy_call_def case_prod_beta)
  qed
qed

lemma proxy_next_wf:
  assumes "file_lawful api" "proxy_wf api p"
  shows "proxy_wf api (snd (proxy_next api p))"
proof (cases "proxy_call api (Readline (-1)) p")
  case (Pair r p')
  then show ?thesis using proxy_call_wf[OF assms, of "Readline (-1)"]
    by (cases r) (simp_all add: proxy_next_def)
qed

lemma proxy_flush_wf: "file_lawful api \<Longrightarrow> proxy_wf api p \<Longrightarrow> proxy_wf api (snd (proxy_flush api p))"
  by (auto simp: proxy_flush_def file_lawful_def intro: proxy_wf_file split: option.split prod.split)
     (metis proxy_wf_file snd_conv)

lemma proxy_close_wf: "file_lawful api \<Longrightarrow> proxy_wf api p \<Longrightarrow> proxy_wf api (snd (proxy_close api p))"
  by (auto simp: proxy_close_def file_lawful_def proxy_wf_def split: option.split sum.split)

lemma use_proxy_wf:
  assumes "file_lawful api" "proxy_wf api p"
  shows "proxy_wf api (snd (use_proxy api u p))"
  using proxy_call_wf[OF assms] proxy_next_wf[OF assms] proxy_flush_wf[OF assms] proxy_close_wf[OF assms]
  by (cases u) (simp_all add: use_proxy_def case_prod_beta)

lemma run_proxy_wf:
  assumes "file_lawful api"
  shows "proxy_wf api p \<Longrightarrow> run_proxy api us p = (rs, p') \<Longrightarrow> proxy_wf api p'"
proof (induction us arbitrary: p rs)
  case (Cons u us)
  then show ?case using use_proxy_wf[OF assms, of p u] by (auto split: prod.splits)
qed simp

text \<open>A closed proxy stays closed and raises ValueError from every call that needs the file.\<close>

lemma closed_call:
  assumes "fp_closed p"
  shows "proxy_call api c p = (Inl ValueError, p)" "proxy_next api p = (Inl ValueError, p)"
  using assms by (simp_all add: proxy_call_def proxy_next_def ensure_open_def)

lemma closed_stays:
  assumes "fp_closed p" "fp_file p = None"
  shows "snd (use_proxy api u p) = p"
  using assms by (cases u) (auto simp: use_proxy_def closed_call proxy_flush_def proxy_close_def)

lemma run_closed:
  assumes "fp_closed p" "fp_file p = None"
  shows "snd (run_proxy api us p) = p"
  using assms closed_stays[OF assms] by (induction us) (auto split: prod.split, metis snd_conv)

section \<open>Reading a text file\<close>

lemma lines_of_Nil [simp]: "lines_of [] = []"
  by (subst lines_of.simps) simp

lemma lines_of_Cons: "take_line s = (l, r) \<Longrightarrow> s \<noteq> [] \<Longrightarrow> lines_of s = l # lines_of r"
  by (subst lines_of.simps) simp

lemma lines_induct [case_names Nil Line]:
  assumes "P []" "\<And>s l r. s \<noteq> [] \<Longrightarrow> take_line s = (l, r) \<Longrightarrow> P r \<Longrightarrow> P s"
  shows "P s"
proof (induction s rule: lines_of.induct)
  case (1 s)
  obtain l r where lr: "take_line s = (l, r)" by fastforce
  then show ?case using 1[of l r] assms by (cases "s = []") auto
qed

lemma concat_lines_of: "concat (lines_of s) = s"
  by (induction s rule: lines_induct) (simp_all add: lines_of_Cons take_line_append)

text \<open>A line is not empty and has a line feed at its end or nowhere.\<close>

definition line_like :: "string \<Rightarrow> bool" where
  "line_like l \<longleftrightarrow> l \<noteq> [] \<and> CHR 0x0A \<notin> set (butlast l)"

lemma take_line_feed: "take_line s = (l, r) \<Longrightarrow> CHR 0x0A \<notin> set (butlast l)"
  by (induction s arbitrary: l r) (auto split: if_splits prod.splits)

lemma lines_of_line_like: "list_all line_like (lines_of s)"
  by (induction s rule: lines_induct) (simp_all add: lines_of_Cons line_like_def take_line_feed take_line_Nil)

text \<open>Iterating over an open proxy of a text file gives the lines that are left and then StopIteration.\<close>

lemma text_next:
  assumes "fp_closed p = False" "fp_file p = Some \<lparr>tx_rest = s, tx_closed = False\<rparr>" "take_line s = (l, r)"
  shows "proxy_next (text_api fs) p =
     (if s = [] then Inl StopIteration else Inr (PStr l), p\<lparr>fp_file := Some \<lparr>tx_rest = r, tx_closed = False\<rparr>\<rparr>)"
  using assms take_line_Nil[OF assms(3)]
  by (simp add: proxy_next_def proxy_call_def ensure_open_def text_api_def text_do_def)

lemma iterate_text:
  assumes "fp_closed p = False" "fp_file p = Some \<lparr>tx_rest = s, tx_closed = False\<rparr>"
  shows "fst (run_proxy (text_api fs) (replicate (Suc (length (lines_of s))) Next) p) =
     map (Inr \<circ> PStr) (lines_of s) @ [Inl StopIteration]"
  using assms
proof (induction s arbitrary: p rule: lines_induct)
  case Nil
  then show ?case using text_next[of p "[]" "[]" "[]" fs] by (simp add: use_proxy_def)
next
  case (Line s l r)
  note nxt = text_next[OF Line.prems Line.hyps(2), of fs]
  show ?case
    using Line.IH[of "p\<lparr>fp_file := Some \<lparr>tx_rest = r, tx_closed = False\<rparr>\<rparr>"] Line.hyps(1) Line.prems(1) nxt
    by (simp add: lines_of_Cons[OF Line.hyps(2,1)] use_proxy_def case_prod_beta)
qed

text \<open>The first step opens the file.\<close>

lemma iterate_first:
  assumes "fs path = Some s"
  shows "fst (run_proxy (text_api fs) (replicate (Suc (length (lines_of s))) Next) (mk_file_proxy path mode enc)) =
     map (Inr \<circ> PStr) (lines_of s) @ [Inl StopIteration]"
proof -
  let ?p = "(mk_file_proxy path mode enc)\<lparr>fp_file := Some \<lparr>tx_rest = s, tx_closed = False\<rparr>, fp_opened := 1\<rparr>"
  have "ensure_open (text_api fs) (mk_file_proxy path mode enc) = ensure_open (text_api fs) ?p"
    using assms by (simp add: ensure_open_def text_api_def mk_file_proxy_def)
  then have "proxy_next (text_api fs) (mk_file_proxy path mode enc) = proxy_next (text_api fs) ?p"
    by (simp only: proxy_next_def proxy_call_def)
  then show ?thesis
    using iterate_text[of ?p s fs] by (simp add: use_proxy_def mk_file_proxy_def)
qed

lemma text_lawful: "file_lawful (text_api fs)"
  by (auto simp: file_lawful_def text_api_def text_do_def split: option.splits prod.splits)

section \<open>File fields\<close>

text \<open>What can be read from a file field is None or a new proxy, never the path itself.\<close>

lemma file_field_get_values:
  "file_field_get mode enc f inst = PNone \<or> (\<exists>e path. truthy path \<and> file_field_get mode enc f inst = proxy_value mode e path)"
  by (auto simp: file_field_get_def Let_def)

text \<open>The batch processor every file field has refuses each of them: a proxy is not an \<open>IOBase\<close>.\<close>

lemma file_field_never_batches:
  "file_stream_batch_processor (file_field_get mode enc f inst) n = Iter [] (Some ValueError)"
  by (simp add: file_field_get_def proxy_value_def file_stream_batch_processor_def Let_def)

text \<open>A field that is made with a path keeps that path as its name, whatever attribute it becomes.\<close>

lemma file_field_named_by_path:
  assumes "mk_file_field bt valid_type (Some path) req n = Inr f"
  shows "field_name (set_name attribute f) = path"
  using assms
  by (auto simp: mk_file_field_def mk_field_def set_name_def field_name_def Let_def bind_res_Inr_iff split: if_splits)

lemma file_field_set_get:
  assumes "isfile v" "truthy v" "field_value callable_value f v = Inr v" "file_field_set isfile callable_value key f v s = Inr (c, inst)"
  shows "file_field_get mode None f inst = proxy_value mode None v"
  using assms by (auto simp: file_field_set_def field_set_def file_field_get_def field_get_def Let_def dict_get_set split: if_splits)

lemma file_field_set_refuses:
  "v \<noteq> PNone \<Longrightarrow> \<not> isfile v \<Longrightarrow> file_field_set isfile callable_value key f v s = Inl ValueError"
  by (simp add: file_field_set_def)

section \<open>Properties\<close>


definition sample_files :: "string \<Rightarrow> string option" where
  "sample_files path = (if path = ''notes'' then Some (''ab'' @ [CHR 0x0A] @ ''c'') else None)"


end
