(* ===== verification/Dot.thy ===== *)
theory Dot
  imports Execution_Tree
begin

text \<open>
  Drawing a pipeline: \<^verbatim>\<open>src/nexus/translator/dot.py\<close> and \<open>get_dot_node_data\<close> of \<^verbatim>\<open>src/nexus/task.py\<close>.

  The drawing is a text in the language of Graphviz, made of node lines and edge lines that are collected in the
  order of a traversal. \<open>key\<close> gives the \<open>id\<close> of a task. The loop over the traversal may start a new traversal, so it has
  fuel; \<open>None\<close> means that the fuel ran out.
\<close>

section \<open>Lines\<close>

definition quoted :: "string \<Rightarrow> string" where
  "quoted s = CHR 0x22 # s @ [CHR 0x22]"

definition dot_node :: "string \<Rightarrow> string \<Rightarrow> string \<Rightarrow> string \<Rightarrow> string" where
  "dot_node i label shape colour =
     CHR 0x09 # quoted i @ '' [label='' @ quoted label @ '', shape='' @ shape @ '', style='' @ quoted ''filled,rounded'' @
       '', fillcolor='' @ colour @ '']'' @ [CHR 0x0A]"

text \<open>An f-string shows a descriptor as a decimal number.\<close>

definition show_descriptor :: "int \<Rightarrow> string" where
  "show_descriptor d = (if d < 0 then CHR ''-'' # digits (nat (- d)) else digits (nat d))"

definition dot_edge :: "string \<Rightarrow> string \<Rightarrow> int option \<Rightarrow> string" where
  "dot_edge i j d =
     CHR 0x09 # quoted i @ '' -> '' @ quoted j @
       (case d of None \<Rightarrow> '''' | Some k \<Rightarrow> '' [taillabel='' @ quoted (show_descriptor k) @ '']'')"

definition add_new :: "'a \<Rightarrow> 'a list \<Rightarrow> 'a list" where
  "add_new x xs = (if x \<in> set xs then xs else xs @ [x])"

fun join_bar :: "string list \<Rightarrow> string" where
  "join_bar [] = ''''"
| "join_bar [s] = s"
| "join_bar (s # ss) = s @ ''|'' @ join_bar ss"

text \<open>The identity and the line of a group of parallel tasks. The group may end with None, which has no attributes.\<close>

definition group_line :: "(nat \<Rightarrow> string) \<Rightarrow> heap \<Rightarrow> nat option list \<Rightarrow> exc_class + (string \<times> string) option" where
  "group_line key h xs =
     (case those xs of
        None \<Rightarrow> Inl AttributeError
      | Some [] \<Rightarrow> Inr None
      | Some (n # ns) \<Rightarrow>
          Inr (Some (key n, dot_node (key n) (''{'' @ join_bar (map (\<lambda>i. event (h ! i)) (n # ns)) @ ''}'') ''record'' ''lightblue'')))"

definition process_parallel_nodes ::
  "(nat \<Rightarrow> string) \<Rightarrow> heap \<Rightarrow> nat option list \<Rightarrow> string list \<Rightarrow> exc_class + (string option \<times> string list)" where
  "process_parallel_nodes key h xs nodes =
     bind_res (group_line key h xs) (\<lambda>g.
       Inr (case g of None \<Rightarrow> (None, nodes) | Some (i, line) \<Rightarrow> (Some i, add_new line nodes)))"

definition get_dot_node_data :: "(nat \<Rightarrow> string) \<Rightarrow> heap \<Rightarrow> nat \<Rightarrow> (exc_class + string option) option" where
  "get_dot_node_data key h n =
     (if is_sink h n then Some (Inr (Some (dot_node (key n) (event (h ! n)) ''box'' ''yellow'')))
      else if is_conditional (h ! n) then Some (Inr (Some (dot_node (key n) (event (h ! n)) ''diamond'' ''yellow'')))
      else if is_parallel_execution_node h n then
        map_option (\<lambda>g. case g of None \<Rightarrow> Inr None | Some xs \<Rightarrow> bind_res (group_line key h xs) (\<lambda>r. Inr (map_option snd r)))
          (get_parallel_nodes h n)
      else Some (Inr (Some (dot_node (key n) (event (h ! n)) ''circle'' ''yellow''))))"

section \<open>The loop\<close>

type_synonym drawing = "string list \<times> string list"

text \<open>The edge to one child of a task that is not parallel.\<close>

definition draw_child :: "(nat \<Rightarrow> string) \<Rightarrow> heap \<Rightarrow> nat \<Rightarrow> nat \<Rightarrow> drawing \<Rightarrow> (exc_class + drawing) option" where
  "draw_child key h n c st =
     (if is_parallel_execution_node h c then
        map_option (\<lambda>g.
            case g of
              None \<Rightarrow> Inr st
            | Some xs \<Rightarrow>
                bind_res (process_parallel_nodes key h xs (fst st)) (\<lambda>(i, nodes).
                  case (i, xs) of
                    (Some j, Some m # _) \<Rightarrow>
                      Inr (nodes, if j = '''' then snd st else add_new (dot_edge (key n) j (descriptor (h ! m))) (snd st))
                  | _ \<Rightarrow> Inr (nodes, snd st)))
          (get_parallel_nodes h c)
      else Some (Inr (fst st, add_new (dot_edge (key n) (key c) (descriptor (h ! c))) (snd st))))"

fun draw_children :: "(nat \<Rightarrow> string) \<Rightarrow> heap \<Rightarrow> nat \<Rightarrow> nat list \<Rightarrow> drawing \<Rightarrow> (exc_class + drawing) option" where
  "draw_children key h n [] st = Some (Inr st)"
| "draw_children key h n (c # cs) st =
     (case draw_child key h n c st of
        None \<Rightarrow> None
      | Some (Inl e) \<Rightarrow> Some (Inl e)
      | Some (Inr st') \<Rightarrow> draw_children key h n cs st')"

text \<open>The edges of a group, from its identity to the children of its last task, and that task, where the
  traversal starts again.\<close>

definition draw_group :: "(nat \<Rightarrow> string) \<Rightarrow> heap \<Rightarrow> nat option list \<Rightarrow> drawing \<Rightarrow> exc_class + (nat option \<times> drawing)" where
  "draw_group key h xs st =
     bind_res (process_parallel_nodes key h xs (fst st)) (\<lambda>(i, nodes).
       case i of
         None \<Rightarrow> Inr (None, (nodes, snd st))
       | Some j \<Rightarrow>
           (case last xs of
              None \<Rightarrow> Inl AttributeError
            | Some m \<Rightarrow>
                Inr (Some m, (nodes, fold (\<lambda>c. add_new (dot_edge j (key c) (descriptor (h ! c)))) (get_children (h ! m)) (snd st)))))"

text \<open>One turn of the loop: the task to start a new traversal at, if any. The last task of a parallel chain is skipped.\<close>

definition already_drawn :: "heap \<Rightarrow> nat \<Rightarrow> bool" where
  "already_drawn h n \<longleftrightarrow>
     (case parent_node (h ! n) of None \<Rightarrow> False | Some p \<Rightarrow> on_success_pipe (h ! p) = Some PT_PARALLELISM) \<and>
     on_success_pipe (h ! n) \<noteq> Some PT_PARALLELISM"

definition add_text :: "string option \<Rightarrow> string list \<Rightarrow> string list" where
  "add_text t nodes = (case t of None \<Rightarrow> nodes | Some s \<Rightarrow> add_new s nodes)"

definition draw_task :: "(nat \<Rightarrow> string) \<Rightarrow> heap \<Rightarrow> nat \<Rightarrow> drawing \<Rightarrow> (exc_class + (nat option \<times> drawing)) option" where
  "draw_task key h n st =
     (if already_drawn h n then Some (Inr (None, st))
      else
        (case get_dot_node_data key h n of
           None \<Rightarrow> None
         | Some (Inl e) \<Rightarrow> Some (Inl e)
         | Some (Inr text) \<Rightarrow>
             (let st' = (add_text text (fst st), snd st)
              in if is_parallel_execution_node h n then
                   map_option (\<lambda>g. case g of None \<Rightarrow> Inr (None, st') | Some xs \<Rightarrow> draw_group key h xs st') (get_parallel_nodes h n)
                 else
                   map_option (\<lambda>r. bind_res r (\<lambda>st''. Inr (None, st''))) (draw_children key h n (get_children (h ! n)) st'))))"

fun draw_loop :: "nat \<Rightarrow> (nat \<Rightarrow> string) \<Rightarrow> heap \<Rightarrow> nat list \<Rightarrow> drawing \<Rightarrow> (exc_class + drawing) option" where
  "draw_loop k key h [] st = Some (Inr st)"
| "draw_loop 0 key h (n # ns) st = None"
| "draw_loop (Suc k) key h (n # ns) st =
     (case draw_task key h n st of
        None \<Rightarrow> None
      | Some (Inl e) \<Rightarrow> Some (Inl e)
      | Some (Inr (None, st')) \<Rightarrow> draw_loop k key h ns st'
      | Some (Inr (Some m, st')) \<Rightarrow>
          (case bf_traversal h m of None \<Rightarrow> None | Some ms \<Rightarrow> draw_loop k key h ms st'))"

definition dot_header :: string where
  "dot_header = ''digraph G {'' @ [CHR 0x0A, CHR 0x09] @ ''node [fontname='' @ quoted ''Helvetica'' @ '', fontsize=11]'' @ [CHR 0x0A, CHR 0x09] @
     ''edge [fontname='' @ quoted ''Helvetica'' @ '', fontsize=10]'' @ [CHR 0x0A]"

definition dot_text :: "drawing \<Rightarrow> string" where
  "dot_text st = dot_header @ concat (fst st) @ concat (map (\<lambda>e. e @ [CHR 0x0A]) (snd st)) @ ''}''"

definition collect_drawing :: "nat \<Rightarrow> (nat \<Rightarrow> string) \<Rightarrow> heap \<Rightarrow> nat \<Rightarrow> (exc_class + drawing) option" where
  "collect_drawing k key h n =
     (case get_root h n of
        None \<Rightarrow> None
      | Some r \<Rightarrow> (case bf_traversal h r of None \<Rightarrow> None | Some ns \<Rightarrow> draw_loop k key h ns ([], [])))"

definition generate_dot_from_task_state :: "nat \<Rightarrow> (nat \<Rightarrow> string) \<Rightarrow> heap \<Rightarrow> nat \<Rightarrow> (exc_class + string) option" where
  "generate_dot_from_task_state k key h n = map_option (\<lambda>r. bind_res r (\<lambda>st. Inr (dot_text st))) (collect_drawing k key h n)"

end
