(* ===== verification/Dot_Props.thy ===== *)
theory Dot_Props
  imports Dot Task_Props
begin

text \<open>
  What the drawing of a pipeline shows. The loop ends when no conditional has its sink joined by the parallel operator,
  and without parallel operators the drawing has exactly the tasks as nodes and the links as edges. With them it may
  miss tasks, and with a parallel sink it never ends.
\<close>

section \<open>The pipes of a built pipeline\<close>

text \<open>A parallel pipe is a success pipe or a sink pipe, and a success pipe leads to a task.\<close>

definition pipes_ok :: "pipeline_task \<Rightarrow> bool" where
  "pipes_ok t \<longleftrightarrow>
     (on_success_event t = None \<longrightarrow> on_success_pipe t = None) \<and> on_failure_pipe t \<noteq> Some PT_PARALLELISM \<and>
     descriptor_pipe t \<noteq> Some (pipe_token PT_PARALLELISM) \<and> (\<forall>dc \<in> set (get_descriptors (extra t)). dc_pipe dc \<noteq> Some PT_PARALLELISM)"

lemma pipes_ok_upd: "list_all pipes_ok h \<Longrightarrow> (\<And>t. pipes_ok t \<Longrightarrow> pipes_ok (f t)) \<Longrightarrow> list_all pipes_ok (upd n f h)"
  by (cases "n < length h") (auto simp: upd_def list_all_length nth_list_update)

lemma pipes_ok_new: "pipes_ok (new_task s)"
  by (simp add: pipes_ok_def new_task_def get_descriptors_def)

lemma pipes_ok_parent: "pipes_ok t \<Longrightarrow> pipes_ok (t\<lparr>parent_node := p\<rparr>)"
  by (simp add: pipes_ok_def)

lemma link_nodes_pipes: "list_all pipes_ok h \<Longrightarrow> list_all pipes_ok (link_nodes op a b h)"
  unfolding link_nodes_def Let_def
  by (intro pipes_ok_upd pipes_ok_parent) (auto simp: pipes_ok_def intro!: pipes_ok_upd)

lemma get_pipe_type_parallel: "get_pipe_type_enum s = Some PT_PARALLELISM \<longleftrightarrow> s = Some (pipe_token PT_PARALLELISM)"
  by (auto simp: get_pipe_type_enum_def)

lemma attach_branch_pipes:
  assumes "list_all pipes_ok h" and "\<And>n. v = VNode n \<Longrightarrow> n < length h"
  shows "list_all pipes_ok (attach_branch p v h)"
proof (cases v)
  case (VNode n)
  define h1 where "h1 = upd n (\<lambda>t. t\<lparr>parent_node := Some p\<rparr>) h"
  have h1: "list_all pipes_ok h1" unfolding h1_def using assms(1) by (rule pipes_ok_upd) (rule pipes_ok_parent)
  have "n < length h1" using assms(2)[OF VNode] by (simp add: h1_def upd_def)
  then have "get_pipe_type_enum (descriptor_pipe (h1 ! n)) \<noteq> Some PT_PARALLELISM"
    using h1 by (auto simp: list_all_length pipes_ok_def get_pipe_type_parallel)
  then show ?thesis using h1
    unfolding attach_branch_def VNode pval.case Let_def h1_def[symmetric]
    by (auto simp: pipes_ok_def intro!: pipes_ok_upd)
qed (simp_all add: attach_branch_def assms)

lemma attach_branch_length [simp]: "length (attach_branch p v h) = length h"
  by (simp add: attach_branch_def upd_def Let_def split: pval.split)

lemma attach_custom_pipes:
  assumes "list_all pipes_ok h" and "wf_ast KExpr c" and "attach_custom p c b h = Inr h'"
  shows "list_all pipes_ok h'"
proof -
  obtain head d op where hd: "root_or_raise h b = Inr head" "custom_key c = Inr (d, op)"
    and h': "h' = upd p (\<lambda>t. t\<lparr>extra := snd (add_descriptor d (get_pipe_type_enum (Some op)) head (extra t))\<rparr>)
      (upd head (\<lambda>t. t\<lparr>parent_node := Some p\<rparr>) h)"
    using assms(3) by (auto simp: attach_custom_def Let_def res_simps)
  have "arrow op" using hd(2) assms(2) by (cases c rule: custom_key.cases) auto
  then have "get_pipe_type_enum (Some op) \<noteq> Some PT_PARALLELISM" by (auto simp: get_pipe_type_parallel arrow_def)
  then show ?thesis
    unfolding h' using assms(1) dict_set_values
    by (auto intro!: pipes_ok_upd simp: pipes_ok_def add_descriptor_def get_descriptors_def)
       (fastforce dest: subsetD[OF dict_set_values])+
qed

lemma link_binop_pipes:
  assumes "list_all pipes_ok h" and "link_binop op a b h = Inr (v, h')"
    and "op = ''||'' \<Longrightarrow> (\<exists>m n. a = VNode m \<and> b = VNode n)"
  shows "list_all pipes_ok h'"
proof (cases "\<exists>m n. a = VNode m \<and> b = VNode n")
  case True
  then show ?thesis using assms(1,2) link_nodes_pipes by (auto simp: link_binop_def)
next
  case False
  then have op: "op \<noteq> ''||''" using assms(3) by blast
  have int: "list_all pipes_ok h'" if "apply_int op x w h = Inr (v, h')" for x w
    using that op assms(1) by (auto simp: apply_int_def res_simps pipes_ok_def get_descriptors_def intro!: pipes_ok_upd split: pval.splits if_splits)
  show ?thesis using False assms(1,2) int by (auto simp: link_binop_def split: pval.splits)
qed

lemma parse_pipes:
  "wf_ast KExpr a \<Longrightarrow> list_all pipes_ok h \<Longrightarrow> parse_ast a h = Inr (v, h') \<Longrightarrow> list_all pipes_ok h'"
  "\<forall>c \<in> set cs. wf_ast KExpr c \<Longrightarrow> list_all pipes_ok h \<Longrightarrow> parse_customs parent cs h = Inr h' \<Longrightarrow> list_all pipes_ok h'"
proof (induction a h and parent cs h arbitrary: v h' and h' rule: parse_ast_parse_customs.induct)
  case (1 op l r h)
  from "1.prems"(3) obtain ln h1 rn h2 where p: "parse_ast l h = Inr (ln, h1)" "parse_ast r h1 = Inr (rn, h2)"
    "link_binop op ln rn h2 = Inr (v, h')" by (auto simp: res_simps)
  from "1.prems"(1) show ?case
  proof (cases rule: wf_ast_BinOp_cases)
    case (desc d)
    then have "list_all pipes_ok h2" using "1.IH"(2)[OF p(1) refl _ _ p(2)] "1.prems"(2) p(1) wf_ast_KOperand_KExpr by auto
    from link_binop_pipes[OF this p(3)] desc show ?thesis by (auto simp: arrow_def)
  next
    case (prefix x)
    then have "list_all pipes_ok h2"
      using "1.IH"(2)[OF p(1) refl _ _ p(2)] "1.prems"(2) p(1) wf_ast_KOperand_KExpr wf_ast_KTask_KOperand by auto
    from link_binop_pipes[OF this p(3)] prefix show ?thesis by auto
  next
    case (postfix x)
    then have "list_all pipes_ok h2"
      using "1.IH"(1)[OF _ "1.prems"(2) p(1)] p(2) wf_ast_KOperand_KExpr wf_ast_KTask_KOperand by auto
    from link_binop_pipes[OF this p(3)] postfix show ?thesis by auto
  next
    case chain
    note wf = chain(3) wf_ast_KOperand_KExpr[OF chain(4)]
    have "list_all pipes_ok h2" using "1.IH"(2)[OF p(1) refl wf(2) _ p(2)] "1.IH"(1)[OF wf(1) "1.prems"(2) p(1)] by simp
    then show ?thesis
      by (rule link_binop_pipes[OF _ p(3)]) (use parse_tree(1)[OF wf(1) p(1)] parse_tree(1)[OF wf(2) p(2)] in blast)
  qed
next
  case (2 s h)
  then show ?case using pipes_ok_new by auto
next
  case (3 p g h)
  from "3.prems"(1) obtain ds where g: "g = ConditionalGroup ds" "group_ok ds" by (auto simp: wf_ast_conditional_iff)
  from "3.prems"(3) obtain ln h1 rn h2 lr rr ev where
    q: "(case cond_left g of None \<Rightarrow> Inr (VNone, h) | Some a \<Rightarrow> parse_ast a h) = Inr (ln, h1)"
      "(case cond_right g of None \<Rightarrow> Inr (VNone, h1) | Some a \<Rightarrow> parse_ast a h1) = Inr (rn, h2)"
      "branch_root ln h2 = Inr lr" "branch_root rn h2 = Inr rr" "task_value p = Inr ev" and
    c: "parse_customs (length h2) (extra_descriptors g)
       (attach_branch (length h2) lr (attach_branch (length h2) rr (h2 @ [new_task ev]))) = Inr h'"
    by (auto simp: res_simps Let_def)
  note gb = group_branches[OF g(2), folded g(1)]
  have L: "branch_result h h1 ln" and R: "branch_result h1 h2 rn"
    using cond_branch_result[OF q(1)] cond_branch_result[OF q(2)] gb(1,2) by blast+
  note le = branch_result_extend[OF L] branch_result_extend[OF R]
  have bl: "branch (length h) (length h1) h2 lr" using branch_result_root[OF L _ q(3)] le by blast
  have br: "branch (length h1) (length h2) h2 rr" using branch_result_root[OF R _ q(4)] by simp
  have h1: "list_all pipes_ok h1"
    using q(1) "3.IH"(1)[OF _ gb(1) "3.prems"(2)] "3.prems"(2) by (cases "cond_left g") auto
  have "list_all pipes_ok h2"
    using q(2) "3.IH"(2)[OF q(1) refl _ gb(2) h1] h1 by (cases "cond_right g") auto
  then have "list_all pipes_ok (attach_branch (length h2) lr (attach_branch (length h2) rr (h2 @ [new_task ev])))"
    using pipes_ok_new bl br task_tree_root by (intro attach_branch_pipes) (auto simp: branch_def less_SucI)
  from "3.IH"(3)[OF q(1) refl q(2) refl q(3-5) refl refl refl _ this c] gb(3) show ?case by blast
next
  case (8 parent c cs h)
  from "8.prems"(3) obtain cb h1 where c: "parse_ast c h = Inr (cb, h1)" by (auto simp: res_simps)
  have wc: "wf_ast KExpr c" using "8.prems"(1) by simp
  have h1: "list_all pipes_ok h1" using "8.IH"(1)[OF wc "8.prems"(2) c] .
  obtain n where n: "cb = VNode n" using parse_tree(1)[OF wc c] by blast
  from "8.prems"(3) c n obtain h2 where h2: "attach_custom parent c n h1 = Inr h2" "parse_customs parent cs h2 = Inr h'"
    by (auto simp: res_simps)
  from "8.IH"(2)[OF c refl n h2(1) _ attach_custom_pipes[OF h1 wc h2(1)] h2(2)] "8.prems"(1) show ?case by simp
qed auto

lemma build_pipes:
  assumes "build_pipeline_from_execution_code code = Inr (r, h)"
  shows "list_all pipes_ok h"
proof -
  from assms obtain e v h1 where p: "pointy_parser code = Inr e" "parse_ast e [] = Inr (v, h1)"
    "(case v of VNode n \<Rightarrow> bind_res (root_or_raise h1 n) (\<lambda>r. Inr (r, h1)) | _ \<Rightarrow> Inl AttributeError) = Inr (r, h)"
    by (auto simp: build_pipeline_from_execution_code_def res_simps split: if_splits)
  have "wf_ast KExpr e" using p(1) by (auto simp: pointy_parser_def parse_tokens_wf)
  from parse_pipes(1)[OF this _ p(2)] p(3) show ?thesis by (auto simp: res_simps split: pval.splits)
qed

section \<open>Groups of parallel tasks\<close>

definition parallel_sink :: "pipeline_task \<Rightarrow> bool" where
  "parallel_sink t \<longleftrightarrow> sink_pipe t = Some PT_PARALLELISM"

definition drawable :: "heap \<Rightarrow> ttree \<Rightarrow> bool" where
  "drawable h t \<longleftrightarrow> task_tree 0 h t \<and> list_all pipes_ok h \<and> list_all (\<lambda>u. \<not> parallel_sink u) h"

lemma parent_in_tree:
  "repr h q t \<Longrightarrow> n \<in> set (ids t) \<Longrightarrow> parent_node (h ! n) = Some p \<Longrightarrow> p \<in> set (ids t) \<or> (n = tid t \<and> q = Some p)"
proof (induction h q t rule: repr.induct)
  case (1 h q i ts)
  show ?case
  proof (cases "n = i")
    case False
    with "1.prems"(2) obtain c where c: "c \<in> set ts" "n \<in> set (ids c)" by auto
    from "1.IH"[OF c(1) _ c(2) "1.prems"(3)] c(1) "1.prems"(1) show ?thesis by auto
  qed (use "1.prems" in auto)
qed

text \<open>A task that the loop does not skip and that is parallel has a parallel success pipe.\<close>

lemma visited_parallel:
  assumes "drawable h t" "n \<in> set (ids t)" "is_parallel_execution_node h n" "\<not> already_drawn h n"
  shows "on_success_pipe (h ! n) = Some PT_PARALLELISM"
proof (rule ccontr)
  assume no: "on_success_pipe (h ! n) \<noteq> Some PT_PARALLELISM"
  then have ptr: "get_pointer_type_to_this_event h n = Some (Pipe PT_PARALLELISM)"
    using assms(3) by (simp add: is_parallel_execution_node_def)
  then obtain p where p: "parent_node (h ! n) = Some p" by (cases "parent_node (h ! n)") (auto simp: get_pointer_type_to_this_event_def)
  have tt: "task_tree 0 h t" using assms(1) by (simp add: drawable_def)
  then have "p \<in> set (ids t)" using parent_in_tree[of h None t n p] assms(2) p by (auto simp: task_tree_def)
  then have "p < length h" using task_tree_bound[OF tt] by blast
  then have ok: "pipes_ok (h ! p)" "sink_pipe (h ! p) \<noteq> Some PT_PARALLELISM"
    using assms(1) by (auto simp: drawable_def list_all_length parallel_sink_def)
  have "on_success_pipe (h ! p) \<noteq> Some PT_PARALLELISM" using assms(4) no p by (simp add: already_drawn_def)
  with ptr p ok show False
    by (auto simp: get_pointer_type_to_this_event_def pipes_ok_def get_descriptor_config_def get_descriptors_def
        split: if_splits option.splits dest!: dict_values_mem)
qed

lemma chain_ends_with_task:
  assumes "drawable h t"
  shows "n \<in> set (ids t) \<Longrightarrow> parallel_chain_fuel k h (Some n) = Some (passed, l) \<Longrightarrow> l \<noteq> None"
proof (induction k arbitrary: n passed)
  case (Suc k)
  have tt: "task_tree 0 h t" using assms by (simp add: drawable_def)
  show ?case
  proof (cases "on_success_pipe (h ! n) = Some PT_PARALLELISM")
    case True
    have "pipes_ok (h ! n)" using assms task_tree_bound[OF tt Suc.prems(1)] by (simp add: drawable_def list_all_length)
    with True obtain c where c: "on_success_event (h ! n) = Some c" by (auto simp: pipes_ok_def)
    then have "c \<in> set (ids t)" using child_in_tree[OF tt Suc.prems(1)] child_fields(1) by blast
    from Suc.IH[OF this] Suc.prems(2) True c show ?thesis by auto
  qed (use Suc.prems in auto)
qed simp

lemma group_of_task:
  assumes "drawable h t" "n \<in> set (ids t)" "is_parallel_execution_node h n"
  shows "\<exists>xs m. get_parallel_nodes h n = Some (Some (map Some (xs @ [m]))) \<and> m \<in> set (ids t) \<and>
    (on_success_pipe (h ! n) = Some PT_PARALLELISM \<longrightarrow> length (below t m) < length (below t n))"
proof -
  have tt: "task_tree 0 h t" using assms(1) by (simp add: drawable_def)
  obtain passed l where pl: "parallel_chain h (Some n) = Some (passed, l)" "set (opt l) \<subseteq> set (ids t)"
    "mset passed + bag t (opt l) \<subseteq># mset (below t n)"
    using parallel_chain_tree[OF tt assms(2)] by blast
  obtain m where m: "l = Some m"
    using chain_ends_with_task[OF assms(1,2) pl(1)[unfolded parallel_chain_def]] by blast
  have "length (below t m) < length (below t n)" if "on_success_pipe (h ! n) = Some PT_PARALLELISM"
  proof -
    have "passed \<noteq> []" using that pl(1) by (auto simp: parallel_chain_def)
    then show ?thesis using size_mset_mono[OF pl(3)] m by (cases passed) auto
  qed
  then show ?thesis using pl(1,2) m assms(3) by (auto simp: get_parallel_nodes_def)
qed

lemma those_map_Some [simp]: "those (map Some xs) = Some xs"
  by (induction xs) auto

lemma group_line_tasks:
  "\<exists>i line. group_line key h (map Some (xs @ [m])) = Inr (Some (i, line))"
  unfolding group_line_def those_map_Some by (cases xs) auto

section \<open>One turn of the loop\<close>

lemma node_data_returns:
  assumes "drawable h t" "n \<in> set (ids t)"
  shows "\<exists>line. get_dot_node_data key h n = Some (Inr (Some line))"
proof (cases "is_sink h n \<or> is_conditional (h ! n) \<or> \<not> is_parallel_execution_node h n")
  case False
  then obtain xs m where g: "get_parallel_nodes h n = Some (Some (map Some (xs @ [m])))"
    using group_of_task[OF assms] by blast
  obtain i line where "group_line key h (map Some (xs @ [m])) = Inr (Some (i, line))" using group_line_tasks by blast
  then show ?thesis using False g by (simp add: get_dot_node_data_def)
qed (auto simp: get_dot_node_data_def)

lemma draw_child_returns:
  assumes "drawable h t" "c \<in> set (ids t)"
  shows "\<exists>st'. draw_child key h n c st = Some (Inr st')"
proof (cases "is_parallel_execution_node h c")
  case True
  then obtain xs m where g: "get_parallel_nodes h c = Some (Some (map Some (xs @ [m])))"
    using group_of_task[OF assms] by blast
  obtain i line where "group_line key h (map Some (xs @ [m])) = Inr (Some (i, line))" using group_line_tasks by blast
  then show ?thesis using True g by (cases xs) (auto simp: draw_child_def process_parallel_nodes_def)
qed (simp add: draw_child_def)

lemma draw_children_returns:
  assumes "drawable h t"
  shows "set cs \<subseteq> set (ids t) \<Longrightarrow> \<exists>st'. draw_children key h n cs st = Some (Inr st')"
proof (induction cs arbitrary: st)
  case (Cons c cs)
  obtain st' where "draw_child key h n c st = Some (Inr st')" using draw_child_returns[OF assms, of c key n st] Cons.prems by force
  with Cons show ?case by simp
qed simp

lemma draw_task_returns:
  assumes "drawable h t" "n \<in> set (ids t)"
  shows "\<exists>r st'. draw_task key h n st = Some (Inr (r, st')) \<and>
    (\<forall>m. r = Some m \<longrightarrow> m \<in> set (ids t) \<and> length (below t m) < length (below t n))"
proof (cases "already_drawn h n")
  case False
  obtain line where line: "get_dot_node_data key h n = Some (Inr (Some line))" using node_data_returns[OF assms] by blast
  show ?thesis
  proof (cases "is_parallel_execution_node h n")
    case True
    obtain xs m where g: "get_parallel_nodes h n = Some (Some (map Some (xs @ [m])))" "m \<in> set (ids t)"
      "length (below t m) < length (below t n)"
      using group_of_task[OF assms True] visited_parallel[OF assms True False] by blast
    obtain i l where "group_line key h (map Some (xs @ [m])) = Inr (Some (i, l))" using group_line_tasks by blast
    then show ?thesis using g True False line by (simp add: draw_task_def draw_group_def process_parallel_nodes_def)
  next
    case no: False
    have "set (get_children (h ! n)) \<subseteq> set (ids t)"
      using assms child_in_tree[of 0 h t n] by (auto simp: drawable_def)
    then obtain st' where "draw_children key h n (get_children (h ! n)) (add_new line (fst st), snd st) = Some (Inr st')"
      using draw_children_returns[OF assms(1)] by blast
    then show ?thesis using no False line by (simp add: draw_task_def add_text_def)
  qed
qed (simp add: draw_task_def)

section \<open>The loop\<close>

text \<open>In what is left of a traversal there is room for the subtree of each of its tasks.\<close>

fun roomy :: "ttree \<Rightarrow> nat list \<Rightarrow> bool" where
  "roomy t [] = True"
| "roomy t (n # ns) \<longleftrightarrow> n \<in> set (ids t) \<and> length (below t n) \<le> length (n # ns) \<and> roomy t ns"

lemma roomy_below:
  assumes "task_tree 0 h t"
  shows "n \<in> set (ids t) \<Longrightarrow> roomy t zs \<Longrightarrow> roomy t (below t n @ zs)"
proof (induction "length (below t n)" arbitrary: n zs rule: less_induct)
  case less
  have "roomy t (concat (map (below t) cs) @ zs)" if "set cs \<subseteq> set (get_children (h ! n))" for cs
    using that
  proof (induction cs)
    case (Cons c cs)
    then have c: "c \<in> set (get_children (h ! n))" by simp
    note cn = below_child_le(2)[OF assms less.prems(1) c] child_in_tree[OF assms less.prems(1) c]
    from less.hyps[OF cn] Cons show ?case by simp
  qed (use less.prems in simp)
  from this[OF subset_refl] show ?case
    using below_children[OF assms less.prems(1)] less.prems(1) by simp
qed

lemma traversal_below:
  assumes "task_tree 0 h t"
  shows "n \<in> set (ids t) \<Longrightarrow> length (below t n) \<le> k \<Longrightarrow> bf_traversal_fuel k h n = Some (below t n)"
proof (induction k arbitrary: n)
  case 0
  then show ?case by (simp add: below_def)
next
  case (Suc k)
  have "those_concat (map (bf_traversal_fuel k h) cs) = Some (concat (map (below t) cs))" if "set cs \<subseteq> set (get_children (h ! n))" for cs
    using that
  proof (induction cs)
    case (Cons c cs)
    then have c: "c \<in> set (get_children (h ! n))" by simp
    have "bf_traversal_fuel k h c = Some (below t c)"
      using Suc.IH[of c] below_child_le(2)[OF assms Suc.prems(1) c] child_in_tree[OF assms Suc.prems(1) c] Suc.prems(2) by simp
    with Cons show ?case by simp
  qed simp
  from this[OF subset_refl] show ?case using below_children[OF assms Suc.prems(1)] by simp
qed

lemma draw_loop_returns:
  assumes "drawable h t"
  shows "roomy t ns \<Longrightarrow> length ns \<le> k \<Longrightarrow> \<exists>st'. draw_loop k key h ns st = Some (Inr st')"
proof (induction k arbitrary: ns st)
  case (Suc k)
  have tt: "task_tree 0 h t" using assms by (simp add: drawable_def)
  show ?case
  proof (cases ns)
    case (Cons n rest)
    then have n: "n \<in> set (ids t)" using Suc.prems by simp
    obtain r st' where d: "draw_task key h n st = Some (Inr (r, st'))"
      and r: "\<And>m. r = Some m \<Longrightarrow> m \<in> set (ids t) \<and> length (below t m) < length (below t n)"
      using draw_task_returns[OF assms n] by blast
    show ?thesis
    proof (cases r)
      case None
      then show ?thesis using Suc.IH[of rest st'] Suc.prems Cons d by simp
    next
      case (Some m)
      have m: "m \<in> set (ids t)" "length (below t m) \<le> k" using r[OF Some] Suc.prems Cons by auto
      have "bf_traversal h m = Some (below t m)"
        unfolding bf_traversal_def by (rule traversal_below[OF tt m(1)]) (use below_bound[OF tt m(1)] in simp)
      then show ?thesis using Suc.IH[of "below t m" st'] roomy_below[OF tt m(1), of "[]"] m Some Cons d by simp
    qed
  qed simp
qed simp

section \<open>Drawings without parallel tasks\<close>

definition plain_line :: "(nat \<Rightarrow> string) \<Rightarrow> heap \<Rightarrow> nat \<Rightarrow> string" where
  "plain_line key h n =
     dot_node (key n) (event (h ! n)) (if is_sink h n then ''box'' else if is_conditional (h ! n) then ''diamond'' else ''circle'') ''yellow''"

definition plain_edges :: "(nat \<Rightarrow> string) \<Rightarrow> heap \<Rightarrow> nat \<Rightarrow> string list" where
  "plain_edges key h n = map (\<lambda>c. dot_edge (key n) (key c) (descriptor (h ! c))) (get_children (h ! n))"

definition no_parallel :: "heap \<Rightarrow> bool" where
  "no_parallel h \<longleftrightarrow> list_all (\<lambda>u. on_success_pipe u \<noteq> Some PT_PARALLELISM \<and> \<not> parallel_sink u) h"

lemma set_add_new [simp]: "set (add_new x xs) = insert x (set xs)"
  by (auto simp: add_new_def)

lemma set_fold_add_new: "set (fold (\<lambda>x. add_new (f x)) xs ys) = f ` set xs \<union> set ys"
  by (induction xs arbitrary: ys) auto

lemma not_parallel:
  assumes "drawable h t" "no_parallel h" "n \<in> set (ids t)"
  shows "\<not> is_parallel_execution_node h n" "\<not> already_drawn h n"
proof -
  have tt: "task_tree 0 h t" using assms(1) by (simp add: drawable_def)
  have par: "on_success_pipe (h ! m) \<noteq> Some PT_PARALLELISM" if "m \<in> set (ids t)" for m
    using that assms(2) task_tree_bound[OF tt] by (auto simp: no_parallel_def list_all_length)
  have "p \<in> set (ids t)" if "parent_node (h ! n) = Some p" for p
    using parent_in_tree[of h None t n p] tt assms(3) that by (auto simp: task_tree_def)
  then show "\<not> already_drawn h n" using par by (auto simp: already_drawn_def split: option.splits)
  then show "\<not> is_parallel_execution_node h n" using visited_parallel[OF assms(1,3)] par[OF assms(3)] by blast
qed

lemma draw_children_plain:
  assumes "drawable h t" "no_parallel h"
  shows "set cs \<subseteq> set (ids t) \<Longrightarrow> draw_children key h n cs st =
    Some (Inr (fst st, fold (\<lambda>c. add_new (dot_edge (key n) (key c) (descriptor (h ! c)))) cs (snd st)))"
  by (induction cs arbitrary: st) (auto simp: draw_child_def not_parallel(1)[OF assms])

lemma node_data_plain: "\<not> is_parallel_execution_node h n \<Longrightarrow> get_dot_node_data key h n = Some (Inr (Some (plain_line key h n)))"
  by (simp add: get_dot_node_data_def plain_line_def)

lemma draw_task_plain:
  assumes "drawable h t" "no_parallel h" "n \<in> set (ids t)"
  shows "\<exists>es. draw_task key h n st = Some (Inr (None, (add_new (plain_line key h n) (fst st), es))) \<and>
    set es = set (plain_edges key h n) \<union> set (snd st)"
proof -
  have "set (get_children (h ! n)) \<subseteq> set (ids t)"
    using assms child_in_tree[of 0 h t n] by (auto simp: drawable_def)
  from draw_children_plain[OF assms(1,2) this, of key n "(add_new (plain_line key h n) (fst st), snd st)"]
    node_data_plain[OF not_parallel(1)[OF assms], of key] not_parallel[OF assms] show ?thesis
    by (simp add: draw_task_def add_text_def plain_edges_def set_fold_add_new)
qed

lemma draw_loop_plain:
  assumes "drawable h t" "no_parallel h"
  shows "set ns \<subseteq> set (ids t) \<Longrightarrow> length ns \<le> k \<Longrightarrow> \<exists>nodes es. draw_loop k key h ns st = Some (Inr (nodes, es)) \<and>
    set nodes = plain_line key h ` set ns \<union> set (fst st) \<and> set es = (\<Union>n \<in> set ns. set (plain_edges key h n)) \<union> set (snd st)"
proof (induction ns arbitrary: k st)
  case Nil
  then show ?case by (cases st) simp
next
  case (Cons n ns)
  then obtain k' where k: "k = Suc k'" by (cases k) auto
  obtain es where d: "draw_task key h n st = Some (Inr (None, (add_new (plain_line key h n) (fst st), es)))"
    "set es = set (plain_edges key h n) \<union> set (snd st)"
    using draw_task_plain[OF assms, of n key st] Cons.prems by auto
  show ?case using Cons.IH[of k' "(add_new (plain_line key h n) (fst st), es)"] Cons.prems d k by auto
qed

section \<open>A drawing that never ends\<close>

text \<open>A task that the parallel operator makes a sink is a group of its own, so the traversal starts again at the same task.\<close>

lemma parallel_sink_restarts:
  assumes "parent_node (h ! n) = Some p" "get_pointer_type_to_this_event h n = Some (Pipe PT_PARALLELISM)"
    and "on_success_pipe (h ! p) \<noteq> Some PT_PARALLELISM" "on_success_pipe (h ! n) \<noteq> Some PT_PARALLELISM"
  shows "\<exists>st'. draw_task key h n st = Some (Inr (Some n, st'))"
proof -
  have par: "is_parallel_execution_node h n" using assms(2) by (simp add: is_parallel_execution_node_def)
  then have g: "get_parallel_nodes h n = Some (Some [Some n])"
    using assms(4) by (simp add: get_parallel_nodes_def parallel_chain_def)
  have "\<exists>line. get_dot_node_data key h n = Some (Inr (Some line))" using g by (auto simp: get_dot_node_data_def group_line_def)
  then show ?thesis using par g assms
    by (auto simp: draw_task_def already_drawn_def draw_group_def process_parallel_nodes_def group_line_def)
qed

lemma draw_loop_stuck:
  assumes "\<And>st. \<exists>st'. draw_task key h n st = Some (Inr (Some n, st'))" "bf_traversal h n = Some (n # ms)"
  shows "draw_loop k key h (n # ns) st = None"
proof (induction k arbitrary: ns st)
  case (Suc k)
  obtain st' where "draw_task key h n st = Some (Inr (Some n, st'))" using assms(1) by blast
  then show ?case using Suc.IH assms(2) by simp
qed simp

text \<open>The tasks of \<open>s(0 op0 a, 1 op1 b) || c\<close>: the conditional is task 2, its sink task 3.\<close>

lemma parallel_sink_heap:
  assumes "arrow op0" "arrow op1" and h: "h = cond_heap s op0 a op1 b ''||'' c"
  shows "bf_traversal h 2 = Some [2, 0, 3, 1]" "bf_traversal h 3 = Some [3]" "get_root h 2 = Some 2"
    and "get_children (h ! 2) = [0, 3, 1]" "get_children (h ! 0) = []"
    and "parent_node (h ! 3) = Some 2" "get_pointer_type_to_this_event h 3 = Some (Pipe PT_PARALLELISM)"
    and "on_success_pipe (h ! 2) \<noteq> Some PT_PARALLELISM" "on_success_pipe (h ! 3) \<noteq> Some PT_PARALLELISM"
    and "n \<in> {2, 0, 1} \<Longrightarrow> \<not> is_parallel_execution_node h n \<and> \<not> already_drawn h n"
proof -
  have pipe: "binop_pipe ''||'' = PT_PARALLELISM" "binop_pipe op0 \<noteq> PT_PARALLELISM" "binop_pipe op1 \<noteq> PT_PARALLELISM"
    using assms(1,2) by (auto simp: binop_pipe_def arrow_def)
  have tasks: "h ! 0 = (new_task a)\<lparr>parent_node := Some 2, descriptor := Some 0, descriptor_pipe := Some op0\<rparr>"
    "h ! 1 = (new_task b)\<lparr>parent_node := Some 2, descriptor := Some 1, descriptor_pipe := Some op1\<rparr>"
    "h ! 2 = (new_task s)\<lparr>on_failure_event := Some 0, on_failure_pipe := Some (binop_pipe op0), on_success_event := Some 1,
        on_success_pipe := Some (binop_pipe op1), sink_node := Some 3, sink_pipe := Some PT_PARALLELISM\<rparr>"
    "h ! 3 = (new_task c)\<lparr>parent_node := Some 2\<rparr>" and len: "length h = Suc (Suc (Suc (Suc 0)))"
    unfolding h cond_heap_def pipe(1) by simp_all
  show kids: "get_children (h ! 2) = [0, 3, 1]" "get_children (h ! 0) = []"
    unfolding tasks by (simp_all add: get_children_def new_task_def get_descriptors_def)
  have "get_children (h ! Suc 0) = []" "get_children (h ! 3) = []"
    unfolding tasks One_nat_def[symmetric] by (simp_all add: get_children_def new_task_def get_descriptors_def)
  with kids show "bf_traversal h 2 = Some [2, 0, 3, 1]" "bf_traversal h 3 = Some [3]"
    unfolding bf_traversal_def len by simp_all
  show "get_root h 2 = Some 2" by (simp add: get_root_def tasks(3) new_task_def)
  show "parent_node (h ! 3) = Some 2" "get_pointer_type_to_this_event h 3 = Some (Pipe PT_PARALLELISM)"
    "on_success_pipe (h ! 2) \<noteq> Some PT_PARALLELISM" "on_success_pipe (h ! 3) \<noteq> Some PT_PARALLELISM"
    using pipe by (simp_all add: tasks new_task_def get_pointer_type_to_this_event_def)
  show "n \<in> {2, 0, 1} \<Longrightarrow> \<not> is_parallel_execution_node h n \<and> \<not> already_drawn h n"
    using pipe by (auto simp: is_parallel_execution_node_def already_drawn_def get_pointer_type_to_this_event_def tasks tasks(2)[unfolded One_nat_def] new_task_def)
qed

lemma dot_never_ends:
  assumes "is_name s" "is_name a" "is_name b" "is_name c" and "arrow op0" "arrow op1"
    and "build_pipeline_from_execution_code (print_pointy (BinOp ''||'' (cond_ast s op0 a op1 b) (TaskName c))) = Inr (r, h)"
  shows "generate_dot_from_task_state k key h r = None"
proof -
  have h: "h = cond_heap s op0 a op1 b ''||'' c" "r = 2"
    using build_conditional[OF assms(1-6), of "''||''"] assms(7) by (simp_all add: connective_def)
  note f = parallel_sink_heap[OF assms(5,6) h(1)]
  note restarts = parallel_sink_restarts[OF f(6-9)]
  have par: "is_parallel_execution_node h 3" "get_parallel_nodes h 3 = Some (Some [Some 3])"
    using f(7,9) by (simp_all add: is_parallel_execution_node_def get_parallel_nodes_def parallel_chain_def)
  have child: "\<exists>st'. draw_child key h 2 n st = Some (Inr st')" if "n \<in> {0, 3, 1}" for n st
    using that f(10) par by (auto simp: draw_child_def process_parallel_nodes_def group_line_def)
  have kids_drawn: "\<exists>st'. draw_children key h 2 ns st = Some (Inr st')" if "set ns \<subseteq> {0, 3, 1}" for ns st
    using that
  proof (induction ns arbitrary: st)
    case (Cons n ns)
    obtain st' where "draw_child key h 2 n st = Some (Inr st')" using child[of n st] Cons.prems by (meson list.set_intros(1) subsetD)
    then show ?case using Cons.IH[of st'] Cons.prems by simp
  qed simp
  have drawn: "\<exists>st'. draw_task key h n st = Some (Inr (None, st'))" if n: "n \<in> {2, 0}" for n st
  proof -
    obtain l where l: "get_dot_node_data key h n = Some (Inr (Some l))" using n f(10)[of n] node_data_plain[of h n key] by blast
    obtain st' where "draw_children key h n (get_children (h ! n)) (add_new l (fst st), snd st) = Some (Inr st')"
      using n kids_drawn[of "[0, 3, 1]" "(add_new l (fst st), snd st)"] f(4,5) by auto
    then show ?thesis using l n f(10)[of n] by (auto simp: draw_task_def add_text_def)
  qed
  have pass: "draw_loop k' key h (n # ns) st = None" if "n \<in> {2, 0}" "\<And>k st. draw_loop k key h ns st = None" for k' n ns st
    using drawn[OF that(1), of st] that(2) by (cases k') auto
  have "draw_loop k key h [2, 0, 3, 1] ([], []) = None"
    by (intro pass draw_loop_stuck[OF restarts f(2)]) simp_all
  then show ?thesis using f(1,3) by (simp add: generate_dot_from_task_state_def collect_drawing_def h(2))
qed

text \<open>Starting again at the end of a group drops what was left of the traversal: in \<open>A(0->B||C,1->D->E)\<close> the link from
  \<open>D\<close> to \<open>E\<close> is not drawn.\<close>

lemma dot_drops_branch:
  "case build_pipeline_from_execution_code ''A(0->B||C,1->D->E)'' of
     Inl _ \<Rightarrow> False
   | Inr (r, h) \<Rightarrow>
       (case collect_drawing 20 (\<lambda>n. [char_of (97 + n)]) h r of
          Some (Inr (nodes, es)) \<Rightarrow> 3 \<in> set (get_children (h ! 2)) \<and> dot_edge ''c'' ''d'' None \<notin> set es
        | _ \<Rightarrow> False)"
  by code_simp

section \<open>Properties\<close>

text \<open>C35. Drawing a pipeline: when no conditional of the pipeline is joined to its sink by the parallel operator, the loop over
  the traversal ends and the drawing is made without an exception, although the loop starts new traversals; as many turns as there are tasks are
  enough. When the pipeline has no parallel operator at all, the drawing shows exactly the pipeline: a node for
  each task, with the shape of its kind, and an edge for each link from a task to a child, with the descriptor
  of the child.\<close>

theorem dot_drawing:
  assumes "build_pipeline_from_execution_code code = Inr (r, h)" and "list_all (\<lambda>u. \<not> parallel_sink u) h"
    and "bf_traversal h r = Some ts"
  shows "\<exists>nodes es. generate_dot_from_task_state (length h) key h r = Some (Inr (dot_text (nodes, es))) \<and>
    collect_drawing (length h) key h r = Some (Inr (nodes, es)) \<and>
    (no_parallel h \<longrightarrow> set nodes = plain_line key h ` set ts \<and> set es = (\<Union>n \<in> set ts. set (plain_edges key h n)))"
proof -
  obtain t where t: "tid t = r" "task_tree 0 h t" using build_task_tree[OF assms(1)] by blast
  then have rp: "repr h None t" "distinct (ids t)" by (auto simp: task_tree_def)
  have dr: "drawable h t" using t(2) build_pipes[OF assms(1)] assms(2) by (simp add: drawable_def)
  have ts: "ts = ids t" using bf_traversal_tree[OF rp] t(1) assms(3) by simp
  have len: "length (ids t) \<le> length h" using length_ids_bound[OF rp] .
  have c: "collect_drawing (length h) key h r = draw_loop (length h) key h (ids t) ([], [])"
    using get_root_tree[OF rp tid_in_ids] t(1) assms(3) ts by (simp add: collect_drawing_def)
  show ?thesis
  proof (cases "no_parallel h")
    case True
    with draw_loop_plain[OF dr True subset_refl len, of key "([], [])"] c ts show ?thesis
      by (auto simp: generate_dot_from_task_state_def)
  next
    case False
    have "roomy t (ids t)" using roomy_below[OF t(2) tid_in_ids, of "[]"] by (simp add: below_root)
    from draw_loop_returns[OF dr this len, of key "([], [])"] False c show ?thesis
      by (auto simp: generate_dot_from_task_state_def)
  qed
qed

theorem dot_drawing_witness:
  "\<exists>nodes es. collect_drawing 3 (\<lambda>n. [char_of (97 + n)]) (chain_heap ''A'' [(''->'', ''B''), (''|->'', ''C'')]) 0 = Some (Inr (nodes, es)) \<and>
     dot_edge ''a'' ''b'' None \<in> set es \<and> dot_edge ''b'' ''c'' None \<in> set es"
proof -
  let ?xs = "[(''->'', ''B''), (''|->'', ''C'')]" and ?h = "chain_heap ''A'' [(''->'', ''B''), (''|->'', ''C'')]"
  let ?key = "\<lambda>n. [char_of (97 + n)]"
  have b: "build_pipeline_from_execution_code (print_pointy (chain_ast (TaskName ''A'') ?xs)) = Inr (0, ?h)"
    by (rule build_chain) code_simp+
  have "list_all (\<lambda>u. \<not> parallel_sink u) ?h" by code_simp
  moreover have "bf_traversal ?h 0 = Some [0, 1, 2]" by code_simp
  moreover have "no_parallel ?h" by code_simp
  moreover have "length ?h = 3" by code_simp
  moreover have "dot_edge ''a'' ''b'' None \<in> set (plain_edges ?key ?h 0)" by code_simp
  moreover have "dot_edge ''b'' ''c'' None \<in> set (plain_edges ?key ?h 1)" by code_simp
  ultimately show ?thesis using dot_drawing[OF b, of "[0, 1, 2]" ?key] by (auto simp: numeral_3_eq_3)
qed

end
