(* ===== verification/Call_Args.thy ===== *)
theory Call_Args
  imports Values
begin

text \<open>
  Arguments taken from a signature, \<open>get_function_call_args\<close>, \<open>get_expected_args\<close> and \<open>build_event_arguments_from_pipeline\<close> of
  \<^verbatim>\<open>src/nexus/utils.py\<close>, and the schedules of \<^verbatim>\<open>src/nexus/mixins/schedule.py\<close>, which check their trigger with them.
\<close>

section \<open>Arguments from a signature\<close>

text \<open>\<open>pr_default\<close> is \<open>None\<close> for a parameter without a default. \<open>EMPTY\<close> is the marker class of \<^verbatim>\<open>constants.py\<close>, an object of class \<open>type\<close>.\<close>

record sig_param =
  pr_name :: string
  pr_default :: "pyval option"

definition EMPTY :: pyval where
  "EMPTY = PObj ''type'' [(''__qualname__'', PStr ''EMPTY'')]"

text \<open>\<open>pick\<close> looks a name up among the arguments at hand: a dictionary, or the attributes of an object. \<open>signature\<close> raises ValueError or TypeError
  for objects without one.\<close>

definition argument :: "(string \<Rightarrow> pyval option) \<Rightarrow> sig_param \<Rightarrow> pyval" where
  "argument pick p =
     (case (case pick (pr_name p) of None \<Rightarrow> pr_default p | Some v \<Rightarrow> Some v) of
        None \<Rightarrow> PNone
      | Some v \<Rightarrow> if v = EMPTY then PNone else v)"

definition drop_if_none :: "string \<Rightarrow> (string, pyval) dict \<Rightarrow> (string, pyval) dict" where
  "drop_if_none k d = (if dict_get d k = Some PNone then dict_del k d else d)"

definition collect_arguments :: "sig_param list \<Rightarrow> (string \<Rightarrow> pyval option) \<Rightarrow> (string, pyval) dict" where
  "collect_arguments ps pick =
     foldl (\<lambda>d p. if pr_name p \<noteq> ''self'' then dict_set (pr_name p) (argument pick p) d else d) [] ps"

definition get_function_call_args :: "exc_class + sig_param list \<Rightarrow> (string \<Rightarrow> pyval option) \<Rightarrow> exc_class + (string, pyval) dict" where
  "get_function_call_args sig pick =
     bind_res
       (case sig of
          Inl e \<Rightarrow> (if is_subclass e ValueError \<or> is_subclass e KeyError then Inr [] else Inl e)
        | Inr ps \<Rightarrow> Inr (collect_arguments ps pick))
       (\<lambda>d. Inr (drop_if_none ''kwargs'' (drop_if_none ''args'' d)))"

definition build_event_arguments_from_pipeline ::
  "exc_class + sig_param list \<Rightarrow> exc_class + sig_param list \<Rightarrow> (string \<Rightarrow> pyval option) \<Rightarrow>
   exc_class + ((string, pyval) dict \<times> (string, pyval) dict)" where
  "build_event_arguments_from_pipeline init process pick =
     bind_res (get_function_call_args init pick) (\<lambda>a. bind_res (get_function_call_args process pick) (\<lambda>b. Inr (a, b)))"

text \<open>With \<open>include_type\<close> the values are the annotations, here \<open>ann\<close>; without, the defaults, or the name of \<open>Parameter.empty\<close>, which is \<open>_empty\<close>.\<close>

definition get_expected_args :: "(string \<Rightarrow> pyval) \<Rightarrow> bool \<Rightarrow> sig_param list \<Rightarrow> (string, pyval) dict" where
  "get_expected_args ann include_type ps =
     foldl (\<lambda>d p.
       if pr_name p = ''self'' then d
       else dict_set (pr_name p)
              (if include_type then ann (pr_name p) else (case pr_default p of None \<Rightarrow> PStr ''_empty'' | Some v \<Rightarrow> v)) d) [] ps"

section \<open>The context of an executor\<close>

text \<open>\<open>xc_spawns\<close>: the class is \<open>ProcessPoolExecutor\<close> or \<open>RemoteExecutor\<close>; \<open>xc_get_context\<close> is what its own \<open>get_context("spawn")\<close> returns, where it
  has that method. \<open>spawn\<close> is the context of \<open>multiprocessing\<close>.\<close>

record executor_class =
  xc_spawns :: bool
  xc_get_context :: "pyval option"
  xc_signature :: "exc_class + sig_param list"

text \<open>The configuration of an event: an \<open>ExecutorInitializerConfig\<close>, a dictionary for one, or none. An initializer configuration is the dictionary of
  its attributes, \<open>new_config\<close> its constructor.\<close>

datatype executor_config = NoConfig | ConfigDict "(string, pyval) dict" | Config "(string, pyval) dict"

definition get_executor_initializer_config ::
  "((string, pyval) dict \<Rightarrow> exc_class + (string, pyval) dict) \<Rightarrow> executor_config \<Rightarrow> exc_class + (string, pyval) dict" where
  "get_executor_initializer_config new_config c =
     (case c of
        NoConfig \<Rightarrow> new_config []
      | ConfigDict d \<Rightarrow> new_config d
      | Config a \<Rightarrow> Inr a)"

definition get_executor_context ::
  "pyval \<Rightarrow> ((string, pyval) dict \<Rightarrow> exc_class + (string, pyval) dict) \<Rightarrow> executor_class \<Rightarrow> executor_config \<Rightarrow> exc_class + (string, pyval) dict" where
  "get_executor_context spawn new_config k c =
     (let context = (if xc_spawns k then [(''mp_context'', spawn)]
                     else (case xc_get_context k of None \<Rightarrow> [] | Some v \<Rightarrow> [(''mp_context'', v)]))
      in bind_res (get_executor_initializer_config new_config c) (\<lambda>a.
         bind_res (get_function_call_args (xc_signature k) (dict_get a)) (\<lambda>params.
           Inr (dict_update context params))))"

section \<open>Schedules\<close>

datatype schedule_trigger = DATE | INTERVAL | CRON

fun trigger_value :: "schedule_trigger \<Rightarrow> string" where
  "trigger_value DATE = ''date''"
| "trigger_value INTERVAL = ''interval''"
| "trigger_value CRON = ''cron''"

text \<open>The scheduler of APScheduler: the signatures of its triggers, adding a job, whether it runs, and starting it.\<close>

record 's scheduler =
  sc_signature :: "schedule_trigger \<Rightarrow> sig_param list"
  sc_add_job :: "string \<Rightarrow> string \<Rightarrow> string \<Rightarrow> (string, pyval) dict \<Rightarrow> 's \<Rightarrow> exc_class + 's"
  sc_running :: "'s \<Rightarrow> bool"
  sc_start :: "'s \<Rightarrow> 's"

definition validate_trigger_args :: "'s scheduler \<Rightarrow> schedule_trigger \<Rightarrow> (string, pyval) dict \<Rightarrow> exc_class + unit" where
  "validate_trigger_args sc trigger args =
     bind_res (get_function_call_args (Inr (sc_signature sc trigger)) (dict_get args)) (\<lambda>ps.
       if ps = [] \<or> \<not> list_ex truthy (dict_values ps) then Inl ValidationError else Inr ())"

definition schedule_job :: "'s scheduler \<Rightarrow> string \<Rightarrow> string \<Rightarrow> schedule_trigger \<Rightarrow> (string, pyval) dict \<Rightarrow> 's \<Rightarrow> exc_class + 's" where
  "schedule_job sc pipeline_id klass trigger args s =
     bind_res (validate_trigger_args sc trigger args) (\<lambda>_.
     bind_res (sc_add_job sc (trigger_value trigger) pipeline_id klass args s) (\<lambda>s'.
       Inr (if sc_running sc s' then s' else sc_start sc s')))"

text \<open>What a job does when its time comes.\<close>

datatype job_action = Execute_Batch | Start_Pipeline bool

definition run_job :: "bool \<Rightarrow> job_action" where
  "run_job is_batch = (if is_batch then Execute_Batch else Start_Pipeline True)"

section \<open>Lemmas\<close>

lemma collect_arguments_get:
  assumes "distinct (map pr_name ps)"
  shows "dict_get (collect_arguments ps pick) k =
    (if k = ''self'' then None else map_option (argument pick) (find (\<lambda>p. pr_name p = k) ps))"
  using assms
proof (induction ps rule: rev_induct)
  case (snoc p ps)
  have snoc_find: "find P (xs @ [x]) = (case find P xs of None \<Rightarrow> if P x then Some x else None | Some y \<Rightarrow> Some y)"
    for P :: "sig_param \<Rightarrow> bool" and xs x by (induction xs) auto
  have "pr_name p \<notin> pr_name ` set ps" using snoc.prems by simp
  then have "find (\<lambda>q. pr_name q = pr_name p) ps = None" unfolding find_None_iff by (metis image_eqI)
  with snoc show ?case by (auto simp: collect_arguments_def dict_simps snoc_find split: option.splits)
qed (simp add: collect_arguments_def)

text \<open>The arguments of a function are its parameters other than \<open>self\<close>, each with the value at hand, its default or None; \<open>args\<close> and \<open>kwargs\<close> are
  left out when they have no value.\<close>

lemma function_call_args_get:
  assumes "distinct (map pr_name ps)" "get_function_call_args (Inr ps) pick = Inr d"
  shows "dict_get d k =
    (case (if k = ''self'' then None else map_option (argument pick) (find (\<lambda>p. pr_name p = k) ps)) of
       None \<Rightarrow> None
     | Some v \<Rightarrow> if v = PNone \<and> (k = ''args'' \<or> k = ''kwargs'') then None else Some v)"
proof -
  have d: "d = drop_if_none ''kwargs'' (drop_if_none ''args'' (collect_arguments ps pick))"
    using assms(2) by (simp add: get_function_call_args_def)
  show ?thesis
    unfolding d drop_if_none_def using collect_arguments_get[OF assms(1), of pick]
    by (simp add: dict_simps split: option.split)
qed

lemma collect_arguments_ok: "dict_ok (collect_arguments ps pick)"
proof (induction ps rule: rev_induct)
  case (snoc p ps)
  then show ?case by (simp add: collect_arguments_def)
qed (simp add: collect_arguments_def dict_ok_def)

lemma function_call_args_ok: "get_function_call_args (Inr ps) pick = Inr d \<Longrightarrow> dict_ok d"
  by (auto simp: get_function_call_args_def drop_if_none_def collect_arguments_ok)

text \<open>The constructor of a process pool has a parameter \<open>mp_context\<close> that defaults to None, and an initializer configuration has no such attribute: the None among
  the collected arguments replaces the context that was put in first.\<close>

lemma executor_context_lost:
  assumes "xc_signature k = Inr ps" "distinct (map pr_name ps)" "\<lparr>pr_name = ''mp_context'', pr_default = Some PNone\<rparr> \<in> set ps"
    and "get_executor_initializer_config new_config c = Inr a" "dict_get a ''mp_context'' = None"
    and "get_executor_context spawn new_config k c = Inr context"
  shows "dict_get context ''mp_context'' = Some PNone"
proof -
  obtain params where p: "get_function_call_args (Inr ps) (dict_get a) = Inr params"
    using assms(1,4,6) by (auto simp: get_executor_context_def Let_def res_simps)
  have "find (\<lambda>q. pr_name q = ''mp_context'') ps = Some \<lparr>pr_name = ''mp_context'', pr_default = Some PNone\<rparr>"
  proof -
    obtain q where q: "find (\<lambda>q. pr_name q = ''mp_context'') ps = Some q"
      using assms(3) by (cases "find (\<lambda>q. pr_name q = ''mp_context'') ps") (auto simp: find_None_iff)
    then have "q \<in> set ps" "pr_name q = ''mp_context''" by (auto simp: find_Some_iff)
    with assms(2,3) have "q = \<lparr>pr_name = ''mp_context'', pr_default = Some PNone\<rparr>"
      by (metis (no_types) inj_onD distinct_map sig_param.select_convs(1))
    with q show ?thesis by simp
  qed
  then have "dict_get params ''mp_context'' = Some PNone"
    using function_call_args_get[OF assms(2) p, of "''mp_context''"] assms(5) by (simp add: argument_def EMPTY_def)
  moreover have "context = dict_update (if xc_spawns k then [(''mp_context'', spawn)]
      else (case xc_get_context k of None \<Rightarrow> [] | Some v \<Rightarrow> [(''mp_context'', v)])) params"
    using assms(1,4,6) p by (simp add: get_executor_context_def Let_def)
  ultimately show ?thesis using function_call_args_ok[OF p] by (simp add: dict_get_update)
qed

text \<open>A trigger is accepted exactly when one of its parameters gets a true value, from the arguments or as a default.\<close>

lemma argument_true: "truthy (argument pick p) \<Longrightarrow> \<exists>v. truthy v \<and> (pick (pr_name p) = Some v \<or> pr_default p = Some v)"
  by (auto simp: argument_def split: option.splits if_splits)

lemma schedule_without_arguments:
  assumes "\<And>p. p \<in> set (sc_signature sc trigger) \<Longrightarrow> pr_name p \<noteq> ''self'' \<Longrightarrow> \<not> truthy (argument (dict_get args) p)"
  shows "schedule_job sc i klass trigger args s = Inl ValidationError"
proof -
  let ?d = "collect_arguments (sc_signature sc trigger) (dict_get args)"
  have "\<exists>p \<in> set ps. pr_name p \<noteq> ''self'' \<and> x = argument (dict_get args) p"
    if "x \<in> set (dict_values (collect_arguments ps (dict_get args)))" for ps x
    using that
  proof (induction ps rule: rev_induct)
    case (snoc p ps)
    show ?case
    proof (cases "pr_name p = ''self''")
      case False
      then have "x = argument (dict_get args) p \<or> x \<in> set (dict_values (collect_arguments ps (dict_get args)))"
        using snoc.prems subsetD[OF dict_set_values, of x "pr_name p" "argument (dict_get args) p" "collect_arguments ps (dict_get args)"]
        by (simp add: collect_arguments_def)
      then show ?thesis using snoc.IH False by auto
    qed (use snoc in \<open>auto simp: collect_arguments_def\<close>)
  qed (simp add: collect_arguments_def)
  then have all: "\<not> truthy x" if "x \<in> set (dict_values ?d)" for x using that assms by blast
  have sub: "set (drop_if_none k d) \<subseteq> set d" for k d by (auto simp: drop_if_none_def AList.delete_eq)
  have "\<not> list_ex truthy (dict_values (drop_if_none ''kwargs'' (drop_if_none ''args'' ?d)))"
    using all sub[of "''kwargs''" "drop_if_none ''args'' ?d"] sub[of "''args''" ?d] by (auto simp: list_ex_iff)
  then show ?thesis by (simp add: schedule_job_def validate_trigger_args_def get_function_call_args_def)
qed

text \<open>After a job was scheduled the scheduler runs.\<close>

lemma schedule_runs:
  assumes "\<And>s. sc_running sc (sc_start sc s)" "schedule_job sc i klass trigger args s = Inr s'"
  shows "sc_running sc s'"
  using assms by (auto simp: schedule_job_def res_simps)

end
