(* ===== verification/Config.thy ===== *)
theory Config
  imports Values
begin

text \<open>
  Configuration and imports: \<^verbatim>\<open>src/nexus/conf.py\<close>, \<^verbatim>\<open>src/nexus/settings.py\<close> and \<^verbatim>\<open>src/nexus/import_utils.py\<close>.

  The loader collects the settings of several modules into one dictionary: the defaults, a file found near the current directory,
  the file named by the environment and the file given by the caller. Later ones replace the settings of earlier
  ones (\<open>config_layers\<close>). The file system, the environment and the interpreter are the record \<open>config_env\<close>.
\<close>

section \<open>Importing by name\<close>

record import_env =
  im_ready :: "string \<Rightarrow> bool"
  im_load :: "string \<Rightarrow> exc_class + unit"
  im_attr :: "string \<Rightarrow> string \<Rightarrow> pyval option"

text \<open>\<open>cached_import\<close>: a module that is not in \<open>sys.modules\<close>, or is still being initialised, is imported first.\<close>

definition cached_import :: "import_env \<Rightarrow> string \<Rightarrow> string \<Rightarrow> exc_class + pyval" where
  "cached_import im module_path class_name =
     bind_res (if im_ready im module_path then Inr () else im_load im module_path) (\<lambda>_.
       of_option AttributeError (im_attr im module_path class_name))"

definition import_string :: "import_env \<Rightarrow> string \<Rightarrow> exc_class + pyval" where
  "import_string im dotted_path =
     (case rsplit_dot dotted_path of
        None \<Rightarrow> Inl ImportError
      | Some (module_path, class_name) \<Rightarrow>
          (case cached_import im module_path class_name of
             Inl e \<Rightarrow> Inl (if is_subclass e AttributeError then ImportError else e)
           | Inr v \<Rightarrow> Inr v))"

section \<open>The loader\<close>

text \<open>A module is the list of its names in the order of \<open>dir\<close>, with their values; \<open>cf_callable\<close> is Python's \<open>callable\<close>.
  \<open>cf_exec\<close> executes a file as a module: \<open>None\<close> where there is no loader for it.\<close>

type_synonym pymodule = "(string \<times> pyval) list"

abbreviation ModuleMissing :: exc_class where
  "ModuleMissing \<equiv> UserExc ''ModuleNotFoundError'' ImportError"

abbreviation PermissionDenied :: exc_class where
  "PermissionDenied \<equiv> UserExc ''PermissionError'' Exception"

abbreviation FileMissing :: exc_class where
  "FileMissing \<equiv> UserExc ''FileNotFoundError'' Exception"

record config_env =
  cf_environ :: "(string, string) dict"
  cf_isfile :: "string \<Rightarrow> bool"
  cf_isdir :: "string \<Rightarrow> bool"
  cf_exists :: "string \<Rightarrow> bool"
  cf_listdir :: "string \<Rightarrow> exc_class + string list"
  cf_exec :: "string \<Rightarrow> exc_class + pymodule option"
  cf_callable :: "pyval \<Rightarrow> bool"
  cf_defaults :: pymodule

type_synonym config = "(string, pyval) dict"

definition is_setting :: "config_env \<Rightarrow> string \<times> pyval \<Rightarrow> bool" where
  "is_setting env x \<longleftrightarrow> \<not> str_startswith (fst x) ''__'' \<and> \<not> cf_callable env (snd x)"

definition load_module :: "config_env \<Rightarrow> pymodule \<Rightarrow> config \<Rightarrow> config" where
  "load_module env m cfg = foldl (\<lambda>cfg (n, v). if is_setting env (n, v) then dict_set (str_upper n) v cfg else cfg) cfg m"

definition config_in :: "config_env \<Rightarrow> string \<Rightarrow> string option" where
  "config_in env dir = (let path = path_join dir ''settings.py'' in if cf_isfile env path then Some path else None)"

fun first_some :: "('a \<Rightarrow> 'b option) \<Rightarrow> 'a list \<Rightarrow> 'b option" where
  "first_some f [] = None"
| "first_some f (x # xs) = (case f x of None \<Rightarrow> first_some f xs | Some y \<Rightarrow> Some y)"

text \<open>\<open>_search_for_config_file_in_current_directory\<close>: the directory and then its direct subdirectories.\<close>

definition search_for_config_file :: "config_env \<Rightarrow> exc_class + string option" where
  "search_for_config_file env =
     (let dir = (case dict_get (cf_environ env) ''EVENT_PIPELINE_CONFIG_DIR'' of None \<Rightarrow> ''.'' | Some d \<Rightarrow> d)
      in case config_in env dir of
           Some path \<Rightarrow> Inr (Some path)
         | None \<Rightarrow>
             (case cf_listdir env dir of
                Inl e \<Rightarrow> (if is_subclass e PermissionDenied \<or> is_subclass e FileMissing then Inr None else Inl e)
              | Inr items \<Rightarrow>
                  Inr (first_some (\<lambda>item. let sub = path_join dir item in if cf_isdir env sub then config_in env sub else None) items)))"

definition get_config_files :: "config_env \<Rightarrow> string option \<Rightarrow> exc_class + string list" where
  "get_config_files env config_file =
     bind_res (search_for_config_file env) (\<lambda>found.
       Inr ((case found of None \<Rightarrow> [] | Some f \<Rightarrow> if f = '''' then [] else [f]) @
            (case dict_get (cf_environ env) ''EVENT_PIPELINE_CONFIG'' of None \<Rightarrow> [] | Some f \<Rightarrow> [f]) @
            (case config_file of None \<Rightarrow> [] | Some f \<Rightarrow> if f = '''' then [] else [f])))"

text \<open>\<open>load_from_file\<close>: a file that does not exist, has no loader or misses a module leaves the configuration as it is.\<close>

definition file_layer :: "config_env \<Rightarrow> string \<Rightarrow> exc_class + pymodule" where
  "file_layer env f =
     (if \<not> cf_exists env f then Inr []
      else
        (case cf_exec env f of
           Inl e \<Rightarrow> (if is_subclass e ModuleMissing then Inr [] else Inl e)
         | Inr None \<Rightarrow> Inr []
         | Inr (Some m) \<Rightarrow> Inr m))"

definition load_from_file :: "config_env \<Rightarrow> string \<Rightarrow> config \<Rightarrow> exc_class + config" where
  "load_from_file env f cfg = bind_res (file_layer env f) (\<lambda>m. Inr (load_module env m cfg))"

fun load_files :: "config_env \<Rightarrow> string list \<Rightarrow> config \<Rightarrow> exc_class + config" where
  "load_files env [] cfg = Inr cfg"
| "load_files env (f # fs) cfg = bind_res (load_from_file env f cfg) (load_files env fs)"

definition mk_config :: "config_env \<Rightarrow> string option \<Rightarrow> exc_class + config" where
  "mk_config env config_file =
     bind_res (get_config_files env config_file) (\<lambda>fs. load_files env fs (load_module env (cf_defaults env) []))"

definition config_get :: "config_env \<Rightarrow> config \<Rightarrow> string \<Rightarrow> pyval \<Rightarrow> exc_class + pyval" where
  "config_get env cfg key dflt =
     (let v = (case dict_get cfg key of None \<Rightarrow> dflt | Some x \<Rightarrow> x);
          w = (if v = PNone then (case dict_get (cf_environ env) key of None \<Rightarrow> PNone | Some s \<Rightarrow> PStr s) else v)
      in if w = PNone then Inl AttributeError else Inr w)"

definition config_getattr :: "config_env \<Rightarrow> config \<Rightarrow> string \<Rightarrow> exc_class + pyval" where
  "config_getattr env cfg item =
     (if str_startswith item ''_'' then Inl AttributeError else config_get env cfg (str_upper item) PNone)"

text \<open>\<open>get_lazily_loaded_config\<close>: the configuration of the process and the result.\<close>

definition get_lazily_loaded_config :: "config_env \<Rightarrow> string option \<Rightarrow> config option \<Rightarrow> (exc_class + config) \<times> config option" where
  "get_lazily_loaded_config env config_file current =
     (case current of
        Some c \<Rightarrow> (Inr c, current)
      | None \<Rightarrow> (case mk_config env config_file of Inl e \<Rightarrow> (Inl e, None) | Inr c \<Rightarrow> (Inr c, Some c)))"

section \<open>Layers\<close>

lemma first_some_snoc: "first_some f (xs @ [x]) = (case first_some f xs of None \<Rightarrow> f x | Some y \<Rightarrow> Some y)"
  by (induction xs) (auto split: option.split)

text \<open>What a layer says about a key: its last setting with that name in upper case.\<close>

definition layer_value :: "config_env \<Rightarrow> string \<Rightarrow> pymodule \<Rightarrow> pyval option" where
  "layer_value env key m = map_option snd (find (\<lambda>x. is_setting env x \<and> str_upper (fst x) = key) (rev m))"

lemma load_module_get:
  "dict_get (load_module env m cfg) key = (case layer_value env key m of None \<Rightarrow> dict_get cfg key | Some v \<Rightarrow> Some v)"
proof (induction m rule: rev_induct)
  case (snoc x m)
  then show ?case by (cases x) (auto simp: load_module_def layer_value_def dict_simps)
qed (simp add: load_module_def layer_value_def)

fun layers_of :: "config_env \<Rightarrow> string list \<Rightarrow> exc_class + pymodule list" where
  "layers_of env [] = Inr []"
| "layers_of env (f # fs) = bind_res (file_layer env f) (\<lambda>m. bind_res (layers_of env fs) (\<lambda>ms. Inr (m # ms)))"

lemma load_files_get:
  assumes "load_files env fs cfg = Inr cfg'"
  shows "\<exists>ms. layers_of env fs = Inr ms \<and>
    dict_get cfg' key = (case first_some (layer_value env key) (rev ms) of None \<Rightarrow> dict_get cfg key | Some v \<Rightarrow> Some v)"
  using assms
proof (induction fs arbitrary: cfg)
  case (Cons f fs)
  from Cons.prems obtain m where m: "file_layer env f = Inr m" "load_files env fs (load_module env m cfg) = Inr cfg'"
    by (auto simp: load_from_file_def res_simps)
  from Cons.IH[OF m(2)] obtain ms where ms: "layers_of env fs = Inr ms"
    "dict_get cfg' key = (case first_some (layer_value env key) (rev ms) of None \<Rightarrow> dict_get (load_module env m cfg) key | Some v \<Rightarrow> Some v)"
    by blast
  with m(1) show ?case by (auto simp: load_module_get first_some_snoc split: option.split)
qed simp

text \<open>The value of a key is the one of the last layer that sets it: the file of the caller, the file of the environment, the file that was found,
  the defaults.\<close>

lemma config_layers:
  assumes "mk_config env config_file = Inr cfg"
  shows "\<exists>fs ms. get_config_files env config_file = Inr fs \<and> layers_of env fs = Inr ms \<and>
    dict_get cfg key = first_some (layer_value env key) (rev (cf_defaults env # ms))"
proof -
  from assms obtain fs where fs: "get_config_files env config_file = Inr fs" "load_files env fs (load_module env (cf_defaults env) []) = Inr cfg"
    by (auto simp: mk_config_def res_simps)
  with load_files_get[OF fs(2), of key] show ?thesis by (auto simp: load_module_get first_some_snoc split: option.splits)
qed

text \<open>A key is missing only when neither the files, the default of the caller nor the environment give it a value; None counts as
  no value.\<close>

lemma config_get_missing:
  "config_get env cfg key dflt = Inl e \<longleftrightarrow>
     e = AttributeError \<and> dict_get (cf_environ env) key = None \<and>
     (case dict_get cfg key of None \<Rightarrow> dflt = PNone | Some v \<Rightarrow> v = PNone)"
  by (auto simp: config_get_def Let_def split: option.splits if_splits)

text \<open>The first configuration that loads stays: later calls get it whatever file they name.\<close>

lemma lazily_loaded_stays:
  assumes "get_lazily_loaded_config env f current = (Inr c, current')"
  shows "get_lazily_loaded_config env' f' current' = (Inr c, current')"
  using assms by (auto simp: get_lazily_loaded_config_def split: option.splits sum.splits)

text \<open>A dotted path is imported from the part before its last dot; every failure to find the attribute is an ImportError.\<close>

lemma import_string_value:
  assumes "CHR ''.'' \<notin> set name" and "im_ready im path \<or> im_load im path = Inr ()"
  shows "import_string im (path @ ''.'' @ name) = of_option ImportError (im_attr im path name)"
proof -
  have "rsplit_dot (path @ ''.'' @ name) = Some (path, name)" using assms(1) by (simp add: rsplit_dot_iff)
  moreover have "is_subclass AttributeError AttributeError" by code_simp
  ultimately show ?thesis using assms(2)
    by (cases "im_attr im path name") (auto simp: import_string_def cached_import_def)
qed

lemma import_string_no_dot: "CHR ''.'' \<notin> set s \<Longrightarrow> import_string im s = Inl ImportError"
  by (simp add: import_string_def rsplit_dot_def)

end
