(* ===== verification/Result_State.thy ===== *)
theory Result_State
  imports Config Store
begin

text \<open>
  The state of a stored result and the making of a record: \<open>EventResult\<close> of \<^verbatim>\<open>src/nexus/result.py\<close>, \<open>__model_init__\<close>,
  \<open>__getstate__\<close> and \<open>__setstate__\<close> of \<^verbatim>\<open>src/nexus/mixins/backend.py\<close>, and the helpers of \<^verbatim>\<open>src/nexus/utils.py\<close> they call.

  An object is the dictionary of its attributes; a class is an object whose class is its metaclass.
\<close>

section \<open>Objects and their classes\<close>

record obj_env =
  oe_import :: import_env
  oe_builtin :: "pyval \<Rightarrow> bool"
  oe_klass :: "pyval \<Rightarrow> string \<times> string"
  oe_id :: "pyval \<Rightarrow> exc_class + string"
  oe_get_state :: "pyval \<Rightarrow> exc_class + pyval"
  oe_getstate :: "pyval \<Rightarrow> exc_class + pyval"
  oe_restore :: "pyval \<Rightarrow> pyval \<Rightarrow> exc_class + pyval"
  oe_as_dict :: "pyval \<Rightarrow> pyval option"

type_synonym attrs = "(string, pyval) dict"

definition get_obj_klass_import_str :: "obj_env \<Rightarrow> pyval \<Rightarrow> string" where
  "get_obj_klass_import_str env v = fst (oe_klass env v) @ ''.'' @ snd (oe_klass env v)"

definition get_obj_state :: "obj_env \<Rightarrow> pyval \<Rightarrow> exc_class + pyval" where
  "get_obj_state env v =
     (case oe_get_state env v of
        Inl e \<Rightarrow> (if is_subclass e AttributeError \<or> is_subclass e NotImplementedError then oe_getstate env v else Inl e)
      | Inr s \<Rightarrow> Inr s)"

text \<open>\<open>import_string\<close> of a value that should be a string; others have no \<open>rsplit\<close>.\<close>

definition import_named :: "obj_env \<Rightarrow> pyval \<Rightarrow> exc_class + pyval" where
  "import_named env b = (case b of PStr s \<Rightarrow> import_string (oe_import env) s | _ \<Rightarrow> Inl AttributeError)"

definition is_str :: "pyval \<Rightarrow> bool" where
  "is_str v = (case v of PStr _ \<Rightarrow> True | _ \<Rightarrow> False)"

section \<open>EventResult\<close>

text \<open>\<open>init_params\<close> as it is stored: a context object is replaced by its id, in the dictionary the result itself refers to. Empty parameters become
  a dictionary of their own.\<close>

definition stored_init_params :: "obj_env \<Rightarrow> pyval \<Rightarrow> exc_class + pyval" where
  "stored_init_params env p =
     (if truthy p then
        (case p of
           PDict d \<Rightarrow>
             (case dict_get d ''execution_context'' of
                None \<Rightarrow> Inr p
              | Some c \<Rightarrow>
                  (if truthy c \<and> \<not> is_str c
                   then bind_res (oe_id env c) (\<lambda>i. Inr (PDict (dict_set ''execution_context'' (PStr i) d)))
                   else Inr p))
         | _ \<Rightarrow> Inl AttributeError)
      else Inr (PDict [(''execution_context'', PDict [])]))"

definition stored_content :: "obj_env \<Rightarrow> pyval \<Rightarrow> attrs \<Rightarrow> exc_class + attrs" where
  "stored_content env c st =
     (if c \<noteq> PNone \<and> \<not> oe_builtin env c
      then bind_res (get_obj_state env c) (\<lambda>s.
        Inr (dict_set ''content'' (PDict [(''content_type_import_str'', PStr (get_obj_klass_import_str env c)), (''state'', s)]) st))
      else Inr st)"

text \<open>\<open>get_state\<close>: the state, and the attributes of the result afterwards.\<close>

definition result_get_state :: "obj_env \<Rightarrow> attrs \<Rightarrow> exc_class + (attrs \<times> attrs)" where
  "result_get_state env a =
     (let p = (case dict_get a ''init_params'' of None \<Rightarrow> PNone | Some x \<Rightarrow> x)
      in bind_res (stored_init_params env p) (\<lambda>p'.
         bind_res (of_option AttributeError (dict_get a ''content'')) (\<lambda>c.
         bind_res (stored_content env c (dict_del ''init_params'' a)) (\<lambda>st.
           Inr (dict_set ''init_params'' p' st, if truthy p then dict_set ''init_params'' p' a else a)))))"

definition restored_content :: "obj_env \<Rightarrow> attrs \<Rightarrow> exc_class + attrs" where
  "restored_content env st =
     (case dict_get st ''content'' of
        Some (PDict d) \<Rightarrow>
          (case dict_get d ''content_type_import_str'' of
             None \<Rightarrow> Inr st
           | Some s \<Rightarrow>
               bind_res (of_option KeyError (dict_get d ''state'')) (\<lambda>cs.
               bind_res (import_named env s) (\<lambda>k.
               bind_res (oe_restore env k cs) (\<lambda>v. Inr (dict_set ''content'' v st)))))
      | _ \<Rightarrow> Inr st)"

definition result_set_state :: "obj_env \<Rightarrow> attrs \<Rightarrow> attrs \<Rightarrow> exc_class + attrs" where
  "result_set_state env st a =
     bind_res (restored_content env (dict_del ''call_params'' (dict_del ''init_params'' st))) (\<lambda>st'. Inr (dict_update a st'))"

text \<open>\<open>as_dict\<close>: the fields of the model, and the attributes of the result afterwards. An exception as content is taken out before the
  fields are copied.\<close>

definition result_as_dict :: "obj_env \<Rightarrow> string list \<Rightarrow> attrs \<Rightarrow> exc_class + (attrs \<times> attrs)" where
  "result_as_dict env declared a =
     bind_res (of_option AttributeError (dict_get a ''content'')) (\<lambda>c.
       (let a' = (if is_exception c then dict_set ''content'' PNone a else a);
            d = List.map_filter (\<lambda>f. map_option (Pair f) (dict_get a' f)) declared
        in Inr (if is_exception c then dict_set ''content'' (case oe_as_dict env c of None \<Rightarrow> c | Some v \<Rightarrow> v) d else d, a')))"

section \<open>Pickling\<close>

abbreviation PickleError :: exc_class where
  "PickleError \<equiv> UserExc ''PickleError'' Exception"

definition mixin_getstate :: "obj_env \<Rightarrow> (attrs \<Rightarrow> exc_class + (attrs \<times> attrs)) \<Rightarrow> attrs \<Rightarrow> exc_class + (attrs \<times> attrs)" where
  "mixin_getstate env get_state a =
     (case get_state a of
        Inl e \<Rightarrow> Inl (if is_subclass e NotImplementedError then PickleError else e)
      | Inr (st, a') \<Rightarrow>
          bind_res (of_option AttributeError (dict_get a' ''_backend'')) (\<lambda>own.
            (let b = (case dict_get st ''_backend'' of None \<Rightarrow> own | Some x \<Rightarrow> x);
                 st' = dict_del ''_backend'' st
             in Inr (if b = PNone then st'
                     else dict_set ''_backend'' (if is_str b then b else PStr (get_obj_klass_import_str env b)) st', a'))))"

text \<open>\<open>__setstate__\<close>: a backend that cannot be imported is only logged.\<close>

definition mixin_setstate :: "obj_env \<Rightarrow> (attrs \<Rightarrow> attrs \<Rightarrow> exc_class + attrs) \<Rightarrow> attrs \<Rightarrow> attrs \<Rightarrow> exc_class + attrs" where
  "mixin_setstate env set_state st a =
     (let a1 = (case dict_get st ''_backend'' of
                  None \<Rightarrow> a
                | Some b \<Rightarrow> (case import_named env b of Inl e \<Rightarrow> a | Inr k \<Rightarrow> dict_set ''_backend'' k a))
      in case set_state (dict_del ''_backend'' st) a1 of
           Inl e \<Rightarrow> Inl (if is_subclass e NotImplementedError then PickleError else e)
         | Inr a2 \<Rightarrow> Inr a2)"

section \<open>Making a record\<close>

text \<open>The settings of a result backend, each possibly absent.\<close>

record backend_config =
  bc_engine :: "string option"
  bc_mode :: "string option"
  bc_max :: "int option"
  bc_timeout :: "int option"
  bc_idle :: "int option"

definition connection_mode_of :: "string \<Rightarrow> exc_class + connection_mode option" where
  "connection_mode_of s =
     (if s = ''auto'' then Inr None
      else if s = ''single'' then Inr (Some SINGLE)
      else if s = ''pooled'' then Inr (Some POOLED)
      else Inl ValueError)"

definition default_to :: "'a \<Rightarrow> 'a option \<Rightarrow> 'a" where
  "default_to d x = (case x of None \<Rightarrow> d | Some y \<Rightarrow> y)"

definition make_manager :: "(pyval \<Rightarrow> connector_class) \<Rightarrow> backend_config \<Rightarrow> pyval \<Rightarrow> exc_class + manager" where
  "make_manager klass cfg backend =
     bind_res (connection_mode_of (default_to ''auto'' (bc_mode cfg))) (\<lambda>mode.
       create_manager (klass backend) mode (default_to 10 (bc_max cfg)) (default_to 30 (bc_timeout cfg)) (default_to 300 (bc_idle cfg)))"

definition manager_get :: "conn_env \<Rightarrow> manager \<Rightarrow> (exc_class + conn) \<times> manager" where
  "manager_get env m =
     (case m of
        MSingle s \<Rightarrow> (case single_get_connection env s of (r, s') \<Rightarrow> (r, MSingle s'))
      | MPool p \<Rightarrow> (case pool_get_connection env p of (r, p') \<Rightarrow> (r, MPool p')))"

definition manager_release :: "conn_env \<Rightarrow> conn \<Rightarrow> manager \<Rightarrow> (exc_class + unit) \<times> manager" where
  "manager_release env c m =
     (case m of
        MSingle s \<Rightarrow> (case single_release_connection env c s of (r, s') \<Rightarrow> (r, MSingle s'))
      | MPool p \<Rightarrow> (case pool_release_connection env c p of (r, p') \<Rightarrow> (r, MPool p')))"

text \<open>\<open>self.release_connection(self._connector_manager.get_connection())\<close>.\<close>

definition probe_manager :: "conn_env \<Rightarrow> manager \<Rightarrow> (exc_class + unit) \<times> manager" where
  "probe_manager env m =
     (case manager_get env m of
        (Inl e, m1) \<Rightarrow> (Inl e, m1)
      | (Inr c, m1) \<Rightarrow> manager_release env c m1)"

text \<open>\<open>__model_init__\<close>. The manager belongs to the class; \<open>save\<close> is the connector action that stores the record.\<close>

definition model_init ::
  "import_env \<Rightarrow> (pyval \<Rightarrow> connector_class) \<Rightarrow> conn_env \<Rightarrow> (nat \<Rightarrow> conn_env) \<Rightarrow> ('w, unit) conn_method \<Rightarrow> backend_config \<Rightarrow>
   manager option \<Rightarrow> 'w \<Rightarrow> (exc_class + unit) \<times> manager option \<times> 'w" where
  "model_init im klass env envs save cfg mgr w =
     (case bind_res (of_option KeyError (bc_engine cfg)) (import_string im) of
        Inl e \<Rightarrow> (Inl StopProcessingError, mgr, w)
      | Inr backend \<Rightarrow>
          (case (case mgr of Some m \<Rightarrow> Inr m | None \<Rightarrow> make_manager klass cfg backend) of
             Inl e \<Rightarrow> (Inl StopProcessingError, mgr, w)
           | Inr m \<Rightarrow>
               (case probe_manager env m of
                  (Inl e, m1) \<Rightarrow> (Inl StopProcessingError, Some m1, w)
                | (Inr _, m1) \<Rightarrow>
                    (case with_connection envs save m1 w of
                       (r, m2, w') \<Rightarrow> (bind_res r (\<lambda>_. Inr ()), Some m2, w')))))"

section \<open>What survives a round trip\<close>

lemma result_get_state_get:
  assumes "result_get_state env a = Inr (st, a')" "dict_get a ''content'' = Some c" "c = PNone \<or> oe_builtin env c"
    and "k \<noteq> ''init_params''"
  shows "dict_get st k = dict_get a k" "dict_get a' k = dict_get a k"
proof -
  obtain p' where "st = dict_set ''init_params'' p' (dict_del ''init_params'' a)" "a' = a \<or> a' = dict_set ''init_params'' p' a"
    using assms(1,2,3) by (auto simp: result_get_state_def stored_content_def Let_def res_simps split: if_splits)
  then show "dict_get st k = dict_get a k" "dict_get a' k = dict_get a k" using assms(4) by (auto simp: dict_simps)
qed

lemma result_get_state_ok:
  assumes "result_get_state env a = Inr (st, a')" "dict_get a ''content'' = Some c" "c = PNone \<or> oe_builtin env c" "dict_ok a"
  shows "dict_ok st"
  using assms by (auto simp: result_get_state_def stored_content_def Let_def res_simps split: if_splits)

lemma mixin_getstate_result:
  assumes gs: "mixin_getstate env (result_get_state env) a = Inr (st, a')"
    and c: "dict_get a ''content'' = Some c" "c = PNone \<or> oe_builtin env c"
    and bk: "dict_get a ''_backend'' = Some k" "k \<noteq> PNone" "\<not> is_str k"
  obtains st0 where "result_get_state env a = Inr (st0, a')"
    "st = dict_set ''_backend'' (PStr (get_obj_klass_import_str env k)) (dict_del ''_backend'' st0)"
proof -
  obtain st0 a0 where g: "result_get_state env a = Inr (st0, a0)" using gs by (auto simp: mixin_getstate_def split: sum.splits)
  note same = result_get_state_get[OF g c, of "''_backend''"]
  show thesis using gs g same bk that by (auto simp: mixin_getstate_def Let_def)
qed

text \<open>The class of a backend that is an abstract base class is its metaclass, so the name that is stored is the one of the metaclass.\<close>

lemma backend_name_lost:
  assumes "oe_klass env backend = (''abc'', ''ABCMeta'')" "im_ready (oe_import env) ''abc''"
  shows "import_string (oe_import env) (get_obj_klass_import_str env backend) = of_option ImportError (im_attr (oe_import env) ''abc'' ''ABCMeta'')"
  using import_string_value[of "''ABCMeta''" "oe_import env" "''abc''"] assms by (simp add: get_obj_klass_import_str_def)

text \<open>Showing a failed result as a dictionary takes its error out of it: the next time the content is None.\<close>

lemma as_dict_loses_error:
  assumes "result_as_dict env declared a = Inr (d, a')" "dict_get a ''content'' = Some c" "is_exception c"
  shows "dict_get a' ''content'' = Some PNone" "result_as_dict env declared a' = Inr (d', a'') \<Longrightarrow> a'' = a'"
  using assms by (auto simp: result_as_dict_def Let_def dict_simps is_exception_def)

lemma as_dict_keeps:
  assumes "result_as_dict env declared a = Inr (d, a')" "dict_get a ''content'' = Some c" "\<not> is_exception c"
  shows "a' = a"
  using assms by (auto simp: result_as_dict_def Let_def)

section \<open>Making records\<close>

text \<open>Whatever goes wrong before the record is stored is reported as StopProcessingError.\<close>

lemma model_init_stops:
  assumes "model_init im klass env envs save cfg mgr w = (Inl e, mgr', w')" "e \<noteq> StopProcessingError"
  shows "\<exists>m m' r. mgr' = Some m' \<and> with_connection envs save m w = (Inl r, m', w') \<and> e = r"
  using assms by (auto simp: model_init_def res_simps split: sum.splits option.splits prod.splits)

text \<open>The manager of a class is made once: later records use the manager there is, whatever the configuration says by then.\<close>

lemma model_init_keeps_manager:
  assumes "import_string im engine = Inr b" "import_string im engine' = Inr b'"
  shows "model_init im klass env envs save (cfg\<lparr>bc_engine := Some engine\<rparr>) (Some m) w =
    model_init im klass env envs save (cfg'\<lparr>bc_engine := Some engine'\<rparr>) (Some m) w"
  using assms by (simp add: model_init_def)

text \<open>A mode other than the three known ones, or a negative bound of a pool, is refused.\<close>

lemma model_init_bad_mode:
  assumes "bc_mode cfg = Some s" "s \<notin> {''auto'', ''single'', ''pooled''}"
  shows "model_init im klass env envs save cfg None w = (Inl StopProcessingError, None, w)"
  using assms by (simp add: model_init_def make_manager_def default_to_def connection_mode_of_def split: sum.split)

lemma model_init_bad_bound:
  assumes "bc_mode cfg = Some ''pooled''" "bc_max cfg = Some n" "n < 0"
  shows "model_init im klass env envs save cfg None w = (Inl StopProcessingError, None, w)"
  using assms by (simp add: model_init_def make_manager_def default_to_def connection_mode_of_def create_manager_def mk_pool_def split: sum.split)

section \<open>Properties\<close>

text \<open>C37. A result with plain content that is pickled and read back into a new object has all its attributes again, except three: the
  parameters its event was made and called with are gone, and its backend is what the import of the name of the backend's class gives. The backend
  being a class, that is the name of its metaclass: with an abstract base class it becomes \<open>abc.ABCMeta\<close>. Pickling changes no attribute of the result
  itself but \<open>init_params\<close>.\<close>

theorem result_round_trip:
  assumes gs: "mixin_getstate env (result_get_state env) a = Inr (st, a')"
    and ss: "mixin_setstate env (result_set_state env) st [] = Inr b"
    and c: "dict_get a ''content'' = Some c" "c = PNone \<or> oe_builtin env c"
    and plain: "\<forall>d. c = PDict d \<longrightarrow> \<not> dict_has d ''content_type_import_str''"
    and bk: "dict_get a ''_backend'' = Some k" "k \<noteq> PNone" "\<not> is_str k"
    and ok: "dict_ok a"
  shows "(\<forall>x. x \<notin> {''init_params'', ''call_params'', ''_backend''} \<longrightarrow> dict_get b x = dict_get a x) \<and>
    dict_get b ''init_params'' = None \<and> dict_get b ''call_params'' = None \<and>
    dict_get b ''_backend'' = (case import_string (oe_import env) (get_obj_klass_import_str env k) of Inl e \<Rightarrow> None | Inr v \<Rightarrow> Some v) \<and>
    (oe_klass env k = (''abc'', ''ABCMeta'') \<and> im_ready (oe_import env) ''abc'' \<longrightarrow> dict_get b ''_backend'' = im_attr (oe_import env) ''abc'' ''ABCMeta'') \<and>
    (\<forall>x. x \<noteq> ''init_params'' \<longrightarrow> dict_get a' x = dict_get a x)"
proof -
  obtain st0 where g: "result_get_state env a = Inr (st0, a')"
    and st: "st = dict_set ''_backend'' (PStr (get_obj_klass_import_str env k)) (dict_del ''_backend'' st0)"
    by (rule mixin_getstate_result[OF gs c bk])
  note get = result_get_state_get[OF g c]
  define a1 where "a1 = (case import_string (oe_import env) (get_obj_klass_import_str env k) of Inl e \<Rightarrow> [] | Inr v \<Rightarrow> [(''_backend'', v)])"
  define st1 where "st1 = dict_del ''call_params'' (dict_del ''init_params'' (dict_del ''_backend'' st))"
  have "dict_get st1 ''content'' = Some c" using get(1)[of "''content''"] c(1) by (simp add: st1_def st dict_simps)
  then have "restored_content env st1 = Inr st1"
    using plain by (cases c) (auto simp: restored_content_def dict_has_get split: option.splits)
  then have b: "b = dict_update a1 st1"
    using ss by (simp add: mixin_setstate_def st dict_simps import_named_def result_set_state_def a1_def st1_def Let_def split: sum.splits)
  have ok1: "dict_ok st1" using result_get_state_ok[OF g c ok] by (simp add: st1_def st)
  have same: "dict_get b x = dict_get a x" if "x \<notin> {''init_params'', ''call_params'', ''_backend''}" for x
    using that get(1)[of x] ok1
    by (auto simp: b dict_get_update st1_def st dict_simps a1_def split: option.splits sum.splits)
  have lost: "dict_get b ''init_params'' = None" "dict_get b ''call_params'' = None"
    "dict_get b ''_backend'' = (case import_string (oe_import env) (get_obj_klass_import_str env k) of Inl e \<Rightarrow> None | Inr v \<Rightarrow> Some v)"
    using ok1 by (simp_all add: b dict_get_update st1_def dict_simps a1_def split: sum.split)
  have "dict_get b ''_backend'' = im_attr (oe_import env) ''abc'' ''ABCMeta''"
    if "oe_klass env k = (''abc'', ''ABCMeta'')" "im_ready (oe_import env) ''abc''"
    unfolding lost(3) backend_name_lost[OF that] by (cases "im_attr (oe_import env) ''abc'' ''ABCMeta''") simp_all
  then show ?thesis using same lost get(2) by blast
qed

definition demo_objects :: obj_env where
  "demo_objects =
     \<lparr>oe_import = \<lparr>im_ready = (\<lambda>m. m = ''abc''), im_load = (\<lambda>m. Inl ImportError),
        im_attr = (\<lambda>m n. if m = ''abc'' \<and> n = ''ABCMeta'' then Some (PObj ''type'' []) else None)\<rparr>,
      oe_builtin = (\<lambda>v. True), oe_klass = (\<lambda>v. (''abc'', ''ABCMeta'')), oe_id = (\<lambda>v. Inl AttributeError), oe_get_state = Inr, oe_getstate = Inr,
      oe_restore = (\<lambda>k s. Inr s), oe_as_dict = (\<lambda>v. None)\<rparr>"

definition demo_result :: attrs where
  "demo_result = [(''content'', PInt 5), (''init_params'', PNone), (''call_params'', PNone), (''_backend'', PObj ''ABCMeta'' []), (''_id'', PStr ''r1'')]"

theorem result_round_trip_witness:
  "\<exists>st a' b. mixin_getstate demo_objects (result_get_state demo_objects) demo_result = Inr (st, a') \<and>
     mixin_setstate demo_objects (result_set_state demo_objects) st [] = Inr b \<and>
     dict_get b ''content'' = Some (PInt 5) \<and> dict_get b ''_backend'' = Some (PObj ''type'' [])"
proof -
  have "case mixin_getstate demo_objects (result_get_state demo_objects) demo_result of
      Inl e \<Rightarrow> False | Inr (st, a') \<Rightarrow> \<not> isl (mixin_setstate demo_objects (result_set_state demo_objects) st [])" by code_simp
  then obtain st a' b where gs: "mixin_getstate demo_objects (result_get_state demo_objects) demo_result = Inr (st, a')"
    and ss: "mixin_setstate demo_objects (result_set_state demo_objects) st [] = Inr b"
    by (auto simp: isl_def split: sum.splits) (metis old.sum.exhaust)
  have d: "dict_get demo_result ''content'' = Some (PInt 5)" "dict_get demo_result ''_backend'' = Some (PObj ''ABCMeta'' [])"
    "dict_ok demo_result" by (simp_all add: demo_result_def dict_ok_def)
  have e: "oe_builtin demo_objects (PInt 5)" "oe_klass demo_objects (PObj ''ABCMeta'' []) = (''abc'', ''ABCMeta'')"
    "im_ready (oe_import demo_objects) ''abc''" "im_attr (oe_import demo_objects) ''abc'' ''ABCMeta'' = Some (PObj ''type'' [])"
    by (simp_all add: demo_objects_def)
  have p: "\<forall>d. PInt 5 = PDict d \<longrightarrow> \<not> dict_has d ''content_type_import_str''" "PObj ''ABCMeta'' [] \<noteq> PNone" "\<not> is_str (PObj ''ABCMeta'' [])"
    by (simp_all add: is_str_def)
  note rt = result_round_trip[OF gs ss d(1) disjI2[OF e(1)] p(1) d(2) p(2,3) d(3)]
  have "''content'' \<notin> {''init_params'', ''call_params'', ''_backend''}" by simp
  with rt[THEN conjunct1] have "dict_get b ''content'' = dict_get demo_result ''content''" by (elim allE impE)
  moreover have "dict_get b ''_backend'' = im_attr (oe_import demo_objects) ''abc'' ''ABCMeta''"
    using rt[THEN conjunct2, THEN conjunct2, THEN conjunct2, THEN conjunct2, THEN conjunct1] e(2,3) by (elim impE) (rule conjI)
  ultimately have "dict_get b ''content'' = Some (PInt 5)" "dict_get b ''_backend'' = Some (PObj ''type'' [])" unfolding d(1) e(4) .
  with gs ss show ?thesis by blast
qed

end
