(* ===== verification/Backend_Connectors.thy ===== *)
theory Backend_Connectors
  imports Actions Values
begin

text \<open>
  The connectors of the stores: \<^verbatim>\<open>src/nexus/backends/connection.py\<close> and \<^verbatim>\<open>src/nexus/backends/connectors\<close>.

  A connector holds a cursor or none. The locale \<open>backend_connector\<close> is what stores and managers rely on; it is
  interpreted for Redis, SQLite, PostgreSQL and HDFS. The drivers are records of their calls; the numbers of connections they
  opened and closed are counted.
\<close>

section \<open>The contract\<close>

locale backend_connector =
  fixes connect :: "('s, exc_class, unit) action" and disconnect :: "('s, exc_class, unit) action"
    and is_connected :: "'s \<Rightarrow> exc_class + bool" and has_cursor :: "'s \<Rightarrow> bool"
  assumes connect_cursor: "connect s = (Inr (), s') \<Longrightarrow> has_cursor s'"
    and connect_again: "has_cursor s \<Longrightarrow> connect s = (Inr (), s)"
    and disconnect_cursor: "disconnect s = (Inr (), s') \<Longrightarrow> \<not> has_cursor s'"
    and disconnect_again: "\<not> has_cursor s \<Longrightarrow> disconnect s = (Inr (), s)"
    and no_cursor: "\<not> has_cursor s \<Longrightarrow> is_connected s = Inr False"
begin

lemma disconnected: "disconnect s = (Inr (), s') \<Longrightarrow> is_connected s' = Inr False"
  using disconnect_cursor no_cursor by blast

lemma disconnect_twice: "disconnect s = (Inr (), s') \<Longrightarrow> disconnect s' = (Inr (), s')"
  using disconnect_cursor disconnect_again by blast

lemma connect_twice: "connect s = (Inr (), s') \<Longrightarrow> connect s' = (Inr (), s')"
  using connect_cursor connect_again by blast

end

text \<open>\<open>with connector: body\<close>, by \<open>__enter__\<close> and \<open>__exit__\<close>: the connector is disconnected whether the body returns or raises.\<close>

definition with_connector ::
  "('s, exc_class, unit) action \<Rightarrow> ('s, exc_class, unit) action \<Rightarrow> ('s, exc_class, 'a) action \<Rightarrow> ('s, exc_class, 'a) action" where
  "with_connector connect disconnect body s =
     (case connect s of
        (Inl e, s1) \<Rightarrow> (Inl e, s1)
      | (Inr _, s1) \<Rightarrow>
          (case body s1 of
             (r, s2) \<Rightarrow> (case disconnect s2 of (Inl e, s3) \<Rightarrow> (Inl e, s3) | (Inr _, s3) \<Rightarrow> (r, s3))))"

context backend_connector
begin

lemma with_connector_disconnects:
  assumes "with_connector connect disconnect body s = (r, s')" and "\<And>s. fst (disconnect s) = Inr ()"
    and "fst (connect s) = Inr ()"
  shows "is_connected s' = Inr False"
proof -
  obtain s1 where 1: "connect s = (Inr (), s1)" using assms(3) by (cases "connect s") auto
  obtain q s2 where 2: "body s1 = (q, s2)" by (cases "body s1")
  obtain s3 where 3: "disconnect s2 = (Inr (), s3)" using assms(2)[of s2] by (cases "disconnect s2") auto
  show ?thesis using assms(1) 1 2 3 disconnected[OF 3] by (simp add: with_connector_def)
qed

end

section \<open>Redis\<close>

record 'c redis_driver =
  rd_new :: "nat \<Rightarrow> 'c"
  rd_close :: "'c \<Rightarrow> exc_class + unit"
  rd_ping :: "'c \<Rightarrow> exc_class + bool"

record 'c redis_connector =
  rcn_cursor :: "'c option"
  rcn_opened :: nat
  rcn_closed :: nat

definition redis_connector_init :: "'c redis_driver \<Rightarrow> 'c redis_connector" where
  "redis_connector_init d = \<lparr>rcn_cursor = Some (rd_new d 0), rcn_opened = 1, rcn_closed = 0\<rparr>"

definition redis_connect :: "'c redis_driver \<Rightarrow> ('c redis_connector, exc_class, unit) action" where
  "redis_connect d s =
     (case rcn_cursor s of
        None \<Rightarrow> (Inr (), s\<lparr>rcn_cursor := Some (rd_new d (rcn_opened s)), rcn_opened := Suc (rcn_opened s)\<rparr>)
      | Some c \<Rightarrow> (Inr (), s))"

definition redis_disconnect :: "'c redis_driver \<Rightarrow> ('c redis_connector, exc_class, unit) action" where
  "redis_disconnect d s =
     (case rcn_cursor s of
        None \<Rightarrow> (Inr (), s)
      | Some c \<Rightarrow>
          (case rd_close d c of
             Inl e \<Rightarrow> (Inl e, s)
           | Inr _ \<Rightarrow> (Inr (), s\<lparr>rcn_cursor := None, rcn_closed := Suc (rcn_closed s)\<rparr>)))"

definition redis_is_connected :: "'c redis_driver \<Rightarrow> 'c redis_connector \<Rightarrow> exc_class + bool" where
  "redis_is_connected d s = (case rcn_cursor s of None \<Rightarrow> Inr False | Some c \<Rightarrow> rd_ping d c)"

interpretation redis_contract: backend_connector "redis_connect d" "redis_disconnect d" "redis_is_connected d" "\<lambda>s. rcn_cursor s \<noteq> None"
  by unfold_locales (auto simp: redis_connect_def redis_disconnect_def redis_is_connected_def split: option.splits sum.splits)

section \<open>SQLite and PostgreSQL\<close>

text \<open>A connection and a cursor on it. SQLite makes a new cursor on the connection of its constructor, PostgreSQL a new connection as well; neither
  ever closes a connection. A failed probe counts as not connected: a database error, or AttributeError when there is no cursor.\<close>

record 'c sql_driver =
  sd_connect :: "nat \<Rightarrow> exc_class + 'c"
  sd_cursor_close :: "'c \<Rightarrow> exc_class + unit"
  sd_select_one :: "'c \<Rightarrow> exc_class + unit"
  sd_error :: "exc_class \<Rightarrow> bool"

record 'c sql_connector =
  scn_connection :: 'c
  scn_cursor :: bool
  scn_opened :: nat

definition sql_connector_init :: "'c sql_driver \<Rightarrow> exc_class + 'c sql_connector" where
  "sql_connector_init d = bind_res (sd_connect d 0) (\<lambda>c. Inr \<lparr>scn_connection = c, scn_cursor = True, scn_opened = 1\<rparr>)"

definition sqlite_connect :: "('c sql_connector, exc_class, unit) action" where
  "sqlite_connect s = (Inr (), s\<lparr>scn_cursor := True\<rparr>)"

definition postgres_connect :: "'c sql_driver \<Rightarrow> ('c sql_connector, exc_class, unit) action" where
  "postgres_connect d s =
     (if scn_cursor s then (Inr (), s)
      else
        (case sd_connect d (scn_opened s) of
           Inl e \<Rightarrow> (Inl (if sd_error d e then ConnectionError else e), s)
         | Inr c \<Rightarrow> (Inr (), s\<lparr>scn_connection := c, scn_cursor := True, scn_opened := Suc (scn_opened s)\<rparr>)))"

text \<open>\<open>disconnect\<close> of SQLite keeps the cursor when closing it fails, as does the one of PostgreSQL: the assignment comes after the call.\<close>

definition sql_disconnect :: "'c sql_driver \<Rightarrow> ('c sql_connector, exc_class, unit) action" where
  "sql_disconnect d s =
     (if scn_cursor s
      then (case sd_cursor_close d (scn_connection s) of Inl e \<Rightarrow> (Inl e, s) | Inr _ \<Rightarrow> (Inr (), s\<lparr>scn_cursor := False\<rparr>))
      else (Inr (), s))"

definition sql_is_connected :: "'c sql_driver \<Rightarrow> 'c sql_connector \<Rightarrow> exc_class + bool" where
  "sql_is_connected d s =
     (case (if scn_cursor s then sd_select_one d (scn_connection s) else Inl AttributeError) of
        Inr _ \<Rightarrow> Inr True
      | Inl e \<Rightarrow> (if sd_error d e \<or> is_subclass e AttributeError then Inr False else Inl e))"

lemma attribute_error_refl: "is_subclass AttributeError AttributeError"
  by code_simp

interpretation sqlite_contract: backend_connector sqlite_connect "sql_disconnect d" "sql_is_connected d" scn_cursor
  by unfold_locales (auto simp: sqlite_connect_def sql_disconnect_def sql_is_connected_def attribute_error_refl split: if_splits sum.splits)

interpretation postgres_contract: backend_connector "postgres_connect d" "sql_disconnect d" "sql_is_connected d" scn_cursor
  by unfold_locales (auto simp: postgres_connect_def sql_disconnect_def sql_is_connected_def attribute_error_refl split: if_splits sum.splits)

section \<open>HDFS and the dummy\<close>

text \<open>The constructor makes no client. The probe lists the root directory; any exception counts as not connected.\<close>

record 'c hdfs_driver =
  hv_client :: 'c
  hv_list_root :: "'c \<Rightarrow> exc_class + unit"

definition hdfs_connector_init :: "'c option" where
  "hdfs_connector_init = None"

definition hdfs_connect :: "'c hdfs_driver \<Rightarrow> ('c option, exc_class, unit) action" where
  "hdfs_connect d s = (Inr (), case s of None \<Rightarrow> Some (hv_client d) | Some c \<Rightarrow> Some c)"

definition hdfs_disconnect :: "('c option, exc_class, unit) action" where
  "hdfs_disconnect s = (Inr (), None)"

definition hdfs_is_connected :: "'c hdfs_driver \<Rightarrow> 'c option \<Rightarrow> exc_class + bool" where
  "hdfs_is_connected d s = (case s of None \<Rightarrow> Inr False | Some c \<Rightarrow> (case hv_list_root d c of Inl e \<Rightarrow> Inr False | Inr _ \<Rightarrow> Inr True))"

interpretation hdfs_contract: backend_connector "hdfs_connect d" hdfs_disconnect "hdfs_is_connected d" "\<lambda>s. s \<noteq> None"
  by unfold_locales (auto simp: hdfs_connect_def hdfs_disconnect_def hdfs_is_connected_def split: option.splits sum.splits)

text \<open>The dummy of the in-memory store has no state and always counts as connected.\<close>

definition dummy_is_connected :: "unit \<Rightarrow> exc_class + bool" where
  "dummy_is_connected s = Inr True"

section \<open>Connections over time\<close>

text \<open>A Redis connector closes what it opened, except the client it holds.\<close>

definition redis_balanced :: "'c redis_connector \<Rightarrow> bool" where
  "redis_balanced s \<longleftrightarrow> rcn_opened s = rcn_closed s + (if rcn_cursor s = None then 0 else 1)"

lemma redis_balance:
  "redis_balanced (redis_connector_init d)"
  "redis_balanced s \<Longrightarrow> redis_balanced (snd (redis_connect d s))"
  "redis_balanced s \<Longrightarrow> redis_balanced (snd (redis_disconnect d s))"
  by (auto simp: redis_balanced_def redis_connector_init_def redis_connect_def redis_disconnect_def split: option.splits sum.splits)

text \<open>Each time a PostgreSQL connector is disconnected and connected again it opens one more connection, and closes none.\<close>

definition pg_cycle :: "'c sql_driver \<Rightarrow> 'c sql_connector \<Rightarrow> 'c sql_connector" where
  "pg_cycle d s = snd (postgres_connect d (snd (sql_disconnect d s)))"

lemma pg_cycle_opens:
  assumes "\<And>n. sd_connect d n = Inr (c n)" "\<And>x. sd_cursor_close d x = Inr ()" "scn_cursor s"
  shows "scn_opened (pg_cycle d s) = Suc (scn_opened s)" "scn_cursor (pg_cycle d s)"
  using assms by (simp_all add: pg_cycle_def sql_disconnect_def postgres_connect_def)

lemma pg_leaks:
  assumes "\<And>n. sd_connect d n = Inr (c n)" "\<And>x. sd_cursor_close d x = Inr ()" "scn_cursor s"
  shows "scn_opened ((pg_cycle d ^^ n) s) = scn_opened s + n \<and> scn_cursor ((pg_cycle d ^^ n) s)"
proof (induction n)
  case (Suc n)
  then show ?case using pg_cycle_opens[OF assms(1,2), of "(pg_cycle d ^^ n) s"] by simp
qed (use assms(3) in simp)

text \<open>SQLite keeps its one connection: connecting again after a disconnect opens nothing.\<close>

lemma sqlite_keeps_connection:
  "scn_connection (snd (sqlite_connect (snd (sql_disconnect d s)))) = scn_connection s"
  "scn_opened (snd (sqlite_connect (snd (sql_disconnect d s)))) = scn_opened s"
  by (simp_all add: sqlite_connect_def sql_disconnect_def split: sum.split)

end
