(* ===== verification/Publishers.thy ===== *)
theory Publishers
  imports Telemetry Actions
begin

text \<open>
  Publishers of metrics: \<^verbatim>\<open>src/nexus/telemetry/publisher.py\<close>, \<^verbatim>\<open>src/nexus/telemetry/factory.py\<close> and \<open>monitor_events\<close> of
  \<^verbatim>\<open>src/nexus/telemetry/__init__.py\<close>.

  A publisher is an action on what is outside (an index, a registry, a web service); the actions of the client libraries are arguments. The
  registry of Prometheus is modelled with its counters and observations.
\<close>

section \<open>Formatting\<close>

datatype metrics_data = EventData entity | NetworkData "(string, pyval) dict"

definition format_metrics :: "string \<Rightarrow> metrics_data \<Rightarrow> (string, pyval) dict" where
  "format_metrics now m =
     (case m of
        EventData r \<Rightarrow>
          dict_update (ent_attrs r) [(''timestamp'', PStr now), (''metric_type'', PStr ''event''), (''duration'', PFloat (duration r))]
      | NetworkData d \<Rightarrow> dict_set ''metric_type'' (PStr ''network'') (dict_set ''timestamp'' (PStr now) d))"

section \<open>Elasticsearch and Grafana Cloud\<close>

text \<open>Every exception is logged and swallowed.\<close>

definition swallow :: "('w, pyval, unit) action \<Rightarrow> ('w, pyval, unit) action" where
  "swallow m = catch_act m (\<lambda>_. ret_act ())"

definition get_index_name :: "string \<Rightarrow> string \<Rightarrow> string \<Rightarrow> string" where
  "get_index_name prefix metric_type date = prefix @ ''-'' @ metric_type @ ''-'' @ date"

definition es_publish ::
  "(string \<Rightarrow> (string, pyval) dict \<Rightarrow> ('w, pyval, unit) action) \<Rightarrow> string \<Rightarrow> string \<Rightarrow> string \<Rightarrow> metrics_data \<Rightarrow> ('w, pyval, unit) action" where
  "es_publish index prefix date now m =
     swallow (index (get_index_name prefix (case m of EventData _ \<Rightarrow> ''event'' | NetworkData _ \<Rightarrow> ''network'') date) (format_metrics now m))"

definition send_metrics ::
  "(string \<Rightarrow> (string, pyval) dict \<Rightarrow> ('w, pyval, int) action) \<Rightarrow> string \<Rightarrow> string \<Rightarrow> string \<Rightarrow> (string, pyval) dict \<Rightarrow> ('w, pyval, unit) action" where
  "send_metrics post base_url org_slug metric_type data =
     bind_act (post (base_url @ ''/'' @ org_slug @ ''/'' @ metric_type) data) (\<lambda>status.
       if 400 \<le> status \<and> status < 600 then raise_act (PExc (UserExc ''HTTPError'' Exception) []) else ret_act ())"

definition grafana_publish ::
  "(string \<Rightarrow> (string, pyval) dict \<Rightarrow> ('w, pyval, int) action) \<Rightarrow> string \<Rightarrow> string \<Rightarrow> string \<Rightarrow> metrics_data \<Rightarrow> ('w, pyval, unit) action" where
  "grafana_publish post base_url org_slug now m =
     swallow (send_metrics post base_url org_slug (case m of EventData _ \<Rightarrow> ''events'' | NetworkData _ \<Rightarrow> ''network'') (format_metrics now m))"

section \<open>Prometheus\<close>

text \<open>The registry: the observed durations and latencies with their labels, and the counters.\<close>

record prometheus =
  pm_durations :: "((string \<times> string) \<times> rat) list"
  pm_retries :: "(string, rat) dict"
  pm_bytes :: "(string \<times> string, rat) dict"
  pm_latencies :: "(string \<times> rat) list"

definition counter_value :: "('k, rat) dict \<Rightarrow> 'k \<Rightarrow> rat" where
  "counter_value d k = (case dict_get d k of None \<Rightarrow> 0 | Some v \<Rightarrow> v)"

text \<open>\<open>inc\<close> of a counter refuses a negative amount with ValueError.\<close>

definition counter_inc :: "'k \<Rightarrow> rat \<Rightarrow> ('k, rat) dict \<Rightarrow> pyval + ('k, rat) dict" where
  "counter_inc k x d = (if x < 0 then Inl (PExc ValueError []) else Inr (dict_set k (counter_value d k + x) d))"

definition str_attr :: "entity \<Rightarrow> string \<Rightarrow> string" where
  "str_attr r k = (case get_attr r k of Some (PStr s) \<Rightarrow> s | _ \<Rightarrow> [])"

definition prom_event :: "entity \<Rightarrow> prometheus \<Rightarrow> (pyval + unit) \<times> prometheus" where
  "prom_event r s =
     (let s1 = s\<lparr>pm_durations := pm_durations s @ [((str_attr r ''event_name'', str_attr r ''status''), duration r)]\<rparr>
      in if retry_count_of r > 0
         then (case counter_inc (str_attr r ''event_name'') (of_int (retry_count_of r)) (pm_retries s1) of
                 Inl x \<Rightarrow> (Inl x, s1)
               | Inr d \<Rightarrow> (Inr (), s1\<lparr>pm_retries := d\<rparr>))
         else (Inr (), s1))"

definition prom_publish_event :: "entity \<Rightarrow> prometheus \<Rightarrow> (pyval + unit) \<times> prometheus" where
  "prom_publish_event r = swallow (prom_event r)"

text \<open>Network metrics as the dictionary of \<open>end_operation\<close>: a number that is not there is skipped, another value than a number raises.\<close>

definition num_entry :: "(string, pyval) dict \<Rightarrow> string \<Rightarrow> (pyval + rat) option" where
  "num_entry d k = map_option (\<lambda>v. case num_of v of None \<Rightarrow> Inl (PExc TypeError []) | Some x \<Rightarrow> Inr x) (dict_get d k)"

definition count_bytes :: "string \<Rightarrow> string \<Rightarrow> (pyval + rat) option \<Rightarrow> prometheus \<Rightarrow> (pyval + unit) \<times> prometheus" where
  "count_bytes op direction entry s =
     (case entry of
        None \<Rightarrow> (Inr (), s)
      | Some (Inl x) \<Rightarrow> (Inl x, s)
      | Some (Inr n) \<Rightarrow> (case counter_inc (op, direction) n (pm_bytes s) of Inl x \<Rightarrow> (Inl x, s) | Inr d \<Rightarrow> (Inr (), s\<lparr>pm_bytes := d\<rparr>)))"

definition observe_latency :: "string \<Rightarrow> (pyval + rat) option \<Rightarrow> prometheus \<Rightarrow> (pyval + unit) \<times> prometheus" where
  "observe_latency op entry s =
     (case entry of
        None \<Rightarrow> (Inr (), s)
      | Some (Inl x) \<Rightarrow> (Inl x, s)
      | Some (Inr n) \<Rightarrow> (Inr (), s\<lparr>pm_latencies := pm_latencies s @ [(op, n)]\<rparr>))"

definition prom_publish_network :: "(string, pyval) dict \<Rightarrow> prometheus \<Rightarrow> (pyval + unit) \<times> prometheus" where
  "prom_publish_network d =
     (let op = (case dict_get d ''operation'' of Some (PStr s) \<Rightarrow> s | _ \<Rightarrow> ''unknown'')
      in swallow
           (bind_act (count_bytes op ''sent'' (num_entry d ''bytes_sent'')) (\<lambda>_.
            bind_act (count_bytes op ''received'' (num_entry d ''bytes_received'')) (\<lambda>_.
            observe_latency op (num_entry d ''latency'')))))"

section \<open>Several publishers\<close>

fun composite_publish :: "('m \<Rightarrow> ('w, pyval, unit) action) list \<Rightarrow> 'm \<Rightarrow> ('w, pyval, unit) action" where
  "composite_publish [] m = ret_act ()"
| "composite_publish (p # ps) m = bind_act (swallow (p m)) (\<lambda>_. composite_publish ps m)"

section \<open>The logger of the process\<close>

text \<open>\<open>TelemetryLoggerFactory\<close>: the class of the logger and its one instance. \<open>new\<close> makes an instance of a class.\<close>

record ('k, 'l) logger_factory =
  lf_class :: 'k
  lf_instance :: "'l option"

definition set_logger_class :: "('k \<Rightarrow> bool) \<Rightarrow> ('k \<Rightarrow> 'l) \<Rightarrow> 'k \<Rightarrow> ('k, 'l) logger_factory \<Rightarrow> exc_class + ('k, 'l) logger_factory" where
  "set_logger_class is_logger new k f = (if is_logger k then Inr (f\<lparr>lf_class := k, lf_instance := Some (new k)\<rparr>) else Inl ValueError)"

definition get_logger :: "('k \<Rightarrow> 'l) \<Rightarrow> ('k, 'l) logger_factory \<Rightarrow> 'l \<times> ('k, 'l) logger_factory" where
  "get_logger new f =
     (case lf_instance f of
        Some l \<Rightarrow> (l, f)
      | None \<Rightarrow> (new (lf_class f), f\<lparr>lf_instance := Some (new (lf_class f))\<rparr>))"

definition monitor_events ::
  "('k \<Rightarrow> bool) \<Rightarrow> ('k \<Rightarrow> std_logger) \<Rightarrow> nat list \<Rightarrow> 'k option \<Rightarrow> ('k, std_logger) logger_factory \<Rightarrow> exc_class + ('k, std_logger) logger_factory" where
  "monitor_events is_logger new publishers logger_class f =
     bind_res (case logger_class of None \<Rightarrow> Inr f | Some k \<Rightarrow> set_logger_class is_logger new k f) (\<lambda>f1.
       (case get_logger new f1 of (l, f2) \<Rightarrow> Inr (f2\<lparr>lf_instance := Some (foldl (\<lambda>l p. std_add_publisher p l) l publishers)\<rparr>)))"

section \<open>Lemmas\<close>

lemma swallow_returns: "swallow m w = (Inr (), snd (m w))"
  by (auto simp: swallow_def catch_act_def act_simps split: prod.split sum.split)

text \<open>Publishing through several publishers never raises and calls each of them once, in order, whatever the others do.\<close>

lemma composite_calls_all: "composite_publish ps m w = (Inr (), fold (\<lambda>p w. snd (p m w)) ps w)"
  by (induction ps arbitrary: w) (simp_all add: act_simps bind_act_def swallow_returns)

lemma publishers_never_raise:
  "fst (es_publish index prefix date now m w) = Inr ()" "fst (grafana_publish post base org now m w) = Inr ()"
  "fst (prom_publish_event r s) = Inr ()" "fst (prom_publish_network d s) = Inr ()"
  by (simp_all add: es_publish_def grafana_publish_def prom_publish_event_def prom_publish_network_def Let_def swallow_returns)

text \<open>The data sent for an event are its attributes with a time, its kind and its duration.\<close>

lemma format_event_get:
  "dict_get (format_metrics now (EventData r)) k =
     (if k = ''duration'' then Some (PFloat (duration r))
      else if k = ''metric_type'' then Some (PStr ''event'')
      else if k = ''timestamp'' then Some (PStr now)
      else dict_get (ent_attrs r) k)"
  by (simp add: format_metrics_def dict_simps)

text \<open>Publishing events: one duration for each event, and the retry counter of a name is the sum of the positive retry counts of the events of that name.\<close>

definition publish_all :: "entity list \<Rightarrow> prometheus \<Rightarrow> prometheus" where
  "publish_all rs s = foldl (\<lambda>s r. snd (prom_publish_event r s)) s rs"

definition retries_of :: "string \<Rightarrow> entity list \<Rightarrow> rat" where
  "retries_of name rs = sum_list (map (\<lambda>r. of_int (max 0 (retry_count_of r))) (filter (\<lambda>r. str_attr r ''event_name'' = name) rs))"

lemma prom_event_effect:
  "snd (prom_publish_event r s) =
     s\<lparr>pm_durations := pm_durations s @ [((str_attr r ''event_name'', str_attr r ''status''), duration r)],
       pm_retries := (if retry_count_of r > 0
          then dict_set (str_attr r ''event_name'') (counter_value (pm_retries s) (str_attr r ''event_name'') + of_int (retry_count_of r)) (pm_retries s)
          else pm_retries s)\<rparr>"
  by (simp add: prom_publish_event_def swallow_returns prom_event_def Let_def counter_inc_def)

lemma prometheus_totals:
  "length (pm_durations (publish_all rs s)) = length (pm_durations s) + length rs \<and>
   counter_value (pm_retries (publish_all rs s)) name = counter_value (pm_retries s) name + retries_of name rs"
proof (induction rs rule: rev_induct)
  case (snoc r rs)
  have "publish_all (rs @ [r]) s = snd (prom_publish_event r (publish_all rs s))" by (simp add: publish_all_def)
  moreover have "retries_of name (rs @ [r]) =
      retries_of name rs + (if str_attr r ''event_name'' = name then of_int (max 0 (retry_count_of r)) else 0)"
    by (simp add: retries_of_def)
  ultimately show ?case using snoc
    by (auto simp: prom_event_effect counter_value_def dict_simps max_def split: option.splits)
qed (simp add: publish_all_def retries_of_def)

text \<open>Once there is a logger it stays until another class is set, and the publishers are added to it.\<close>

lemma get_logger_stays: "get_logger new f = (l, f') \<Longrightarrow> get_logger new f' = (l, f')"
  by (auto simp: get_logger_def split: option.splits)

lemma monitor_events_adds:
  assumes "monitor_events is_logger new ps None f = Inr f'" "lf_instance f = Some l"
  shows "\<exists>l'. lf_instance f' = Some l' \<and> std_publishers l' = std_publishers l @ ps \<and> std_metrics l' = std_metrics l"
proof -
  have "std_publishers (foldl (\<lambda>l p. std_add_publisher p l) l ps) = std_publishers l @ ps \<and>
      std_metrics (foldl (\<lambda>l p. std_add_publisher p l) l ps) = std_metrics l" for l
    by (induction ps arbitrary: l) (auto simp: std_add_publisher_def)
  with assms show ?thesis by (auto simp: monitor_events_def get_logger_def)
qed

end
