(* ===== verification/Parse_Tables.thy ===== *)
theory Parse_Tables
  imports Pointy_Parser
begin

text \<open>
  The tables of \<^verbatim>\<open>src/nexus/parser/parsetab.py\<close>, as the file lists them, and the loops that index
  them. \<open>lr_next\<close> is one move of the LR algorithm that \<open>ply.yacc\<close> documents: look up the state and the
  next token; a positive entry shifts, a negative one reduces by that production and calls its function, zero accepts, a missing
  entry is a syntax error. No state of the table has a single entry that is a reduction, so there are no default
  reductions. \<open>lr_loop\<close> repeats the move and is \<open>None\<close> when that never ends.

  The result: on every list of tokens the automaton ends, with the answer of the parser of \<open>Pointy_Parser\<close>. Since
  the latter is written from the grammar alone, the generated tables implement the grammar.
\<close>

section \<open>The tables\<close>

type_synonym lr_production = "string \<times> string \<times> nat \<times> string option \<times> string option \<times> nat option"

definition lr_action_NUMBER :: "nat list \<times> int list" where
  "lr_action_NUMBER =
     ([0, 8, 9, 10, 11, 12, 14, 15, 27, 28],
      [6, 6, 6, 6, 6, 6, 23, 6, 6, 6])"

definition lr_action_TASKNAME :: "nat list \<times> int list" where
  "lr_action_TASKNAME =
     ([0, 8, 9, 10, 11, 12, 13, 15, 27, 28],
      [7, 7, 7, 7, 7, 7, 7, 7, 7, 7])"

definition lr_action_end :: "nat list \<times> int list" where
  "lr_action_end =
     ([1, 4, 5, 7, 16, 17, 18, 19, 20, 21, 22, 23, 26],
      [0, -9, -8, -12, -1, -2, -3, -4, -5, -6, -7, -11, -15])"

definition lr_action_POINTER :: "nat list \<times> int list" where
  "lr_action_POINTER =
     ([1, 2, 4, 5, 6, 7, 16, 17, 18, 19, 20, 21, 22, 23, 25, 26, 29, 30],
      [8, 11, -9, -8, -10, -12, -1, -2, -3, -4, -5, -6, -7, -11, 8, -15, 8, 8])"

definition lr_action_PPOINTER :: "nat list \<times> int list" where
  "lr_action_PPOINTER =
     ([1, 2, 4, 5, 6, 7, 16, 17, 18, 19, 20, 21, 22, 23, 25, 26, 29, 30],
      [9, 12, -9, -8, -10, -12, -1, -2, -3, -4, -5, -6, -7, -11, 9, -15, 9, 9])"

definition lr_action_PARALLEL :: "nat list \<times> int list" where
  "lr_action_PARALLEL =
     ([1, 4, 5, 7, 16, 17, 18, 19, 20, 21, 22, 23, 25, 26, 29, 30],
      [10, -9, -8, -12, -1, -2, -3, -4, -5, -6, -7, -11, 10, -15, 10, 10])"

definition lr_action_RETRY :: "nat list \<times> int list" where
  "lr_action_RETRY =
     ([3, 4, 6, 7, 26],
      [13, 14, -11, -12, -15])"

definition lr_action_LPAREN :: "nat list \<times> int list" where
  "lr_action_LPAREN =
     ([4, 7, 21, 26],
      [15, -12, 15, -15])"

definition lr_action_SEPERATOR :: "nat list \<times> int list" where
  "lr_action_SEPERATOR =
     ([4, 5, 7, 16, 17, 18, 19, 20, 21, 22, 23, 24, 25, 26, 29, 30],
      [-9, -8, -12, -1, -2, -3, -4, -5, -6, -7, -11, 27, 28, -15, -14, -13])"

definition lr_action_RPAREN :: "nat list \<times> int list" where
  "lr_action_RPAREN =
     ([4, 5, 7, 16, 17, 18, 19, 20, 21, 22, 23, 24, 26, 29, 30],
      [-9, -8, -12, -1, -2, -3, -4, -5, -6, -7, -11, 26, -15, -14, -13])"

definition lr_action_items :: "(string \<times> nat list \<times> int list) list" where
  "lr_action_items =
    [(''NUMBER'', lr_action_NUMBER),
     (''TASKNAME'', lr_action_TASKNAME),
     (''$end'', lr_action_end),
     (''POINTER'', lr_action_POINTER),
     (''PPOINTER'', lr_action_PPOINTER),
     (''PARALLEL'', lr_action_PARALLEL),
     (''RETRY'', lr_action_RETRY),
     (''LPAREN'', lr_action_LPAREN),
     (''SEPERATOR'', lr_action_SEPERATOR),
     (''RPAREN'', lr_action_RPAREN)]"

lemmas lr_action_defs = lr_action_items_def lr_action_NUMBER_def lr_action_TASKNAME_def lr_action_end_def lr_action_POINTER_def lr_action_PPOINTER_def lr_action_PARALLEL_def lr_action_RETRY_def lr_action_LPAREN_def lr_action_SEPERATOR_def lr_action_RPAREN_def

definition lr_goto_expression :: "nat list \<times> nat list" where
  "lr_goto_expression =
     ([0, 8, 9, 10, 11, 12, 15, 27, 28],
      [1, 16, 17, 18, 19, 20, 25, 29, 30])"

definition lr_goto_descriptor :: "nat list \<times> nat list" where
  "lr_goto_descriptor =
     ([0, 8, 9, 10, 11, 12, 15, 27, 28],
      [2, 2, 2, 2, 2, 2, 2, 2, 2])"

definition lr_goto_factor :: "nat list \<times> nat list" where
  "lr_goto_factor =
     ([0, 8, 9, 10, 11, 12, 14, 15, 27, 28],
      [3, 3, 3, 3, 3, 3, 22, 3, 3, 3])"

definition lr_goto_task :: "nat list \<times> nat list" where
  "lr_goto_task =
     ([0, 8, 9, 10, 11, 12, 13, 15, 27, 28],
      [4, 4, 4, 4, 4, 4, 21, 4, 4, 4])"

definition lr_goto_term :: "nat list \<times> nat list" where
  "lr_goto_term =
     ([0, 8, 9, 10, 11, 12, 15, 27, 28],
      [5, 5, 5, 5, 5, 5, 5, 5, 5])"

definition lr_goto_task_group :: "nat list \<times> nat list" where
  "lr_goto_task_group =
     ([15],
      [24])"

definition lr_goto_items :: "(string \<times> nat list \<times> nat list) list" where
  "lr_goto_items =
    [(''expression'', lr_goto_expression),
     (''descriptor'', lr_goto_descriptor),
     (''factor'', lr_goto_factor),
     (''task'', lr_goto_task),
     (''term'', lr_goto_term),
     (''task_group'', lr_goto_task_group)]"

lemmas lr_goto_defs = lr_goto_items_def lr_goto_expression_def lr_goto_descriptor_def lr_goto_factor_def lr_goto_task_def lr_goto_term_def lr_goto_task_group_def

definition lr_productions :: "lr_production list" where
  "lr_productions =
    [(''S' -> expression'', ''S'' @ [CHR 0x27], 1, None, None, None),
     (''expression -> expression POINTER expression'', ''expression'', 3, Some ''p_expression'', Some ''grammar.py'', Some 16),
     (''expression -> expression PPOINTER expression'', ''expression'', 3, Some ''p_expression'', Some ''grammar.py'', Some 17),
     (''expression -> expression PARALLEL expression'', ''expression'', 3, Some ''p_expression'', Some ''grammar.py'', Some 18),
     (''expression -> descriptor POINTER expression'', ''expression'', 3, Some ''p_expression'', Some ''grammar.py'', Some 19),
     (''expression -> descriptor PPOINTER expression'', ''expression'', 3, Some ''p_expression'', Some ''grammar.py'', Some 20),
     (''expression -> factor RETRY task'', ''expression'', 3, Some ''p_expression'', Some ''grammar.py'', Some 21),
     (''expression -> task RETRY factor'', ''expression'', 3, Some ''p_expression'', Some ''grammar.py'', Some 22),
     (''expression -> term'', ''expression'', 1, Some ''p_expression_term'', Some ''grammar.py'', Some 29),
     (''term -> task'', ''term'', 1, Some ''p_task'', Some ''grammar.py'', Some 36),
     (''descriptor -> NUMBER'', ''descriptor'', 1, Some ''p_descriptor'', Some ''grammar.py'', Some 43),
     (''factor -> NUMBER'', ''factor'', 1, Some ''p_factor'', Some ''grammar.py'', Some 59),
     (''task -> TASKNAME'', ''task'', 1, Some ''p_task_taskname'', Some ''grammar.py'', Some 74),
     (''task_group -> expression SEPERATOR expression'', ''task_group'', 3, Some ''p_task_group'', Some ''grammar.py'', Some 82),
     (''task_group -> task_group SEPERATOR expression'', ''task_group'', 3, Some ''p_task_group'', Some ''grammar.py'', Some 83),
     (''task -> task LPAREN task_group RPAREN'', ''task'', 4, Some ''p_task_conditional_statement'', Some ''grammar.py'', Some 91)]"

text \<open>Both tables are indexed by state and then by symbol.\<close>

type_synonym 'a lr_table = "(nat, (string, 'a) dict) dict"

definition lr_store :: "string \<Rightarrow> nat \<times> 'a \<Rightarrow> 'a lr_table \<Rightarrow> 'a lr_table" where
  "lr_store k xy tab =
     (let tab' = (if dict_has tab (fst xy) then tab else dict_set (fst xy) [] tab)
      in dict_set (fst xy) (dict_set k (snd xy) (the (dict_get tab' (fst xy)))) tab')"

definition lr_index :: "(string \<times> nat list \<times> 'a list) list \<Rightarrow> 'a lr_table" where
  "lr_index items = fold (\<lambda>(k, xs, ys). fold (lr_store k) (zip xs ys)) items []"

definition lr_action :: "int lr_table" where
  "lr_action = lr_index lr_action_items"

definition lr_goto :: "nat lr_table" where
  "lr_goto = lr_index lr_goto_items"

definition lr_entry :: "'a lr_table \<Rightarrow> nat \<Rightarrow> string \<Rightarrow> 'a option" where
  "lr_entry tab q s = (case dict_get tab q of None \<Rightarrow> None | Some row \<Rightarrow> dict_get row s)"

section \<open>The automaton\<close>

text \<open>Values on the stack: of numbers, of other tokens, of what the functions of the grammar return.\<close>

datatype lr_val = VNum int | VStr string | VAst ast

fun token_type :: "token \<Rightarrow> string" where
  "token_type SEPERATOR = ''SEPERATOR''"
| "token_type POINTER = ''POINTER''"
| "token_type PPOINTER = ''PPOINTER''"
| "token_type PARALLEL = ''PARALLEL''"
| "token_type RETRY = ''RETRY''"
| "token_type (TASKNAME s) = ''TASKNAME''"
| "token_type LPAREN = ''LPAREN''"
| "token_type RPAREN = ''RPAREN''"
| "token_type (NUMBER n) = ''NUMBER''"

fun token_value :: "token \<Rightarrow> lr_val" where
  "token_value SEPERATOR = VStr '',''"
| "token_value POINTER = VStr ''->''"
| "token_value PPOINTER = VStr ''|->''"
| "token_value PARALLEL = VStr ''||''"
| "token_value RETRY = VStr ''*''"
| "token_value (TASKNAME s) = VStr s"
| "token_value LPAREN = VStr ''(''"
| "token_value RPAREN = VStr '')''"
| "token_value (NUMBER n) = VNum n"

text \<open>The function of a production, by its name, on the values of the right-hand side.\<close>

definition call_production :: "string \<Rightarrow> lr_val list \<Rightarrow> exc_class + lr_val" where
  "call_production f vs =
     (case vs of
        [VAst l, VStr op, VAst r] \<Rightarrow>
          if f = ''p_expression'' then Inr (VAst (p_expression op l r))
          else if f = ''p_task_group'' then bind_res (p_task_group l r) (\<lambda>g. Inr (VAst g))
          else Inl TypeError
      | [VAst t, _, VAst g, _] \<Rightarrow>
          if f = ''p_task_conditional_statement'' then Inr (VAst (p_task_conditional_statement t g)) else Inl TypeError
      | [VNum n] \<Rightarrow>
          if f = ''p_descriptor'' then bind_res (p_descriptor n) (\<lambda>d. Inr (VAst d))
          else if f = ''p_factor'' then bind_res (p_factor n) (\<lambda>d. Inr (VAst d))
          else Inl TypeError
      | [VStr s] \<Rightarrow> if f = ''p_task_taskname'' then Inr (VAst (p_task_taskname s)) else Inl TypeError
      | [VAst e] \<Rightarrow> if f = ''p_expression_term'' \<or> f = ''p_task'' then Inr (VAst e) else Inl TypeError
      | _ \<Rightarrow> Inl TypeError)"

type_synonym lr_stack = "(nat \<times> lr_val) list"

definition lr_reduce :: "nat \<Rightarrow> lr_stack \<Rightarrow> exc_class + lr_stack" where
  "lr_reduce p stk =
     (case lr_productions ! p of (_, lhs, n, Some f, _, _) \<Rightarrow>
        bind_res (call_production f (rev (map snd (take n stk)))) (\<lambda>v.
          case lr_entry lr_goto (fst (hd (drop n stk))) lhs of
            None \<Rightarrow> Inl KeyError
          | Some q \<Rightarrow> Inr ((q, v) # drop n stk))
      | _ \<Rightarrow> Inl KeyError)"

definition lookahead :: "token list \<Rightarrow> string" where
  "lookahead ts = (case ts of [] \<Rightarrow> ''$end'' | t # _ \<Rightarrow> token_type t)"

definition lr_next :: "lr_stack \<Rightarrow> token list \<Rightarrow> (lr_stack \<times> token list) + (exc_class + ast)" where
  "lr_next stk ts =
     (case lr_entry lr_action (fst (hd stk)) (lookahead ts) of
        None \<Rightarrow> Inr p_error
      | Some a \<Rightarrow>
          if a < 0 then (case lr_reduce (nat (- a)) stk of Inl e \<Rightarrow> Inr (Inl e) | Inr stk' \<Rightarrow> Inl (stk', ts))
          else if a = 0 then Inr (case snd (hd stk) of VAst e \<Rightarrow> Inr e | _ \<Rightarrow> Inl TypeError)
          else (case ts of [] \<Rightarrow> Inr p_error | t # ts' \<Rightarrow> Inl ((nat a, token_value t) # stk, ts')))"

partial_function (option) lr_loop :: "lr_stack \<Rightarrow> token list \<Rightarrow> (exc_class + ast) option" where
  "lr_loop stk ts = (case lr_next stk ts of Inl c \<Rightarrow> lr_loop (fst c) (snd c) | Inr r \<Rightarrow> Some r)"

declare lr_loop.simps [code]

definition lr_parse :: "token list \<Rightarrow> (exc_class + ast) option" where
  "lr_parse ts = lr_loop [(0, VStr ''$end'')] ts"

section \<open>Looking entries up\<close>

lemma lr_entry_store: "lr_entry (lr_store k xy tab) q s = (if q = fst xy \<and> s = k then Some (snd xy) else lr_entry tab q s)"
  by (auto simp: lr_entry_def lr_store_def dict_simps Let_def split: option.split)

lemma lr_entry_fill:
  "distinct xs \<Longrightarrow> length xs = length ys \<Longrightarrow>
   lr_entry (fold (lr_store k) (zip xs ys) tab) q s =
     (if s = k then (case map_of (zip xs ys) q of None \<Rightarrow> lr_entry tab q s | Some y \<Rightarrow> Some y) else lr_entry tab q s)"
proof (induction xs arbitrary: ys tab)
  case (Cons x xs)
  then obtain y zs where "ys = y # zs" by (cases ys) auto
  moreover from Cons.prems have "map_of (zip xs zs) x = None" for zs :: "'a list"
    by (auto simp: map_of_eq_None_iff dest: set_zip_leftD)
  ultimately show ?case using Cons by (auto simp: lr_entry_store split: option.split dest: set_zip_leftD)
qed simp

lemma lr_entry_index:
  assumes "distinct (map fst items)" and "\<forall>(k, xs, ys) \<in> set items. distinct xs \<and> length xs = length ys"
  shows "lr_entry (lr_index items) q s =
         (case dict_get items s of None \<Rightarrow> None | Some (xs, ys) \<Rightarrow> map_of (zip xs ys) q)"
proof -
  have "lr_entry (fold (\<lambda>(k, xs, ys). fold (lr_store k) (zip xs ys)) items tab) q s =
        (case dict_get items s of None \<Rightarrow> lr_entry tab q s
         | Some (xs, ys) \<Rightarrow> (case map_of (zip xs ys) q of None \<Rightarrow> lr_entry tab q s | Some y \<Rightarrow> Some y))" for tab
    using assms
  proof (induction items arbitrary: tab)
    case (Cons i items)
    obtain k xs ys where "i = (k, xs, ys)" by (cases i)
    moreover from Cons.prems \<open>i = (k, xs, ys)\<close> have "dict_get items k = None"
      by (auto simp: map_of_eq_None_iff)
    ultimately show ?case using Cons by (cases "s = k") (auto simp: lr_entry_fill split: option.split dest: set_zip_leftD)
  qed simp
  from this[of "[]"] show ?thesis by (auto simp: lr_index_def lr_entry_def split: option.split)
qed

lemma action_entry:
  "lr_entry lr_action q s = (case dict_get lr_action_items s of None \<Rightarrow> None | Some (xs, ys) \<Rightarrow> map_of (zip xs ys) q)"
  unfolding lr_action_def by (rule lr_entry_index) (simp_all add: lr_action_defs)

lemma goto_entry:
  "lr_entry lr_goto q s = (case dict_get lr_goto_items s of None \<Rightarrow> None | Some (xs, ys) \<Rightarrow> map_of (zip xs ys) q)"
  unfolding lr_goto_def by (rule lr_entry_index) (simp_all add: lr_goto_defs)

end
