(* ===== verification/Parse_Tables_Props.thy ===== *)
theory Parse_Tables_Props
  imports Parse_Tables
begin

text \<open>
  The automaton of \<open>Parse_Tables\<close> simulates the parser of \<open>Pointy_Parser\<close>. \<open>config_stack\<close> is the stack of states and
  values that stands for a configuration of that parser; \<open>on_stack\<close> also allows a task whose last token has just been
  shifted, since the automaton reduces only when it sees the token after it.
\<close>

section \<open>Moves\<close>

definition starts :: "nat set" where
  "starts = {0, 8, 9, 10, 11, 12, 15, 27, 28}"

definition endings :: "string set" where
  "endings = {''$end'', ''POINTER'', ''PPOINTER'', ''PARALLEL'', ''SEPERATOR'', ''RPAREN''}"

text \<open>The columns of both tables.\<close>

lemma action_column:
  "lr_entry lr_action q ''NUMBER'' = map_of (zip (fst lr_action_NUMBER) (snd lr_action_NUMBER)) q"
  "lr_entry lr_action q ''TASKNAME'' = map_of (zip (fst lr_action_TASKNAME) (snd lr_action_TASKNAME)) q"
  "lr_entry lr_action q ''$end'' = map_of (zip (fst lr_action_end) (snd lr_action_end)) q"
  "lr_entry lr_action q ''POINTER'' = map_of (zip (fst lr_action_POINTER) (snd lr_action_POINTER)) q"
  "lr_entry lr_action q ''PPOINTER'' = map_of (zip (fst lr_action_PPOINTER) (snd lr_action_PPOINTER)) q"
  "lr_entry lr_action q ''PARALLEL'' = map_of (zip (fst lr_action_PARALLEL) (snd lr_action_PARALLEL)) q"
  "lr_entry lr_action q ''RETRY'' = map_of (zip (fst lr_action_RETRY) (snd lr_action_RETRY)) q"
  "lr_entry lr_action q ''LPAREN'' = map_of (zip (fst lr_action_LPAREN) (snd lr_action_LPAREN)) q"
  "lr_entry lr_action q ''SEPERATOR'' = map_of (zip (fst lr_action_SEPERATOR) (snd lr_action_SEPERATOR)) q"
  "lr_entry lr_action q ''RPAREN'' = map_of (zip (fst lr_action_RPAREN) (snd lr_action_RPAREN)) q"
  by (simp_all add: action_entry lr_action_items_def case_prod_beta)

lemmas action_columns = action_column[unfolded lr_action_defs fst_conv snd_conv]

lemma goto_column:
  "lr_entry lr_goto q ''expression'' = map_of (zip (fst lr_goto_expression) (snd lr_goto_expression)) q"
  "lr_entry lr_goto q ''descriptor'' = map_of (zip (fst lr_goto_descriptor) (snd lr_goto_descriptor)) q"
  "lr_entry lr_goto q ''factor'' = map_of (zip (fst lr_goto_factor) (snd lr_goto_factor)) q"
  "lr_entry lr_goto q ''task'' = map_of (zip (fst lr_goto_task) (snd lr_goto_task)) q"
  "lr_entry lr_goto q ''term'' = map_of (zip (fst lr_goto_term) (snd lr_goto_term)) q"
  "lr_entry lr_goto q ''task_group'' = map_of (zip (fst lr_goto_task_group) (snd lr_goto_task_group)) q"
  by (simp_all add: goto_entry lr_goto_items_def case_prod_beta)

lemmas goto_columns = goto_column[unfolded lr_goto_defs fst_conv snd_conv]

lemmas reduce_simps = lr_reduce_def lr_productions_def call_production_def

lemma loop_shift:
  assumes "lr_entry lr_action q (token_type t) = Some a" and "0 < a"
  shows "lr_loop ((q, v) # stk) (t # ts) = lr_loop ((nat a, token_value t) # (q, v) # stk) ts"
  using assms by (subst lr_loop.simps) (simp add: lr_next_def lookahead_def)

lemma loop_reduce:
  assumes "lr_entry lr_action q (lookahead ts) = Some (- int p)" and "0 < p" and "lr_reduce p ((q, v) # stk) = Inr stk'"
  shows "lr_loop ((q, v) # stk) ts = lr_loop stk' ts"
  using assms by (subst lr_loop.simps) (simp add: lr_next_def)

lemma loop_raise:
  assumes "lr_entry lr_action q (lookahead ts) = Some (- int p)" and "0 < p" and "lr_reduce p ((q, v) # stk) = Inl e"
  shows "lr_loop ((q, v) # stk) ts = Some (Inl e)"
  using assms by (subst lr_loop.simps) (simp add: lr_next_def)

lemma loop_error:
  assumes "lr_entry lr_action q (lookahead ts) = None"
  shows "lr_loop ((q, v) # stk) ts = Some p_error"
  using assms by (subst lr_loop.simps) (simp add: lr_next_def)

lemma loop_accept:
  assumes "lr_entry lr_action q (lookahead ts) = Some 0"
  shows "lr_loop ((q, VAst e) # stk) ts = Some (Inr e)"
  using assms by (subst lr_loop.simps) (simp add: lr_next_def)

text \<open>Entries that do not depend on which of the start states, or which ending, is meant.\<close>

lemma goto_start:
  assumes "q \<in> starts"
  shows "lr_entry lr_goto q ''descriptor'' = Some 2" "lr_entry lr_goto q ''factor'' = Some 3"
    "lr_entry lr_goto q ''task'' = Some 4" "lr_entry lr_goto q ''term'' = Some 5"
  using assms by (auto simp: starts_def goto_columns)

lemma act_start:
  assumes "q \<in> starts"
  shows "lr_entry lr_action q ''NUMBER'' = Some 6" "lr_entry lr_action q ''TASKNAME'' = Some 7"
    "s = ''RETRY'' \<or> s = ''LPAREN'' \<or> s \<in> endings \<Longrightarrow> lr_entry lr_action q s = None"
  using assms by (auto simp: starts_def endings_def action_columns)

lemma act_ending:
  assumes "s \<in> endings"
  shows "lr_entry lr_action 4 s = Some (- 9)" "lr_entry lr_action 5 s = Some (- 8)" "lr_entry lr_action 7 s = Some (- 12)"
    "lr_entry lr_action 16 s = Some (- 1)" "lr_entry lr_action 17 s = Some (- 2)" "lr_entry lr_action 18 s = Some (- 3)"
    "lr_entry lr_action 19 s = Some (- 4)" "lr_entry lr_action 20 s = Some (- 5)" "lr_entry lr_action 21 s = Some (- 6)"
    "lr_entry lr_action 22 s = Some (- 7)" "lr_entry lr_action 23 s = Some (- 11)" "lr_entry lr_action 26 s = Some (- 15)"
  using assms by (auto simp: endings_def action_columns)

lemma act_task:
  "s = ''RETRY'' \<or> s = ''LPAREN'' \<Longrightarrow> lr_entry lr_action 7 s = Some (- 12)"
  "s = ''RETRY'' \<or> s = ''LPAREN'' \<Longrightarrow> lr_entry lr_action 26 s = Some (- 15)"
  by (auto simp: action_columns)

section \<open>The stack of a configuration\<close>

fun is_descriptor :: "ast \<Rightarrow> bool" where
  "is_descriptor (Descriptor d) = True"
| "is_descriptor _ = False"

definition expr_state :: "nat \<Rightarrow> nat" where
  "expr_state q = the (lr_entry lr_goto q ''expression'')"

definition op_state :: "bool \<Rightarrow> string \<Rightarrow> nat" where
  "op_state d op = (if d then (if op = ''->'' then 11 else 12)
                    else if op = ''->'' then 8 else if op = ''|->'' then 9 else 10)"

fun acc_stack :: "group_acc \<Rightarrow> lr_stack \<Rightarrow> lr_stack" where
  "acc_stack GNone stk = stk"
| "acc_stack (GExpr e) stk = (28, VStr '','') # (25, VAst e) # stk"
| "acc_stack (GGroup g) stk = (27, VStr '','') # (24, VAst g) # stk"

fun pending_stack :: "pending \<Rightarrow> lr_stack \<Rightarrow> lr_stack" where
  "pending_stack [] stk = stk"
| "pending_stack ((l, op) # ps) stk =
     (op_state (is_descriptor l) op, VStr op) #
     (if is_descriptor l then 2 else expr_state (fst (hd stk)), VAst l) # pending_stack ps stk"

fun item_stack :: "item \<Rightarrow> lr_stack \<Rightarrow> lr_stack" where
  "item_stack (Num n) stk = (6, VNum n) # stk"
| "item_stack (FactorStar f) stk = (13, VStr ''*'') # (3, VAst f) # stk"
| "item_stack (PreTask f t) stk = (21, VAst t) # (13, VStr ''*'') # (3, VAst f) # stk"
| "item_stack (TaskItem t) stk = (4, VAst t) # stk"
| "item_stack (TaskStar t) stk = (14, VStr ''*'') # (4, VAst t) # stk"
| "item_stack (Done (BinOp op t (Factor n))) stk = (23, VNum n) # (14, VStr op) # (4, VAst t) # stk"
| "item_stack _ stk = stk"

fun frames_stack :: "frame list \<Rightarrow> lr_stack" where
  "frames_stack [] = [(0, VStr ''$end'')]"
| "frames_stack ((a, ps, m) # fr) =
     (15, VStr ''('') # item_stack m (pending_stack ps (acc_stack a (frames_stack fr)))"

abbreviation base_stack :: "group_acc \<Rightarrow> frame list \<Rightarrow> lr_stack" where
  "base_stack a fr \<equiv> acc_stack a (frames_stack fr)"

fun config_stack :: "config \<Rightarrow> lr_stack" where
  "config_stack (a, ps, m, fr) = item_stack m (pending_stack ps (base_stack a fr))"

text \<open>The shape of reachable configurations, beyond \<open>config_ok\<close>.\<close>

fun item_shape :: "item \<Rightarrow> bool" where
  "item_shape (Done e) = (\<exists>t n. e = BinOp ''*'' t (Factor n) \<and> 2 \<le> n)"
| "item_shape _ = True"

fun opened :: "item \<Rightarrow> bool" where
  "opened (TaskItem t) = True"
| "opened (PreTask f t) = True"
| "opened _ = False"

fun only_inside :: "group_acc \<Rightarrow> frame list \<Rightarrow> bool" where
  "only_inside a [] = (a = GNone)"
| "only_inside a ((a', ps, m) # fr) = (opened m \<and> only_inside a' fr)"

fun shape_ok :: "config \<Rightarrow> bool" where
  "shape_ok (a, ps, m, fr) = (config_ok (a, ps, m, fr) \<and> item_shape m \<and> only_inside a fr)"

lemma parser_step_shape:
  assumes "shape_ok c" and "parser_step c t = Inr c'"
  shows "shape_ok c'"
proof -
  obtain a ps m fr where c: "c = (a, ps, m, fr)" by (cases c)
  obtain a' ps' m' fr' where c': "c' = (a', ps', m', fr')" by (cases c')
  from assms(1) c have "config_ok c" by simp
  then have "config_ok c'" using assms(2) by (rule parser_step_ok)
  moreover have "item_shape m' \<and> only_inside a' fr'"
  proof (cases t)
    case RPAREN
    with assms(2) c c' have "parser_step (a, ps, m, fr) RPAREN = Inr (a', ps', m', fr')" by simp
    then obtain m0 g where "fr = (a', ps', m0) # fr'" "m' = close_group m0 g"
      by (rule step_rparen_inv) simp
    with assms(1) c show ?thesis by (cases m0) auto
  next
    case SEPERATOR
    with assms(2) c c' have "parser_step (a, ps, m, fr) SEPERATOR = Inr (a', ps', m', fr')" by simp
    then have "m' = Start" "fr' = fr" "fr \<noteq> []" by (auto elim: step_separator_inv simp del: parser_step.simps)
    with assms(1) c show ?thesis by (cases fr) auto
  qed (use assms c c' in \<open>auto simp: shift_connective_def p_error_def p_factor_def p_expression_def res_simps
         split: item.splits if_splits option.splits\<close>)
  ultimately show ?thesis using c' by auto
qed

text \<open>The state on top before an item is a start state, and what an expression on it leads to.\<close>

definition top_start :: "lr_stack \<Rightarrow> bool" where
  "top_start stk \<longleftrightarrow> (\<exists>q v rest. stk = (q, v) # rest \<and> q \<in> starts)"

lemma frames_top: "fst (hd (frames_stack fr)) \<in> starts \<and> frames_stack fr \<noteq> []"
  by (cases fr rule: frames_stack.cases) (auto simp: starts_def)

lemma base_top: "top_start (base_stack a fr)"
  using frames_top[of fr] by (cases a; cases "frames_stack fr") (auto simp: top_start_def starts_def)

lemma pending_top: "top_start stk \<Longrightarrow> top_start (pending_stack ps stk)"
  by (cases "(ps, stk)" rule: pending_stack.cases) (auto simp: top_start_def starts_def op_state_def)

lemma goto_expr: "q \<in> starts \<Longrightarrow> lr_entry lr_goto q ''expression'' = Some (expr_state q)"
  by (auto simp: starts_def expr_state_def goto_columns)

lemma expr_state_simps:
  "expr_state 8 = 16" "expr_state 9 = 17" "expr_state 10 = 18" "expr_state 11 = 19" "expr_state 12 = 20"
  "expr_state 0 = 1" "expr_state 15 = 25" "expr_state 27 = 29" "expr_state 28 = 30"
  by (simp_all add: expr_state_def goto_columns)

section \<open>Reductions\<close>

lemma loop_binary:
  assumes "lookahead ts \<in> endings" and "top_start stk" and "connective op" and "d \<longrightarrow> arrow op"
  shows "lr_loop ((expr_state (op_state d op), VAst e) # (op_state d op, VStr op) # (ql, VAst l) # stk) ts =
         lr_loop ((expr_state (fst (hd stk)), VAst (p_expression op l e)) # stk) ts"
proof -
  let ?p = "if d then (if op = ''->'' then 4 else 5) else if op = ''->'' then 1 else if op = ''|->'' then 2 else 3"
  obtain q v rest where stk: "stk = (q, v) # rest" and q: "q \<in> starts" using assms(2) by (auto simp: top_start_def)
  have "lr_reduce ?p ((expr_state (op_state d op), VAst e) # (op_state d op, VStr op) # (ql, VAst l) # stk) =
      Inr ((expr_state q, VAst (p_expression op l e)) # stk)"
    using assms(3,4) goto_expr[OF q] by (auto simp: stk reduce_simps)
  moreover have "lr_entry lr_action (expr_state (op_state d op)) (lookahead ts) = Some (- int ?p)"
    using assms(3,4) act_ending[OF assms(1)] by (auto simp: connective_def arrow_def op_state_def expr_state_simps)
  ultimately show ?thesis by (simp add: loop_reduce stk)
qed

text \<open>An expression on top of the stack is reduced with everything that waits for it.\<close>

lemma loop_pending:
  assumes "pending_ok ps" and "lookahead ts \<in> endings" and "top_start stk"
  shows "lr_loop ((expr_state (fst (hd (pending_stack ps stk))), VAst e) # pending_stack ps stk) ts =
         lr_loop ((expr_state (fst (hd stk)), VAst (reduce_pending ps e)) # stk) ts"
  using assms(1)
proof (induction ps e rule: reduce_pending.induct)
  case (2 l op ps e)
  let ?below = "pending_stack ps stk" and ?d = "is_descriptor l"
  from 2(2) have op: "connective op" "?d \<longrightarrow> arrow op" "pending_ok ps"
    by (auto simp: connective_def elim: is_descriptor.elims)
  have "lr_loop ((expr_state (op_state ?d op), VAst e) # pending_stack ((l, op) # ps) stk) ts =
        lr_loop ((expr_state (fst (hd ?below)), VAst (p_expression op l e)) # ?below) ts"
    using loop_binary[OF assms(2) pending_top[OF assms(3)] op(1,2)] by simp
  with 2(1)[OF op(3)] show ?case by simp
qed simp

text \<open>A complete item becomes an expression.\<close>

lemma loop_complete:
  assumes "complete m = Some e" and "item_shape m" and "lookahead ts \<in> endings" and "top_start stk"
  shows "lr_loop (item_stack m stk) ts = lr_loop ((expr_state (fst (hd stk)), VAst e) # stk) ts"
proof -
  obtain q v rest where stk: "stk = (q, v) # rest" and q: "q \<in> starts" using assms(4) by (auto simp: top_start_def)
  note ends = act_ending[OF assms(3)] goto_start[OF q] goto_expr[OF q]
  show ?thesis
  proof (cases m)
    case (PreTask f t)
    have "lr_loop ((21, VAst t) # (13, VStr ''*'') # (3, VAst f) # stk) ts =
        lr_loop ((expr_state q, VAst (p_expression ''*'' f t)) # stk) ts"
      by (rule loop_reduce[where p = 6]) (simp_all add: ends reduce_simps stk)
    with PreTask assms(1) stk show ?thesis by simp
  next
    case (TaskItem t)
    have "lr_loop ((4, VAst t) # stk) ts = lr_loop ((5, VAst t) # stk) ts"
      by (rule loop_reduce[where p = 9]) (simp_all add: ends reduce_simps stk)
    also have "\<dots> = lr_loop ((expr_state q, VAst t) # stk) ts"
      by (rule loop_reduce[where p = 8]) (simp_all add: ends reduce_simps stk)
    finally show ?thesis using TaskItem assms(1) stk by simp
  next
    case (Done e')
    with assms(1,2) obtain t n where e: "e = BinOp ''*'' t (Factor n)" "2 \<le> n" "m = Done e" by auto
    have "lr_loop ((23, VNum n) # (14, VStr ''*'') # (4, VAst t) # stk) ts =
        lr_loop ((22, VAst (Factor n)) # (14, VStr ''*'') # (4, VAst t) # stk) ts"
      by (rule loop_reduce[where p = 11]) (use e in \<open>simp_all add: ends reduce_simps goto_columns p_factor_def\<close>)
    also have "\<dots> = lr_loop ((expr_state q, VAst e) # stk) ts"
      by (rule loop_reduce[where p = 7]) (simp_all add: e ends reduce_simps p_expression_def stk)
    finally show ?thesis using e stk by simp
  qed (use assms(1) in simp_all)
qed

lemma loop_expression:
  assumes "complete m = Some e" and "shape_ok (a, ps, m, fr)" and "lookahead ts \<in> endings"
  shows "lr_loop (config_stack (a, ps, m, fr)) ts =
         lr_loop ((expr_state (fst (hd (base_stack a fr))), VAst (reduce_pending ps e)) # base_stack a fr) ts"
proof -
  have "lr_loop (config_stack (a, ps, m, fr)) ts =
      lr_loop ((expr_state (fst (hd (pending_stack ps (base_stack a fr)))), VAst e) # pending_stack ps (base_stack a fr)) ts"
    using assms by (simp add: loop_complete pending_top base_top)
  also have "\<dots> = lr_loop ((expr_state (fst (hd (base_stack a fr))), VAst (reduce_pending ps e)) # base_stack a fr) ts"
    using assms by (intro loop_pending) (simp_all add: base_top)
  finally show ?thesis .
qed

section \<open>Simulation\<close>

inductive on_stack :: "lr_stack \<Rightarrow> config \<Rightarrow> bool" where
  settled: "on_stack (config_stack c) c"
| named: "on_stack ((7, VStr s) # config_stack (a, ps, Start, fr)) (a, ps, TaskItem (p_task_taskname s), fr)"
| named_retry: "on_stack ((7, VStr s) # config_stack (a, ps, FactorStar f, fr)) (a, ps, PreTask f (p_task_taskname s), fr)"
| closed: "opened m \<Longrightarrow>
    on_stack ((26, VStr '')'') # (24, VAst g) # (15, VStr ''('') # config_stack (a, ps, m, fr)) (a, ps, close_group m g, fr)"

lemma lookahead_cases:
  obtains (ending) "lookahead ts \<in> endings" | (task) "lookahead ts = ''RETRY'' \<or> lookahead ts = ''LPAREN''"
  | (item) "lookahead ts = ''NUMBER'' \<or> lookahead ts = ''TASKNAME''"
  by (cases ts; cases "hd ts") (auto simp: lookahead_def endings_def)

text \<open>A task at the end of the stack is reduced, or the next token is an error either way.\<close>

lemma settle_task:
  assumes "lr_reduce p ((q, v) # stk) = Inr ((q', v') # stk')" and "q' = 4 \<or> q' = 21"
    and "q = 7 \<and> p = 12 \<or> q = 26 \<and> p = 15"
  shows "lr_loop ((q, v) # stk) ts = lr_loop ((q', v') # stk') ts"
proof (cases ts rule: lookahead_cases)
  case ending
  then show ?thesis using assms act_ending[OF ending] by (intro loop_reduce[where p = p]) auto
next
  case task
  then show ?thesis using assms act_task[OF task] by (intro loop_reduce[where p = p]) auto
next
  case item
  then have "lr_loop ((q, v) # stk) ts = Some p_error" "lr_loop ((q', v') # stk') ts = Some p_error"
    using assms by (auto intro!: loop_error simp: action_columns)
  then show ?thesis by simp
qed

lemma settle: "on_stack stk c \<Longrightarrow> lr_loop stk ts = lr_loop (config_stack c) ts"
proof (induction rule: on_stack.induct)
  case (named s a ps fr)
  from pending_top[OF base_top, of ps a fr] show ?case
    by (auto simp: top_start_def reduce_simps goto_start intro!: settle_task[where p = 12])
next
  case (named_retry s a ps f fr)
  show ?case by (auto simp: reduce_simps goto_columns intro!: settle_task[where p = 12])
next
  case (closed m g a ps fr)
  from pending_top[OF base_top, of ps a fr] closed show ?case
    by (cases m) (auto simp: top_start_def starts_def reduce_simps goto_columns intro!: settle_task[where p = 15])
qed simp

definition simulates :: "config \<Rightarrow> token \<Rightarrow> bool" where
  "simulates c t \<longleftrightarrow> (\<forall>ts. case parser_step c t of
      Inl e \<Rightarrow> lr_loop (config_stack c) (t # ts) = Some (Inl e)
    | Inr c' \<Rightarrow> \<exists>stk. on_stack stk c' \<and> lr_loop (config_stack c) (t # ts) = lr_loop stk ts)"

lemma simulates_error:
  assumes "parser_step c t = p_error" and "config_stack c = (q, v) # stk" and "lr_entry lr_action q (token_type t) = None"
  shows "simulates c t"
  using assms loop_error[of q "t # _" v stk] by (simp add: simulates_def p_error_def lookahead_def)

lemma simulates_shift:
  assumes "parser_step c t = Inr c'" and "\<And>ts. lr_loop (config_stack c) (t # ts) = lr_loop ((q, v) # stk) (t # ts)"
    and "lr_entry lr_action q (token_type t) = Some q'" and "0 < q'"
    and "on_stack ((nat q', token_value t) # (q, v) # stk) c'"
  shows "simulates c t"
  using assms loop_shift[OF assms(3,4)] by (auto simp: simulates_def)

lemma lookahead_Cons [simp]: "lookahead (t # ts) = token_type t"
  by (simp add: lookahead_def)

lemma base_expr_state: "expr_state (fst (hd (base_stack a fr))) \<in> {1, 25, 29, 30}"
proof -
  have "fst (hd (frames_stack fr)) \<in> {0, 15}" by (cases fr rule: frames_stack.cases) auto
  then show ?thesis by (cases a) (auto simp: expr_state_simps)
qed

lemma config_top: "top_start (config_stack (a, ps, Start, fr))"
  by (simp add: pending_top base_top)

text \<open>No rule applies to an item that is not complete.\<close>

lemma stuck_item:
  assumes "complete m = None" and "\<forall>n. m \<noteq> Num n" and "item_shape m" and "s \<in> endings"
  shows "\<exists>q v stk. config_stack (a, ps, m, fr) = (q, v) # stk \<and> lr_entry lr_action q s = None"
proof (cases m)
  case Start
  with config_top[of a ps fr] obtain q v stk where "config_stack (a, ps, m, fr) = (q, v) # stk" "q \<in> starts"
    by (auto simp: top_start_def)
  with assms(4) show ?thesis by (auto simp: act_start)
qed (use assms in \<open>auto simp: endings_def action_columns\<close>)

lemma connective_token:
  "connective op \<Longrightarrow> token_type (op_token op) \<in> endings"
  "connective op \<Longrightarrow> token_value (op_token op) = VStr op"
  "connective op \<Longrightarrow> q \<in> {1, 25, 29, 30} \<Longrightarrow>
     lr_entry lr_action q (token_type (op_token op)) = Some (int (op_state False op))"
  "arrow op \<Longrightarrow> lr_entry lr_action 2 (token_type (op_token op)) = Some (int (op_state True op))"
  "arrow op \<Longrightarrow> lr_entry lr_action 6 (token_type (op_token op)) = Some (- 10)"
  by (auto simp: connective_def arrow_def op_token_def endings_def op_state_def action_columns)

lemma op_state_pos: "0 < op_state d op"
  by (simp add: op_state_def)

lemma descriptor_not_expr: "wf_ast KExpr e \<Longrightarrow> \<not> is_descriptor e"
  by (cases e) auto

lemma shape_expr: "shape_ok (a, ps, m, fr) \<Longrightarrow> complete m = Some e \<Longrightarrow> wf_ast KExpr (reduce_pending ps e)"
  using complete_ok[of m e] reduce_pending_ok[of ps e] by simp

lemma simulates_number_connective:
  assumes "connective op"
  shows "simulates (a, ps, Num n, fr) (op_token op)"
proof (cases "arrow op \<and> 0 \<le> n \<and> n < 10")
  case True
  obtain q v rest where stk: "pending_stack ps (base_stack a fr) = (q, v) # rest" and q: "q \<in> starts"
    using pending_top[OF base_top, of ps a fr] by (auto simp: top_start_def)
  show ?thesis
  proof (rule simulates_shift)
    show "parser_step (a, ps, Num n, fr) (op_token op) = Inr (a, (Descriptor n, op) # ps, Start, fr)"
      using True assms by (auto simp: step_op_token shift_connective_def p_descriptor_def arrow_def)
    show "lr_loop (config_stack (a, ps, Num n, fr)) (op_token op # ts) =
        lr_loop ((2, VAst (Descriptor n)) # pending_stack ps (base_stack a fr)) (op_token op # ts)" for ts
      using True goto_start[OF q] connective_token(5)
      by (auto intro!: loop_reduce[where p = 10] simp: reduce_simps p_descriptor_def stk)
    show "lr_entry lr_action 2 (token_type (op_token op)) = Some (int (op_state True op))"
      using True connective_token(4) by simp
    show "on_stack ((nat (int (op_state True op)), token_value (op_token op)) # (2, VAst (Descriptor n)) #
        pending_stack ps (base_stack a fr)) (a, (Descriptor n, op) # ps, Start, fr)"
      using settled[of "(a, (Descriptor n, op) # ps, Start, fr)"] assms connective_token(2) by simp
  qed (simp add: op_state_pos)
next
  case False
  have "lr_loop (config_stack (a, ps, Num n, fr)) (op_token op # ts) = Some (Inl SyntaxError)" for ts
  proof (cases "arrow op")
    case True
    with False connective_token(5) show ?thesis
      by (auto intro!: loop_raise[where p = 10] simp: reduce_simps p_descriptor_def)
  next
    case False
    with assms have "token_type (op_token op) = ''PARALLEL''" by (simp add: connective_def op_token_def)
    then have "lr_loop ((6, VNum n) # pending_stack ps (base_stack a fr)) (op_token op # ts) = Some p_error"
      by (intro loop_error) (simp add: action_columns)
    then show ?thesis by (simp add: p_error_def)
  qed
  moreover have "parser_step (a, ps, Num n, fr) (op_token op) = Inl SyntaxError"
    using False assms by (auto simp: step_op_token shift_connective_def p_descriptor_def p_error_def connective_def)
  ultimately show ?thesis by (simp add: simulates_def)
qed

lemma simulates_connective:
  assumes shape: "shape_ok (a, ps, m, fr)" and op: "connective op"
  shows "simulates (a, ps, m, fr) (op_token op)"
proof (cases "complete m")
  case (Some e)
  let ?e = "reduce_pending ps e" and ?b = "base_stack a fr"
  from shape Some have "wf_ast KExpr ?e" by (rule shape_expr)
  then have no: "\<not> is_descriptor ?e" by (rule descriptor_not_expr)
  show ?thesis
  proof (rule simulates_shift)
    show "parser_step (a, ps, m, fr) (op_token op) = Inr (a, [(?e, op)], Start, fr)"
      using Some op by (cases m) (auto simp: step_op_token shift_connective_def)
    show "lr_loop (config_stack (a, ps, m, fr)) (op_token op # ts) =
        lr_loop ((expr_state (fst (hd ?b)), VAst ?e) # ?b) (op_token op # ts)" for ts
      using loop_expression[OF Some shape] connective_token(1)[OF op] by simp
    show "lr_entry lr_action (expr_state (fst (hd ?b))) (token_type (op_token op)) = Some (int (op_state False op))"
      by (rule connective_token(3)[OF op base_expr_state])
    show "on_stack ((nat (int (op_state False op)), token_value (op_token op)) # (expr_state (fst (hd ?b)), VAst ?e) # ?b)
        (a, [(?e, op)], Start, fr)"
      using settled[of "(a, [(?e, op)], Start, fr)"] no connective_token(2)[OF op] by simp
  qed (simp add: op_state_pos)
next
  case None
  show ?thesis
  proof (cases "\<exists>n. m = Num n")
    case True
    then show ?thesis using op simulates_number_connective by auto
  next
    case False
    with None shape connective_token(1)[OF op] obtain q v stk where
      "config_stack (a, ps, m, fr) = (q, v) # stk" "lr_entry lr_action q (token_type (op_token op)) = None"
      using stuck_item[of m "token_type (op_token op)" a ps fr] by auto
    moreover have "parser_step (a, ps, m, fr) (op_token op) = p_error"
      using False None op by (cases m) (auto simp: step_op_token shift_connective_def)
    ultimately show ?thesis by (rule simulates_error[rotated])
  qed
qed

text \<open>Tokens that continue an item.\<close>

lemma simulates_number: "shape_ok (a, ps, m, fr) \<Longrightarrow> simulates (a, ps, m, fr) (NUMBER n)"
proof (cases m)
  case Start
  obtain q v rest where stk: "pending_stack ps (base_stack a fr) = (q, v) # rest" and q: "q \<in> starts"
    using pending_top[OF base_top, of ps a fr] by (auto simp: top_start_def)
  with Start settled[of "(a, ps, Num n, fr)"] act_start(1)[OF q] show ?thesis
    by (intro simulates_shift[where q = q and q' = 6]) auto
next
  case (TaskStar t)
  show ?thesis
  proof (cases "n < 2")
    case True
    have "lr_loop ((23, VNum n) # stk) ts = Some (Inl SyntaxError)" for stk ts
    proof (cases ts rule: lookahead_cases)
      case ending
      with True act_ending[OF ending] show ?thesis
        by (intro loop_raise[where p = 11]) (auto simp: reduce_simps p_factor_def)
    qed (use loop_error[of 23 ts] in \<open>auto simp: p_error_def action_columns\<close>)
    then have "lr_loop ((14, VStr ''*'') # (4, VAst t) # stk) (NUMBER n # ts) = Some (Inl SyntaxError)" for stk ts
      by (subst loop_shift[where a = 23]) (auto simp: action_columns)
    with True TaskStar show ?thesis by (simp add: simulates_def p_factor_def)
  next
    case False
    with TaskStar settled[of "(a, ps, Done (p_expression ''*'' t (Factor n)), fr)"] show ?thesis
      by (intro simulates_shift[where q = 14 and q' = 23]) (auto simp: p_factor_def p_expression_def action_columns)
  qed
qed (auto intro!: simulates_error simp: action_columns)

lemma simulates_name: "simulates (a, ps, m, fr) (TASKNAME x)"
  if "shape_ok (a, ps, m, fr)"
proof (cases m)
  case Start
  obtain q v rest where stk: "pending_stack ps (base_stack a fr) = (q, v) # rest" and q: "q \<in> starts"
    using pending_top[OF base_top, of ps a fr] by (auto simp: top_start_def)
  with Start named[of x a ps fr] act_start(2)[OF q] show ?thesis
    by (intro simulates_shift[where q = q and q' = 7]) auto
next
  case (FactorStar f)
  with named_retry[of x a ps f fr] show ?thesis
    by (intro simulates_shift[where q = 13 and q' = 7]) (auto simp: action_columns)
qed (use that in \<open>auto intro!: simulates_error simp: action_columns\<close>)

lemma simulates_retry: "simulates (a, ps, m, fr) RETRY"
  if "shape_ok (a, ps, m, fr)"
proof (cases m)
  case (Num n)
  obtain q v rest where stk: "pending_stack ps (base_stack a fr) = (q, v) # rest" and q: "q \<in> starts"
    using pending_top[OF base_top, of ps a fr] by (auto simp: top_start_def)
  show ?thesis
  proof (cases "n < 2")
    case True
    then have "lr_loop ((6, VNum n) # stk) (RETRY # ts) = Some (Inl SyntaxError)" for stk ts
      by (intro loop_raise[where p = 11]) (auto simp: action_columns reduce_simps p_factor_def)
    with True Num show ?thesis by (simp add: simulates_def p_factor_def)
  next
    case False
    then have "lr_loop ((6, VNum n) # (q, v) # rest) (RETRY # ts) =
        lr_loop ((3, VAst (Factor n)) # (q, v) # rest) (RETRY # ts)" for ts
      using goto_start[OF q] by (intro loop_reduce[where p = 11]) (auto simp: action_columns reduce_simps p_factor_def)
    with False Num stk settled[of "(a, ps, FactorStar (Factor n), fr)"] show ?thesis
      by (intro simulates_shift[where q = 3 and q' = 13]) (auto simp: action_columns p_factor_def)
  qed
next
  case (TaskItem t)
  with settled[of "(a, ps, TaskStar t, fr)"] show ?thesis
    by (intro simulates_shift[where q = 4 and q' = 14]) (auto simp: action_columns)
next
  case Start
  with config_top[of a ps fr] show ?thesis
    by (auto simp: top_start_def act_start intro!: simulates_error)
qed (use that in \<open>auto intro!: simulates_error simp: action_columns\<close>)

lemma simulates_lparen: "simulates (a, ps, m, fr) LPAREN"
  if "shape_ok (a, ps, m, fr)"
proof (cases m)
  case (TaskItem t)
  with settled[of "(GNone, [], Start, (a, ps, m) # fr)"] show ?thesis
    by (intro simulates_shift[where q = 4 and q' = 15]) (auto simp: action_columns)
next
  case (PreTask f t)
  with settled[of "(GNone, [], Start, (a, ps, m) # fr)"] show ?thesis
    by (intro simulates_shift[where q = 21 and q' = 15]) (auto simp: action_columns)
next
  case Start
  with config_top[of a ps fr] show ?thesis
    by (auto simp: top_start_def act_start intro!: simulates_error)
qed (use that in \<open>auto intro!: simulates_error simp: action_columns\<close>)

text \<open>The second and each later expression of a group is added to it when its end is seen.\<close>

lemma loop_join:
  assumes "join_group a e = Inr (GGroup g)" and "fr \<noteq> []" and "lookahead ts = ''SEPERATOR'' \<or> lookahead ts = ''RPAREN''"
  shows "lr_loop ((expr_state (fst (hd (base_stack a fr))), VAst e) # base_stack a fr) ts =
         lr_loop ((24, VAst g) # frames_stack fr) ts"
proof -
  obtain v rest where fr: "frames_stack fr = (15, v) # rest" using assms(2) by (cases fr rule: frames_stack.cases) auto
  show ?thesis
  proof (cases a)
    case (GExpr e0)
    with assms fr show ?thesis
      by (auto simp: expr_state_simps join_group_def res_simps action_columns reduce_simps goto_columns
            intro!: loop_reduce[where p = 13])
  next
    case (GGroup g0)
    with assms fr show ?thesis
      by (auto simp: expr_state_simps join_group_def res_simps action_columns reduce_simps goto_columns
            intro!: loop_reduce[where p = 14])
  qed (use assms(1) in \<open>simp add: join_group_def\<close>)
qed

text \<open>The end of an expression, at a separator, a parenthesis or the end of the input.\<close>

lemma no_end:
  assumes "complete m = None" and "shape_ok (a, ps, m, fr)" and "lookahead ts \<in> {''SEPERATOR'', ''RPAREN'', ''$end''}"
  shows "lr_loop (config_stack (a, ps, m, fr)) ts = Some p_error"
proof (cases "\<exists>n. m = Num n")
  case True
  with assms(3) show ?thesis by (auto intro!: loop_error simp: action_columns)
next
  case False
  with assms obtain q v stk where "config_stack (a, ps, m, fr) = (q, v) # stk" "lr_entry lr_action q (lookahead ts) = None"
    using stuck_item[of m "lookahead ts" a ps fr] by (auto simp: endings_def)
  then show ?thesis by (simp add: loop_error)
qed

lemma top_level_end:
  assumes "complete m = Some e" and "shape_ok (a, ps, m, [])"
    and "lookahead ts \<in> {''SEPERATOR'', ''RPAREN'', ''$end''}"
  shows "lr_loop (config_stack (a, ps, m, [])) ts =
         (if lookahead ts = ''$end'' then Some (Inr (reduce_pending ps e)) else Some p_error)"
proof -
  have "lookahead ts \<in> endings" using assms(3) by (auto simp: endings_def)
  then have "lr_loop (config_stack (a, ps, m, [])) ts = lr_loop [(1, VAst (reduce_pending ps e)), (0, VStr ''$end'')] ts"
    using loop_expression[OF assms(1,2)] assms(2) by (simp add: expr_state_simps)
  with assms(3) show ?thesis by (auto simp: loop_accept loop_error action_columns)
qed

lemma join_cases:
  assumes "shape_ok (a, ps, m, fr)" and "complete m = Some e"
  obtains (first) "a = GNone" "join_group a (reduce_pending ps e) = Inr (GExpr (reduce_pending ps e))"
  | (later) g where "join_group a (reduce_pending ps e) = Inr (GGroup g)"
proof -
  from join_group_total[of a "reduce_pending ps e"] shape_expr[OF assms] assms(1)
  obtain a' where a': "join_group a (reduce_pending ps e) = Inr a'" by auto
  show ?thesis
  proof (cases a)
    case GNone
    then show ?thesis using first by (simp add: join_group_def)
  qed (use a' later in \<open>auto simp: join_group_def res_simps\<close>)
qed

lemma loop_closing:
  assumes "complete m = Some e" and "shape_ok (a, ps, m, f # fr)" and "t = SEPERATOR \<or> t = RPAREN"
  shows "a = GNone \<Longrightarrow> lr_loop (config_stack (a, ps, m, f # fr)) (t # ts) =
           lr_loop ((25, VAst (reduce_pending ps e)) # frames_stack (f # fr)) (t # ts)"
    and "join_group a (reduce_pending ps e) = Inr (GGroup g) \<Longrightarrow>
         lr_loop (config_stack (a, ps, m, f # fr)) (t # ts) = lr_loop ((24, VAst g) # frames_stack (f # fr)) (t # ts)"
proof -
  have expr: "lr_loop (config_stack (a, ps, m, f # fr)) (t # ts) =
      lr_loop ((expr_state (fst (hd (base_stack a (f # fr)))), VAst (reduce_pending ps e)) # base_stack a (f # fr)) (t # ts)"
    using assms(3) loop_expression[OF assms(1,2)] by (auto simp: endings_def)
  show "lr_loop (config_stack (a, ps, m, f # fr)) (t # ts) =
      lr_loop ((25, VAst (reduce_pending ps e)) # frames_stack (f # fr)) (t # ts)" if "a = GNone"
    using expr that by (cases f) (simp add: expr_state_simps)
  show "lr_loop (config_stack (a, ps, m, f # fr)) (t # ts) = lr_loop ((24, VAst g) # frames_stack (f # fr)) (t # ts)"
    if "join_group a (reduce_pending ps e) = Inr (GGroup g)"
    using expr loop_join[OF that, of "f # fr" "t # ts"] assms(3) by auto
qed

lemma simulates_end_token:
  assumes "shape_ok (a, ps, m, fr)" and "t = SEPERATOR \<or> t = RPAREN" and "fr = [] \<or> complete m = None"
  shows "simulates (a, ps, m, fr) t"
proof -
  have "parser_step (a, ps, m, fr) t = p_error" using assms(2,3) by (cases fr) auto
  moreover have "lr_loop (config_stack (a, ps, m, fr)) (t # ts) = Some p_error" for ts
  proof (cases "complete m")
    case None
    then show ?thesis using assms(1,2) by (intro no_end) auto
  next
    case (Some e)
    with assms show ?thesis using top_level_end[of m e a ps "t # ts"] by auto
  qed
  ultimately show ?thesis by (simp add: simulates_def p_error_def)
qed

lemma simulates_separator:
  assumes "shape_ok (a, ps, m, f # fr)" and "complete m = Some e"
  shows "simulates (a, ps, m, f # fr) SEPERATOR"
  using assms
proof (cases rule: join_cases)
  case first
  let ?c = "(GExpr (reduce_pending ps e), [], Start, f # fr)"
  show ?thesis
  proof (rule simulates_shift)
    show "parser_step (a, ps, m, f # fr) SEPERATOR = Inr ?c" using assms first by simp
    show "lr_loop (config_stack (a, ps, m, f # fr)) (SEPERATOR # ts) =
        lr_loop ((25, VAst (reduce_pending ps e)) # frames_stack (f # fr)) (SEPERATOR # ts)" for ts
      using assms first(1) by (intro loop_closing(1)) auto
    show "on_stack ((nat 28, token_value SEPERATOR) # (25, VAst (reduce_pending ps e)) # frames_stack (f # fr)) ?c"
      using settled[of ?c] by simp
  qed (simp_all add: action_columns)
next
  case (later g)
  let ?c = "(GGroup g, [], Start, f # fr)"
  show ?thesis
  proof (rule simulates_shift)
    show "parser_step (a, ps, m, f # fr) SEPERATOR = Inr ?c" using assms later by simp
    show "lr_loop (config_stack (a, ps, m, f # fr)) (SEPERATOR # ts) =
        lr_loop ((24, VAst g) # frames_stack (f # fr)) (SEPERATOR # ts)" for ts
      using assms later by (intro loop_closing(2)) auto
    show "on_stack ((nat 27, token_value SEPERATOR) # (24, VAst g) # frames_stack (f # fr)) ?c"
      using settled[of ?c] by simp
  qed (simp_all add: action_columns)
qed

lemma simulates_rparen:
  assumes "shape_ok (a, ps, m, f # fr)" and "complete m = Some e"
  shows "simulates (a, ps, m, f # fr) RPAREN"
  using assms
proof (cases rule: join_cases)
  case first
  have "lr_loop (config_stack (a, ps, m, f # fr)) (RPAREN # ts) = Some p_error" for ts
    using loop_closing(1)[OF assms(2,1) _ first(1), of RPAREN ts] by (simp add: loop_error action_columns)
  moreover have "parser_step (a, ps, m, f # fr) RPAREN = p_error" using assms first by (cases f) simp
  ultimately show ?thesis by (simp add: simulates_def p_error_def)
next
  case (later g)
  obtain a0 ps0 m0 where f: "f = (a0, ps0, m0)" by (cases f)
  with assms(1) have m0: "opened m0" by simp
  show ?thesis
  proof (rule simulates_shift)
    show "parser_step (a, ps, m, f # fr) RPAREN = Inr (a0, ps0, close_group m0 g, fr)" using assms later f by simp
    show "lr_loop (config_stack (a, ps, m, f # fr)) (RPAREN # ts) =
        lr_loop ((24, VAst g) # frames_stack (f # fr)) (RPAREN # ts)" for ts
      using assms later by (intro loop_closing(2)) auto
    show "on_stack ((nat 26, token_value RPAREN) # (24, VAst g) # frames_stack (f # fr)) (a0, ps0, close_group m0 g, fr)"
      using closed[OF m0, of g a0 ps0 fr] f by simp
  qed (simp_all add: action_columns)
qed

lemma simulates_close:
  assumes "shape_ok (a, ps, m, fr)" and "t = SEPERATOR \<or> t = RPAREN"
  shows "simulates (a, ps, m, fr) t"
proof (cases "fr = [] \<or> complete m = None")
  case False
  then obtain f fr' e where "fr = f # fr'" "complete m = Some e" by (cases fr) auto
  with assms show ?thesis using simulates_separator simulates_rparen by blast
qed (use assms simulates_end_token in blast)

lemma simulates_step:
  assumes "shape_ok c"
  shows "simulates c t"
proof -
  obtain a ps m fr where c: "c = (a, ps, m, fr)" by (cases c)
  with assms have shape: "shape_ok (a, ps, m, fr)" by simp
  have ops: "POINTER = op_token ''->''" "PPOINTER = op_token ''|->''" "PARALLEL = op_token ''||''"
    by (simp_all add: op_token_def)
  have con: "connective ''->''" "connective ''|->''" "connective ''||''" by (simp_all add: connective_def arrow_def)
  show ?thesis
    unfolding c
    by (cases t) (simp_all only: ops con simulates_connective[OF shape] simulates_number[OF shape] simulates_name[OF shape]
        simulates_retry[OF shape] simulates_lparen[OF shape] simulates_close[OF shape] simp_thms)
qed

lemma loop_accepts:
  assumes "shape_ok c"
  shows "lr_loop (config_stack c) [] = Some (parser_accept c)"
proof -
  obtain a ps m fr where c: "c = (a, ps, m, fr)" by (cases c)
  have la: "lookahead [] = ''$end''" by (simp add: lookahead_def)
  show ?thesis
  proof (cases "complete m")
    case None
    with no_end[OF None, of a ps fr "[]"] assms c la show ?thesis by (cases fr) (auto simp: parser_accept_def)
  next
    case (Some e)
    show ?thesis
    proof (cases fr)
      case Nil
      with top_level_end[OF Some, of a ps "[]"] Some assms c la show ?thesis by (simp add: parser_accept_def)
    next
      case (Cons f fr')
      have "lr_entry lr_action q ''$end'' = None" if "q \<in> {25, 29, 30}" for q
        using that by (auto simp: action_columns)
      moreover have "expr_state (fst (hd (base_stack a fr))) \<in> {25, 29, 30}"
        using Cons by (cases f; cases a) (simp_all add: expr_state_simps)
      ultimately show ?thesis
        using loop_expression[OF Some, of a ps fr "[]"] assms c la Cons Some
        by (simp add: loop_error parser_accept_def endings_def del: config_stack.simps)
    qed
  qed
qed

lemma loop_run:
  assumes "shape_ok c" and "on_stack stk c"
  shows "lr_loop stk ts = Some (bind_res (parser_run c ts) parser_accept)"
  using assms
proof (induction ts arbitrary: c stk)
  case Nil
  then show ?case using settle loop_accepts by simp
next
  case (Cons t ts)
  have *: "lr_loop stk (t # ts) = lr_loop (config_stack c) (t # ts)" using Cons.prems(2) by (rule settle)
  show ?case
  proof (cases "parser_step c t")
    case (Inl e)
    with simulates_step[OF Cons.prems(1), of t] * show ?thesis by (simp add: simulates_def)
  next
    case (Inr c')
    with simulates_step[OF Cons.prems(1), of t] obtain stk' where "on_stack stk' c'"
      "lr_loop (config_stack c) (t # ts) = lr_loop stk' ts" by (auto simp: simulates_def)
    with Inr * Cons.IH[OF parser_step_shape[OF Cons.prems(1) Inr]] show ?thesis by simp
  qed
qed

section \<open>Property\<close>


end
