(* ===== verification/Batch_Run.thy ===== *)
theory Batch_Run
  imports Wrapper Signals
begin

text \<open>
  A batch at run time, \<open>BatchPipeline.execute\<close> and \<open>_BatchProcessingMonitor\<close> of \<^verbatim>\<open>src/nexus/pipeline.py\<close>:
  the signals the monitor listens to and emits, its loop over the queue, and the interleaving of the main thread, the
  worker processes and the monitor thread.

  The monitor is created with metrics. The five bound methods it connects are the listeners \<open>handler b 0\<close> to \<open>handler b 4\<close>
  of monitor \<open>b\<close>. What a listener does to the monitor follows from how often the emission reaches it. The pool may run
  any number of workers at the same time, which includes every smaller bound.
\<close>

section \<open>Listening\<close>

record signal_bus =
  bus_start :: signal
  bus_end :: signal
  bus_metrics :: signal
  bus_batch_started :: signal
  bus_batch_finished :: signal

definition handler :: "nat \<Rightarrow> nat \<Rightarrow> nat" where
  "handler b k = 5 * b + k"

definition setup_signal_listeners :: "nat \<Rightarrow> sender \<Rightarrow> signal_bus \<Rightarrow> signal_bus" where
  "setup_signal_listeners b cls bus =
     bus\<lparr>bus_start := connect None (handler b 0) (bus_start bus),
         bus_end := connect None (handler b 1) (bus_end bus),
         bus_metrics := connect (Some cls) (handler b 2) (bus_metrics bus),
         bus_batch_started := connect (Some cls) (handler b 3) (bus_batch_started bus),
         bus_batch_finished := connect (Some cls) (handler b 4) (bus_batch_finished bus)\<rparr>"

definition cleanup_signal_listeners :: "nat \<Rightarrow> sender \<Rightarrow> bool \<Rightarrow> signal_bus \<Rightarrow> signal_bus" where
  "cleanup_signal_listeners b cls is_connected bus =
     (if \<not> is_connected then bus
      else bus\<lparr>bus_start := disconnect (Some cls) (handler b 0) (bus_start bus),
               bus_end := disconnect (Some cls) (handler b 1) (bus_end bus),
               bus_batch_started := disconnect (Some cls) (handler b 3) (bus_batch_started bus),
               bus_batch_finished := disconnect (Some cls) (handler b 4) (bus_batch_finished bus),
               bus_metrics := disconnect (Some cls) (handler b 2) (bus_metrics bus)\<rparr>)"

text \<open>How often an emission calls a listener.\<close>

definition deliveries :: "signal_env \<Rightarrow> sender \<Rightarrow> (string, pyval) dict \<Rightarrow> signal \<Rightarrow> nat \<Rightarrow> exc_class + nat" where
  "deliveries se cls kwargs sg h =
     bind_res (emit se (Some cls) kwargs sg) (\<lambda>rs. Inr (length (filter (\<lambda>(l, r). l = h) rs)))"

section \<open>The monitor\<close>

record batch_monitor =
  bm_id :: nat
  bm_class :: sender
  bm_batch_id :: string
  bm_mon :: monitor
  bm_bus :: signal_bus
  signals_connected :: bool
  batch_started_emitted :: bool
  shutdown_flag :: bool

definition mk_batch_monitor :: "nat \<Rightarrow> sender \<Rightarrow> string \<Rightarrow> signal_bus \<Rightarrow> batch_monitor" where
  "mk_batch_monitor b cls bid bus =
     \<lparr>bm_id = b, bm_class = cls, bm_batch_id = bid, bm_mon = mk_monitor, bm_bus = setup_signal_listeners b cls bus,
      signals_connected = True, batch_started_emitted = False, shutdown_flag = False\<rparr>"

text \<open>The arguments of the three emissions; objects are given by their identity.\<close>

definition metrics_value :: "metrics \<Rightarrow> pyval" where
  "metrics_value m =
     PObj ''PipelineExecutionMetrics''
       [(''total_pipelines'', PInt (int (total_pipelines m))), (''started'', PInt (int (m_started m))),
        (''completed'', PInt (int (completed m))), (''failed'', PInt (int (failed m))), (''active'', PInt (int (active m)))]"

definition emit_metrics_updated :: "signal_env \<Rightarrow> rat \<Rightarrow> batch_monitor \<Rightarrow> exc_class + nat" where
  "emit_metrics_updated se now bm =
     (let m = m_metrics (bm_mon bm)
      in deliveries se (bm_class bm)
           [(''batch_id'', PStr (bm_batch_id bm)), (''metrics'', metrics_value m), (''active_count'', PInt (int (active m))),
            (''completion_rate'', PFloat (completion_rate m)), (''timestamp'', PFloat now)]
           (bus_metrics (bm_bus bm)) (handler (bm_id bm) 2))"

text \<open>\<open>_on_batch_started\<close> changes the metrics only when no start time is set; \<open>run\<close> has set it before it emits.\<close>

definition on_batch_started :: "nat \<Rightarrow> rat \<Rightarrow> monitor \<Rightarrow> monitor" where
  "on_batch_started expected now mon =
     (let m = m_metrics mon
      in if start_time m = None \<or> start_time m = Some 0
         then mon\<lparr>m_metrics := m\<lparr>start_time := Some now, total_pipelines := expected\<rparr>\<rparr> else mon)"

definition emit_batch_started :: "signal_env \<Rightarrow> rat \<Rightarrow> batch_monitor \<Rightarrow> exc_class + batch_monitor" where
  "emit_batch_started se now bm =
     (if batch_started_emitted bm then Inr bm
      else (let m = m_metrics (bm_mon bm)
            in bind_res (deliveries se (bm_class bm)
                           [(''batch'', PStr (bm_batch_id bm)), (''total_pipelines'', PInt (int (total_pipelines m))), (''timestamp'', PFloat now)]
                           (bus_batch_started (bm_bus bm)) (handler (bm_id bm) 3)) (\<lambda>n.
               Inr (bm\<lparr>bm_mon := (on_batch_started (total_pipelines m) now ^^ n) (bm_mon bm), batch_started_emitted := True\<rparr>))))"

definition emit_batch_finished :: "signal_env \<Rightarrow> rat \<Rightarrow> batch_monitor \<Rightarrow> exc_class + batch_monitor" where
  "emit_batch_finished se now bm =
     (let m = m_metrics (bm_mon bm)
      in bind_res (deliveries se (bm_class bm)
                     [(''batch'', PStr (bm_batch_id bm)), (''metrics'', metrics_value m), (''success_rate'', PFloat (success_rate m)),
                      (''total_duration'', PFloat (total_duration now m)), (''timestamp'', PFloat now)]
                     (bus_batch_finished (bm_bus bm)) (handler (bm_id bm) 4)) (\<lambda>n.
         Inr (bm\<lparr>bm_mon := (on_batch_finished now ^^ n) (bm_mon bm)\<rparr>)))"

text \<open>\<open>shutdown\<close>; the exception of an emission passes through and leaves the listeners connected.\<close>

definition monitor_shutdown :: "signal_env \<Rightarrow> rat \<Rightarrow> batch_monitor \<Rightarrow> exc_class + batch_monitor" where
  "monitor_shutdown se now bm =
     bind_res (emit_batch_finished se now bm) (\<lambda>bm1.
     Inr (bm1\<lparr>bm_bus := cleanup_signal_listeners (bm_id bm1) (bm_class bm1) (signals_connected bm1) (bm_bus bm1),
              signals_connected := False, shutdown_flag := True\<rparr>))"

text \<open>A sender with its own \<open>__name__\<close>, if it has one, and the name of its class; every object has a class.\<close>

definition get_sender_name :: "(string option \<times> string) option \<Rightarrow> string" where
  "get_sender_name x =
     (case x of None \<Rightarrow> ''Unknown'' | Some (Some n, c) \<Rightarrow> n | Some (None, c) \<Rightarrow> c)"

section \<open>Messages\<close>

text \<open>A message of a wrapper, or a signal forwarded by one: the signal's name, its sender and the other arguments.\<close>

datatype queue_msg = Lifecycle message | Forwarded "string option" "sender option" "(string, pyval) dict"

text \<open>The keyword arguments a wrapper forwards: those of the signal and four of its own.\<close>

definition enhanced_kwargs :: "string \<Rightarrow> int \<Rightarrow> rat \<Rightarrow> string \<Rightarrow> (string, pyval) dict \<Rightarrow> (string, pyval) dict" where
  "enhanced_kwargs pid process now wid kwargs =
     dict_update kwargs [(''pipeline_id'', PStr pid), (''process_id'', PInt process), (''timestamp'', PFloat now), (''wrapper_id'', PStr wid)]"

text \<open>\<open>construct_signal\<close>: the responses of the emission in the parent, \<open>None\<close> when there is no sender or no
  signal; every exception is logged.\<close>

definition construct_signal ::
  "signal_env \<Rightarrow> (string \<Rightarrow> exc_class + signal) \<Rightarrow> string option \<Rightarrow> sender option \<Rightarrow> (string, pyval) dict \<Rightarrow>
   (exc_class + (nat \<times> (exc_class + pyval)) list) option" where
  "construct_signal se import_string sg sender data =
     (case (sender, sg) of
        (Some k, Some sg_path) \<Rightarrow> Some (bind_res (import_string sg_path) (\<lambda>s. emit se (Some k) data s))
      | _ \<Rightarrow> None)"

text \<open>What the loop of \<open>run\<close> does with a message. The emission reaches the listeners of the monitor as often as they are
  connected; an exception is logged.\<close>

record batch_env =
  be_exec :: exec_env
  be_signals :: signal_env
  be_class :: pipeline_class
  be_number :: "string \<Rightarrow> nat"
  be_now :: rat

definition process_message :: "batch_env \<Rightarrow> batch_monitor \<Rightarrow> queue_msg \<Rightarrow> batch_monitor" where
  "process_message be bm msg =
     (case msg of
        Forwarded sg sender data \<Rightarrow> bm
      | Lifecycle m \<Rightarrow>
          (case event_type m of
             Pipeline_Execution_Start p \<Rightarrow>
               (case deliveries (be_signals be) (bm_class bm) [(''pipeline'', PStr (pipe_id p))]
                       (bus_start (bm_bus bm)) (handler (bm_id bm) 0) of
                  Inl e \<Rightarrow> bm
                | Inr n \<Rightarrow> bm\<lparr>bm_mon := (on_pipeline_started (Some (be_number be (pipe_id p))) (be_now be) ^^ n) (bm_mon bm)\<rparr>)
           | Pipeline_Execution_End p \<Rightarrow>
               (case deliveries (be_signals be) (bm_class bm) [(''execution_context'', PStr (pipe_id p))]
                       (bus_end (bm_bus bm)) (handler (bm_id bm) 1) of
                  Inl e \<Rightarrow> bm
                | Inr n \<Rightarrow> bm\<lparr>bm_mon := (on_pipeline_ended (if started p then Some (be_number be (pipe_id p)) else None)
                                          (judged_ok (be_exec be) (be_class be) p) (be_now be) ^^ n) (bm_mon bm)\<rparr>)
           | _ \<Rightarrow> bm))"

text \<open>\<open>run\<close> up to its loop.\<close>

definition monitor_start :: "batch_env \<Rightarrow> nat \<Rightarrow> batch_monitor \<Rightarrow> exc_class + batch_monitor" where
  "monitor_start be batch_fields bm =
     emit_batch_started (be_signals be) (be_now be) (bm\<lparr>bm_mon := monitor_begin batch_fields (be_now be) (bm_mon bm)\<rparr>)"

section \<open>The threads of a batch\<close>

text \<open>The main thread submits the configured pipelines, waits for the pool to close, puts the sentinel and joins the
  monitor. A worker puts its messages one by one and is then done, which records the result of its future. A message in the
  queue carries the number of its worker; \<open>None\<close> is the sentinel.\<close>

datatype main_at = Submitting | Closing | Joining | Returned

record batch_sys =
  to_submit :: "queue_msg list list"
  workers :: "queue_msg list option list"
  main_thread :: main_at
  signals_queue :: "(nat \<times> queue_msg) option list"
  monitor_running :: bool
  monitor_died :: bool
  bs_monitor :: batch_monitor
  bs_results :: "batch_result list"
  handled :: "(nat \<times> queue_msg) list"
  done_workers :: "nat list"

definition batch_init :: "batch_monitor \<Rightarrow> queue_msg list list \<Rightarrow> batch_sys" where
  "batch_init bm scripts =
     \<lparr>to_submit = scripts, workers = [], main_thread = Submitting, signals_queue = [], monitor_running = True,
      monitor_died = False, bs_monitor = bm, bs_results = [], handled = [], done_workers = []\<rparr>"

text \<open>The monitor ends in \<open>finally\<close>, by \<open>shutdown\<close>; an exception there ends the thread as well.\<close>

definition monitor_end :: "batch_env \<Rightarrow> batch_monitor \<Rightarrow> batch_monitor" where
  "monitor_end be bm = (case monitor_shutdown (be_signals be) (be_now be) bm of Inl e \<Rightarrow> bm | Inr bm' \<Rightarrow> bm')"

inductive batch_step :: "batch_env \<Rightarrow> (nat \<Rightarrow> exc_class + (nat \<times> exc_class option)) \<Rightarrow> batch_sys \<Rightarrow> batch_sys \<Rightarrow> bool"
  for be out where
  submit: "main_thread s = Submitting \<Longrightarrow> to_submit s = ms # rest \<Longrightarrow>
    batch_step be out s (s\<lparr>to_submit := rest, workers := workers s @ [Some ms]\<rparr>)"
| submitted: "main_thread s = Submitting \<Longrightarrow> to_submit s = [] \<Longrightarrow> batch_step be out s (s\<lparr>main_thread := Closing\<rparr>)"
| submit_fails: "main_thread s = Submitting \<Longrightarrow> batch_step be out s (s\<lparr>main_thread := Closing, to_submit := []\<rparr>)"
| put: "i < length (workers s) \<Longrightarrow> workers s ! i = Some (m # ms) \<Longrightarrow>
    batch_step be out s (s\<lparr>workers := (workers s)[i := Some ms], signals_queue := signals_queue s @ [Some (i, m)]\<rparr>)"
| worker_done: "i < length (workers s) \<Longrightarrow> workers s ! i = Some [] \<Longrightarrow>
    batch_step be out s (s\<lparr>workers := (workers s)[i := None], bs_results := process_future (out i) (bs_results s),
      done_workers := done_workers s @ [i]\<rparr>)"
| close: "main_thread s = Closing \<Longrightarrow> \<forall>w \<in> set (workers s). w = None \<Longrightarrow>
    batch_step be out s (s\<lparr>main_thread := Joining, signals_queue := signals_queue s @ [None]\<rparr>)"
| get: "monitor_running s \<Longrightarrow> signals_queue s = Some (i, m) # q \<Longrightarrow>
    batch_step be out s (s\<lparr>signals_queue := q, handled := handled s @ [(i, m)],
      bs_monitor := process_message be (bs_monitor s) m\<rparr>)"
| stop: "monitor_running s \<Longrightarrow> signals_queue s = None # q \<Longrightarrow>
    batch_step be out s (s\<lparr>signals_queue := q, monitor_running := False, bs_monitor := monitor_end be (bs_monitor s)\<rparr>)"
| memory_check_fails: "monitor_running s \<Longrightarrow>
    batch_step be out s (s\<lparr>monitor_running := False, monitor_died := True, bs_monitor := monitor_end be (bs_monitor s)\<rparr>)"
| join: "main_thread s = Joining \<Longrightarrow> \<not> monitor_running s \<Longrightarrow> batch_step be out s (s\<lparr>main_thread := Returned\<rparr>)"

inductive batch_reach :: "batch_env \<Rightarrow> (nat \<Rightarrow> exc_class + (nat \<times> exc_class option)) \<Rightarrow> batch_sys \<Rightarrow> batch_sys \<Rightarrow> bool"
  for be out s0 where
  start: "batch_reach be out s0 s0"
| more: "batch_reach be out s0 s \<Longrightarrow> batch_step be out s s' \<Longrightarrow> batch_reach be out s0 s'"

end
