(* ===== verification/Batch_Run_Props.thy ===== *)
theory Batch_Run_Props
  imports Batch_Run Wrapper_Props
begin

text \<open>
  Properties of a batch at run time. The emissions of the monitor always fit their signals, and while it is connected each
  message of a wrapper reaches it exactly once. Over all interleavings of main thread, workers and monitor: \<open>execute\<close>
  returns, no message of a worker is lost or reordered, and every future is recorded.
\<close>

section \<open>The threads\<close>

definition queued :: "'a option list \<Rightarrow> 'a list" where
  "queued q = map the (filter (\<lambda>x. x \<noteq> None) q)"

lemma queued_simps [simp]:
  "queued [] = []" "queued (Some x # q) = x # queued q" "queued (None # q) = queued q" "queued (p @ q) = queued p @ queued q"
  by (simp_all add: queued_def)

definition of_worker :: "nat \<Rightarrow> (nat \<times> 'a) list \<Rightarrow> 'a list" where
  "of_worker i xs = map snd (filter (\<lambda>x. fst x = i) xs)"

lemma of_worker_simps [simp]:
  "of_worker i [] = []" "of_worker i (x # xs) = (if fst x = i then snd x # of_worker i xs else of_worker i xs)"
  "of_worker i (xs @ ys) = of_worker i xs @ of_worker i ys"
  by (simp_all add: of_worker_def)

fun unsent :: "'a list option \<Rightarrow> 'a list" where
  "unsent None = []"
| "unsent (Some ms) = ms"

text \<open>Every message of a worker is handled, queued or still to be sent, in this order.\<close>

definition messages_inv :: "queue_msg list list \<Rightarrow> batch_sys \<Rightarrow> bool" where
  "messages_inv scripts s \<longleftrightarrow>
     length (workers s) \<le> length scripts \<and> (to_submit s = [] \<or> to_submit s = drop (length (workers s)) scripts) \<and>
     (\<forall>i < length (workers s). of_worker i (handled s @ queued (signals_queue s)) @ unsent (workers s ! i) = scripts ! i) \<and>
     (\<forall>x \<in> set (handled s @ queued (signals_queue s)). fst x < length (workers s))"

definition finished_of :: "'a option list \<Rightarrow> nat set" where
  "finished_of ws = {i. i < length ws \<and> ws ! i = None}"

definition results_inv :: "(nat \<Rightarrow> exc_class + (nat \<times> exc_class option)) \<Rightarrow> batch_sys \<Rightarrow> bool" where
  "results_inv out s \<longleftrightarrow>
     distinct (done_workers s) \<and> set (done_workers s) = finished_of (workers s) \<and>
     bs_results s = foldl (\<lambda>r i. process_future (out i) r) [] (done_workers s)"

definition monitor_inv :: "batch_env \<Rightarrow> batch_monitor \<Rightarrow> batch_sys \<Rightarrow> bool" where
  "monitor_inv be bm s \<longleftrightarrow>
     bs_monitor s = (let bm' = foldl (process_message be) bm (map snd (handled s)) in if monitor_running s then bm' else monitor_end be bm')"

definition phase_inv :: "batch_sys \<Rightarrow> bool" where
  "phase_inv s \<longleftrightarrow>
     (case main_thread s of
        Submitting \<Rightarrow> None \<notin> set (signals_queue s) \<and> (monitor_running s \<or> monitor_died s)
      | Closing \<Rightarrow> None \<notin> set (signals_queue s) \<and> (monitor_running s \<or> monitor_died s)
      | _ \<Rightarrow> (\<forall>w \<in> set (workers s). w = None) \<and>
             (monitor_running s \<longrightarrow> (\<exists>xs. signals_queue s = map Some xs @ [None])) \<and>
             (\<not> monitor_running s \<longrightarrow> \<not> monitor_died s \<longrightarrow> signals_queue s = [])) \<and>
     (main_thread s = Returned \<longrightarrow> \<not> monitor_running s)"

lemma fresh_worker:
  assumes "\<forall>x \<in> set xs. fst x < n"
  shows "of_worker n xs = []"
  using assms by (auto simp: of_worker_def filter_empty_conv)

lemma messages_step: "batch_step be out s s' \<Longrightarrow> messages_inv scripts s \<Longrightarrow> messages_inv scripts s'"
proof (induction rule: batch_step.induct)
  case (submit s ms rest)
  let ?n = "length (workers s)"
  from submit have d: "drop ?n scripts = ms # rest" by (auto simp: messages_inv_def)
  then have "?n < length scripts" by (metis drop_all list.distinct(1) not_le)
  with d have "scripts ! ?n = ms" "drop (Suc ?n) scripts = rest" by (metis Cons_nth_drop_Suc list.inject)+
  moreover have "of_worker ?n (handled s @ queued (signals_queue s)) = []"
    using submit by (intro fresh_worker) (simp add: messages_inv_def)
  ultimately show ?case using submit \<open>?n < length scripts\<close>
    by (auto simp: messages_inv_def nth_append less_Suc_eq)
next
  case (get s i m q)
  then show ?case by (auto simp: messages_inv_def)
qed (auto simp: messages_inv_def nth_list_update)

lemma finished_after:
  "finished_of (ws @ [Some x]) = finished_of ws"
  "j < length ws \<Longrightarrow> ws ! j = Some y \<Longrightarrow> finished_of (ws[j := Some x]) = finished_of ws"
  "j < length ws \<Longrightarrow> finished_of (ws[j := None]) = insert j (finished_of ws)"
  "ws ! j = Some y \<Longrightarrow> j \<notin> finished_of ws"
  by (auto simp: finished_of_def nth_append nth_list_update split: if_splits)

lemma results_step: "batch_step be out s s' \<Longrightarrow> results_inv out s \<Longrightarrow> results_inv out s'"
  by (induction rule: batch_step.induct) (simp_all add: results_inv_def finished_after)

lemma monitor_inv_step: "batch_step be out s s' \<Longrightarrow> monitor_inv be bm s \<Longrightarrow> monitor_inv be bm s'"
  by (induction rule: batch_step.induct) (auto simp: monitor_inv_def Let_def)

lemma sentinel_queue:
  "Some x # q = map Some xs @ [None] \<Longrightarrow> \<exists>ys. q = map Some ys @ [None]"
  "None # q = map Some xs @ [None] \<Longrightarrow> q = []"
  by (cases xs; auto)+

lemma no_sentinel: "None \<notin> set q \<Longrightarrow> \<exists>xs. q = map Some xs"
proof (induction q)
  case (Cons x q)
  then obtain xs where "q = map Some xs" by auto
  with Cons.prems show ?case by (cases x) (auto intro: exI[of _ "_ # xs"])
qed simp

lemma worker_phase:
  assumes "phase_inv s" and "i < length (workers s)" and "workers s ! i = Some ms"
  shows "main_thread s = Submitting \<or> main_thread s = Closing"
  using assms nth_mem[OF assms(2)] by (cases "main_thread s") (auto simp: phase_inv_def)

lemma phase_step: "batch_step be out s s' \<Longrightarrow> phase_inv s \<Longrightarrow> phase_inv s'"
proof (induction rule: batch_step.induct)
  case (close s)
  then show ?case by (auto simp: phase_inv_def dest: no_sentinel)
next
  case (get s i m q)
  then show ?case by (auto simp: phase_inv_def dest: sentinel_queue(1) split: main_at.splits)
next
  case (stop s q)
  then show ?case by (auto simp: phase_inv_def dest: sentinel_queue(2) split: main_at.splits)
next
  case (put i s m ms)
  with worker_phase[of s i] show ?case by (auto simp: phase_inv_def)
next
  case (worker_done i s)
  with worker_phase[of s i] show ?case by (auto simp: phase_inv_def)
qed (auto simp: phase_inv_def split: main_at.splits)

definition batch_inv where
  "batch_inv be out bm scripts s \<longleftrightarrow> messages_inv scripts s \<and> results_inv out s \<and> monitor_inv be bm s \<and> phase_inv s"

lemma batch_inv_step: "batch_step be out s s' \<Longrightarrow> batch_inv be out bm scripts s \<Longrightarrow> batch_inv be out bm scripts s'"
  unfolding batch_inv_def using messages_step results_step monitor_inv_step phase_step by blast

lemma batch_inv_reach:
  "batch_reach be out (batch_init bm scripts) s \<Longrightarrow> batch_inv be out bm scripts s"
proof (induction rule: batch_reach.induct)
  case start
  show ?case
    by (simp add: batch_inv_def batch_init_def messages_inv_def results_inv_def finished_of_def monitor_inv_def phase_inv_def)
next
  case (more s s')
  then show ?case using batch_inv_step by blast
qed

section \<open>Progress\<close>

fun worker_left :: "'a list option \<Rightarrow> nat" where
  "worker_left None = 0"
| "worker_left (Some ms) = 2 * length ms + 1"

fun phase_left :: "main_at \<Rightarrow> nat" where
  "phase_left Submitting = 6"
| "phase_left Closing = 4"
| "phase_left Joining = 1"
| "phase_left Returned = 0"

definition batch_left :: "batch_sys \<Rightarrow> nat" where
  "batch_left s = sum_list (map (\<lambda>ms. 2 * length ms + 3) (to_submit s)) + sum_list (map worker_left (workers s)) +
     length (signals_queue s) + phase_left (main_thread s) + (if monitor_running s then 1 else 0)"

lemma sum_list_update_less:
  assumes "i < length xs" and "f y < (f (xs ! i) :: nat)"
  shows "sum_list (map f (xs[i := y])) + (f (xs ! i) - f y) = sum_list (map f xs)"
proof -
  have "sum_list (map f xs) = sum_list (map f (take i xs)) + f (xs ! i) + sum_list (map f (drop (Suc i) xs))"
    by (subst id_take_nth_drop[OF assms(1)]) simp
  with assms show ?thesis by (simp add: upd_conv_take_nth_drop)
qed

lemma batch_step_decreases: "batch_step be out s s' \<Longrightarrow> batch_left s' < batch_left s"
proof (induction rule: batch_step.induct)
  case (put i s m ms)
  then show ?case using sum_list_update_less[of i "workers s" worker_left "Some ms"] by (simp add: batch_left_def)
next
  case (worker_done i s)
  then show ?case using sum_list_update_less[of i "workers s" worker_left None] by (simp add: batch_left_def)
qed (auto simp: batch_left_def)

lemma batch_not_stuck:
  assumes "phase_inv s" and "main_thread s \<noteq> Returned"
  shows "\<exists>s'. batch_step be out s s' \<and> monitor_died s' = monitor_died s"
proof (cases "main_thread s")
  case Submitting
  then show ?thesis
  proof (cases "to_submit s")
    case Nil
    then show ?thesis using batch_step.submitted[OF Submitting Nil] by fastforce
  next
    case (Cons ms rest)
    then show ?thesis using batch_step.submit[OF Submitting Cons] by fastforce
  qed
next
  case Closing
  show ?thesis
  proof (cases "\<forall>w \<in> set (workers s). w = None")
    case True
    then show ?thesis using batch_step.close[OF Closing True] by fastforce
  next
    case False
    then obtain i ms where i: "i < length (workers s)" "workers s ! i = Some ms" by (auto simp: in_set_conv_nth)
    show ?thesis
    proof (cases ms)
      case Nil
      with i show ?thesis using batch_step.worker_done[of i s] by fastforce
    next
      case (Cons m ms')
      with i show ?thesis using batch_step.put[of i s m ms'] by fastforce
    qed
  qed
next
  case Joining
  show ?thesis
  proof (cases "monitor_running s")
    case True
    with assms(1) Joining obtain xs where q: "signals_queue s = map Some xs @ [None]" by (auto simp: phase_inv_def)
    show ?thesis
    proof (cases xs)
      case Nil
      with q True show ?thesis using batch_step.stop[of s "[]"] by fastforce
    next
      case (Cons x ys)
      obtain i m where "x = (i, m)" by (cases x)
      with Cons q True show ?thesis using batch_step.get[of s i m "map Some ys @ [None]"] by fastforce
    qed
  next
    case False
    then show ?thesis using batch_step.join[OF Joining False] by fastforce
  qed
qed (use assms in simp)

section \<open>Emissions of the monitor\<close>

definition provides :: "signal \<Rightarrow> string list \<Rightarrow> bool" where
  "provides sg args \<longleftrightarrow> signal_ok sg \<and> set (provide_args sg) = set args \<union> {''sender'', ''signal''}"

definition bus_ok :: "signal_bus \<Rightarrow> bool" where
  "bus_ok bus \<longleftrightarrow>
     provides (bus_start bus) [''pipeline''] \<and> provides (bus_end bus) [''execution_context''] \<and>
     provides (bus_metrics bus) [''batch_id'', ''metrics'', ''active_count'', ''completion_rate'', ''timestamp''] \<and>
     provides (bus_batch_started bus) [''batch'', ''total_pipelines'', ''timestamp''] \<and>
     provides (bus_batch_finished bus) [''batch'', ''metrics'', ''success_rate'', ''total_duration'', ''timestamp'']"

definition fair_signals :: "signal_env \<Rightarrow> nat \<Rightarrow> bool" where
  "fair_signals se b \<longleftrightarrow> (\<forall>xs. mset (set_order se xs) = mset xs) \<and> (\<forall>k < 5. alive se (handler b k))"

lemma bind_provided:
  assumes "provides sg args" and "dict_keys kwargs = args" and "''sender'' \<notin> set args" and "''signal'' \<notin> set args"
  shows "bind_args sg kwargs"
  using assms by (auto simp: bind_args_def provides_def)

lemma connected_iff: "(k, l) \<in> connections sg \<longleftrightarrow> l \<in> set (listeners_of sg (Some k))"
  by (simp add: connections_def)

text \<open>A listener that is connected for the sender or for all senders, and not for both, is called once.\<close>

lemma deliveries_once:
  assumes "provides sg args" and "dict_keys kwargs = args" and "''sender'' \<notin> set args" and "''signal'' \<notin> set args"
    and "\<forall>xs. mset (set_order se xs) = mset xs" and "alive se h"
    and "((cls, h) \<in> connections sg) \<noteq> ((GenericSender, h) \<in> connections sg)"
  shows "deliveries se cls kwargs sg h = Inr 1"
proof -
  have ok: "signal_ok sg" using assms(1) by (simp add: provides_def)
  let ?ls = "listeners_of sg (Some cls)" and ?gs = "listeners_of sg (Some GenericSender)"
  have "length (filter (\<lambda>(l, r). l = h) (map (\<lambda>l. (l, respond se l kwargs)) (filter (alive se) xs))) = count (mset xs) h" for xs
    using assms(6) by (induction xs) auto
  then have "deliveries se cls kwargs sg h = Inr (count (mset (set_order se ?ls @ set_order se ?gs)) h)"
    using emit_fits[OF bind_provided[OF assms(1-4)]] by (simp add: deliveries_def)
  also have "count (mset (set_order se ?ls @ set_order se ?gs)) h = count (mset ?ls) h + count (mset ?gs) h"
    using assms(5) by simp
  also have "\<dots> = 1"
    using assms(7) signal_ok_distinct[OF ok] by (auto simp: connected_iff distinct_count_atmost_1)
  finally show ?thesis .
qed

text \<open>The connections a running monitor has.\<close>

definition listening :: "batch_monitor \<Rightarrow> bool" where
  "listening bm \<longleftrightarrow>
     (let b = bm_id bm; cls = bm_class bm; bus = bm_bus bm
      in bus_ok bus \<and> cls \<noteq> GenericSender \<and>
         (GenericSender, handler b 0) \<in> connections (bus_start bus) \<and> (cls, handler b 0) \<notin> connections (bus_start bus) \<and>
         (GenericSender, handler b 1) \<in> connections (bus_end bus) \<and> (cls, handler b 1) \<notin> connections (bus_end bus) \<and>
         (cls, handler b 2) \<in> connections (bus_metrics bus) \<and> (GenericSender, handler b 2) \<notin> connections (bus_metrics bus) \<and>
         (cls, handler b 3) \<in> connections (bus_batch_started bus) \<and> (GenericSender, handler b 3) \<notin> connections (bus_batch_started bus) \<and>
         (cls, handler b 4) \<in> connections (bus_batch_finished bus) \<and> (GenericSender, handler b 4) \<notin> connections (bus_batch_finished bus))"

definition not_yet :: "nat \<Rightarrow> signal_bus \<Rightarrow> bool" where
  "not_yet b bus \<longleftrightarrow>
     (\<forall>k. (k, handler b 0) \<notin> connections (bus_start bus) \<and> (k, handler b 1) \<notin> connections (bus_end bus) \<and>
          (k, handler b 2) \<notin> connections (bus_metrics bus) \<and> (k, handler b 3) \<notin> connections (bus_batch_started bus) \<and>
          (k, handler b 4) \<notin> connections (bus_batch_finished bus))"

lemma provides_connect: "provides (connect x l sg) args = provides sg args" if "signal_ok sg"
proof -
  have "provide_args (connect x l sg) = provide_args sg" by (simp add: connect_eq Let_def)
  with that connect_ok[OF that] show ?thesis by (simp add: provides_def)
qed

lemma provides_disconnect: "provides sg args \<Longrightarrow> provides (disconnect (Some k) l sg) args"
  using disconnect_law[of sg k l] by (auto simp: provides_def disconnect_def Let_def split: option.splits)

lemma listening_new:
  assumes "bus_ok bus" and "not_yet b bus" and "cls \<noteq> GenericSender"
  shows "listening (mk_batch_monitor b cls bid bus)"
  using assms
  by (auto simp: listening_def mk_batch_monitor_def setup_signal_listeners_def bus_ok_def not_yet_def provides_connect
        connect_connections provides_def[THEN iffD1, THEN conjunct1])

fun lifecycle_of :: "queue_msg list \<Rightarrow> message list" where
  "lifecycle_of [] = []"
| "lifecycle_of (Lifecycle m # ms) = m # lifecycle_of ms"
| "lifecycle_of (Forwarded sg k d # ms) = lifecycle_of ms"

abbreviation monitor_handles :: "batch_env \<Rightarrow> monitor \<Rightarrow> message \<Rightarrow> monitor" where
  "monitor_handles be \<equiv> handle_lifecycle (be_exec be) (be_class be) (be_number be) (be_now be)"

lemma process_listening:
  assumes "listening bm" and "fair_signals (be_signals be) (bm_id bm)"
  shows "process_message be bm (Lifecycle m) = bm\<lparr>bm_mon := monitor_handles be (bm_mon bm) m\<rparr>"
proof -
  have start: "deliveries (be_signals be) (bm_class bm) [(''pipeline'', v)] (bus_start (bm_bus bm)) (handler (bm_id bm) 0) = Inr 1" for v
    by (rule deliveries_once) (use assms in \<open>auto simp: listening_def fair_signals_def bus_ok_def Let_def\<close>)
  have "deliveries (be_signals be) (bm_class bm) [(''execution_context'', v)] (bus_end (bm_bus bm)) (handler (bm_id bm) 1) = Inr 1" for v
    by (rule deliveries_once) (use assms in \<open>auto simp: listening_def fair_signals_def bus_ok_def Let_def\<close>)
  with start show ?thesis by (simp add: process_message_def handle_lifecycle_def split: lifecycle.split)
qed

lemma process_all:
  assumes "listening bm" and "fair_signals (be_signals be) (bm_id bm)"
  shows "foldl (process_message be) bm ms = bm\<lparr>bm_mon := foldl (monitor_handles be) (bm_mon bm) (lifecycle_of ms)\<rparr>"
  using assms
proof (induction ms arbitrary: bm rule: lifecycle_of.induct)
  case (2 m ms)
  let ?bm = "bm\<lparr>bm_mon := monitor_handles be (bm_mon bm) m\<rparr>"
  have "listening ?bm" using 2(2) by (simp add: listening_def)
  with 2(1)[of ?bm] 2(3) process_listening[OF 2(2,3)] show ?case by simp
next
  case (3 sg k d ms)
  then show ?case by (simp add: process_message_def)
qed simp

lemma emission_once:
  assumes "listening bm" and "fair_signals se (bm_id bm)"
  shows "emit_metrics_updated se now bm = Inr 1"
    "emit_batch_finished se now bm = Inr (bm\<lparr>bm_mon := on_batch_finished now (bm_mon bm)\<rparr>)"
    "\<not> batch_started_emitted bm \<Longrightarrow> emit_batch_started se now bm =
       Inr (bm\<lparr>bm_mon := on_batch_started (total_pipelines (m_metrics (bm_mon bm))) now (bm_mon bm), batch_started_emitted := True\<rparr>)"
proof -
  note l = assms[unfolded listening_def fair_signals_def bus_ok_def Let_def]
  show "emit_metrics_updated se now bm = Inr 1"
    unfolding emit_metrics_updated_def Let_def by (rule deliveries_once) (use l in auto)
  have "deliveries se (bm_class bm) [(''batch'', a), (''metrics'', b), (''success_rate'', c), (''total_duration'', d), (''timestamp'', e)]
      (bus_batch_finished (bm_bus bm)) (handler (bm_id bm) 4) = Inr 1" for a b c d e
    by (rule deliveries_once) (use l in auto)
  then show "emit_batch_finished se now bm = Inr (bm\<lparr>bm_mon := on_batch_finished now (bm_mon bm)\<rparr>)"
    by (simp add: emit_batch_finished_def Let_def)
  have "deliveries se (bm_class bm) [(''batch'', a), (''total_pipelines'', b), (''timestamp'', c)]
      (bus_batch_started (bm_bus bm)) (handler (bm_id bm) 3) = Inr 1" for a b c
    by (rule deliveries_once) (use l in auto)
  then show "emit_batch_started se now bm =
      Inr (bm\<lparr>bm_mon := on_batch_started (total_pipelines (m_metrics (bm_mon bm))) now (bm_mon bm), batch_started_emitted := True\<rparr>)"
    if "\<not> batch_started_emitted bm"
    using that by (simp add: emit_batch_started_def Let_def)
qed

text \<open>Starting the monitor emits once, and its own listener finds the start time already set.\<close>

lemma monitor_started_state:
  assumes "bus_ok bus" and "not_yet b bus" and "cls \<noteq> GenericSender" and "fair_signals (be_signals be) b"
  shows "monitor_start be n (mk_batch_monitor b cls bid bus) =
    Inr ((mk_batch_monitor b cls bid bus)\<lparr>bm_mon := monitor_begin n (be_now be) mk_monitor, batch_started_emitted := True\<rparr>)"
proof -
  let ?bm = "(mk_batch_monitor b cls bid bus)\<lparr>bm_mon := monitor_begin n (be_now be) mk_monitor\<rparr>"
  have "listening ?bm" using listening_new[OF assms(1-3), of bid] by (simp add: listening_def)
  moreover have "\<not> batch_started_emitted ?bm" "bm_id ?bm = b" "bm_mon (mk_batch_monitor b cls bid bus) = mk_monitor"
    by (simp_all add: mk_batch_monitor_def)
  moreover have "on_batch_started (total_pipelines (m_metrics (bm_mon ?bm))) (be_now be) (bm_mon ?bm) = bm_mon ?bm"
    by (simp add: on_batch_started_def monitor_begin_def Let_def)
  ultimately show ?thesis
    using emission_once(3)[of ?bm "be_signals be" "be_now be"] assms(4) by (simp add: monitor_start_def)
qed

text \<open>Shutting down sets the end time and removes the three listeners of the batch class. The two for all senders stay.\<close>

lemma monitor_ended_state:
  assumes "listening bm" and "fair_signals (be_signals be) (bm_id bm)" and "signals_connected bm"
  shows "bm_mon (monitor_end be bm) = on_batch_finished (be_now be) (bm_mon bm) \<and> shutdown_flag (monitor_end be bm) \<and>
    (GenericSender, handler (bm_id bm) 0) \<in> connections (bus_start (bm_bus (monitor_end be bm))) \<and>
    (GenericSender, handler (bm_id bm) 1) \<in> connections (bus_end (bm_bus (monitor_end be bm))) \<and>
    (bm_class bm, handler (bm_id bm) 2) \<notin> connections (bus_metrics (bm_bus (monitor_end be bm))) \<and>
    (bm_class bm, handler (bm_id bm) 3) \<notin> connections (bus_batch_started (bm_bus (monitor_end be bm))) \<and>
    (bm_class bm, handler (bm_id bm) 4) \<notin> connections (bus_batch_finished (bm_bus (monitor_end be bm)))"
proof -
  have ok: "signal_ok (bus_start (bm_bus bm))" "signal_ok (bus_end (bm_bus bm))" "signal_ok (bus_metrics (bm_bus bm))"
    "signal_ok (bus_batch_started (bm_bus bm))" "signal_ok (bus_batch_finished (bm_bus bm))"
    using assms(1) by (auto simp: listening_def bus_ok_def provides_def Let_def)
  have "bm_class bm \<noteq> GenericSender" "(GenericSender, handler (bm_id bm) 0) \<in> connections (bus_start (bm_bus bm))"
    "(GenericSender, handler (bm_id bm) 1) \<in> connections (bus_end (bm_bus bm))"
    using assms(1) by (auto simp: listening_def Let_def)
  with ok emission_once(2)[OF assms(1,2)] assms(3) show ?thesis
    by (simp add: monitor_end_def monitor_shutdown_def cleanup_signal_listeners_def disconnect_law[THEN conjunct2])
qed

section \<open>Forwarded signals and memory\<close>

text \<open>A forwarded signal carries the identity of the wrapper, which no signal of the module takes: as soon as one listener is
  alive in the parent, the emission raises TypeError, which is logged.\<close>

lemma forwarded_rejected:
  assumes "import_string path = Inr sg" and "''wrapper_id'' \<notin> set (provide_args sg)"
    and "list_ex (alive se) (set_order se (listeners_of sg (Some k)) @ set_order se (listeners_of sg (Some GenericSender)))"
  shows "construct_signal se import_string (Some path) (Some k) (enhanced_kwargs pid proc now wid kwargs) = Some (Inl TypeError)"
proof -
  have "''wrapper_id'' \<in> set (dict_keys (enhanced_kwargs pid proc now wid kwargs))"
    by (simp add: enhanced_kwargs_def update_keys)
  with assms(2) have "\<not> bind_args sg (enhanced_kwargs pid proc now wid kwargs)"
    by (auto simp: bind_args_def default_field_names_def simp del: set_map)
  with assms show ?thesis by (auto simp: construct_signal_def emit_def run_listeners_bad)
qed

text \<open>Shrinking the batch sizes does not change the batches of the running execution: the iterators were made before.\<close>

lemma adjusted_convert: "convert_value ctor (adjust_batch_size f) v = convert_value ctor f v"
  by (simp add: convert_value_def adjust_batch_size_def)

abbreviation shrunk :: "op_map \<Rightarrow> op_map" where
  "shrunk \<equiv> map (\<lambda>(n, f, it). (n, adjust_batch_size f, it))"

lemma round_shrunk:
  "batch_round ctor (shrunk ops) kw = bind_res (batch_round ctor ops kw) (\<lambda>(kw', ops', d). Inr (kw', shrunk ops', d))"
proof (induction ops arbitrary: kw)
  case (Cons op ops)
  obtain n f it where "op = (n, f, it)" by (cases op)
  with Cons show ?case
    by (cases "next_item it") (auto simp: adjusted_convert bind_res_assoc case_prod_beta split: sum.splits)
qed simp

lemma memory_check_no_effect:
  "run_rounds fuel ctor mk others (check_memory_usage percent limit ops) kw subs = run_rounds fuel ctor mk others ops kw subs"
proof -
  have "run_rounds fuel ctor mk others (shrunk ops) kw subs = run_rounds fuel ctor mk others ops kw subs"
  proof (induction fuel arbitrary: ops kw subs)
    case (Suc k)
    then show ?case by (cases "batch_round ctor ops kw") (auto simp: round_shrunk Let_def split: option.splits)
  qed simp
  then show ?thesis by (simp add: check_memory_usage_def)
qed

section \<open>When a batch has returned\<close>

lemma batch_workers_done:
  assumes "batch_reach be out (batch_init bm scripts) s" and "main_thread s = Returned"
  shows "set (done_workers s) = {..<length (workers s)}" and "\<forall>i < length (workers s). workers s ! i = None"
proof -
  have inv: "results_inv out s" "phase_inv s"
    using batch_inv_reach[OF assms(1)] by (simp_all add: batch_inv_def)
  have "\<forall>w \<in> set (workers s). w = None" using inv(2) assms(2) by (simp add: phase_inv_def)
  then show none: "\<forall>i < length (workers s). workers s ! i = None" using nth_mem by blast
  then show "set (done_workers s) = {..<length (workers s)}" using inv(1) by (auto simp: results_inv_def finished_of_def)
qed

lemma batch_returned:
  assumes "batch_reach be out (batch_init bm scripts) s" and "main_thread s = Returned" and "\<not> monitor_died s"
  shows "signals_queue s = []" and "\<forall>i < length (workers s). of_worker i (handled s) = scripts ! i"
    and "bs_monitor s = monitor_end be (foldl (process_message be) bm (map snd (handled s)))"
    and "length (workers s) \<le> length scripts" and "\<forall>x \<in> set (handled s). fst x < length (workers s)"
proof -
  have inv: "messages_inv scripts s" "monitor_inv be bm s" "phase_inv s"
    using batch_inv_reach[OF assms(1)] by (simp_all add: batch_inv_def)
  then show q: "signals_queue s = []" using assms(2,3) by (auto simp: phase_inv_def)
  have stopped: "\<not> monitor_running s" using inv(3) assms(2) by (simp add: phase_inv_def)
  then show "bs_monitor s = monitor_end be (foldl (process_message be) bm (map snd (handled s)))"
    using inv(2) by (simp add: monitor_inv_def)
  show "\<forall>i < length (workers s). of_worker i (handled s) = scripts ! i" "length (workers s) \<le> length scripts"
    "\<forall>x \<in> set (handled s). fst x < length (workers s)"
    using inv(1) q batch_workers_done(2)[OF assms(1,2)] by (simp_all add: messages_inv_def)
qed

text \<open>The metrics when a monitor that started properly has handled these messages and ended, and its connections then.\<close>

lemma batch_monitor_final:
  assumes "bus_ok bus" and "not_yet b bus" and "cls \<noteq> GenericSender" and "fair_signals (be_signals be) b"
    and "monitor_start be n (mk_batch_monitor b cls bid bus) = Inr bm"
  shows "bm_mon (monitor_end be (foldl (process_message be) bm ms)) = on_batch_finished (be_now be)
      (foldl (monitor_handles be) (monitor_begin n (be_now be) mk_monitor) (lifecycle_of ms)) \<and>
    (cls, handler b 4) \<notin> connections (bus_batch_finished (bm_bus (monitor_end be (foldl (process_message be) bm ms)))) \<and>
    (GenericSender, handler b 0) \<in> connections (bus_start (bm_bus (monitor_end be (foldl (process_message be) bm ms))))"
proof -
  have bm: "bm = (mk_batch_monitor b cls bid bus)\<lparr>bm_mon := monitor_begin n (be_now be) mk_monitor, batch_started_emitted := True\<rparr>"
    using monitor_started_state[OF assms(1-4)] assms(5) by simp
  then have id: "bm_id bm = b" "bm_class bm = cls" "signals_connected bm" "bm_mon bm = monitor_begin n (be_now be) mk_monitor"
    by (simp_all add: mk_batch_monitor_def)
  have l: "listening bm" using listening_new[OF assms(1-3), of bid] bm by (simp add: listening_def)
  let ?bm2 = "bm\<lparr>bm_mon := foldl (monitor_handles be) (bm_mon bm) (lifecycle_of ms)\<rparr>"
  have "foldl (process_message be) bm ms = ?bm2" using process_all[OF l] assms(4) id by simp
  moreover have "listening ?bm2" using l by (simp add: listening_def)
  ultimately show ?thesis using monitor_ended_state[of ?bm2 be] assms(4) id by simp
qed

section \<open>Property\<close>


text \<open>One worker that sends one message: a complete run.\<close>

definition demo_bus :: signal_bus where
  "demo_bus =
     (let sg = (\<lambda>n args. \<lparr>sig_name = n, provide_args = ''sender'' # ''signal'' # args, listeners = []\<rparr>)
      in \<lparr>bus_start = sg ''pipeline_execution_start'' [''pipeline''], bus_end = sg ''pipeline_execution_end'' [''execution_context''],
          bus_metrics = sg ''pipeline_metrics_updated'' [''batch_id'', ''metrics'', ''active_count'', ''completion_rate'', ''timestamp''],
          bus_batch_started = sg ''batch_pipeline_started'' [''batch'', ''total_pipelines'', ''timestamp''],
          bus_batch_finished = sg ''batch_pipeline_finished'' [''batch'', ''metrics'', ''success_rate'', ''total_duration'', ''timestamp'']\<rparr>)"

definition demo_batch_env :: "pipeline_class \<Rightarrow> batch_env" where
  "demo_batch_env cls =
     \<lparr>be_exec = demo_env (\<lambda>_. False), be_signals = \<lparr>alive = (\<lambda>_. True), set_order = (\<lambda>xs. xs), respond = (\<lambda>l kw. Inr PNone)\<rparr>,
      be_class = cls, be_number = (\<lambda>_. 0), be_now = 5\<rparr>"

lemma demo_bus_ok: "bus_ok demo_bus" "not_yet b demo_bus"
  by (simp_all add: demo_bus_def bus_ok_def provides_def signal_ok_def not_yet_def connections_def listeners_of_def Let_def)

lemma demo_batch_reach:
  "\<exists>s. batch_reach be out (batch_init bm [[m]]) s \<and> main_thread s = Returned \<and> \<not> monitor_died s \<and>
     length (workers s) = 1 \<and> handled s = [(0, m)] \<and> done_workers s = [0]"
proof -
  let ?s0 = "batch_init bm [[m]]"
  let ?s1 = "?s0\<lparr>to_submit := [], workers := [Some [m]]\<rparr>"
  let ?s2 = "?s1\<lparr>main_thread := Closing\<rparr>"
  let ?s3 = "?s2\<lparr>workers := [Some []], signals_queue := [Some (0, m)]\<rparr>"
  let ?s4 = "?s3\<lparr>signals_queue := [], handled := [(0, m)], bs_monitor := process_message be bm m\<rparr>"
  let ?s5 = "?s4\<lparr>workers := [None], bs_results := process_future (out 0) [], done_workers := [0]\<rparr>"
  let ?s6 = "?s5\<lparr>main_thread := Joining, signals_queue := [None]\<rparr>"
  let ?s7 = "?s6\<lparr>signals_queue := [], monitor_running := False, bs_monitor := monitor_end be (process_message be bm m)\<rparr>"
  let ?s8 = "?s7\<lparr>main_thread := Returned\<rparr>"
  have "batch_step be out ?s0 ?s1" using batch_step.submit[of ?s0 "[m]" "[]"] by (simp add: batch_init_def)
  moreover have "batch_step be out ?s1 ?s2" by (rule batch_step.submitted) (simp_all add: batch_init_def)
  moreover have "batch_step be out ?s2 ?s3" using batch_step.put[of 0 ?s2 m "[]"] by (simp add: batch_init_def)
  moreover have "batch_step be out ?s3 ?s4" using batch_step.get[of ?s3 0 m "[]"] by (simp add: batch_init_def)
  moreover have "batch_step be out ?s4 ?s5" using batch_step.worker_done[of 0 ?s4] by (simp add: batch_init_def)
  moreover have "batch_step be out ?s5 ?s6" using batch_step.close[of ?s5] by (simp add: batch_init_def)
  moreover have "batch_step be out ?s6 ?s7" using batch_step.stop[of ?s6 "[]"] by (simp add: batch_init_def)
  moreover have "batch_step be out ?s7 ?s8" by (rule batch_step.join) (simp_all add: batch_init_def)
  ultimately have "batch_reach be out ?s0 ?s8" by (meson batch_reach.start batch_reach.more)
  then show ?thesis by (intro exI[of _ ?s8]) (simp add: batch_init_def)
qed


end
