(* ===== verification/Batch_Accounting.thy ===== *)
theory Batch_Accounting
  imports Batch_Run_Props
begin

text \<open>
  What the metrics of a batch say at its end. The messages of the workers arrive interleaved; those of one pipeline arrive in order, and
  the metrics depend on nothing else. Which messages a worker sends follows from the run of its pipeline.
\<close>

section \<open>Messages of one pipeline\<close>

definition is_start :: "message \<Rightarrow> bool" where
  "is_start m \<longleftrightarrow> (\<exists>p. event_type m = Pipeline_Execution_Start p)"

definition is_end :: "message \<Rightarrow> bool" where
  "is_end m \<longleftrightarrow> (\<exists>p. event_type m = Pipeline_Execution_End p)"

definition pipeline_key :: "(string \<Rightarrow> nat) \<Rightarrow> message \<Rightarrow> nat option" where
  "pipeline_key num m =
     (case event_type m of
        Pipeline_Execution_Start p \<Rightarrow> Some (num (pipe_id p))
      | Pipeline_Execution_End p \<Rightarrow> Some (num (pipe_id p))
      | _ \<Rightarrow> None)"

definition about :: "(string \<Rightarrow> nat) \<Rightarrow> nat \<Rightarrow> message list \<Rightarrow> message list" where
  "about num k ms = filter (\<lambda>m. pipeline_key num m = Some k) ms"

lemma about_simps [simp]:
  "about num k [] = []" "about num k (ms @ ms') = about num k ms @ about num k ms'"
  "about num k (m # ms) = (if pipeline_key num m = Some k then m # about num k ms else about num k ms)"
  by (simp_all add: about_def)

text \<open>A pipeline starts, and may then end with success.\<close>

definition good_end :: "exec_env \<Rightarrow> pipeline_class \<Rightarrow> message \<Rightarrow> bool" where
  "good_end env cls m \<longleftrightarrow> (\<exists>q. event_type m = Pipeline_Execution_End q \<and> started q \<and> judged_ok env cls q)"

definition tidy :: "exec_env \<Rightarrow> pipeline_class \<Rightarrow> message list \<Rightarrow> bool" where
  "tidy env cls ms \<longleftrightarrow> ms = [] \<or> (\<exists>a. ms = [a] \<and> is_start a) \<or> (\<exists>a e. ms = [a, e] \<and> is_start a \<and> good_end env cls e)"

lemma start_not_end: "is_start m \<Longrightarrow> \<not> good_end env cls m" "is_start m \<Longrightarrow> \<not> is_end m" "good_end env cls m \<Longrightarrow> is_end m"
  by (auto simp: is_start_def is_end_def good_end_def)

lemma tidy_snoc:
  "tidy env cls (ms @ [m]) \<longleftrightarrow> ms = [] \<and> is_start m \<or> (\<exists>a. ms = [a] \<and> is_start a \<and> good_end env cls m)"
  by (cases ms rule: rev_cases) (auto simp: tidy_def append_eq_Cons_conv)

lemma tidy_prefix: "tidy env cls (ms @ [m]) \<Longrightarrow> tidy env cls ms"
  by (auto simp: tidy_snoc tidy_def)

section \<open>Totals\<close>

definition totals :: "(string \<Rightarrow> nat) \<Rightarrow> message list \<Rightarrow> monitor \<Rightarrow> bool" where
  "totals num ms mon \<longleftrightarrow>
     (let m = m_metrics mon
      in m_started m = length (filter is_start ms) \<and> completed m = length (filter is_end ms) \<and> failed m = 0 \<and>
         distinct (active_pipelines mon) \<and> active m = length (active_pipelines mon) \<and>
         set (active_pipelines mon) = {k. \<exists>a. about num k ms = [a]} \<and> m_started m = completed m + active m)"

lemma totals_start:
  assumes "totals num ms mon" and "about num k ms = []" and "event_type m = Pipeline_Execution_Start p" and "k = num (pipe_id p)"
  shows "totals num (ms @ [m]) (on_pipeline_started (Some k) t mon)"
proof -
  have m: "is_start m" "\<not> is_end m" "pipeline_key num m = Some k"
    using assms(3,4) by (auto simp: is_start_def is_end_def pipeline_key_def)
  have "k \<notin> set (active_pipelines mon)" using assms(1,2) by (auto simp: totals_def Let_def)
  moreover have "{j. \<exists>a. about num j (ms @ [m]) = [a]} = insert k {j. \<exists>a. about num j ms = [a]}"
    using m(3) assms(2) by auto
  ultimately show ?thesis
    using assms(1) m by (simp add: totals_def on_pipeline_started_def Let_def)
qed

lemma length_removeAll: "distinct xs \<Longrightarrow> k \<in> set xs \<Longrightarrow> Suc (length (removeAll k xs)) = length xs"
  by (induction xs) auto

lemma totals_end:
  assumes "totals num ms mon" and "about num k ms = [a]" and "event_type m = Pipeline_Execution_End q" and "k = num (pipe_id q)"
  shows "totals num (ms @ [m]) (on_pipeline_ended (Some k) True t mon)"
proof -
  have m: "\<not> is_start m" "is_end m" "pipeline_key num m = Some k"
    using assms(3,4) by (auto simp: is_start_def is_end_def pipeline_key_def)
  have k: "k \<in> set (active_pipelines mon)" using assms(1,2) by (auto simp: totals_def Let_def)
  have "{j. \<exists>a. about num j (ms @ [m]) = [a]} = {j. \<exists>a. about num j ms = [a]} - {k}"
    using m(3) assms(2) by auto
  moreover have "Suc (length (removeAll k (active_pipelines mon))) = length (active_pipelines mon)"
    using assms(1) k by (intro length_removeAll) (simp_all add: totals_def Let_def)
  ultimately show ?thesis
    using assms(1) m by (simp add: totals_def on_pipeline_ended_def Let_def distinct_removeAll)
qed

lemma monitor_totals:
  assumes "\<forall>k. tidy env cls (about num k ms)"
  shows "totals num ms (foldl (handle_lifecycle env cls num t) (monitor_begin n now mk_monitor) ms)"
  using assms
proof (induction ms rule: rev_induct)
  case Nil
  then show ?case by (simp add: totals_def monitor_begin_def mk_monitor_def mk_metrics_def)
next
  case (snoc m ms)
  let ?mon = "foldl (handle_lifecycle env cls num t) (monitor_begin n now mk_monitor) ms"
  have "\<forall>k. tidy env cls (about num k ms)"
    using snoc.prems tidy_prefix by (fastforce split: if_splits)
  then have IH: "totals num ms ?mon" by (rule snoc.IH)
  show ?case
  proof (cases "pipeline_key num m")
    case None
    then have "\<not> is_start m" "\<not> is_end m" "handle_lifecycle env cls num t ?mon m = ?mon"
      by (auto simp: pipeline_key_def is_start_def is_end_def handle_lifecycle_def split: lifecycle.splits)
    then show ?thesis using IH None by (simp add: totals_def)
  next
    case (Some k)
    then have td: "tidy env cls (about num k ms @ [m])" using snoc.prems[rule_format, of k] by simp
    show ?thesis
    proof (cases "is_start m")
      case True
      then obtain p where p: "event_type m = Pipeline_Execution_Start p" by (auto simp: is_start_def)
      then have k: "k = num (pipe_id p)" using Some by (simp add: pipeline_key_def)
      then have "handle_lifecycle env cls num t ?mon m = on_pipeline_started (Some k) t ?mon"
        using p by (simp only: handle_lifecycle_def lifecycle.case)
      moreover have "about num k ms = []" using td True start_not_end by (auto simp: tidy_snoc)
      ultimately show ?thesis using totals_start[OF IH _ p k] by simp
    next
      case False
      then obtain a where a: "about num k ms = [a]" "good_end env cls m" using td by (auto simp: tidy_snoc)
      then obtain q where q: "event_type m = Pipeline_Execution_End q" "started q" "judged_ok env cls q" by (auto simp: good_end_def)
      then have k: "k = num (pipe_id q)" using Some by (simp add: pipeline_key_def)
      then have "handle_lifecycle env cls num t ?mon m = on_pipeline_ended (Some k) True t ?mon"
        using q by (simp only: handle_lifecycle_def lifecycle.case if_True)
      then show ?thesis using totals_end[OF IH a(1) q(1) k] by simp
    qed
  qed
qed

section \<open>Interleaving\<close>

text \<open>Messages about a pipeline come from one worker, and every message comes from some worker.\<close>

lemma about_worker:
  assumes "\<forall>(j, qm) \<in> set xs. \<forall>m. qm = Lifecycle m \<and> pipeline_key num m = Some k \<longrightarrow> j = i"
  shows "about num k (lifecycle_of (map snd xs)) = about num k (lifecycle_of (of_worker i xs))"
  using assms
proof (induction xs)
  case (Cons x xs)
  then show ?case by (cases x; cases "snd x") auto
qed simp

lemma count_workers:
  assumes "\<forall>x \<in> set xs. fst x < n"
  shows "length (filter P (lifecycle_of (map snd xs))) = (\<Sum>i < n. length (filter P (lifecycle_of (of_worker i xs))))"
  using assms
proof (induction xs)
  case (Cons x xs)
  obtain j qm where x: "x = (j, qm)" by (cases x)
  have "(\<Sum>i < n. length (filter P (lifecycle_of (of_worker i (x # xs))))) =
      (\<Sum>i < n. (if i = j then length (filter P (lifecycle_of [qm])) else 0) + length (filter P (lifecycle_of (of_worker i xs))))"
    by (rule sum.cong) (cases qm; auto simp: x)+
  also have "\<dots> = length (filter P (lifecycle_of [qm])) + length (filter P (lifecycle_of (map snd xs)))"
    using Cons x by (simp add: sum.distrib)
  finally show ?case by (cases qm) (auto simp: x)
qed simp

section \<open>What a worker sends\<close>

definition run_succeeds :: "nat \<Rightarrow> exec_env \<Rightarrow> pipeline_class \<Rightarrow> pipeline \<Rightarrow> bool" where
  "run_succeeds fuel env cls p \<longleftrightarrow>
     (case start fuel env cls True p of
        Some (Inr q, sgs) \<Rightarrow>
          (case run q of
             None \<Rightarrow> False
           | Some st \<Rightarrow> (case latest_context st of
                           None \<Rightarrow> False
                         | Some l \<Rightarrow> execution_failed env (cls_tasks cls) (contexts st ! l) = Inr False))
      | _ \<Rightarrow> False)"

lemma report_succeeds:
  assumes "run_report env cls res mid exc" and "start fuel env cls True p = Some (res, sgs)"
  shows "(\<exists>q. mid = [Pipeline_Execution_End q]) \<longleftrightarrow> run_succeeds fuel env cls p"
proof (cases res)
  case (Inl x)
  then show ?thesis using assms by (auto simp: run_report_def run_succeeds_def)
next
  case (Inr q)
  then obtain st l where st: "run q = Some st" "latest_context st = Some l"
    and f: "case execution_failed env (cls_tasks cls) (contexts st ! l) of
        Inr False \<Rightarrow> mid = [Pipeline_Execution_End q] \<and> exc = None
      | Inr True \<Rightarrow> mid = [] \<and> exc = None \<or> (\<exists>x. mid = [Wrapper_Failed x] \<and> exc = Some x)
      | Inl x \<Rightarrow> mid = [Wrapper_Failed x] \<and> exc = Some x"
    using assms(1) by (auto simp: run_report_def)
  have "run_succeeds fuel env cls p \<longleftrightarrow> execution_failed env (cls_tasks cls) (contexts st ! l) = Inr False"
    using assms(2) Inr st by (simp add: run_succeeds_def)
  with f show ?thesis by (auto split: sum.splits bool.splits)
qed

definition worker_messages :: "(string \<Rightarrow> nat) \<Rightarrow> exec_env \<Rightarrow> pipeline_class \<Rightarrow> nat \<Rightarrow> bool \<Rightarrow> message list \<Rightarrow> bool" where
  "worker_messages num env cls k ok ms \<longleftrightarrow>
     (\<forall>m \<in> set ms. pipeline_key num m = None \<or> pipeline_key num m = Some k) \<and> tidy env cls (about num k ms) \<and>
     length (filter is_start ms) = 1 \<and> length (filter is_end ms) = (if ok then 1 else 0)"

lemma wrapper_messages:
  assumes "make_class cname flds pointy file = Inr cls" and "fair_env (w_exec we)" and "3 * length (cls_tasks cls) \<le> fuel"
    and "\<forall>m. queue_accepts we m" and "wrapper_run fuel we cls (mk_wrapper p focus) = Some (w, p', x)"
  shows "worker_messages num (w_exec we) cls (num (pipe_id p)) (run_succeeds fuel (w_exec we) cls p) (sent w)"
proof -
  obtain res sgs mid d where w: "start fuel (w_exec we) cls True p = Some (res, sgs)"
      "map event_type (sent w) = [Wrapper_Started, Pipeline_Execution_Start p] @ mid @ [Wrapper_Finished d W_FINISHED (w_exception w \<noteq> None)]"
      "run_report (w_exec we) cls res mid (w_exception w)"
    using wrapper_sends[OF assms(1-4), of p focus] assms(5) by auto
  obtain m1 m2 ms m4 where ms: "sent w = m1 # m2 # ms @ [m4]" "map event_type ms = mid"
      "event_type m1 = Wrapper_Started" "event_type m2 = Pipeline_Execution_Start p" "\<exists>s b. event_type m4 = Wrapper_Finished d s b"
    using w(2) by (auto simp: map_eq_Cons_conv map_eq_append_conv dest: sym)
  note defs = worker_messages_def pipeline_key_def is_start_def is_end_def good_end_def tidy_def
  from report_mid[OF w(3,1)] consider "mid = []" | x where "mid = [Wrapper_Failed x]"
    | q where "mid = [Pipeline_Execution_End q]" "started q" "pipe_id q = pipe_id p" "judged_ok (w_exec we) cls q" by blast
  then show ?thesis
    using report_succeeds[OF w(3,1)] ms by cases (auto simp: defs)
qed

section \<open>All workers together\<close>

lemma lifecycle_mem: "(j, Lifecycle m) \<in> set xs \<Longrightarrow> m \<in> set (lifecycle_of (of_worker j xs))"
proof (induction xs)
  case (Cons x xs)
  then show ?case by (cases x; cases "snd x") auto
qed simp

lemma batch_totals:
  assumes "\<forall>x \<in> set xs. fst x < length ps" and "distinct (map key ps)"
    and "\<forall>i < length ps. worker_messages num env cls (key (ps ! i)) (ok (ps ! i)) (lifecycle_of (of_worker i xs))"
    and "mon = foldl (handle_lifecycle env cls num t) (monitor_begin n now mk_monitor) (lifecycle_of (map snd xs))"
  shows "m_started (m_metrics mon) = length ps \<and> completed (m_metrics mon) = card {i. i < length ps \<and> ok (ps ! i)} \<and>
    failed (m_metrics mon) = 0 \<and> active (m_metrics mon) = length ps - card {i. i < length ps \<and> ok (ps ! i)}"
proof -
  let ?ms = "lifecycle_of (map snd xs)"
  have sender: "key (ps ! j) = k" if "(j, Lifecycle m) \<in> set xs" "pipeline_key num m = Some k" for j m k
  proof -
    have "m \<in> set (lifecycle_of (of_worker j xs))" using that(1) by (rule lifecycle_mem)
    moreover have "j < length ps" using that(1) assms(1) by auto
    ultimately show ?thesis using assms(3) that(2) by (fastforce simp: worker_messages_def)
  qed
  have "tidy env cls (about num k ?ms)" for k
  proof (cases "\<exists>i < length ps. key (ps ! i) = k")
    case True
    then obtain i where i: "i < length ps" "key (ps ! i) = k" by blast
    have "j = i" if "(j, Lifecycle m) \<in> set xs" "pipeline_key num m = Some k" for j m
      using sender[OF that] that(1) i assms(1,2) by (fastforce simp: distinct_conv_nth)
    then have "about num k ?ms = about num k (lifecycle_of (of_worker i xs))"
      by (intro about_worker) auto
    then show ?thesis using assms(3) i by (auto simp: worker_messages_def)
  next
    case False
    have "about num k ?ms = about num k (lifecycle_of (of_worker (length ps) xs))"
      using False sender assms(1) by (intro about_worker) fastforce
    moreover have "of_worker (length ps) xs = []" using assms(1) by (auto simp: of_worker_def filter_empty_conv)
    ultimately show ?thesis by (simp add: tidy_def)
  qed
  then have tot: "totals num ?ms mon" unfolding assms(4) by (intro monitor_totals) blast
  have "length (filter is_start ?ms) = length ps"
    using assms(3) by (simp add: count_workers[OF assms(1)] worker_messages_def)
  moreover have "length (filter is_end ?ms) = (\<Sum>i < length ps. if ok (ps ! i) then 1 else 0)"
    unfolding count_workers[OF assms(1)] using assms(3) by (intro sum.cong) (auto simp: worker_messages_def)
  moreover have "(\<Sum>i < length ps. if ok (ps ! i) then 1 else 0 :: nat) = card {i. i < length ps \<and> ok (ps ! i)}"
    by (simp add: sum.If_cases Int_def lessThan_def)
  ultimately show ?thesis using tot unfolding totals_def Let_def by auto
qed

text \<open>The messages the workers put into the queue are those of the wrapped runs of the pipelines, with forwarded signals
  anywhere between them.\<close>

definition scripts_of_runs ::
  "nat \<Rightarrow> batch_env \<Rightarrow> (nat \<Rightarrow> wrapper_env) \<Rightarrow> string list \<Rightarrow> pipeline list \<Rightarrow> queue_msg list list \<Rightarrow> bool" where
  "scripts_of_runs fuel be we focus ps scripts \<longleftrightarrow>
     length scripts = length ps \<and>
     (\<forall>i < length ps. w_exec (we i) = be_exec be \<and> (\<forall>m. queue_accepts (we i) m) \<and>
        (\<exists>w p' x. wrapper_run fuel (we i) (be_class be) (mk_wrapper (ps ! i) focus) = Some (w, p', x) \<and> lifecycle_of (scripts ! i) = sent w))"

section \<open>A complete run\<close>

lemma batch_reach_trans: "batch_reach be out s1 s2 \<Longrightarrow> batch_reach be out s0 s1 \<Longrightarrow> batch_reach be out s0 s2"
  by (induction rule: batch_reach.induct) (auto intro: batch_reach.more)

text \<open>From every state a batch can go on to its return without a failing memory check.\<close>

lemma batch_can_return:
  "phase_inv s \<Longrightarrow> \<exists>s'. batch_reach be out s s' \<and> main_thread s' = Returned \<and> monitor_died s' = monitor_died s"
proof (induction "batch_left s" arbitrary: s rule: less_induct)
  case less
  show ?case
  proof (cases "main_thread s = Returned")
    case True
    then show ?thesis using batch_reach.start by blast
  next
    case False
    then obtain s1 where s1: "batch_step be out s s1" "monitor_died s1 = monitor_died s"
      using batch_not_stuck[OF less.prems] by blast
    then have reach: "batch_reach be out s s1" by (meson batch_reach.start batch_reach.more)
    have "phase_inv s1" using phase_step[OF s1(1)] less.prems by blast
    with less.hyps[OF batch_step_decreases[OF s1(1)]] obtain s2
      where "batch_reach be out s1 s2" "main_thread s2 = Returned" "monitor_died s2 = monitor_died s1" by blast
    with batch_reach_trans[OF _ reach] s1(2) show ?thesis by metis
  qed
qed

lemma submitted_stays:
  "batch_reach be out s0 s \<Longrightarrow> to_submit s0 = [] \<Longrightarrow> to_submit s = [] \<and> length (workers s) = length (workers s0)"
proof (induction rule: batch_reach.induct)
  case (more s s')
  from more(2) more.IH more.prems show ?case by (cases rule: batch_step.cases) auto
qed simp

lemma one_worker_returns:
  "\<exists>s. batch_reach be out (batch_init bm [ms]) s \<and> main_thread s = Returned \<and> \<not> monitor_died s \<and> length (workers s) = 1"
proof -
  let ?s1 = "(batch_init bm [ms])\<lparr>to_submit := [], workers := [Some ms]\<rparr>"
  have "batch_step be out (batch_init bm [ms]) ?s1"
    using batch_step.submit[of "batch_init bm [ms]" ms "[]"] by (simp add: batch_init_def)
  then have r1: "batch_reach be out (batch_init bm [ms]) ?s1" by (meson batch_reach.start batch_reach.more)
  have "phase_inv ?s1" by (simp add: phase_inv_def batch_init_def)
  then obtain s where s: "batch_reach be out ?s1 s" "main_thread s = Returned" "monitor_died s = monitor_died ?s1"
    using batch_can_return by blast
  moreover have "length (workers s) = 1" using submitted_stays[OF s(1)] by simp
  ultimately show ?thesis using batch_reach_trans[OF s(1) r1] by (auto simp: batch_init_def)
qed

end
