(* ===== verification/Batch_Setup.thy ===== *)
theory Batch_Setup
  imports Batch_Run
begin

text \<open>
  Making a batch pipeline: \<open>BatchPipeline.__init__\<close>, \<open>get_executor_config\<close> and \<open>_pipeline_executor\<close> of \<^verbatim>\<open>src/nexus/pipeline.py\<close>, and
  the whole way from the arguments of a batch to the pipelines it configures.

  The template is given with whether it is a subclass of \<open>Pipeline\<close> and with its fields.
\<close>

record batch_pipeline =
  bp_fields :: "(string, field) dict"
  bp_signature :: "param list"
  bp_attrs :: "(string, pyval) dict"
  bp_status :: batch_status
  bp_results :: "batch_result list"
  bp_count :: nat

definition batch_pipeline_init ::
  "(bool \<times> (string, field) dict) option \<Rightarrow> param list option \<Rightarrow> pyval list \<Rightarrow> (string, pyval) dict \<Rightarrow> exc_class + batch_pipeline" where
  "batch_pipeline_init template sig as kw =
     (case template of
        None \<Rightarrow> Inl ImproperlyConfigured
      | Some (is_pipeline, flds) \<Rightarrow>
          if \<not> is_pipeline then Inl ImproperlyConfigured
          else (let ps = (case sig of Some s \<Rightarrow> s | None \<Rightarrow> construct_call_signature flds)
                in bind_res (bind_signature ps as kw) (\<lambda>bound.
                     Inr \<lparr>bp_fields = flds, bp_signature = ps, bp_attrs = dict_update [] bound, bp_status = BPending,
                          bp_results = [], bp_count = 0\<rparr>)))"

definition get_executor_config :: "int option \<Rightarrow> int \<Rightarrow> pyval \<Rightarrow> rat \<Rightarrow> (string, pyval) dict" where
  "get_executor_config max_workers conf_workers memory_limit max_memory_percent =
     [(''max_workers'', PInt (case max_workers of None \<Rightarrow> conf_workers | Some n \<Rightarrow> if n = 0 then conf_workers else n)),
      (''mp_context'', PStr ''spawn''), (''memory_limit'', memory_limit), (''max_memory_percent'', PFloat max_memory_percent)]"

definition pipeline_executor ::
  "nat \<Rightarrow> wrapper_env \<Rightarrow> pipeline_class \<Rightarrow> pipeline \<Rightarrow> string list \<Rightarrow> (pipeline \<times> pyval option) option" where
  "pipeline_executor fuel we cls p focus = map_option snd (wrapper_run fuel we cls (mk_wrapper p focus))"

text \<open>\<open>execute\<close> on the new batch.\<close>

definition batch_start ::
  "nat \<Rightarrow> batcher \<Rightarrow> (string \<Rightarrow> pyval \<Rightarrow> exc_class + pyval) \<Rightarrow> ((string, pyval) dict \<Rightarrow> exc_class option) \<Rightarrow> (string \<Rightarrow> processor option) \<Rightarrow>
   batch_pipeline \<Rightarrow> (exc_class + batch_pipeline \<times> (string, pyval) dict list) option" where
  "batch_start fuel bt ctor mk methods b =
     map_option (\<lambda>r. bind_res r (\<lambda>subs. Inr (b\<lparr>bp_status := BRunning, bp_count := bp_count b + length subs\<rparr>, subs)))
       (execute_batch fuel bt ctor mk (bp_fields b) methods (bp_attrs b))"

lemma batch_init_errors:
  "batch_pipeline_init template sig as kw = Inl e \<Longrightarrow> e = ImproperlyConfigured \<or> e = TypeError"
proof -
  have bind: "bind_signature ps as kw = Inl e \<Longrightarrow> e = TypeError" for ps as kw and e :: exc_class
    by (induction ps as kw rule: bind_signature.induct) (auto simp: res_simps split: if_splits option.splits)
  show "batch_pipeline_init template sig as kw = Inl e \<Longrightarrow> e = ImproperlyConfigured \<or> e = TypeError"
    by (auto simp: batch_pipeline_init_def Let_def res_simps dest: bind split: option.splits prod.splits if_splits)
qed

text \<open>A batch without fields to cut configures one pipeline, with the values that were given.\<close>

lemma batch_without_iterators:
  assumes "batch_pipeline_init (Some (True, flds)) None as kw = Inr b" and "gather_iterators bt (bp_attrs b) methods flds [] = Inr []"
    and "mk (non_batch_args flds (bp_attrs b)) = None"
  shows "\<exists>b'. batch_start fuel bt ctor mk methods b = Some (Inr (b', [non_batch_args flds (bp_attrs b)])) \<and> bp_count b' = 1"
  using assms by (auto simp: batch_pipeline_init_def batch_start_def execute_batch_def Let_def res_simps)

end
