(* ===== verification/Discovery.thy ===== *)
theory Discovery
  imports Pipeline
begin

text \<open>
  Searching directories: the file of a pipeline (\<open>find_pointy_file\<close> and \<open>directory_walk\<close> of \<open>PipelineMeta\<close> in
  \<^verbatim>\<open>src/nexus/pipeline.py\<close>) and the event classes of a project (\<open>auto_load_all_task_modules\<close> in
  \<^verbatim>\<open>src/nexus/manager/base.py\<close>).

  A directory is a tree; \<open>os_walk\<close> is \<open>os.walk\<close> from the top, with the subdirectories the caller leaves in the list. The import
  of a module is a parameter: it may raise, and it may add modules to \<open>sys.modules\<close>. File names are ASCII.
\<close>

section \<open>Directories\<close>

datatype fs_dir = Dir (dir_name: string) (dir_files: "string list") (dir_subs: "fs_dir list")

function os_walk :: "(string \<Rightarrow> bool) \<Rightarrow> string \<Rightarrow> fs_dir \<Rightarrow> (string \<times> string list \<times> string list) list" where
  "os_walk keep base (Dir n fs ds) =
     (base, map dir_name (filter (\<lambda>d. keep (dir_name d)) ds), fs) #
     concat (map (\<lambda>d. os_walk keep (path_join base (dir_name d)) d) (filter (\<lambda>d. keep (dir_name d)) ds))"
  by pat_completeness auto
termination
  by (relation "measure (\<lambda>(_, _, d). size d)") (auto simp: less_Suc_eq_le size_list_estimation')

section \<open>The file of a pipeline\<close>

text \<open>\<open>re.match\<close> without regard to case, for a pattern of letters, digits, underscores and dots: a dot stands for any
  character but a line break, and what follows the match does not matter.\<close>

fun re_match :: "string \<Rightarrow> string \<Rightarrow> bool" where
  "re_match [] s = True"
| "re_match (p # ps) [] = False"
| "re_match (p # ps) (c # cs) =
     ((if p = CHR ''.'' then c \<noteq> CHR 0x0A else char_lower p = char_lower c) \<and> re_match ps cs)"

fun first_match :: "string \<Rightarrow> (string \<times> string list \<times> string list) list \<Rightarrow> string option" where
  "first_match pat [] = None"
| "first_match pat ((base, ds, fs) # rest) =
     (case find (re_match pat) fs of
        Some n \<Rightarrow> Some (path_join base n)
      | None \<Rightarrow> first_match pat rest)"

text \<open>The calls \<open>directory_walk\<close> makes for the subdirectories of each visited directory have no effect and their results are
  dropped; \<open>walk_calls\<close> counts all calls of a search that finds nothing.\<close>

definition directory_walk :: "string \<Rightarrow> fs_dir \<Rightarrow> string \<Rightarrow> string option" where
  "directory_walk dir_path d file_name = first_match file_name (os_walk (\<lambda>_. True) dir_path d)"

function subtrees :: "fs_dir \<Rightarrow> fs_dir list" where
  "subtrees (Dir n fs ds) = concat (map (\<lambda>d. d # subtrees d) ds)"
  by pat_completeness auto
termination
  by (relation "measure size") (auto simp: less_Suc_eq_le size_list_estimation')

lemma subtrees_size: "x \<in> set (subtrees d) \<Longrightarrow> size x < size d"
proof (induction d rule: subtrees.induct)
  case (1 n fs ds)
  then obtain d where d: "d \<in> set ds" "x = d \<or> x \<in> set (subtrees d)" by auto
  moreover have "size d < size (Dir n fs ds)" using d(1) by (simp add: less_Suc_eq_le size_list_estimation')
  ultimately show ?case using 1(1)[OF d(1)] by auto
qed

function walk_calls :: "fs_dir \<Rightarrow> nat" where
  "walk_calls d = 1 + sum_list (map walk_calls (subtrees d))"
  by pat_completeness auto
termination
  by (relation "measure size") (auto dest: subtrees_size)

declare walk_calls.simps [simp del]

text \<open>What \<open>os.path\<close> says of the configured path.\<close>

datatype path_kind = IsFile | IsDir fs_dir | NoPath

definition find_pointy_file :: "string \<Rightarrow> path_kind \<Rightarrow> string \<Rightarrow> string option" where
  "find_pointy_file path kind class_name =
     (case kind of
        IsFile \<Rightarrow> Some path
      | IsDir d \<Rightarrow> directory_walk path d (class_name @ ''.pty'')
      | NoPath \<Rightarrow> None)"

section \<open>Event modules\<close>

text \<open>Members of a module: a class with its module and the names in its method resolution order, or something else.\<close>

datatype member = ClassObj (cls_id: string) (cls_module: "string option") (cls_mro: "string list") | OtherObj

record py_module =
  pm_name :: string
  pm_members :: "(string \<times> member) list"

type_synonym sys_modules = "(string, py_module) dict"

definition is_event_class :: "member \<Rightarrow> bool" where
  "is_event_class x =
     (case x of
        ClassObj i m mro \<Rightarrow> m \<noteq> None \<and> ''EventBase'' \<in> set (tl mro)
      | OtherObj \<Rightarrow> False)"

record discovered =
  found_events :: "member list"
  found_modules :: "py_module list"
  loaded :: sys_modules

type_synonym importer = "string \<Rightarrow> sys_modules \<Rightarrow> (exc_class + py_module) \<times> sys_modules"

definition explore_module :: "importer \<Rightarrow> string \<Rightarrow> discovered \<Rightarrow> discovered" where
  "explore_module imp n st =
     (case imp n (loaded st) of
        (Inl e, sm) \<Rightarrow> st\<lparr>loaded := sm\<rparr>
      | (Inr m, sm) \<Rightarrow>
          foldl (\<lambda>st (k, x). if is_event_class x
                             then st\<lparr>found_events := List.insert x (found_events st), found_modules := List.insert m (found_modules st)\<rparr>
                             else st) (st\<lparr>loaded := sm\<rparr>) (pm_members m))"

text \<open>The directories \<open>os.walk\<close> descends into, and the name of the package in one: its path below the project root with dots; the root
  itself is the path \<open>.\<close>.\<close>

definition visible_dir :: "string \<Rightarrow> bool" where
  "visible_dir n \<longleftrightarrow> \<not> (str_startswith n ''__'' \<or> str_startswith n ''.'')"

definition relative_to :: "string \<Rightarrow> string \<Rightarrow> string" where
  "relative_to base path = (let r = drop (Suc (length base)) path in if r = [] then ''.'' else r)"

definition module_path :: "string \<Rightarrow> string \<Rightarrow> string" where
  "module_path base path = map (\<lambda>c. if c = CHR ''/'' then CHR ''.'' else c) (relative_to base path)"

definition explore_dir :: "importer \<Rightarrow> string \<Rightarrow> string \<times> string list \<times> string list \<Rightarrow> discovered \<Rightarrow> discovered" where
  "explore_dir imp base entry st =
     (case entry of (path, ds, fs) \<Rightarrow>
        if ''__init__.py'' \<in> set fs
        then (let mp = module_path base path in if mp \<noteq> [] then explore_module imp mp st else st)
        else st)"

definition register_task_module :: "string \<Rightarrow> py_module \<Rightarrow> sys_modules \<Rightarrow> sys_modules" where
  "register_task_module n m sm = (if dict_has sm n then sm else dict_set n m sm)"

definition register_event :: "member \<Rightarrow> sys_modules \<Rightarrow> sys_modules" where
  "register_event x sm =
     (case x of
        ClassObj i (Some mn) mro \<Rightarrow> (case dict_get sm mn of Some m \<Rightarrow> register_task_module mn m sm | None \<Rightarrow> sm)
      | _ \<Rightarrow> sm)"

text \<open>A module name never equals a class, so the test before the second registration always holds.\<close>

definition auto_load_all_task_modules :: "importer \<Rightarrow> string \<Rightarrow> fs_dir \<Rightarrow> sys_modules \<Rightarrow> discovered" where
  "auto_load_all_task_modules imp base d sm =
     (let st = fold (explore_dir imp base) (os_walk visible_dir base d) \<lparr>found_events = [], found_modules = [], loaded = sm\<rparr>;
          sm1 = fold register_event (found_events st) (loaded st);
          sm2 = fold (\<lambda>m. register_task_module (pm_name m) m) (found_modules st) sm1
      in st\<lparr>loaded := sm2\<rparr>)"

section \<open>What a walk visits\<close>

inductive below :: "(string \<Rightarrow> bool) \<Rightarrow> string \<Rightarrow> fs_dir \<Rightarrow> string \<Rightarrow> fs_dir \<Rightarrow> bool" for keep where
  here: "below keep path d path d"
| deeper: "d' \<in> set (dir_subs d) \<Longrightarrow> keep (dir_name d') \<Longrightarrow> below keep (path_join path (dir_name d')) d' p x \<Longrightarrow> below keep path d p x"

abbreviation kept_subs :: "(string \<Rightarrow> bool) \<Rightarrow> fs_dir \<Rightarrow> string list" where
  "kept_subs keep x \<equiv> map dir_name (filter (\<lambda>d. keep (dir_name d)) (dir_subs x))"

lemma below_walked: "below keep path d p x \<Longrightarrow> (p, kept_subs keep x, dir_files x) \<in> set (os_walk keep path d)"
proof (induction rule: below.induct)
  case (here path d)
  show ?case by (cases d) simp
next
  case (deeper d' d path p x)
  then show ?case by (cases d) auto
qed

lemma walk_visits:
  "(p, ns, fs) \<in> set (os_walk keep path d) \<longleftrightarrow> (\<exists>x. below keep path d p x \<and> fs = dir_files x \<and> ns = kept_subs keep x)"
proof
  assume "(p, ns, fs) \<in> set (os_walk keep path d)"
  then show "\<exists>x. below keep path d p x \<and> fs = dir_files x \<and> ns = kept_subs keep x"
  proof (induction keep path d rule: os_walk.induct)
    case (1 keep path n gs ds)
    then consider "p = path" "ns = kept_subs keep (Dir n gs ds)" "fs = gs"
      | d where "d \<in> set ds" "keep (dir_name d)" "(p, ns, fs) \<in> set (os_walk keep (path_join path (dir_name d)) d)"
      by auto
    then show ?case
    proof cases
      case 1
      then show ?thesis using below.here[of keep path "Dir n gs ds"] by force
    next
      case (2 d)
      then obtain x where "below keep (path_join path (dir_name d)) d p x" "fs = dir_files x" "ns = kept_subs keep x"
        using "1.IH"[of d] by auto
      with 2 show ?thesis using below.deeper[of d "Dir n gs ds" keep path p x] by force
    qed
  qed
qed (use below_walked in blast)

lemma find_in: "find P xs = Some x \<Longrightarrow> x \<in> set xs \<and> P x"
  by (induction xs) (auto split: if_splits)

lemma first_match_iff:
  "first_match pat ws = None \<longleftrightarrow> (\<forall>(b, ds, fs) \<in> set ws. \<forall>n \<in> set fs. \<not> re_match pat n)"
  by (induction pat ws rule: first_match.induct) (auto simp: find_None_iff split: option.split dest: find_in)

lemma first_match_some:
  "first_match pat ws = Some r \<Longrightarrow> \<exists>b ds fs n. (b, ds, fs) \<in> set ws \<and> n \<in> set fs \<and> re_match pat n \<and> r = path_join b n"
proof (induction pat ws rule: first_match.induct)
  case (2 pat b ds fs rest)
  show ?case
  proof (cases "find (re_match pat) fs")
    case None
    with 2 show ?thesis by auto
  next
    case (Some n)
    with 2(2) find_in[OF Some] show ?thesis by auto
  qed
qed simp

text \<open>The search finds a file exactly when one below the directory matches, and returns its path.\<close>

lemma pointy_search:
  "case find_pointy_file path (IsDir d) cname of
     None \<Rightarrow> \<forall>p x n. below (\<lambda>_. True) path d p x \<longrightarrow> n \<in> set (dir_files x) \<longrightarrow> \<not> re_match (cname @ ''.pty'') n
   | Some r \<Rightarrow> \<exists>p x n. below (\<lambda>_. True) path d p x \<and> n \<in> set (dir_files x) \<and> re_match (cname @ ''.pty'') n \<and> r = path_join p n"
proof (cases "find_pointy_file path (IsDir d) cname")
  case None
  then have "\<forall>(b, ds, fs) \<in> set (os_walk (\<lambda>_. True) path d). \<forall>n \<in> set fs. \<not> re_match (cname @ ''.pty'') n"
    by (simp add: find_pointy_file_def directory_walk_def first_match_iff)
  then have "\<not> re_match (cname @ ''.pty'') n" if "below (\<lambda>_. True) path d p x" "n \<in> set (dir_files x)" for p x n
    using below_walked[OF that(1)] that(2) by fastforce
  then show ?thesis unfolding None option.case by blast
next
  case (Some r)
  then have "first_match (cname @ ''.pty'') (os_walk (\<lambda>_. True) path d) = Some r"
    by (simp add: find_pointy_file_def directory_walk_def)
  from first_match_some[OF this] obtain b ds fs n where "(b, ds, fs) \<in> set (os_walk (\<lambda>_. True) path d)"
    "n \<in> set fs" "re_match (cname @ ''.pty'') n" "r = path_join b n" by blast
  then show ?thesis unfolding Some option.case walk_visits by blast
qed

text \<open>The name is a pattern: other files are taken for the file of the pipeline.\<close>

lemma pointy_pattern: "re_match ''Demo.pty'' ''Demo.pty.bak''" "re_match ''Demo.pty'' ''demo_pty_notes.txt''"
  by code_simp+

text \<open>In a chain of \<open>n\<close> directories the search that finds nothing makes two to the power of \<open>n\<close> calls.\<close>

fun dir_chain :: "nat \<Rightarrow> fs_dir" where
  "dir_chain 0 = Dir ''d'' [] []"
| "dir_chain (Suc n) = Dir ''d'' [] [dir_chain n]"

lemma subtrees_chain: "subtrees (dir_chain n) = map dir_chain (rev [0..<n])"
  by (induction n) simp_all

lemma walk_exponential: "walk_calls (dir_chain n) = 2 ^ n"
proof (induction n rule: less_induct)
  case (less n)
  have "walk_calls (dir_chain n) = 1 + sum_list (map (\<lambda>k. walk_calls (dir_chain k)) [0..<n])"
    by (subst walk_calls.simps) (simp add: subtrees_chain rev_map[symmetric] sum_list_rev comp_def)
  also have "map (\<lambda>k. walk_calls (dir_chain k)) [0..<n] = map (\<lambda>k. 2 ^ k) [0..<n]" using less by auto
  also have "1 + sum_list (map (\<lambda>k. 2 ^ k) [0..<n]) = (2 ^ n :: nat)" by (induction n) simp_all
  finally show ?case .
qed

section \<open>What is discovered\<close>

definition import_lawful :: "importer \<Rightarrow> bool" where
  "import_lawful imp \<longleftrightarrow>
     (\<forall>n sm r sm'. imp n sm = (r, sm') \<longrightarrow>
        (\<forall>k. dict_has sm k \<longrightarrow> dict_has sm' k) \<and> (case r of Inl e \<Rightarrow> True | Inr m \<Rightarrow> dict_has sm' (pm_name m)))"

fun import_all :: "importer \<Rightarrow> string list \<Rightarrow> sys_modules \<Rightarrow> py_module list \<times> sys_modules" where
  "import_all imp [] sm = ([], sm)"
| "import_all imp (n # ns) sm =
     (case imp n sm of (r, sm1) \<Rightarrow> (case import_all imp ns sm1 of (ms, sm2) \<Rightarrow> ((case r of Inl e \<Rightarrow> ms | Inr m \<Rightarrow> m # ms), sm2)))"

definition packages :: "string \<Rightarrow> fs_dir \<Rightarrow> string list" where
  "packages base d = map (\<lambda>(p, ns, fs). module_path base p) (filter (\<lambda>(p, ns, fs). ''__init__.py'' \<in> set fs) (os_walk visible_dir base d))"

definition events_in :: "py_module \<Rightarrow> member list" where
  "events_in m = filter is_event_class (map snd (pm_members m))"

lemma module_path_nonempty: "module_path base p \<noteq> []"
  by (simp add: module_path_def relative_to_def Let_def)

lemma explore_members:
  "set (found_events (foldl (\<lambda>st (k, x). if is_event_class x
       then st\<lparr>found_events := List.insert x (found_events st), found_modules := List.insert m (found_modules st)\<rparr> else st) st ms)) =
     set (found_events st) \<union> {x \<in> snd ` set ms. is_event_class x}"
  "set (found_modules (foldl (\<lambda>st (k, x). if is_event_class x
       then st\<lparr>found_events := List.insert x (found_events st), found_modules := List.insert m (found_modules st)\<rparr> else st) st ms)) =
     set (found_modules st) \<union> (if \<exists>x \<in> snd ` set ms. is_event_class x then {m} else {})"
  "loaded (foldl (\<lambda>st (k, x). if is_event_class x
       then st\<lparr>found_events := List.insert x (found_events st), found_modules := List.insert m (found_modules st)\<rparr> else st) st ms) = loaded st"
  by (induction ms arbitrary: st) (auto split: if_splits)

lemma explore_effect:
  assumes "imp n (loaded st) = (r, sm)"
  shows "loaded (explore_module imp n st) = sm"
    "set (found_events (explore_module imp n st)) = set (found_events st) \<union> (case r of Inl e \<Rightarrow> {} | Inr m \<Rightarrow> set (events_in m))"
    "set (found_modules (explore_module imp n st)) =
       set (found_modules st) \<union> (case r of Inl e \<Rightarrow> {} | Inr m \<Rightarrow> if events_in m \<noteq> [] then {m} else {})"
  using assms by (auto simp: explore_module_def explore_members events_in_def filter_empty_conv split: sum.splits)

lemma explore_all:
  "fold (explore_dir imp base) ws st =
     fold (explore_module imp) (map (\<lambda>(p, ns, fs). module_path base p) (filter (\<lambda>(p, ns, fs). ''__init__.py'' \<in> set fs) ws)) st"
  by (induction ws arbitrary: st) (auto simp: explore_dir_def Let_def module_path_nonempty)

lemma explore_modules:
  assumes "import_all imp ns (loaded st) = (ms, sm)"
  shows "loaded (fold (explore_module imp) ns st) = sm \<and>
    set (found_events (fold (explore_module imp) ns st)) = set (found_events st) \<union> (\<Union>m \<in> set ms. set (events_in m)) \<and>
    set (found_modules (fold (explore_module imp) ns st)) = set (found_modules st) \<union> {m \<in> set ms. events_in m \<noteq> []}"
  using assms
proof (induction ns arbitrary: st ms)
  case (Cons n ns)
  obtain r sm1 where r: "imp n (loaded st) = (r, sm1)" by (cases "imp n (loaded st)")
  obtain ms1 where ms1: "import_all imp ns sm1 = (ms1, sm)" "ms = (case r of Inl e \<Rightarrow> ms1 | Inr m \<Rightarrow> m # ms1)"
    using Cons.prems r by (cases "import_all imp ns sm1") auto
  note e = explore_effect[of imp n st r sm1, OF r]
  with Cons.IH[of "explore_module imp n st" ms1] ms1 show ?case by (auto split: sum.splits if_splits)
qed simp

lemma import_all_keeps:
  assumes "import_lawful imp" and "import_all imp ns sm = (ms, sm')"
  shows "(\<forall>k. dict_has sm k \<longrightarrow> dict_has sm' k) \<and> (\<forall>m \<in> set ms. dict_has sm' (pm_name m))"
  using assms(2)
proof (induction ns arbitrary: sm ms)
  case (Cons n ns)
  obtain r sm1 where r: "imp n sm = (r, sm1)" by (cases "imp n sm")
  obtain ms1 where ms1: "import_all imp ns sm1 = (ms1, sm')" "ms = (case r of Inl e \<Rightarrow> ms1 | Inr m \<Rightarrow> m # ms1)"
    using Cons.prems r by (cases "import_all imp ns sm1") auto
  have "(\<forall>k. dict_has sm k \<longrightarrow> dict_has sm1 k) \<and> (case r of Inl e \<Rightarrow> True | Inr m \<Rightarrow> dict_has sm1 (pm_name m))"
    using assms(1) r unfolding import_lawful_def by blast
  with Cons.IH[OF ms1(1)] ms1(2) show ?case by (auto split: sum.splits)
qed simp

lemma register_known: "(\<forall>m \<in> set ms. dict_has sm (pm_name m)) \<Longrightarrow> fold (\<lambda>m. register_task_module (pm_name m) m) ms sm = sm"
  by (induction ms) (simp_all add: register_task_module_def)

lemma register_events_id: "fold register_event xs sm = sm"
proof (induction xs)
  case (Cons x xs)
  have "register_event x sm = sm"
    by (auto simp: register_event_def register_task_module_def dict_has_get split: member.split option.split)
  with Cons show ?case by simp
qed simp


definition demo_project :: fs_dir where
  "demo_project = Dir ''proj'' [''__init__.py''] [Dir ''jobs'' [''__init__.py'', ''events.py''] [], Dir ''.venv'' [''__init__.py''] []]"

definition demo_importer :: importer where
  "demo_importer n sm =
     (if n = ''jobs''
      then (let m = \<lparr>pm_name = ''jobs'', pm_members = [(''Load'', ClassObj ''Load'' (Some ''jobs.events'') [''Load'', ''EventBase'', ''object'']), (''x'', OtherObj)]\<rparr>
            in (Inr m, dict_set ''jobs'' m sm))
      else (Inl TypeError, sm))"

lemma demo_importer_lawful: "import_lawful demo_importer"
  by (auto simp: import_lawful_def demo_importer_def Let_def dict_simps split: if_splits)


end
