(* ===== verification/Servers.thy ===== *)
theory Servers
  imports Futures
begin

text \<open>
  Starting and stopping the servers and clients of remote execution, and their TLS set-up:
  \<open>create_server_ssl_context\<close> and \<open>create_client_ssl_context\<close> of \<^verbatim>\<open>src/nexus/utils.py\<close>, the managers in
  \<^verbatim>\<open>src/nexus/manager\<close>, and the constructors and \<open>shutdown\<close> of the XML-RPC, gRPC and socket executors.

  The files of certificates and keys and the network are the parameter \<open>net_env\<close>. Contexts start from the documented
  defaults of \<open>ssl.create_default_context\<close>: a client checks certificate and host name, a server asks for nothing. An operation that
  blocks for ever is \<open>None\<close>; as documented, \<open>BaseServer.shutdown\<close> does so when \<open>serve_forever\<close> was never entered.
\<close>

section \<open>TLS contexts\<close>

type_synonym path = "string option"

definition given :: "path \<Rightarrow> bool" where
  "given p \<longleftrightarrow> p \<noteq> None \<and> p \<noteq> Some []"

datatype verify = CERT_NONE | CERT_OPTIONAL | CERT_REQUIRED

record ssl_context =
  verify_mode :: verify
  check_hostname :: bool
  trusted :: "string list"
  own_chain :: "(path \<times> path) option"

record net_env =
  chain_error :: "path \<Rightarrow> path \<Rightarrow> exc_class option"
  ca_error :: "path \<Rightarrow> exc_class option"
  read_error :: "path \<Rightarrow> exc_class option"
  bind_error :: "exc_class option"

definition raise_if :: "exc_class option \<Rightarrow> exc_class + unit" where
  "raise_if e = (case e of None \<Rightarrow> Inr () | Some x \<Rightarrow> Inl x)"

definition default_server_context :: ssl_context where
  "default_server_context = \<lparr>verify_mode = CERT_NONE, check_hostname = False, trusted = [], own_chain = None\<rparr>"

definition default_client_context :: ssl_context where
  "default_client_context = \<lparr>verify_mode = CERT_REQUIRED, check_hostname = True, trusted = [], own_chain = None\<rparr>"

text \<open>Whatever is raised is logged or not, and raised again.\<close>

definition create_server_ssl_context :: "net_env \<Rightarrow> path \<Rightarrow> path \<Rightarrow> path \<Rightarrow> bool \<Rightarrow> exc_class + ssl_context" where
  "create_server_ssl_context env cert key ca require_client_cert =
     bind_res (raise_if (chain_error env cert key)) (\<lambda>_.
       let ctx = default_server_context\<lparr>own_chain := Some (cert, key)\<rparr>
       in if given ca
          then bind_res (raise_if (ca_error env ca)) (\<lambda>_.
                 let ctx = ctx\<lparr>trusted := [the ca]\<rparr>
                 in Inr (if require_client_cert then ctx\<lparr>verify_mode := CERT_REQUIRED\<rparr> else ctx))
          else Inr ctx)"

definition create_client_ssl_context :: "net_env \<Rightarrow> path \<Rightarrow> path \<Rightarrow> path \<Rightarrow> exc_class + ssl_context" where
  "create_client_ssl_context env cert key ca =
     bind_res (if given ca then bind_res (raise_if (ca_error env ca)) (\<lambda>_. Inr (default_client_context\<lparr>trusted := [the ca]\<rparr>))
               else Inr default_client_context) (\<lambda>ctx.
       if given cert \<and> given key
       then bind_res (raise_if (chain_error env cert key)) (\<lambda>_. Inr (ctx\<lparr>own_chain := Some (cert, key)\<rparr>))
       else Inr ctx)"

section \<open>The socket server\<close>

text \<open>Sockets are numbered; \<open>open_sockets\<close> are those of the server that are open, \<open>handed\<close> the clients given to the thread pool.
  \<open>shutdown\<close> waits for the handlers of these clients, which are taken to end.\<close>

record remote_server =
  rv_cert :: path
  rv_key :: path
  rv_ca :: path
  rv_require :: bool
  rv_down :: bool
  rv_sock :: "nat option"
  rv_tls :: "ssl_context option"
  rv_pool_open :: bool
  open_sockets :: "nat list"
  handed :: "nat list"

definition mk_remote_server :: "path \<Rightarrow> path \<Rightarrow> path \<Rightarrow> bool \<Rightarrow> remote_server" where
  "mk_remote_server cert key ca require_client_cert =
     \<lparr>rv_cert = cert, rv_key = key, rv_ca = ca, rv_require = require_client_cert, rv_down = False, rv_sock = None, rv_tls = None,
      rv_pool_open = True, open_sockets = [], handed = []\<rparr>"

definition create_server_socket :: "net_env \<Rightarrow> remote_server \<Rightarrow> exc_class + ssl_context option" where
  "create_server_socket env s =
     (if \<not> (given (rv_cert s) \<and> given (rv_key s)) then Inr None
      else bind_res (create_server_ssl_context env (rv_cert s) (rv_key s) (rv_ca s) (rv_require s)) (\<lambda>ctx. Inr (Some ctx)))"

definition remote_shutdown :: "remote_server \<Rightarrow> remote_server" where
  "remote_shutdown s =
     (if rv_down s then s
      else s\<lparr>rv_down := True,
             open_sockets := (case rv_sock s of None \<Rightarrow> open_sockets s | Some k \<Rightarrow> removeAll k (open_sockets s)),
             rv_pool_open := False\<rparr>)"

text \<open>One round of the loop: what \<open>accept\<close> does, and whether another thread calls \<open>shutdown\<close> before its outcome is
  handled or after. A client the pool refuses, because it was closed, is dropped: the exception is caught, and logged unless
  the server is down.\<close>

datatype accept_outcome = Client nat | Timeout | AcceptError exc_class

record accept_round =
  down_before :: bool
  accept_result :: accept_outcome
  down_after :: bool

definition accept_step :: "accept_round \<Rightarrow> remote_server \<Rightarrow> remote_server" where
  "accept_step r s =
     (let s1 = (if down_before r then remote_shutdown s else s);
          s2 = (case accept_result r of
                  Client c \<Rightarrow> (if rv_pool_open s1 then s1\<lparr>handed := handed s1 @ [c]\<rparr> else s1)
                | Timeout \<Rightarrow> s1
                | AcceptError e \<Rightarrow> s1)
      in if down_after r then remote_shutdown s2 else s2)"

text \<open>The loop: the server when it ends, \<open>None\<close> while it still waits for clients.\<close>

fun accept_loop :: "accept_round list \<Rightarrow> remote_server \<Rightarrow> remote_server option" where
  "accept_loop [] s = (if rv_down s then Some s else None)"
| "accept_loop (r # rs) s = (if rv_down s then Some s else accept_loop rs (accept_step r s))"

text \<open>\<open>start\<close>; \<open>k\<close> is the number of the new socket. The result is \<open>None\<close> while the server runs.\<close>

definition remote_start :: "net_env \<Rightarrow> nat \<Rightarrow> accept_round list \<Rightarrow> remote_server \<Rightarrow> (exc_class option \<times> remote_server) option" where
  "remote_start env k evs s =
     (case create_server_socket env s of
        Inl e \<Rightarrow> Some (Some e, remote_shutdown s)
      | Inr tls \<Rightarrow>
          (let s1 = s\<lparr>rv_sock := Some k, rv_tls := tls, open_sockets := k # open_sockets s\<rparr>
           in case bind_error env of
                Some e \<Rightarrow> Some (Some e, remote_shutdown s1)
              | None \<Rightarrow> (case accept_loop evs s1 of None \<Rightarrow> None | Some s2 \<Rightarrow> Some (None, remote_shutdown s2))))"

section \<open>The XML-RPC server\<close>

datatype serving = Created | Serving | Ended

record xml_server =
  xv_use_encryption :: bool
  xv_cert :: path
  xv_key :: path
  xv_ca :: path
  xv_require :: bool
  xv_server :: "serving option"
  xv_tls :: "ssl_context option"

definition mk_xml_server :: "bool \<Rightarrow> path \<Rightarrow> path \<Rightarrow> path \<Rightarrow> bool \<Rightarrow> xml_server" where
  "mk_xml_server enc cert key ca require_client_cert =
     \<lparr>xv_use_encryption = enc, xv_cert = cert, xv_key = key, xv_ca = ca, xv_require = require_client_cert,
      xv_server = None, xv_tls = None\<rparr>"

text \<open>\<open>start\<close> up to \<open>serve_forever\<close>, which then serves until it is shut down.\<close>

definition xml_start :: "net_env \<Rightarrow> xml_server \<Rightarrow> exc_class option \<times> xml_server" where
  "xml_start env s =
     (case bind_error env of
        Some e \<Rightarrow> (Some e, s)
      | None \<Rightarrow>
          (let s1 = s\<lparr>xv_server := Some Created\<rparr>
           in if \<not> xv_use_encryption s then (None, s1\<lparr>xv_server := Some Serving\<rparr>)
              else if \<not> (given (xv_cert s) \<and> given (xv_key s)) then (Some ValueError, s1)
              else (case create_server_ssl_context env (xv_cert s) (xv_key s) (xv_ca s) (xv_require s) of
                      Inl e \<Rightarrow> (Some e, s1)
                    | Inr ctx \<Rightarrow> (None, s1\<lparr>xv_server := Some Serving, xv_tls := Some ctx\<rparr>))))"

definition xml_shutdown :: "xml_server \<Rightarrow> xml_server option" where
  "xml_shutdown s =
     (case xv_server s of
        None \<Rightarrow> Some s
      | Some Created \<Rightarrow> None
      | Some _ \<Rightarrow> Some (s\<lparr>xv_server := None\<rparr>))"

section \<open>The gRPC server\<close>

record grpc_credentials =
  cr_key :: path
  cr_cert :: path
  cr_roots :: "path option"
  cr_client_auth :: bool

record grpc_manager =
  gm_use_encryption :: bool
  gm_cert :: path
  gm_key :: path
  gm_require :: bool
  gm_client_ca :: path
  gm_server :: "serving option"
  gm_port :: "grpc_credentials option"

definition mk_grpc_manager :: "bool \<Rightarrow> path \<Rightarrow> path \<Rightarrow> bool \<Rightarrow> path \<Rightarrow> grpc_manager" where
  "mk_grpc_manager enc cert key require_client_cert ca =
     \<lparr>gm_use_encryption = enc, gm_cert = cert, gm_key = key, gm_require = require_client_cert, gm_client_ca = ca,
      gm_server = None, gm_port = None\<rparr>"

definition grpc_server_credentials :: "net_env \<Rightarrow> grpc_manager \<Rightarrow> exc_class + grpc_credentials" where
  "grpc_server_credentials env s =
     (if \<not> (given (gm_cert s) \<and> given (gm_key s)) then Inl ValueError
      else bind_res (raise_if (read_error env (gm_key s))) (\<lambda>_.
           bind_res (raise_if (read_error env (gm_cert s))) (\<lambda>_.
           bind_res (if gm_require s
                     then (if \<not> given (gm_client_ca s) then Inl ValueError
                           else bind_res (raise_if (read_error env (gm_client_ca s))) (\<lambda>_. Inr (Some (gm_client_ca s))))
                     else Inr None) (\<lambda>roots.
           Inr \<lparr>cr_key = gm_key s, cr_cert = gm_cert s, cr_roots = roots, cr_client_auth = gm_require s\<rparr>))))"

definition grpc_start :: "net_env \<Rightarrow> grpc_manager \<Rightarrow> exc_class option \<times> grpc_manager" where
  "grpc_start env s =
     (let s1 = s\<lparr>gm_server := Some Created\<rparr>
      in case (if gm_use_encryption s then bind_res (grpc_server_credentials env s) (\<lambda>c. Inr (Some c)) else Inr None) of
           Inl e \<Rightarrow> (Some e, s1)
         | Inr port \<Rightarrow>
             (case bind_error env of
                Some e \<Rightarrow> (Some e, s1)
              | None \<Rightarrow> (None, s1\<lparr>gm_port := port, gm_server := Some Serving\<rparr>)))"

definition grpc_manager_shutdown :: "grpc_manager \<Rightarrow> grpc_manager" where
  "grpc_manager_shutdown s = (if gm_server s = None then s else s\<lparr>gm_server := None\<rparr>)"

section \<open>Clients\<close>

text \<open>\<open>RemoteExecutor._create_secure_connection\<close>: the context of the connection, \<open>None\<close> for a plain one.\<close>

definition create_secure_connection :: "net_env \<Rightarrow> bool \<Rightarrow> path \<Rightarrow> path \<Rightarrow> path \<Rightarrow> exc_class + ssl_context option" where
  "create_secure_connection env use_encryption cert key ca =
     bind_res (raise_if (bind_error env)) (\<lambda>_.
       if \<not> use_encryption then Inr None
       else bind_res (create_client_ssl_context env cert key ca) (\<lambda>ctx. Inr (Some ctx)))"

record xml_client =
  xc_protocol :: string
  xc_url :: string
  xc_context :: "ssl_context option"
  xc_workers :: int

definition mk_xml_client :: "net_env \<Rightarrow> string \<Rightarrow> string \<Rightarrow> int option \<Rightarrow> bool \<Rightarrow> path \<Rightarrow> path \<Rightarrow> path \<Rightarrow> exc_class + xml_client" where
  "mk_xml_client env host port max_workers use_encryption cert key ca =
     (let workers = (case max_workers of None \<Rightarrow> 4 | Some n \<Rightarrow> if n = 0 then 4 else n);
          url = (\<lambda>protocol. protocol @ ''://'' @ host @ '':'' @ port)
      in if workers \<le> 0 then Inl ValueError
         else if use_encryption
         then bind_res (create_client_ssl_context env cert key ca) (\<lambda>ctx.
                Inr \<lparr>xc_protocol = ''https'', xc_url = url ''https'', xc_context = Some ctx, xc_workers = workers\<rparr>)
         else Inr \<lparr>xc_protocol = ''http'', xc_url = url ''http'', xc_context = None, xc_workers = workers\<rparr>)"

text \<open>The gRPC client opens a plain channel first, in every case, and never closes it when a secure one replaces it. The
  authority it is given is not used: the roots are the defaults of the library.\<close>

datatype channel = Insecure string | Secure string "path option" path path

record grpc_client =
  gc_channel :: channel
  gc_opened :: "channel list"

definition mk_grpc_client :: "net_env \<Rightarrow> string \<Rightarrow> bool \<Rightarrow> path \<Rightarrow> path \<Rightarrow> path \<Rightarrow> exc_class + grpc_client" where
  "mk_grpc_client env target use_encryption cert key ca =
     (if \<not> use_encryption then Inr \<lparr>gc_channel = Insecure target, gc_opened = [Insecure target]\<rparr>
      else if \<not> (given cert \<and> given key) then Inl ValueError
      else bind_res (raise_if (read_error env key)) (\<lambda>_.
           bind_res (raise_if (read_error env cert)) (\<lambda>_.
             let ch = Secure target None key cert
             in Inr \<lparr>gc_channel = ch, gc_opened = [Insecure target, ch]\<rparr>)))"

text \<open>A submission to the thread pool of a client, with the future its caller holds.\<close>

datatype pool_task = Queued | Running | Ran | Dropped

record submission =
  sub_task :: pool_task
  sub_future :: "pyval fut"

definition cancel_submission :: "submission \<Rightarrow> submission" where
  "cancel_submission x = (case sub_task x of Queued \<Rightarrow> x\<lparr>sub_task := Dropped\<rparr> | _ \<Rightarrow> x)"

text \<open>A task that runs in the pool ends as \<open>outcome\<close> says, if it ends.\<close>

definition run_submission :: "(pyval + pyval) option \<Rightarrow> submission \<Rightarrow> submission option" where
  "run_submission outcome x =
     (case sub_task x of
        Ran \<Rightarrow> Some x
      | Dropped \<Rightarrow> Some x
      | _ \<Rightarrow> map_option (\<lambda>r. \<lparr>sub_task = Ran, sub_future = Finished r\<rparr>) outcome)"

record rpc_client =
  rc_down :: bool
  rc_channel_open :: bool
  rc_tasks :: "submission list"

fun wait_all :: "(nat \<Rightarrow> (pyval + pyval) option) \<Rightarrow> nat \<Rightarrow> submission list \<Rightarrow> submission list option" where
  "wait_all out k [] = Some []"
| "wait_all out k (x # xs) =
     (case run_submission (out k) x of
        None \<Rightarrow> None
      | Some y \<Rightarrow> map_option (\<lambda>ys. y # ys) (wait_all out (Suc k) xs))"

text \<open>\<open>GRPCExecutor.shutdown\<close>: waiting for the submissions, with the lock held, and only then closing; \<open>None\<close> when one of them
  never ends. Without waiting the submissions are left to the pool.\<close>

definition grpc_client_shutdown ::
  "(nat \<Rightarrow> (pyval + pyval) option) \<Rightarrow> bool \<Rightarrow> bool \<Rightarrow> rpc_client \<Rightarrow> rpc_client option" where
  "grpc_client_shutdown out wait_flag cancel_futures c =
     (if rc_down c then Some c
      else (let xs = (if cancel_futures then map cancel_submission (rc_tasks c) else rc_tasks c)
            in case (if wait_flag then wait_all out 0 xs else Some xs) of
                 None \<Rightarrow> None
               | Some ys \<Rightarrow> Some (c\<lparr>rc_down := True, rc_channel_open := False, rc_tasks := ys\<rparr>)))"

text \<open>\<open>XMLRPCExecutor.shutdown\<close> closes the pool, every time it is called; it keeps no list of its own.\<close>

definition xml_client_shutdown ::
  "(nat \<Rightarrow> (pyval + pyval) option) \<Rightarrow> bool \<Rightarrow> bool \<Rightarrow> rpc_client \<Rightarrow> rpc_client option" where
  "xml_client_shutdown out wait_flag cancel_futures c =
     (let xs = (if cancel_futures then map cancel_submission (rc_tasks c) else rc_tasks c)
      in case (if wait_flag then wait_all out 0 xs else Some xs) of
           None \<Rightarrow> None
         | Some ys \<Rightarrow> Some (c\<lparr>rc_down := True, rc_tasks := ys\<rparr>))"

end
