(* ===== verification/Servers_Props.thy ===== *)
theory Servers_Props
  imports Servers
begin

text \<open>
  The servers and clients of remote execution from start to stop. The locale \<open>task_server\<close> is what the code that holds a server
  relies on when it stops it: stopping reaches a stopped state, in which stopping again does nothing. It is
  interpreted for the three managers and the gRPC client.
\<close>

section \<open>Stopping\<close>

locale task_server =
  fixes shutdown :: "'s \<Rightarrow> 's option"
    and stopped :: "'s \<Rightarrow> bool"
  assumes shutdown_stops: "shutdown s = Some s' \<Longrightarrow> stopped s'"
    and stopped_stays: "stopped s \<Longrightarrow> shutdown s = Some s"
begin

fun shutdown_times :: "nat \<Rightarrow> 's \<Rightarrow> 's option" where
  "shutdown_times 0 s = Some s"
| "shutdown_times (Suc n) s = (case shutdown s of None \<Rightarrow> None | Some s' \<Rightarrow> shutdown_times n s')"

lemma stopped_times: "stopped s \<Longrightarrow> shutdown_times n s = Some s"
  by (induction n) (auto simp: stopped_stays)

text \<open>However often it is called, the first call decides.\<close>

lemma shutdown_once: "shutdown_times (Suc n) s = shutdown s"
  by (auto split: option.split intro: stopped_times shutdown_stops)

end

interpretation remote_srv: task_server "\<lambda>s. Some (remote_shutdown s)" rv_down
  by unfold_locales (auto simp: remote_shutdown_def)

interpretation xml_srv: task_server xml_shutdown "\<lambda>s. xv_server s = None"
  by unfold_locales (auto simp: xml_shutdown_def split: option.splits serving.splits)

interpretation grpc_srv: task_server "\<lambda>s. Some (grpc_manager_shutdown s)" "\<lambda>s. gm_server s = None"
  by unfold_locales (auto simp: grpc_manager_shutdown_def)

interpretation grpc_cl: task_server "grpc_client_shutdown out w c" rc_down for out w c
  by unfold_locales (auto simp: grpc_client_shutdown_def Let_def split: option.splits if_splits)

section \<open>The accept loop\<close>

definition stops :: "accept_round \<Rightarrow> bool" where
  "stops r \<longleftrightarrow> down_before r \<or> down_after r"

text \<open>The clients that were accepted before the first call of \<open>shutdown\<close>, in order.\<close>

fun clients_before :: "accept_round list \<Rightarrow> nat list" where
  "clients_before [] = []"
| "clients_before (r # rs) =
     (if down_before r then []
      else (case accept_result r of Client c \<Rightarrow> [c] | _ \<Rightarrow> []) @ (if down_after r then [] else clients_before rs))"

lemma accept_step_running:
  assumes "\<not> rv_down s" and "rv_pool_open s" and "\<not> stops r"
  shows "accept_step r s = s\<lparr>handed := handed s @ clients_before [r]\<rparr>"
  using assms by (auto simp: accept_step_def stops_def split: accept_outcome.split)

lemma accept_step_stops:
  assumes "\<not> rv_down s" and "rv_pool_open s" and "stops r"
  shows "accept_step r s = remote_shutdown (s\<lparr>handed := handed s @ clients_before [r]\<rparr>)"
  using assms
  by (auto simp: accept_step_def stops_def remote_shutdown_def Let_def split: accept_outcome.split option.split)

lemma shutdown_down [simp]: "rv_down (remote_shutdown s)" "rv_down s \<Longrightarrow> remote_shutdown s = s"
  by (auto simp: remote_shutdown_def)

lemma shutdown_fields [simp]:
  "handed (remote_shutdown s) = handed s" "rv_tls (remote_shutdown s) = rv_tls s"
  "\<not> rv_down s \<Longrightarrow> \<not> rv_pool_open (remote_shutdown s)"
  "\<not> rv_down s \<Longrightarrow> open_sockets (remote_shutdown s) =
     (case rv_sock s of None \<Rightarrow> open_sockets s | Some k \<Rightarrow> removeAll k (open_sockets s))"
  by (auto simp: remote_shutdown_def)

lemma accept_loop_down [simp]: "rv_down s \<Longrightarrow> accept_loop rs s = Some s"
  by (cases rs) auto

text \<open>The loop ends exactly when somebody stops the server, and then every client accepted before was handed over, once and in
  order, and no other.\<close>

lemma accept_loop_result:
  assumes "\<not> rv_down s" and "rv_pool_open s"
  shows "accept_loop rs s =
    (if list_ex stops rs then Some (remote_shutdown (s\<lparr>handed := handed s @ clients_before rs\<rparr>)) else None)"
  using assms
proof (induction rs arbitrary: s)
  case (Cons r rs)
  show ?case
  proof (cases "stops r")
    case True
    moreover from this have "clients_before (r # rs) = clients_before [r]"
      by (auto simp: stops_def)
    ultimately show ?thesis
      using Cons.prems by (simp del: clients_before.simps(2) add: accept_step_stops)
  next
    case False
    moreover from this have "clients_before (r # rs) = clients_before [r] @ clients_before rs"
      by (auto simp: stops_def)
    ultimately show ?thesis
      using Cons by (simp del: clients_before.simps(2) add: accept_step_running)
  qed
qed simp

section \<open>TLS\<close>

definition raises :: "exc_class option \<Rightarrow> bool" where
  "raises e \<longleftrightarrow> e \<noteq> None"

lemma raise_if_simps [simp]: "raise_if None = Inr ()" "raise_if (Some e) = Inl e"
  by (auto simp: raise_if_def)

lemma raise_if_Inr [simp]: "raise_if e = Inr u \<longleftrightarrow> e = None"
  by (cases e) auto

lemma raise_if_Inl [simp]: "raise_if e = Inl x \<longleftrightarrow> e = Some x"
  by (cases e) auto

text \<open>A server asks clients for certificates exactly when this was asked for and an authority was given.\<close>

lemma server_context_verifies:
  assumes "create_server_ssl_context env cert key ca req = Inr ctx"
  shows "verify_mode ctx = CERT_REQUIRED \<longleftrightarrow> req \<and> given ca" and "own_chain ctx = Some (cert, key)"
    and "verify_mode ctx = CERT_REQUIRED \<Longrightarrow> trusted ctx = [the ca]"
  using assms
  by (auto simp: create_server_ssl_context_def default_server_context_def Let_def res_simps split: if_splits)

text \<open>So a server of which client certificates were required, without an authority, serves anybody.\<close>

lemma required_without_authority:
  assumes "chain_error env cert key = None" and "\<not> given ca"
  shows "\<exists>ctx. create_server_ssl_context env cert key ca True = Inr ctx \<and> verify_mode ctx = CERT_NONE"
  using assms by (simp add: create_server_ssl_context_def default_server_context_def)

lemma client_context_verifies:
  assumes "create_client_ssl_context env cert key ca = Inr ctx"
  shows "verify_mode ctx = CERT_REQUIRED" and "check_hostname ctx"
    and "own_chain ctx = (if given cert \<and> given key then Some (cert, key) else None)"
    and "trusted ctx = (if given ca then [the ca] else [])"
  using assms
  by (auto simp: create_client_ssl_context_def default_client_context_def Let_def res_simps split: if_splits)

section \<open>The socket server\<close>

definition start_error :: "net_env \<Rightarrow> path \<Rightarrow> path \<Rightarrow> path \<Rightarrow> exc_class option" where
  "start_error env cert key ca =
     (if given cert \<and> given key \<and> raises (chain_error env cert key) then chain_error env cert key
      else if given cert \<and> given key \<and> given ca \<and> raises (ca_error env ca) then ca_error env ca
      else bind_error env)"

lemma create_server_socket_cases:
  assumes "s = mk_remote_server cert key ca req"
  shows "create_server_socket env s = Inr None \<and> \<not> (given cert \<and> given key) \<or>
         (\<exists>ctx. create_server_socket env s = Inr (Some ctx) \<and> given cert \<and> given key \<and>
            create_server_ssl_context env cert key ca req = Inr ctx \<and> chain_error env cert key = None \<and>
            (given ca \<longrightarrow> ca_error env ca = None)) \<or>
         (\<exists>e. create_server_socket env s = Inl e \<and> given cert \<and> given key \<and> start_error env cert key ca = Some e)"
  unfolding assms
  by (cases "chain_error env cert key"; cases "ca_error env ca")
    (auto simp: create_server_socket_def mk_remote_server_def create_server_ssl_context_def start_error_def raises_def Let_def)


definition trusting_net :: net_env where
  "trusting_net = \<lparr>chain_error = (\<lambda>_ _. None), ca_error = (\<lambda>_. None), read_error = (\<lambda>_. None), bind_error = None\<rparr>"

definition sample_rounds :: "accept_round list" where
  "sample_rounds =
     [\<lparr>down_before = False, accept_result = Client 7, down_after = False\<rparr>,
      \<lparr>down_before = False, accept_result = Timeout, down_after = False\<rparr>,
      \<lparr>down_before = False, accept_result = Client 8, down_after = True\<rparr>,
      \<lparr>down_before = False, accept_result = Client 9, down_after = False\<rparr>]"


section \<open>What goes wrong\<close>

text \<open>A server that was shut down does not serve again: \<open>start\<close> binds a new socket, leaves the loop at once and does not close it.\<close>

lemma restart_leaks_socket:
  assumes "rv_down s" and "create_server_socket env s = Inr tls" and "bind_error env = None"
  shows "\<exists>s'. remote_start env k rs s = Some (None, s') \<and> k \<in> set (open_sockets s') \<and> handed s' = handed s"
  using assms by (simp add: remote_start_def)

text \<open>A start of the XML-RPC server that fails over its certificates leaves a server that was never entered: stopping it never
  returns.\<close>

lemma xml_shutdown_hangs:
  assumes "xv_use_encryption s" and "bind_error env = None" and "xml_start env s = (Some e, s')"
  shows "xml_shutdown s' = None"
  using assms by (auto simp: xml_start_def xml_shutdown_def Let_def split: if_splits sum.splits)

lemma xml_shutdown_returns:
  assumes "xml_start env (mk_xml_server enc cert key ca req) = (None, s')"
  shows "\<exists>t. xml_shutdown s' = Some t \<and> xv_server t = None"
  using assms by (auto simp: xml_start_def xml_shutdown_def mk_xml_server_def Let_def split: if_splits sum.splits option.splits)

text \<open>The gRPC server refuses what the others ignore: client certificates without an authority.\<close>

lemma grpc_requires_authority:
  assumes "gm_use_encryption s" and "gm_require s" and "\<not> given (gm_client_ca s)"
  shows "\<exists>e s'. grpc_start env s = (Some e, s')"
  using assms
  by (auto simp: grpc_start_def grpc_server_credentials_def Let_def res_simps split: sum.splits)

lemma grpc_start_secure:
  assumes "grpc_start env s = (None, s')"
  shows "gm_use_encryption s \<longleftrightarrow> gm_port s' \<noteq> None"
    and "gm_port s' = Some c \<Longrightarrow> cr_client_auth c \<longleftrightarrow> cr_roots c = Some (gm_client_ca s) \<and> given (gm_client_ca s)"
  using assms
  by (auto simp: grpc_start_def grpc_server_credentials_def Let_def res_simps split: sum.splits if_splits option.splits)

text \<open>A secure gRPC client holds two channels; the plain one stays open.\<close>

lemma grpc_client_leaks_channel:
  assumes "mk_grpc_client env target True cert key ca = Inr c"
  shows "gc_opened c = [Insecure target, gc_channel c]" and "mk_grpc_client env target True cert key ca' = Inr c"
  using assms by (auto simp: mk_grpc_client_def Let_def res_simps split: if_splits)

text \<open>Shutting a client down with \<open>cancel_futures\<close> drops its queued tasks, and the futures their callers hold stay pending for
  ever.\<close>

lemma wait_all_dropped:
  "\<lbrakk>wait_all out k xs = Some ys; i < length xs; sub_task (xs ! i) = Dropped\<rbrakk> \<Longrightarrow> ys ! i = xs ! i"
proof (induction xs arbitrary: k ys i)
  case (Cons x xs)
  then show ?case
    by (cases i) (auto simp: run_submission_def split: option.splits pool_task.splits)
qed simp

lemma cancelled_future_pending:
  assumes "i < length (rc_tasks c)" and "sub_task (rc_tasks c ! i) = Queued" and "sub_future (rc_tasks c ! i) = Pending"
    and "\<not> rc_down c" and "grpc_client_shutdown out w True c = Some c'"
  shows "sub_future (rc_tasks c' ! i) = Pending" and "sub_task (rc_tasks c' ! i) = Dropped"
proof -
  let ?xs = "map cancel_submission (rc_tasks c)"
  have dropped: "sub_task (?xs ! i) = Dropped" "sub_future (?xs ! i) = Pending" "i < length ?xs"
    using assms(1-3) by (auto simp: cancel_submission_def)
  have "rc_tasks c' ! i = ?xs ! i"
    using assms(4,5) wait_all_dropped [OF _ dropped(3,1), of out 0]
    by (auto simp: grpc_client_shutdown_def Let_def simp del: nth_map split: if_splits option.splits)
  then show "sub_future (rc_tasks c' ! i) = Pending" "sub_task (rc_tasks c' ! i) = Dropped"
    using dropped by simp_all
qed

end
