(* ===== verification/Event_Classes.thy ===== *)
theory Event_Classes
  imports Execution Signals
begin

text \<open>
  Event classes: the decorators of \<^verbatim>\<open>src/nexus/decorators.py\<close>, \<open>EventBase.get_event_klasses\<close> of
  \<^verbatim>\<open>src/nexus/base.py\<close> and \<open>PipelineTask.resolve_event_name\<close> of \<^verbatim>\<open>src/nexus/task.py\<close> with its cache.

  Classes are numbered in the order of their creation; class 0 is \<open>EventBase\<close>. \<open>__subclasses__\<close> lists the direct
  subclasses in that order. A lookup is by name; a class in place of a name is returned as it is. The decorator is used on functions that do not have the name of a global of its module. The locale
  \<open>memo_table\<close> says when \<open>lru_cache\<close> may be put in front of a function that reads a changing state, and is interpreted for the lookup
  of event classes.
\<close>

section \<open>Classes\<close>

record event_class =
  ec_name :: string
  ec_module :: string
  ec_bases :: "nat list"
  ec_executor :: pyval
  ec_retry_policy :: pyval
  ec_executor_config :: pyval
  ec_execution_context :: pyval
  ec_previous_result :: pyval
  ec_stop_on_exception :: bool
  ec_process :: "nat \<Rightarrow> pyval list \<Rightarrow> (string, pyval) dict \<Rightarrow> pyval + pyval"

type_synonym hierarchy = "event_class list"

definition subclasses :: "hierarchy \<Rightarrow> nat \<Rightarrow> nat list" where
  "subclasses tab k = filter (\<lambda>s. k \<in> set (ec_bases (tab ! s))) [Suc k..<length tab]"

lemma subclasses_mem: "s \<in> set (subclasses tab k) \<longleftrightarrow> k < s \<and> s < length tab \<and> k \<in> set (ec_bases (tab ! s))"
  by (auto simp: subclasses_def)

text \<open>\<open>get_event_klasses\<close>: the subclasses of a subclass come before it.\<close>

function get_event_klasses :: "hierarchy \<Rightarrow> nat \<Rightarrow> nat list" where
  "get_event_klasses tab k = concat (map (\<lambda>s. get_event_klasses tab s @ [s]) (subclasses tab k))"
  by pat_completeness auto

termination
  by (relation "measure (\<lambda>(tab, k). length tab - k)") (auto simp: subclasses_mem)

declare get_event_klasses.simps [simp del]

definition resolve_class :: "hierarchy \<Rightarrow> string \<Rightarrow> exc_class + nat" where
  "resolve_class tab name =
     (case find (\<lambda>k. str_lower (ec_name (tab ! k)) = str_lower name) (get_event_klasses tab 0) of
        Some k \<Rightarrow> Inr k
      | None \<Rightarrow> Inl EventDoesNotExist)"

section \<open>The decorators\<close>

record func =
  fn_name :: string
  fn_module :: string
  fn_body :: "pyval list \<Rightarrow> (string, pyval) dict \<Rightarrow> pyval + pyval"

text \<open>\<open>event\<close>: the class made of a function. Its method \<open>process\<close> drops the event it is called on.\<close>

definition decorated_class :: "pyval \<Rightarrow> pyval \<Rightarrow> pyval \<Rightarrow> func \<Rightarrow> event_class" where
  "decorated_class executor retry_policy executor_config f =
     \<lparr>ec_name = fn_name f, ec_module = fn_module f, ec_bases = [0], ec_executor = executor, ec_retry_policy = retry_policy,
      ec_executor_config = executor_config, ec_execution_context = PNone, ec_previous_result = PNone, ec_stop_on_exception = False, ec_process = (\<lambda>self. fn_body f)\<rparr>"

text \<open>What the name of the function stands for afterwards: the function, with a warning for each call.\<close>

definition decorated_task :: "func \<Rightarrow> nat \<Rightarrow> pyval list \<Rightarrow> (string, pyval) dict \<Rightarrow> (pyval + pyval) \<times> nat" where
  "decorated_task f warned args kwargs = (fn_body f args kwargs, Suc warned)"

definition event_decorator :: "pyval \<Rightarrow> pyval \<Rightarrow> pyval \<Rightarrow> func \<Rightarrow> hierarchy \<Rightarrow> hierarchy" where
  "event_decorator executor retry_policy executor_config f tab = tab @ [decorated_class executor retry_policy executor_config f]"

text \<open>\<open>listener\<close> connects a function to one signal, or to each signal of a list or tuple; signals are given by their number.\<close>

definition listener_decorator :: "nat list \<Rightarrow> sender option \<Rightarrow> nat \<Rightarrow> signal list \<Rightarrow> signal list" where
  "listener_decorator sgs sender func bus = foldl (\<lambda>b s. b[s := connect sender func (b ! s)]) bus sgs"

section \<open>The cache of lookups\<close>

text \<open>\<open>lru_cache\<close>: the latest use comes first, and the oldest entry is dropped when there are too many. An exception is not
  kept.\<close>

definition lru_call :: "nat \<Rightarrow> ('k \<Rightarrow> 'e + 'v) \<Rightarrow> ('k \<times> 'v) list \<Rightarrow> 'k \<Rightarrow> ('e + 'v) \<times> ('k \<times> 'v) list" where
  "lru_call n f c k =
     (case map_of c k of
        Some v \<Rightarrow> (Inr v, (k, v) # filter (\<lambda>(k', _). k' \<noteq> k) c)
      | None \<Rightarrow> (case f k of Inl e \<Rightarrow> (Inl e, c) | Inr v \<Rightarrow> (Inr v, take n ((k, v) # c))))"

datatype ('d, 'k) memo_op = Change 'd | Ask 'k

fun run_memo :: "nat \<Rightarrow> ('s \<Rightarrow> 'k \<Rightarrow> 'e + 'v) \<Rightarrow> ('d \<Rightarrow> 's \<Rightarrow> 's) \<Rightarrow> ('d, 'k) memo_op list \<Rightarrow> 's \<Rightarrow> ('k \<times> 'v) list \<Rightarrow> ('e + 'v) list" where
  "run_memo n f change [] s c = []"
| "run_memo n f change (Change d # ops) s c = run_memo n f change ops (change d s) c"
| "run_memo n f change (Ask k # ops) s c = (case lru_call n (f s) c k of (r, c') \<Rightarrow> r # run_memo n f change ops s c')"

fun run_plain :: "('s \<Rightarrow> 'k \<Rightarrow> 'e + 'v) \<Rightarrow> ('d \<Rightarrow> 's \<Rightarrow> 's) \<Rightarrow> ('d, 'k) memo_op list \<Rightarrow> 's \<Rightarrow> ('e + 'v) list" where
  "run_plain f change [] s = []"
| "run_plain f change (Change d # ops) s = run_plain f change ops (change d s)"
| "run_plain f change (Ask k # ops) s = f s k # run_plain f change ops s"

locale memo_table =
  fixes f :: "'s \<Rightarrow> 'k \<Rightarrow> 'e + 'v"
    and change :: "'d \<Rightarrow> 's \<Rightarrow> 's"
    and ok :: "'d \<Rightarrow> bool"
    and inv :: "'s \<Rightarrow> bool"
  assumes found_stays: "\<lbrakk>inv s; ok d; f s k = Inr v\<rbrakk> \<Longrightarrow> f (change d s) k = Inr v"
    and inv_change: "\<lbrakk>inv s; ok d\<rbrakk> \<Longrightarrow> inv (change d s)"
begin

definition fresh :: "'s \<Rightarrow> ('k \<times> 'v) list \<Rightarrow> bool" where
  "fresh s c \<longleftrightarrow> (\<forall>(k, v) \<in> set c. f s k = Inr v)"

lemma lru_fresh:
  assumes "fresh s c" and "lru_call n (f s) c k = (r, c')"
  shows "r = f s k" and "fresh s c'"
proof -
  have hit: "map_of c k = Some v \<Longrightarrow> f s k = Inr v" for v
    using assms(1) by (auto simp: fresh_def dest!: map_of_SomeD)
  have kept: "(k', v) \<in> set c \<Longrightarrow> f s k' = Inr v" for k' v
    using assms(1) by (auto simp: fresh_def)
  show "r = f s k" and "fresh s c'"
    using assms(2) hit kept by (auto simp: fresh_def lru_call_def split: option.splits sum.splits dest!: in_set_takeD)
qed

lemma memo_transparent:
  assumes "fresh s c" and "inv s" and "\<forall>d. Change d \<in> set ops \<longrightarrow> ok d"
  shows "run_memo n f change ops s c = run_plain f change ops s"
  using assms
proof (induction ops arbitrary: s c)
  case (Cons op ops)
  show ?case
  proof (cases op)
    case (Change d)
    then have "fresh (change d s) c" "inv (change d s)"
      using Cons.prems by (auto simp: fresh_def intro: found_stays inv_change)
    then show ?thesis using Cons Change by simp
  next
    case (Ask k)
    then show ?thesis
      using Cons lru_fresh [OF Cons.prems(1)] by (auto split: prod.split)
  qed
qed simp

end

section \<open>The classes that are enumerated\<close>

definition hierarchy_ok :: "hierarchy \<Rightarrow> bool" where
  "hierarchy_ok tab \<longleftrightarrow> tab \<noteq> [] \<and> (\<forall>s < length tab. \<forall>b \<in> set (ec_bases (tab ! s)). b < s)"

inductive derived :: "hierarchy \<Rightarrow> nat \<Rightarrow> nat \<Rightarrow> bool" for tab where
  direct: "s < length tab \<Longrightarrow> k \<in> set (ec_bases (tab ! s)) \<Longrightarrow> derived tab k s"
| indirect: "derived tab k m \<Longrightarrow> s < length tab \<Longrightarrow> m \<in> set (ec_bases (tab ! s)) \<Longrightarrow> derived tab k s"

lemma derived_trans: "derived tab m s \<Longrightarrow> derived tab k m \<Longrightarrow> derived tab k s"
  by (induction rule: derived.induct) (auto intro: derived.intros)

lemma subclass_derived: "s \<in> set (subclasses tab k) \<Longrightarrow> derived tab k s"
  by (auto simp: subclasses_mem intro: direct)

lemma derived_step:
  assumes "hierarchy_ok tab" and "derived tab k s"
  shows "\<exists>m \<in> set (subclasses tab k). m = s \<or> derived tab m s"
  using assms(2)
proof (induction rule: derived.induct)
  case (direct s k)
  then show ?case using assms(1) by (auto simp: subclasses_mem hierarchy_ok_def)
next
  case (indirect k m s)
  then show ?case by (blast intro: derived.intros)
qed

lemma klasses_mem:
  "hierarchy_ok tab \<Longrightarrow> s \<in> set (get_event_klasses tab k) \<longleftrightarrow> derived tab k s"
proof (induction tab k rule: get_event_klasses.induct)
  case (1 tab k)
  have "s \<in> set (get_event_klasses tab k) \<longleftrightarrow> (\<exists>m \<in> set (subclasses tab k). s = m \<or> s \<in> set (get_event_klasses tab m))"
    by (subst get_event_klasses.simps) auto
  also have "\<dots> \<longleftrightarrow> (\<exists>m \<in> set (subclasses tab k). s = m \<or> derived tab m s)"
    using 1 by blast
  also have "\<dots> \<longleftrightarrow> derived tab k s"
    using derived_step [OF 1(2)] subclass_derived derived_trans by blast
  finally show ?case .
qed

lemma klasses_bounded: "s \<in> set (get_event_klasses tab k) \<Longrightarrow> k < s \<and> s < length tab"
proof (induction tab k rule: get_event_klasses.induct)
  case (1 tab k)
  then show ?case by (subst (asm) (2) get_event_klasses.simps) (fastforce simp: subclasses_mem)
qed

text \<open>A new class below \<open>EventBase\<close> comes last, and nothing before it moves.\<close>

lemma subclasses_append:
  assumes "hierarchy_ok tab" and "ec_bases c = [0]"
  shows "subclasses (tab @ [c]) k = (if k = 0 then subclasses tab 0 @ [length tab] else subclasses tab k)"
proof -
  have "filter (\<lambda>s. k \<in> set (ec_bases ((tab @ [c]) ! s))) [Suc k..<length tab] = subclasses tab k"
    unfolding subclasses_def by (rule filter_cong) (auto simp: nth_append)
  moreover have "tab \<noteq> []" using assms by (simp add: hierarchy_ok_def)
  ultimately show ?thesis
    using assms(2) by (auto simp: subclasses_def Suc_le_eq)
qed

lemma klasses_append_above:
  assumes "hierarchy_ok tab" and "ec_bases c = [0]"
  shows "0 < k \<Longrightarrow> get_event_klasses (tab @ [c]) k = get_event_klasses tab k"
proof (induction "length tab - k" arbitrary: k rule: less_induct)
  case less
  have "map (\<lambda>s. get_event_klasses (tab @ [c]) s @ [s]) (subclasses tab k) = map (\<lambda>s. get_event_klasses tab s @ [s]) (subclasses tab k)"
    using less by (auto simp: subclasses_mem)
  then show ?case
    using less.prems assms by (simp add: get_event_klasses.simps [of _ k] subclasses_append cong: map_cong)
qed

lemma klasses_append:
  assumes "hierarchy_ok tab" and "ec_bases c = [0]"
  shows "get_event_klasses (tab @ [c]) 0 = get_event_klasses tab 0 @ [length tab]"
proof -
  have "map (\<lambda>s. get_event_klasses (tab @ [c]) s @ [s]) (subclasses tab 0) = map (\<lambda>s. get_event_klasses tab s @ [s]) (subclasses tab 0)"
    using assms by (auto simp: subclasses_mem klasses_append_above)
  moreover have "get_event_klasses (tab @ [c]) (length tab) = []"
    using klasses_bounded [of _ "tab @ [c]" "length tab"] by (cases "get_event_klasses (tab @ [c]) (length tab)") fastforce+
  ultimately show ?thesis
    using assms by (simp add: get_event_klasses.simps [of _ 0] subclasses_append cong: map_cong)
qed

lemma hierarchy_append: "\<lbrakk>hierarchy_ok tab; ec_bases c = [0]\<rbrakk> \<Longrightarrow> hierarchy_ok (tab @ [c])"
  by (auto simp: hierarchy_ok_def nth_append less_Suc_eq)

lemma find_append: "find P (xs @ ys) = (case find P xs of None \<Rightarrow> find P ys | Some x \<Rightarrow> Some x)"
  by (induction xs) auto

lemma resolve_append:
  assumes "hierarchy_ok tab" and "ec_bases c = [0]"
  shows "resolve_class (tab @ [c]) name =
    (case resolve_class tab name of
       Inr k \<Rightarrow> Inr k
     | Inl e \<Rightarrow> if str_lower (ec_name c) = str_lower name then Inr (length tab) else Inl EventDoesNotExist)"
proof -
  have "find (\<lambda>k. str_lower (ec_name ((tab @ [c]) ! k)) = str_lower name) (get_event_klasses tab 0) =
      find (\<lambda>k. str_lower (ec_name (tab ! k)) = str_lower name) (get_event_klasses tab 0)"
    by (rule find_cong) (auto simp: nth_append dest: klasses_bounded)
  then show ?thesis
    using assms by (simp add: resolve_class_def klasses_append find_append split: option.split)
qed

text \<open>The registry of an execution environment that lists these classes resolves names in the same way.\<close>

lemma resolve_registry:
  assumes "registry env = map (\<lambda>k. (ec_name (tab ! k), info k)) (get_event_klasses tab 0)"
  shows "resolve_event_name env name =
    (case resolve_class tab name of Inr k \<Rightarrow> Inr (info k) | Inl e \<Rightarrow> Inl (PExc EventDoesNotExist []))"
proof -
  have "find (\<lambda>(k, i). str_lower k = str_lower name) (map (\<lambda>k. (ec_name (tab ! k), info k)) ks) =
      map_option (\<lambda>k. (ec_name (tab ! k), info k)) (find (\<lambda>k. str_lower (ec_name (tab ! k)) = str_lower name) ks)" for ks
    by (induction ks) auto
  then show ?thesis
    unfolding resolve_event_name_def resolve_class_def assms by (simp split: option.split)
qed

interpretation class_memo: memo_table resolve_class "\<lambda>c tab. tab @ [c]" "\<lambda>c. ec_bases c = [0]" hierarchy_ok
  by unfold_locales (simp_all add: resolve_append hierarchy_append)

text \<open>A class below another event class may come before what the cache holds: then the cache is stale.\<close>

definition plain_class :: "string \<Rightarrow> nat list \<Rightarrow> event_class" where
  "plain_class n bs = \<lparr>ec_name = n, ec_module = ''m'', ec_bases = bs, ec_executor = PNone, ec_retry_policy = PNone, ec_executor_config = PNone,
     ec_execution_context = PNone, ec_previous_result = PNone, ec_stop_on_exception = False, ec_process = (\<lambda>_ _ _. Inr PNone)\<rparr>"

lemma stale_lookup:
  "run_memo 128 resolve_class (\<lambda>c tab. tab @ [c]) [Ask ''B'', Change (plain_class ''b'' [1]), Ask ''B'']
     [plain_class ''EventBase'' [], plain_class ''A'' [0], plain_class ''B'' [0]] [] = [Inr 2, Inr 2]"
  "run_plain resolve_class (\<lambda>c tab. tab @ [c]) [Ask ''B'', Change (plain_class ''b'' [1]), Ask ''B'']
     [plain_class ''EventBase'' [], plain_class ''A'' [0], plain_class ''B'' [0]] = [Inr 2, Inr (3 :: nat)]"
  by (simp_all add: lru_call_def resolve_class_def subclasses_def plain_class_def str_lower_def char_lower_def upt_rec
      get_event_klasses.simps [of _ 0] get_event_klasses.simps [of _ "Suc 0"] get_event_klasses.simps [of _ "Suc (Suc 0)"]
      get_event_klasses.simps [of _ "Suc (Suc (Suc 0))"] char_of_def bit_0)



definition demo_func :: func where
  "demo_func = \<lparr>fn_name = ''Fetch'', fn_module = ''jobs'', fn_body = (\<lambda>as kw. Inr (PList as))\<rparr>"


end
