(* ===== verification/Pickling.thy ===== *)
theory Pickling
  imports Execution_Props Input_Fields
begin

text \<open>
  What becomes of contexts and pipelines that are sent to another process: \<open>__getstate__\<close> and
  \<open>__setstate__\<close> of \<open>EventExecutionContext\<close> in \<^verbatim>\<open>src/nexus/task.py\<close> and of \<open>Pipeline\<close> in \<^verbatim>\<open>src/nexus/pipeline.py\<close>,
  \<open>CacheFieldDescriptor\<close> there, and \<open>generate_unique_id\<close> of \<^verbatim>\<open>src/nexus/utils.py\<close>.

  Pickling a context pickles every context of the run, over its pipeline and the next contexts. The restored contexts have the
  same numbers as the old ones; context \<open>i\<close> of \<open>n\<close> has its own new previous context, if it has any, at number \<open>n + i\<close>.
  Time stamps are not part of the model of a context.
\<close>

section \<open>Identities\<close>

definition generate_unique_id :: "string \<Rightarrow> string \<Rightarrow> string \<Rightarrow> (string, pyval) dict \<Rightarrow> pyval \<times> (string, pyval) dict" where
  "generate_unique_id class_name now uuid d =
     (case dict_get d ''_id'' of
        None \<Rightarrow> (let pk = PStr (class_name @ ''-'' @ now @ ''-'' @ uuid) in (pk, dict_set ''_id'' pk d))
      | Some PNone \<Rightarrow> (let pk = PStr (class_name @ ''-'' @ now @ ''-'' @ uuid) in (pk, dict_set ''_id'' pk d))
      | Some v \<Rightarrow> (v, d))"

lemma generate_unique_id_stable:
  "generate_unique_id c t u d = (pk, d') \<Longrightarrow> pk \<noteq> PNone \<and> generate_unique_id c' t' u' d' = (pk, d')"
  by (auto simp: generate_unique_id_def Let_def dict_simps split: option.splits pyval.splits)

section \<open>Contexts\<close>

record prev_state =
  pv_id :: nat
  pv_result :: "event_result list"
  pv_state :: execution_state
  pv_errors :: "pyval list"

record ctx_pickle =
  cp_own :: exec_ctx
  cp_previous :: "prev_state option"

text \<open>\<open>__getstate__\<close>: the summary of the previous context has the errors of the context itself.\<close>

definition ctx_getstate :: "exec_ctx list \<Rightarrow> nat \<Rightarrow> ctx_pickle" where
  "ctx_getstate cs i =
     \<lparr>cp_own = cs ! i,
      cp_previous = (case previous_context (cs ! i) of
         None \<Rightarrow> None
       | Some p \<Rightarrow> Some \<lparr>pv_id = p, pv_result = execution_result (cs ! p), pv_state = ctx_state (cs ! p), pv_errors = errors (cs ! i)\<rparr>)\<rparr>"

text \<open>\<open>__setstate__\<close>: a new context for the previous one, made with the tasks of this one; \<open>j\<close> is its number.\<close>

definition ctx_setstate :: "nat \<Rightarrow> ctx_pickle \<Rightarrow> exec_ctx \<times> (nat \<times> exec_ctx) option" where
  "ctx_setstate j st =
     (case cp_previous st of
        None \<Rightarrow> ((cp_own st)\<lparr>previous_context := None\<rparr>, None)
      | Some pv \<Rightarrow>
          ((cp_own st)\<lparr>previous_context := Some j\<rparr>,
           Some (pv_id pv, (new_context (task_profiles (cp_own st)))
             \<lparr>execution_result := pv_result pv, ctx_state := pv_state pv, errors := pv_errors pv\<rparr>)))"

text \<open>All contexts of a run after they were pickled and restored. Places of previous contexts that do not exist hold a new context that nothing
  refers to.\<close>

definition unpickled :: "exec_ctx list \<Rightarrow> exec_ctx list" where
  "unpickled cs =
     (let n = length cs; rs = map (\<lambda>i. ctx_setstate (n + i) (ctx_getstate cs i)) [0..<n]
      in map fst rs @ map (\<lambda>r. case snd r of None \<Rightarrow> new_context [] | Some (pk, c) \<Rightarrow> c) rs)"

text \<open>The identity of a restored object: the number of the context it was made from.\<close>

definition unpickled_id :: "exec_ctx list \<Rightarrow> nat \<Rightarrow> nat" where
  "unpickled_id cs j =
     (if j < length cs then j
      else (case snd (ctx_setstate j (ctx_getstate cs (j - length cs))) of None \<Rightarrow> j | Some (pk, c) \<Rightarrow> pk))"

lemma new_context_fields [simp]: "task_profiles (new_context ts) = ts" "previous_context (new_context ts) = None" "next_context (new_context ts) = None"
  by (simp_all add: new_context_def)

lemma length_unpickled [simp]: "length (unpickled cs) = 2 * length cs"
  by (simp add: unpickled_def Let_def)

lemma unpickled_own:
  "i < length cs \<Longrightarrow> unpickled cs ! i =
     (cs ! i)\<lparr>previous_context := map_option (\<lambda>_. length cs + i) (previous_context (cs ! i))\<rparr>"
  by (auto simp: unpickled_def Let_def nth_append ctx_setstate_def ctx_getstate_def split: option.split)

lemma unpickled_previous:
  assumes "i < length cs" and "previous_context (cs ! i) = Some p"
  shows "unpickled cs ! (length cs + i) = (new_context (task_profiles (cs ! i)))
    \<lparr>execution_result := execution_result (cs ! p), ctx_state := ctx_state (cs ! p), errors := errors (cs ! i)\<rparr>"
    and "unpickled_id cs (length cs + i) = p"
  using assms by (auto simp: unpickled_def unpickled_id_def Let_def nth_append ctx_setstate_def ctx_getstate_def)

lemma unpickled_iter:
  assumes "links_ok cs"
  shows "\<lbrakk>c < length cs; length cs - c < k; length cs - c < k'\<rbrakk> \<Longrightarrow> iter_fuel k (unpickled cs) c = iter_fuel k' cs c"
proof (induction k arbitrary: c k')
  case (Suc k)
  then obtain m where k': "k' = Suc m" by (cases k') auto
  show ?case
  proof (cases "next_context (cs ! c)")
    case None
    then show ?thesis using Suc.prems k' by (simp add: unpickled_own)
  next
    case (Some n)
    then have "c < n" "n < length cs" using links_next [OF assms Suc.prems(1)] by auto
    then have "iter_fuel k (unpickled cs) n = iter_fuel m cs n" using Suc k' by auto
    then show ?thesis using Suc.prems Some k' by (simp add: unpickled_own)
  qed
qed simp

lemma unpickled_first:
  assumes "c < length cs" and "previous_context (cs ! c) = None"
  shows "get_execution_context_head (unpickled cs) c = Some c" and "get_execution_context_head cs c = Some c"
  using assms by (simp_all add: get_execution_context_head_def unpickled_own)

lemma unpickled_stops:
  assumes "c < length cs" and "previous_context (cs ! c) = Some p"
  shows "get_execution_context_head (unpickled cs) c = Some (length cs + c)"
    and "get_latest_execution_context (unpickled cs) c = Some (length cs + c)"
proof -
  obtain m where m: "2 * length cs = Suc m" using assms(1) by (cases "2 * length cs") auto
  then show head: "get_execution_context_head (unpickled cs) c = Some (length cs + c)"
    using assms by (simp add: get_execution_context_head_def unpickled_own unpickled_previous)
  show "get_latest_execution_context (unpickled cs) c = Some (length cs + c)"
    using assms by (simp add: get_latest_execution_context_def head iterate_contexts_def unpickled_previous)
qed



section \<open>Pipelines\<close>

text \<open>The descriptor of \<open>pipeline_cache\<close>: setting an attribute that is there already does nothing, whatever the value.\<close>

definition descriptor_set :: "string \<Rightarrow> (string, (string, pyval) dict) dict \<Rightarrow> cache_state \<Rightarrow> cache_state" where
  "descriptor_set attr v st = (case dict_get st attr of None \<Rightarrow> dict_set attr [] st | Some _ \<Rightarrow> st)"

definition descriptor_get :: "string \<Rightarrow> cache_state \<Rightarrow> (string, (string, pyval) dict) dict \<times> cache_state" where
  "descriptor_get attr st =
     (case dict_get st attr of
        None \<Rightarrow> (let st' = descriptor_set attr [] st in (the (dict_get st' attr), st'))
      | Some d \<Rightarrow> (d, st))"

text \<open>\<open>__getstate__\<close> of a pipeline: its attributes, and the copy of the cache of its class that is to hold the entries of this instance
  only.\<close>

definition pipeline_getstate :: "string \<Rightarrow> (string, pyval) dict \<Rightarrow> cache_state \<Rightarrow> (string, pyval) dict \<times> cache_state" where
  "pipeline_getstate key attrs st =
     (let (cache, st1) = descriptor_get ''pipeline_cache'' st;
          own = (case dict_get cache key of None \<Rightarrow> [] | Some d \<Rightarrow> d)
      in (attrs, descriptor_set ''pipeline_cache'' [(key, own)] st1))"

text \<open>\<open>__setstate__\<close> updates the attributes; the state becomes one of the instance.\<close>

definition pipeline_setstate :: "(string, pyval) dict \<times> cache_state \<Rightarrow> (string, pyval) dict \<Rightarrow> (string, pyval) dict \<times> cache_state" where
  "pipeline_setstate state attrs = (dict_update attrs (fst state), snd state)"

text \<open>The restored pipeline reads the values it had, and so it does those of every other instance of its class: the cache is sent
  whole.\<close>

lemma pipeline_state_whole:
  assumes "dict_has st ''pipeline_cache''"
  shows "pipeline_getstate key attrs st = (attrs, st)"
  using assms by (auto simp: pipeline_getstate_def descriptor_get_def descriptor_set_def dict_simps)

lemma pipeline_round_trip:
  assumes "dict_ok attrs"
  shows "chain_lookup k (snd (pipeline_setstate (pipeline_getstate key attrs st) [])) f = chain_lookup k st f"
    and "dict_get (fst (pipeline_setstate (pipeline_getstate key attrs st) [])) a = dict_get attrs a"
proof -
  have "snd (pipeline_getstate key attrs st) = (if dict_has st ''pipeline_cache'' then st else st @ [(''pipeline_cache'', [])])"
    by (auto simp: pipeline_getstate_def descriptor_get_def descriptor_set_def dict_simps dict_set_new Let_def split: option.splits)
  then show "chain_lookup k (snd (pipeline_setstate (pipeline_getstate key attrs st) [])) f = chain_lookup k st f"
    by (simp add: pipeline_setstate_def chain_lookup_def)
  show "dict_get (fst (pipeline_setstate (pipeline_getstate key attrs st) [])) a = dict_get attrs a"
    using assms by (simp add: pipeline_setstate_def pipeline_getstate_def case_prod_beta Let_def dict_update_fresh)
qed

end
