(* ===== verification/Hadoop_Scripts.thy ===== *)
theory Hadoop_Scripts
  imports Hadoop "HOL-Library.Multiset"
begin

text \<open>
  The scripts that run on the cluster, \<^verbatim>\<open>src/nexus/scripts/hadoop_executor/mapper.py\<close> and \<^verbatim>\<open>reducer.py\<close>.

  Bytes are numbers below 256 and characters are code points. Standard output has the text layer that \<open>print\<close> writes to
  over the binary one; the text, being shorter than a block, stays in the text layer until the script ends. Standard input decodes UTF-8
  strictly, as Python does in a UTF-8 locale, and the model decodes all of it before the first line is read. The job file, the
  function in it and \<open>pickle\<close> are parameters.
\<close>

type_synonym bytes = "nat list"

section \<open>UTF-8\<close>

definition cont :: "nat \<Rightarrow> bool" where
  "cont b \<longleftrightarrow> 128 \<le> b \<and> b \<le> 191"

fun utf8_decode :: "bytes \<Rightarrow> nat list option" where
  "utf8_decode [] = Some []"
| "utf8_decode (b # bs) =
     (if b < 128 then map_option ((#) b) (utf8_decode bs)
      else if 194 \<le> b \<and> b \<le> 223 then
        (case bs of
           c1 # r \<Rightarrow> if cont c1 then map_option ((#) ((b - 192) * 64 + (c1 - 128))) (utf8_decode r) else None
         | _ \<Rightarrow> None)
      else if 224 \<le> b \<and> b \<le> 239 then
        (case bs of
           c1 # c2 # r \<Rightarrow>
             if cont c1 \<and> cont c2 \<and> (b = 224 \<longrightarrow> 160 \<le> c1) \<and> (b = 237 \<longrightarrow> c1 \<le> 159)
             then map_option ((#) (((b - 224) * 64 + (c1 - 128)) * 64 + (c2 - 128))) (utf8_decode r) else None
         | _ \<Rightarrow> None)
      else if 240 \<le> b \<and> b \<le> 244 then
        (case bs of
           c1 # c2 # c3 # r \<Rightarrow>
             if cont c1 \<and> cont c2 \<and> cont c3 \<and> (b = 240 \<longrightarrow> 144 \<le> c1) \<and> (b = 244 \<longrightarrow> c1 \<le> 143)
             then map_option ((#) ((((b - 240) * 64 + (c1 - 128)) * 64 + (c2 - 128)) * 64 + (c3 - 128))) (utf8_decode r) else None
         | _ \<Rightarrow> None)
      else None)"

definition utf8_char :: "nat \<Rightarrow> bytes" where
  "utf8_char c =
     (if c < 128 then [c]
      else if c < 2048 then [192 + c div 64, 128 + c mod 64]
      else if c < 65536 then [224 + c div 4096, 128 + c div 64 mod 64, 128 + c mod 64]
      else [240 + c div 262144, 128 + c div 4096 mod 64, 128 + c div 64 mod 64, 128 + c mod 64])"

definition utf8_encode :: "nat list \<Rightarrow> bytes" where
  "utf8_encode s = concat (map utf8_char s)"

definition ascii :: "string \<Rightarrow> nat list" where
  "ascii s = map of_char s"

section \<open>The mapper\<close>

record stdout =
  text_layer :: bytes
  binary_layer :: bytes

definition print_text :: "string \<Rightarrow> stdout \<Rightarrow> stdout" where
  "print_text s o' = o'\<lparr>text_layer := text_layer o' @ ascii s\<rparr>"

definition write_bytes :: "bytes \<Rightarrow> stdout \<Rightarrow> stdout" where
  "write_bytes b o' = o'\<lparr>binary_layer := binary_layer o' @ b\<rparr>"

text \<open>What has been written when the script ends.\<close>

definition flushed :: "stdout \<Rightarrow> bytes" where
  "flushed o' = binary_layer o' @ text_layer o'"

record script_env =
  load_job :: "string \<Rightarrow> pyval + pyval"
  call_job :: "pyval \<Rightarrow> pyval + pyval"
  error_dict :: "pyval \<Rightarrow> pyval"
  dumps :: "pyval \<Rightarrow> pyval + bytes"
  loads :: "bytes \<Rightarrow> pyval + pyval"

text \<open>The handler of exceptions. When the error cannot be pickled the script ends with that exception; what was printed is still
  written.\<close>

definition map_error :: "script_env \<Rightarrow> pyval \<Rightarrow> stdout \<Rightarrow> pyval option \<times> stdout" where
  "map_error env e o' =
     (let o1 = print_text (''error'' @ [CHR 0x09]) o'
      in case dumps env (error_dict env e) of
           Inl x \<Rightarrow> (Some x, o1)
         | Inr b \<Rightarrow> (None, write_bytes b o1))"

definition map_execute :: "script_env \<Rightarrow> string list \<Rightarrow> pyval option \<times> stdout" where
  "map_execute env argv =
     (let o0 = \<lparr>text_layer = [], binary_layer = []\<rparr>
      in if length argv < 2 then map_error env (PExc IndexError []) o0
         else case load_job env (argv ! 1) of
           Inl e \<Rightarrow> map_error env e o0
         | Inr job \<Rightarrow>
             (case call_job env job of
                Inl e \<Rightarrow> map_error env e o0
              | Inr v \<Rightarrow>
                  (let o1 = print_text (''result'' @ [CHR 0x09]) o0
                   in case dumps env v of
                        Inl e \<Rightarrow> map_error env e o1
                      | Inr b \<Rightarrow> (None, write_bytes b o1))))"

section \<open>The reducer\<close>

text \<open>Lines of a text stream: \<open>\n\<close>, \<open>\r\<close> and \<open>\r\n\<close> end a line, and become \<open>\n\<close>.\<close>

fun universal_newlines :: "nat list \<Rightarrow> nat list" where
  "universal_newlines [] = []"
| "universal_newlines (c # cs) =
     (if c = 13 \<and> cs \<noteq> [] \<and> hd cs = 10 then 10 # universal_newlines (tl cs)
      else (if c = 13 then 10 else c) # universal_newlines cs)"

fun lines_of :: "nat list \<Rightarrow> nat list list" where
  "lines_of [] = []"
| "lines_of (c # cs) =
     (if c = 10 then [c] # lines_of cs
      else (case lines_of cs of [] \<Rightarrow> [[c]] | l # ls \<Rightarrow> (c # l) # ls))"

definition is_space :: "nat \<Rightarrow> bool" where
  "is_space c \<longleftrightarrow> c \<in> set ([9..<14] @ [28..<33] @ [133, 160, 5760] @ [8192..<8203] @ [8232, 8233, 8239, 8287, 12288])"

definition strip_text :: "nat list \<Rightarrow> nat list" where
  "strip_text s = rev (dropWhile is_space (rev (dropWhile is_space s)))"

text \<open>\<open>key, value = line.strip().split("\t", 1)\<close>, which raises when there is no tab.\<close>

definition key_value :: "nat list \<Rightarrow> exc_class + (nat list \<times> nat list)" where
  "key_value line =
     (let s = strip_text line
      in if 9 \<in> set s then Inr (takeWhile (\<lambda>c. c \<noteq> 9) s, tl (dropWhile (\<lambda>c. c \<noteq> 9) s)) else Inl ValueError)"

definition reduce_line :: "script_env \<Rightarrow> nat list \<Rightarrow> pyval list \<times> pyval list \<Rightarrow> pyval + (pyval list \<times> pyval list)" where
  "reduce_line env line acc =
     (case key_value line of
        Inl e \<Rightarrow> Inl (PExc e [])
      | Inr (k, v) \<Rightarrow>
          bind_res (loads env (utf8_encode v)) (\<lambda>x.
            Inr (if k = ascii ''result'' then (fst acc @ [x], snd acc)
                 else if k = ascii ''error'' then (fst acc, snd acc @ [x])
                 else acc)))"

fun reduce_lines :: "script_env \<Rightarrow> nat list list \<Rightarrow> pyval list \<times> pyval list \<Rightarrow> pyval + (pyval list \<times> pyval list)" where
  "reduce_lines env [] acc = Inr acc"
| "reduce_lines env (l # ls) acc = bind_res (reduce_line env l acc) (reduce_lines env ls)"

definition reduce_collect :: "script_env \<Rightarrow> bytes \<Rightarrow> pyval + bytes" where
  "reduce_collect env stdin =
     (case utf8_decode stdin of
        None \<Rightarrow> Inl (PExc (UserExc ''UnicodeDecodeError'' ValueError) [])
      | Some cs \<Rightarrow>
          bind_res (reduce_lines env (lines_of (universal_newlines cs)) ([], [])) (\<lambda>(results, errors).
            dumps env (case errors of [] \<Rightarrow> PList results | e # _ \<Rightarrow> e)))"

section \<open>What the reducer gets\<close>

text \<open>Pickles of protocol 2 and later, which is what \<open>dumps\<close> makes, start with the byte 128.\<close>

definition binary_pickles :: "script_env \<Rightarrow> bool" where
  "binary_pickles env \<longleftrightarrow> (\<forall>v b. dumps env v = Inr b \<longrightarrow> (\<exists>r. b = 128 # r)) \<and> (\<forall>e. \<exists>b. dumps env (error_dict env e) = Inr b)"

text \<open>The framework cuts the outputs of the mappers at newlines, sorts the lines and sends them on.\<close>

fun byte_lines :: "bytes \<Rightarrow> bytes list" where
  "byte_lines [] = [[]]"
| "byte_lines (c # cs) = (if c = 10 then [] # byte_lines cs else (case byte_lines cs of [] \<Rightarrow> [[c]] | l # ls \<Rightarrow> (c # l) # ls))"

definition join_lines :: "bytes list \<Rightarrow> bytes" where
  "join_lines ls = concat (map (\<lambda>l. l @ [10]) ls)"

lemma mapper_binary_first:
  assumes "binary_pickles env" and "map_execute env argv = (r, o')"
  shows "r = None" and "\<exists>p. binary_layer o' = 128 # p \<and> text_layer o' \<noteq> [] \<and> flushed o' = 128 # p @ text_layer o'"
proof -
  have err: "fst (map_error env e o1) = None \<and> (\<exists>p. binary_layer (snd (map_error env e o1)) = 128 # p) \<and> text_layer (snd (map_error env e o1)) \<noteq> []"
    if "binary_layer o1 = []" for e o1
    using assms(1) that
    by (auto simp: map_error_def binary_pickles_def print_text_def write_bytes_def ascii_def Let_def split: sum.split)
      (metis sum.distinct(1))
  have "fst (map_execute env argv) = None \<and> (\<exists>p. binary_layer (snd (map_execute env argv)) = 128 # p) \<and> text_layer (snd (map_execute env argv)) \<noteq> []"
    using assms(1) err
    by (auto simp: map_execute_def binary_pickles_def print_text_def write_bytes_def ascii_def Let_def split: sum.split)
  then show "r = None" and "\<exists>p. binary_layer o' = 128 # p \<and> text_layer o' \<noteq> [] \<and> flushed o' = 128 # p @ text_layer o'"
    using assms(2) by (auto simp: flushed_def)
qed

lemma byte_lines_first: "b \<noteq> 10 \<Longrightarrow> \<exists>l \<in> set (byte_lines (b # bs)). \<exists>r. l = b # r"
  by (cases "byte_lines bs") auto

text \<open>A list that ends with a newline does not end inside a character.\<close>

definition at_line :: "bytes \<Rightarrow> bool" where
  "at_line xs \<longleftrightarrow> xs = [] \<or> last xs = 10"

definition seq_tail :: "nat \<Rightarrow> nat" where
  "seq_tail b = (if b < 128 then 0 else if b \<le> 223 then 1 else if b \<le> 239 then 2 else 3)"

lemma utf8_first:
  assumes "utf8_decode (b # bs) \<noteq> None"
  shows "b \<noteq> 128" and "\<forall>k \<in> set (take (seq_tail b) bs). k \<noteq> 10" and "utf8_decode (drop (seq_tail b) bs) \<noteq> None"
    and "seq_tail b \<le> length bs"
  using assms by (auto simp: seq_tail_def cont_def split: if_splits list.splits)

lemma utf8_stray: "at_line xs \<Longrightarrow> utf8_decode (xs @ 128 # ys) = None"
proof (induction xs rule: length_induct)
  case (1 xs)
  show ?case
  proof (cases xs)
    case (Cons b bs)
    show ?thesis
    proof (rule ccontr)
      assume "utf8_decode (xs @ 128 # ys) \<noteq> None"
      note first = utf8_first [of b "bs @ 128 # ys", folded append_Cons, folded Cons, OF this]
      show False
      proof (cases "seq_tail b \<le> length bs")
        case True
        then have "at_line (drop (seq_tail b) bs)"
          using 1(2) Cons by (cases "seq_tail b < length bs") (auto simp: at_line_def split: if_splits)
        with 1 first(3) True Cons show False by simp
      next
        case False
        then have "\<forall>k \<in> set bs. k \<noteq> 10" "b \<noteq> 10"
          using first(2) by (auto simp: seq_tail_def split: if_splits)
        then show False
          using 1 Cons last_in_set [of bs] by (auto simp: at_line_def split: if_splits)
      qed
    qed
  qed simp
qed

lemma join_lines_split:
  assumes "l \<in> set ls"
  shows "\<exists>xs ys. join_lines ls = xs @ l @ ys \<and> at_line xs"
proof -
  obtain as bs where "ls = as @ l # bs" using split_list [OF assms] by blast
  then have "join_lines ls = join_lines as @ l @ (10 # join_lines bs)"
    by (simp add: join_lines_def)
  moreover have "at_line (join_lines as)"
    by (cases as rule: rev_cases) (auto simp: join_lines_def at_line_def)
  ultimately show ?thesis by blast
qed

text \<open>C40. Running a function on the cluster never gives a result. Let the pickles be those of protocol 2 or later. (1) For every job and every way it goes, the mapper
  writes the pickle before the word that should precede it. (2) Whatever mappers ran, and in whatever order the lines of their outputs
  reach the reducer, as soon as there is one of them the reducer raises, because the first byte of a pickle cannot start a
  character.\<close>

theorem hadoop_scripts_fail:
  assumes "binary_pickles env"
  shows "(\<exists>p. snd (map_execute env argv) = \<lparr>text_layer = text_layer (snd (map_execute env argv)), binary_layer = 128 # p\<rparr> \<and>
      flushed (snd (map_execute env argv)) = 128 # p @ text_layer (snd (map_execute env argv)) \<and>
      text_layer (snd (map_execute env argv)) \<noteq> []) \<and>
    (\<forall>jobs ls. jobs \<noteq> [] \<and> mset ls = mset (concat (map (\<lambda>argv. byte_lines (flushed (snd (map_execute env argv)))) jobs)) \<longrightarrow>
      (\<exists>e. reduce_collect env (join_lines ls) = Inl e))"
proof (intro conjI allI impI)
  have out: "\<exists>p. binary_layer (snd (map_execute env a)) = 128 # p \<and> text_layer (snd (map_execute env a)) \<noteq> [] \<and>
      flushed (snd (map_execute env a)) = 128 # p @ text_layer (snd (map_execute env a))" for a
    using mapper_binary_first(2) [OF assms, of a] by (cases "map_execute env a") auto
  then show "\<exists>p. snd (map_execute env argv) = \<lparr>text_layer = text_layer (snd (map_execute env argv)), binary_layer = 128 # p\<rparr> \<and>
      flushed (snd (map_execute env argv)) = 128 # p @ text_layer (snd (map_execute env argv)) \<and>
      text_layer (snd (map_execute env argv)) \<noteq> []"
    by (metis stdout.surjective old.unit.exhaust)
  fix jobs :: "string list list" and ls
  assume jobs: "jobs \<noteq> [] \<and> mset ls = mset (concat (map (\<lambda>argv. byte_lines (flushed (snd (map_execute env argv)))) jobs))"
  then obtain a rest where "jobs = a # rest" by (cases jobs) auto
  moreover obtain p where "flushed (snd (map_execute env a)) = 128 # p" using out [of a] by auto
  moreover have "set ls = set (concat (map (\<lambda>argv. byte_lines (flushed (snd (map_execute env argv)))) jobs))"
    using jobs mset_eq_setD by blast
  ultimately obtain r where "128 # r \<in> set ls"
    using byte_lines_first [of 128 p] by auto
  then obtain xs ys where "join_lines ls = xs @ (128 # r) @ ys" "at_line xs"
    using join_lines_split by blast
  then show "\<exists>e. reduce_collect env (join_lines ls) = Inl e"
    using utf8_stray [of xs "r @ ys"] by (simp add: reduce_collect_def)
qed

definition toy_scripts :: script_env where
  "toy_scripts =
     \<lparr>load_job = (\<lambda>p. Inr (PStr p)), call_job = (\<lambda>j. Inr j), error_dict = (\<lambda>e. PDict [(''error'', e)]),
      dumps = (\<lambda>v. Inr [128, 4, 75, 42, 46]), loads = (\<lambda>b. Inr PNone)\<rparr>"

theorem hadoop_scripts_fail_witness:
  "binary_pickles toy_scripts \<and> (\<exists>e. reduce_collect toy_scripts
     (join_lines (byte_lines (flushed (snd (map_execute toy_scripts [''mapper.py'', ''job.pkl'']))))) = Inl e)"
proof -
  have ok: "binary_pickles toy_scripts"
    by (auto simp: binary_pickles_def toy_scripts_def)
  let ?ls = "byte_lines (flushed (snd (map_execute toy_scripts [''mapper.py'', ''job.pkl''])))"
  have "\<exists>e. reduce_collect toy_scripts (join_lines ?ls) = Inl e"
    using hadoop_scripts_fail [OF ok, THEN conjunct2, rule_format, of "[[''mapper.py'', ''job.pkl'']]" ?ls] by simp
  with ok show ?thesis by blast
qed

text \<open>Besides, the command the executor sets for the mapper passes no argument, so the mapper never gets as far as reading a job.\<close>

lemma mapper_without_argument: "map_execute env [''/hadoop_executor/mapper.py''] = map_error env (PExc IndexError []) \<lparr>text_layer = [], binary_layer = []\<rparr>"
  by (simp add: map_execute_def)

text \<open>Reading back what was encoded gives the text, for every code point that is not a surrogate.\<close>

lemma utf8_char_decode:
  assumes "c < 1114112" and "c < 55296 \<or> 57343 < c"
  shows "utf8_decode (utf8_char c @ bs) = map_option ((#) c) (utf8_decode bs)"
proof -
  define x y z w where digits: "x = c mod 64" "y = c div 64 mod 64" "z = c div 4096 mod 64" "w = c div 262144"
  have q: "c div 4096 = c div 64 div 64" "c div 262144 = c div 4096 div 64"
    by (simp_all add: div_mult2_eq [symmetric])
  have parts: "c = c div 64 * 64 + x" "c div 64 = c div 4096 * 64 + y" "c div 4096 = w * 64 + z"
    unfolding digits q by simp_all
  have small: "x \<le> 63" "y \<le> 63" "z \<le> 63" unfolding digits by simp_all
  consider "c < 128" | "128 \<le> c" "c < 2048" | "2048 \<le> c" "c < 65536" | "65536 \<le> c" by linarith
  then show ?thesis
  proof cases
    case 2
    then have "2 \<le> c div 64" "c div 64 \<le> 31" using parts small by linarith+
    with 2 parts(1) small show ?thesis by (simp add: utf8_char_def cont_def digits [symmetric])
  next
    case 3
    then have "c div 4096 \<le> 15" "c div 4096 = 0 \<Longrightarrow> 32 \<le> y" "c div 4096 = 13 \<Longrightarrow> y \<le> 31"
      using parts small assms(2) by linarith+
    with 3 parts(1,2) small show ?thesis by (simp add: utf8_char_def cont_def digits [symmetric])
  next
    case 4
    then have "w \<le> 4" "w = 0 \<Longrightarrow> 16 \<le> z" "w = 4 \<Longrightarrow> z \<le> 15"
      using parts small assms(1) by linarith+
    moreover have "((w * 64 + z) * 64 + y) * 64 + x = c" by (simp only: parts [symmetric])
    ultimately show ?thesis using 4 small by (simp add: utf8_char_def cont_def digits [symmetric])
  qed (simp add: utf8_char_def)
qed

end
