(* ===== verification/Certificates.thy ===== *)
theory Certificates
  imports Hadoop Pointy_Lexer
begin

text \<open>
  The script that makes certificates, \<^verbatim>\<open>src/nexus/scripts/ssl_certificate_generator.py\<close>: its options, the paths it computes and
  the OpenSSL commands it runs.

  The command line is given as the options and values that \<open>argparse\<close> has separated, for the program and for its command; an exit
  of \<open>argparse\<close> is \<open>Inl\<close>. Making a directory, reading a configuration file and running a command are parameters that give the exception
  they raise, if any. \<open>read_subject\<close> reads the format that OpenSSL documents for the option \<open>-subj\<close> when no character is escaped.
\<close>

section \<open>Paths\<close>

fun split_char :: "char \<Rightarrow> string \<Rightarrow> string list" where
  "split_char c [] = [[]]"
| "split_char c (x # xs) = (if x = c then [] # split_char c xs else (case split_char c xs of [] \<Rightarrow> [[x]] | p # ps \<Rightarrow> (x # p) # ps))"

fun join_with :: "string \<Rightarrow> string list \<Rightarrow> string" where
  "join_with sep [] = []"
| "join_with sep [p] = p"
| "join_with sep (p # ps) = p @ sep @ join_with sep ps"

record pathlib =
  path_root :: string
  path_parts :: "string list"

definition mk_path :: "string \<Rightarrow> pathlib" where
  "mk_path s =
     \<lparr>path_root = (if take 2 s = ''//'' \<and> take 3 s \<noteq> ''///'' then ''//'' else if take 1 s = ''/'' then ''/'' else []),
      path_parts = filter (\<lambda>p. p \<noteq> [] \<and> p \<noteq> ''.'') (split_char (CHR ''/'') s)\<rparr>"

definition path_div :: "pathlib \<Rightarrow> pathlib \<Rightarrow> pathlib" where
  "path_div p q = (if path_root q \<noteq> [] then q else p\<lparr>path_parts := path_parts p @ path_parts q\<rparr>)"

definition path_str :: "pathlib \<Rightarrow> string" where
  "path_str p = (if path_root p = [] \<and> path_parts p = [] then ''.'' else path_root p @ join_with ''/'' (path_parts p))"

section \<open>Options\<close>

datatype arg_value = ArgNone | ArgStr string | ArgInt int

record option_decl =
  op_dest :: string
  op_required :: bool
  op_int :: bool
  op_default :: arg_value

type_synonym namespace = "(string, arg_value) dict"

definition opt_str :: "string \<Rightarrow> option_decl" where
  "opt_str d = \<lparr>op_dest = d, op_required = False, op_int = False, op_default = ArgNone\<rparr>"

definition req_str :: "string \<Rightarrow> option_decl" where
  "req_str d = \<lparr>op_dest = d, op_required = True, op_int = False, op_default = ArgNone\<rparr>"

definition opt_int :: "string \<Rightarrow> int \<Rightarrow> option_decl" where
  "opt_int d n = \<lparr>op_dest = d, op_required = False, op_int = True, op_default = ArgInt n\<rparr>"

definition main_options :: "option_decl list" where
  "main_options = [opt_str ''config'', \<lparr>op_dest = ''output_dir'', op_required = False, op_int = False, op_default = ArgStr ''./certificates''\<rparr>]"

definition subject_options :: "option_decl list" where
  "subject_options =
     [opt_str ''country'', opt_str ''state'', opt_str ''locality'', opt_str ''organization'', opt_str ''org_unit'',
      req_str ''common_name'', opt_str ''email'']"

definition command_options :: "(string, option_decl list) dict" where
  "command_options =
     [(''create-key'', [req_str ''key_file'', opt_int ''key_size'' 2048]),
      (''create-csr'', [req_str ''key_file'', req_str ''csr_file''] @ subject_options),
      (''create-self-signed'', [req_str ''key_file'', req_str ''cert_file'', opt_int ''days'' 365] @ subject_options),
      (''sign-csr'', [req_str ''ca_key'', req_str ''ca_cert'', req_str ''csr_file'', req_str ''cert_file'', opt_int ''days'' 365])]"

text \<open>\<open>int\<close> of a text: spaces around it, an optional sign, digits, and single underscores between digits.\<close>

definition strip_spaces :: "string \<Rightarrow> string" where
  "strip_spaces s = (let sp = (\<lambda>c. of_char c \<in> set ([9..<14] @ [28..<33] @ [133, 160 :: nat])) in rev (dropWhile sp (rev (dropWhile sp s))))"

definition py_int :: "string \<Rightarrow> int option" where
  "py_int s =
     (let t = strip_spaces s; neg = take 1 t = ''-''; ds = (if take 1 t \<in> {''-'', ''+''} then drop 1 t else t)
      in if list_all (\<lambda>p. p \<noteq> [] \<and> list_all is_digit p) (split_char (CHR ''_'') ds)
         then (let n = int_of_digits (filter (\<lambda>c. c \<noteq> CHR ''_'') ds) in Some (if neg then - n else n))
         else None)"

definition convert_arg :: "option_decl \<Rightarrow> string \<Rightarrow> arg_value option" where
  "convert_arg d s = (if op_int d then map_option ArgInt (py_int s) else Some (ArgStr s))"

fun store_args :: "option_decl list \<Rightarrow> (string \<times> string) list \<Rightarrow> namespace \<Rightarrow> exc_class + namespace" where
  "store_args ds [] ns = Inr ns"
| "store_args ds ((n, s) # rest) ns =
     (case find (\<lambda>d. op_dest d = n) ds of
        None \<Rightarrow> Inl (UserExc ''SystemExit'' Exception)
      | Some d \<Rightarrow>
          (case convert_arg d s of
             None \<Rightarrow> Inl (UserExc ''SystemExit'' Exception)
           | Some v \<Rightarrow> store_args ds rest (dict_set n v ns)))"

definition parse_group :: "option_decl list \<Rightarrow> (string \<times> string) list \<Rightarrow> namespace \<Rightarrow> exc_class + namespace" where
  "parse_group ds given ns =
     bind_res (store_args ds given (dict_update ns (map (\<lambda>d. (op_dest d, op_default d)) ds))) (\<lambda>ns1.
       if \<exists>d \<in> set ds. op_required d \<and> op_dest d \<notin> fst ` set given then Inl (UserExc ''SystemExit'' Exception) else Inr ns1)"

definition parse_arguments :: "(string \<times> string) list \<Rightarrow> (string \<times> (string \<times> string) list) option \<Rightarrow> exc_class + namespace" where
  "parse_arguments given cmd =
     bind_res (parse_group main_options given [(''command'', ArgNone)]) (\<lambda>ns.
       case cmd of
         None \<Rightarrow> Inr ns
       | Some (c, args) \<Rightarrow>
           (case dict_get command_options c of
              None \<Rightarrow> Inl (UserExc ''SystemExit'' Exception)
            | Some ds \<Rightarrow> parse_group ds args (dict_set ''command'' (ArgStr c) ns)))"

section \<open>Commands\<close>

record openssl_env =
  mkdir_error :: "string \<Rightarrow> exc_class option"
  config_error :: "string \<Rightarrow> exc_class option"
  run_error :: "string list \<Rightarrow> exc_class option"

record cert_world =
  directories :: "string list"
  commands :: "string list list"

type_synonym 'a cert_act = "(cert_world, exc_class, 'a) action"

definition make_dir :: "openssl_env \<Rightarrow> string \<Rightarrow> unit cert_act" where
  "make_dir env d w =
     (case mkdir_error env d of Some e \<Rightarrow> (Inl e, w) | None \<Rightarrow> (Inr (), w\<lparr>directories := directories w @ [d]\<rparr>))"

definition run_command :: "openssl_env \<Rightarrow> string list \<Rightarrow> unit cert_act" where
  "run_command env cmd w =
     (case run_error env cmd of
        Some e \<Rightarrow> (Inl e, w\<lparr>commands := commands w @ [cmd]\<rparr>)
      | None \<Rightarrow> (Inr (), w\<lparr>commands := commands w @ [cmd]\<rparr>))"

definition show_int :: "int \<Rightarrow> string" where
  "show_int i = (if i < 0 then ''-'' @ show_nat (nat (- i)) else show_nat (nat i))"

definition format_subject :: "(string, string) dict \<Rightarrow> string" where
  "format_subject details = concat (map (\<lambda>(k, v). if v \<noteq> [] then ''/'' @ k @ ''='' @ v else []) details)"

definition generate_private_key :: "openssl_env \<Rightarrow> string \<Rightarrow> int \<Rightarrow> unit cert_act" where
  "generate_private_key env key_file key_size = run_command env [''openssl'', ''genrsa'', ''-out'', key_file, show_int key_size]"

definition generate_csr :: "openssl_env \<Rightarrow> string \<Rightarrow> string \<Rightarrow> (string, string) dict \<Rightarrow> unit cert_act" where
  "generate_csr env key_file csr_file details =
     run_command env [''openssl'', ''req'', ''-new'', ''-key'', key_file, ''-out'', csr_file, ''-subj'', format_subject details]"

definition generate_self_signed_cert :: "openssl_env \<Rightarrow> string \<Rightarrow> string \<Rightarrow> (string, string) dict \<Rightarrow> int \<Rightarrow> unit cert_act" where
  "generate_self_signed_cert env key_file cert_file details days =
     run_command env [''openssl'', ''req'', ''-new'', ''-x509'', ''-key'', key_file, ''-out'', cert_file, ''-days'', show_int days,
       ''-subj'', format_subject details]"

definition generate_certificate_chain :: "openssl_env \<Rightarrow> string \<Rightarrow> string \<Rightarrow> string \<Rightarrow> string \<Rightarrow> int \<Rightarrow> unit cert_act" where
  "generate_certificate_chain env ca_key ca_cert server_csr server_cert days =
     run_command env [''openssl'', ''x509'', ''-req'', ''-in'', server_csr, ''-CA'', ca_cert, ''-CAkey'', ca_key, ''-CAcreateserial'',
       ''-out'', server_cert, ''-days'', show_int days]"

text \<open>The constructor of the generator reads the configuration, which is not used further, and makes the directory
  \<open>./certificates\<close>.\<close>

definition mk_generator :: "openssl_env \<Rightarrow> string option \<Rightarrow> unit cert_act" where
  "mk_generator env config =
     bind_act (case config of
                 None \<Rightarrow> ret_act ()
               | Some c \<Rightarrow> if c = [] then ret_act () else (case config_error env c of None \<Rightarrow> ret_act () | Some e \<Rightarrow> raise_act e))
       (\<lambda>_. make_dir env (path_str (mk_path ''./certificates'')))"

definition arg_str :: "namespace \<Rightarrow> string \<Rightarrow> string" where
  "arg_str ns n = (case dict_get ns n of Some (ArgStr s) \<Rightarrow> s | _ \<Rightarrow> [])"

definition arg_int :: "namespace \<Rightarrow> string \<Rightarrow> int" where
  "arg_int ns n = (case dict_get ns n of Some (ArgInt i) \<Rightarrow> i | _ \<Rightarrow> 0)"

definition subject_keys :: "(string \<times> string) list" where
  "subject_keys = [(''country'', ''C''), (''state'', ''ST''), (''locality'', ''L''), (''organization'', ''O''), (''org_unit'', ''OU''),
     (''common_name'', ''CN''), (''email'', ''emailAddress'')]"

definition get_subject_from_args :: "namespace \<Rightarrow> (string, string) dict" where
  "get_subject_from_args ns = map (\<lambda>(n, k). (k, arg_str ns n)) (filter (\<lambda>(n, k). arg_str ns n \<noteq> []) subject_keys)"

definition cert_dispatch :: "openssl_env \<Rightarrow> namespace \<Rightarrow> unit cert_act" where
  "cert_dispatch env ns =
     (let in_out = (\<lambda>n. path_str (path_div (mk_path (arg_str ns ''output_dir'')) (mk_path (arg_str ns n))));
          plain = (\<lambda>n. path_str (mk_path (arg_str ns n)))
      in case dict_get ns ''command'' of
           Some (ArgStr c) \<Rightarrow>
             (if c = ''create-key'' then generate_private_key env (in_out ''key_file'') (arg_int ns ''key_size'')
              else if c = ''create-csr'' then generate_csr env (plain ''key_file'') (in_out ''csr_file'') (get_subject_from_args ns)
              else if c = ''create-self-signed''
              then generate_self_signed_cert env (plain ''key_file'') (in_out ''cert_file'') (get_subject_from_args ns) (arg_int ns ''days'')
              else if c = ''sign-csr''
              then generate_certificate_chain env (plain ''ca_key'') (plain ''ca_cert'') (plain ''csr_file'') (in_out ''cert_file'') (arg_int ns ''days'')
              else ret_act ())
         | _ \<Rightarrow> ret_act ())"

definition cert_main :: "openssl_env \<Rightarrow> namespace \<Rightarrow> unit cert_act" where
  "cert_main env ns =
     bind_act (make_dir env (path_str (mk_path (arg_str ns ''output_dir'')))) (\<lambda>_.
     bind_act (mk_generator env (case dict_get ns ''config'' of Some (ArgStr c) \<Rightarrow> Some c | _ \<Rightarrow> None)) (\<lambda>_.
       cert_dispatch env ns))"

section \<open>Subjects\<close>

definition read_subject :: "string \<Rightarrow> (string \<times> string) list" where
  "read_subject s =
     map (\<lambda>p. (takeWhile (\<lambda>c. c \<noteq> CHR ''='') p, drop 1 (dropWhile (\<lambda>c. c \<noteq> CHR ''='') p))) (tl (split_char (CHR ''/'') s))"

definition plain_text :: "string \<Rightarrow> bool" where
  "plain_text s \<longleftrightarrow> CHR ''/'' \<notin> set s \<and> CHR ''='' \<notin> set s"

lemma split_char_nonempty [simp]: "split_char c s \<noteq> []"
  by (induction s) (auto split: list.splits)

lemma split_char_free: "c \<notin> set p \<Longrightarrow> split_char c (p @ s) = (p @ hd (split_char c s)) # tl (split_char c s)"
  by (induction p) auto

lemma take_while_stop: "x \<notin> set k \<Longrightarrow> takeWhile (\<lambda>c. c \<noteq> x) (k @ x # v) = k" "x \<notin> set k \<Longrightarrow> dropWhile (\<lambda>c. c \<noteq> x) (k @ x # v) = x # v"
  by (induction k) auto

lemma split_subject:
  assumes "\<forall>(k, v) \<in> set d. CHR ''/'' \<notin> set k \<and> CHR ''/'' \<notin> set v"
  shows "split_char (CHR ''/'') (format_subject d) = [] # map (\<lambda>(k, v). k @ ''='' @ v) (filter (\<lambda>(k, v). v \<noteq> []) d)"
  using assms
proof (induction d)
  case (Cons kv d)
  obtain k v where kv: "kv = (k, v)" by (cases kv)
  have "split_char (CHR ''/'') ((k @ ''='' @ v) @ format_subject d) =
      ((k @ ''='' @ v) @ hd (split_char (CHR ''/'') (format_subject d))) # tl (split_char (CHR ''/'') (format_subject d))"
    using Cons.prems kv by (intro split_char_free) auto
  then show ?case
    using Cons kv by (auto simp: format_subject_def)
qed (simp add: format_subject_def)

text \<open>Reading a subject gives what was put in, when no part has a slash.\<close>

lemma subject_round_trip:
  assumes "\<forall>(k, v) \<in> set d. plain_text k \<and> CHR ''/'' \<notin> set v"
  shows "read_subject (format_subject d) = filter (\<lambda>(k, v). v \<noteq> []) d"
proof -
  have "split_char (CHR ''/'') (format_subject d) = [] # map (\<lambda>(k, v). k @ ''='' @ v) (filter (\<lambda>(k, v). v \<noteq> []) d)"
    using assms by (intro split_subject) (auto simp: plain_text_def)
  moreover have "(k, v) \<in> set d \<Longrightarrow> CHR ''='' \<notin> set k" for k v
    using assms by (auto simp: plain_text_def)
  ultimately have "read_subject (format_subject d) = map id (filter (\<lambda>(k, v). v \<noteq> []) d)"
    by (auto simp: read_subject_def take_while_stop intro!: map_idI)
  then show ?thesis by simp
qed

text \<open>With a slash a name brings attributes of its own.\<close>

lemma subject_injection: "read_subject (format_subject [(''CN'', ''a/O=b'')]) = [(''CN'', ''a''), (''O'', ''b'')]"
  by (simp add: read_subject_def format_subject_def)

lemma subject_of_args:
  assumes "\<forall>(n, k) \<in> set subject_keys. CHR ''/'' \<notin> set (arg_str ns n)"
  shows "read_subject (format_subject (get_subject_from_args ns)) = get_subject_from_args ns"
proof -
  have "\<forall>(k, v) \<in> set (get_subject_from_args ns). plain_text k \<and> CHR ''/'' \<notin> set v"
    using assms by (auto simp: get_subject_from_args_def subject_keys_def plain_text_def)
  then have "read_subject (format_subject (get_subject_from_args ns)) = filter (\<lambda>(k, v). v \<noteq> []) (get_subject_from_args ns)"
    by (rule subject_round_trip)
  also have "\<dots> = get_subject_from_args ns"
    by (rule filter_True) (auto simp: get_subject_from_args_def)
  finally show ?thesis .
qed

section \<open>What a call of the script runs\<close>

definition cert_start :: cert_world where
  "cert_start = \<lparr>directories = [], commands = []\<rparr>"

definition path_of :: "namespace \<Rightarrow> string \<Rightarrow> string" where
  "path_of ns n = path_str (path_div (mk_path (arg_str ns ''output_dir'')) (mk_path (arg_str ns n)))"

lemma run_command_runs: "run_command env cmd w = (r, w') \<Longrightarrow> directories w' = directories w \<and> commands w' = commands w @ [cmd]"
  by (auto simp: run_command_def split: option.splits)

lemmas generate_defs = generate_private_key_def generate_csr_def generate_self_signed_cert_def generate_certificate_chain_def

lemma cert_dispatch_runs:
  "cert_dispatch env ns w = (r, w') \<Longrightarrow> directories w' = directories w \<and> (\<exists>cmds. commands w' = commands w @ cmds \<and> length cmds \<le> 1)"
  by (auto simp: cert_dispatch_def generate_defs Let_def act_simps dest!: run_command_runs split: option.splits arg_value.splits if_splits)

lemma mk_generator_makes:
  "mk_generator env config w = (r, w') \<Longrightarrow> commands w' = commands w \<and> (r = Inr () \<longrightarrow> directories w' = directories w @ [''certificates''])"
  by (auto simp: mk_generator_def make_dir_def bind_act_def act_basics path_str_def mk_path_def split: option.splits if_splits)

text \<open>A directory that cannot be made ends the script before anything is run; every other call runs at most one command.\<close>

lemma cert_main_runs:
  assumes "cert_main env ns cert_start = (r, w)"
  shows "length (commands w) \<le> 1"
    and "mkdir_error env (path_str (mk_path (arg_str ns ''output_dir''))) = Some e \<Longrightarrow> r = Inl e \<and> commands w = []"
    and "r = Inr () \<Longrightarrow> directories w = [path_str (mk_path (arg_str ns ''output_dir'')), ''certificates'']"
  using assms
  by (auto simp: cert_main_def cert_start_def make_dir_def bind_act_def dest!: cert_dispatch_runs mk_generator_makes
      split: option.splits prod.splits sum.splits)

lemma dict_update_other: "n \<notin> fst ` set e \<Longrightarrow> dict_get (dict_update d e) n = dict_get d n"
  by (induction e arbitrary: d) (auto simp: dict_simps)

lemma store_args_other:
  "\<lbrakk>store_args ds given ns = Inr ns'; n \<notin> op_dest ` set ds\<rbrakk> \<Longrightarrow> dict_get ns' n = dict_get ns n"
proof (induction ds given ns rule: store_args.induct)
  case (2 ds m s rest ns)
  obtain d v where d: "find (\<lambda>d. op_dest d = m) ds = Some d" "convert_arg d s = Some v" "store_args ds rest (dict_set m v ns) = Inr ns'"
    using "2.prems"(1) by (auto split: option.splits)
  then have "m \<noteq> n" using "2.prems"(2) by (auto simp: find_Some_iff)
  then show ?case using "2.IH" [OF d(1,2)] d(3) "2.prems"(2) by (simp add: dict_simps)
qed simp

lemma parse_group_other:
  assumes "parse_group ds given ns = Inr ns'" and "n \<notin> op_dest ` set ds"
  shows "dict_get ns' n = dict_get ns n"
proof -
  have "n \<notin> fst ` set (map (\<lambda>d. (op_dest d, op_default d)) ds)"
    using assms(2) by (auto simp: image_iff)
  then show ?thesis
    using assms by (auto simp: parse_group_def res_simps dict_update_other dest!: store_args_other split: if_splits)
qed

lemma command_stored:
  assumes "parse_arguments given (Some (c, args)) = Inr ns"
  shows "dict_get ns ''command'' = Some (ArgStr c)"
proof -
  obtain ns1 ds where "dict_get command_options c = Some ds" "parse_group ds args (dict_set ''command'' (ArgStr c) ns1) = Inr ns"
    using assms by (auto simp: parse_arguments_def res_simps split: option.splits)
  moreover from this(1) have "''command'' \<notin> op_dest ` set ds"
    by (auto simp: command_options_def subject_options_def req_str_def opt_str_def opt_int_def split: if_splits)
  ultimately show ?thesis using parse_group_other by (fastforce simp: dict_simps)
qed

text \<open>The request, or the self-signed certificate, has exactly the attributes that were given on the command line, in the order country, state,
  locality, organization, unit, name and address.\<close>

lemma certificate_request:
  assumes "parse_arguments given (Some (''create-csr'', args)) = Inr ns"
    and "\<forall>(n, k) \<in> set subject_keys. CHR ''/'' \<notin> set (arg_str ns n)"
    and "cert_main env ns cert_start = (Inr (), w)"
  shows "\<exists>s. commands w = [[''openssl'', ''req'', ''-new'', ''-key'', path_str (mk_path (arg_str ns ''key_file'')), ''-out'',
      path_of ns ''csr_file'', ''-subj'', s]] \<and> read_subject s = get_subject_from_args ns"
proof -
  have "commands w = [[''openssl'', ''req'', ''-new'', ''-key'', path_str (mk_path (arg_str ns ''key_file'')), ''-out'',
      path_of ns ''csr_file'', ''-subj'', format_subject (get_subject_from_args ns)]]"
    using assms(3) command_stored [OF assms(1)]
    by (auto simp: cert_main_def cert_start_def cert_dispatch_def generate_csr_def make_dir_def path_of_def act_simps
        dest!: run_command_runs mk_generator_makes split: option.splits)
  then show ?thesis using subject_of_args [OF assms(2)] by blast
qed

end
