(* ===== verification/Reports.thy ===== *)
theory Reports
  imports Publishers Signals
begin

text \<open>
  Reports of telemetry and its set-up: \<open>EventMetrics.to_dict\<close> and \<open>add_pipeline_metrics\<close> of \<^verbatim>\<open>src/nexus/telemetry/logger.py\<close>,
  \<open>format_metrics\<close> of \<^verbatim>\<open>src/nexus/telemetry/reporter.py\<close>, \<open>register_collectors\<close> of \<^verbatim>\<open>src/nexus/telemetry/collector.py\<close>
  and the constructors of \<^verbatim>\<open>src/nexus/telemetry/publisher.py\<close>.

  The text of a time (\<open>isofmt\<close>) and of a number with three decimals (\<open>fixed3\<close>) are arguments.
\<close>

section \<open>Dictionaries of metrics\<close>

definition attr_val :: "entity \<Rightarrow> string \<Rightarrow> pyval" where
  "attr_val r k = (case get_attr r k of Some v \<Rightarrow> v | None \<Rightarrow> PNone)"

definition metrics_to_dict :: "(rat \<Rightarrow> string) \<Rightarrow> (rat \<Rightarrow> string) \<Rightarrow> entity \<Rightarrow> (string, pyval) dict" where
  "metrics_to_dict isofmt fixed3 r =
     [(''event_name'', attr_val r ''event_name''), (''task_id'', attr_val r ''task_id''),
      (''start_time'', (case float_attr r ''start_time'' of Some s \<Rightarrow> PStr (isofmt s) | None \<Rightarrow> PNone)),
      (''end_time'', (case float_attr r ''end_time'' of Some e \<Rightarrow> if e = 0 then PNone else PStr (isofmt e) | None \<Rightarrow> PNone)),
      (''duration'', PStr (fixed3 (duration r) @ ''s'')),
      (''status'', attr_val r ''status''), (''error'', attr_val r ''error''), (''retry_count'', attr_val r ''retry_count''),
      (''process_id'', attr_val r ''process_id''), (''pipeline_id'', attr_val r ''pipeline_id'')]"

text \<open>\<open>format_metrics\<close> for the metrics of one logger, and for those of each pipeline.\<close>

definition report_list :: "(rat \<Rightarrow> string) \<Rightarrow> (rat \<Rightarrow> string) \<Rightarrow> entity list \<Rightarrow> pyval" where
  "report_list isofmt fixed3 ms = PList (map (\<lambda>m. PDict (metrics_to_dict isofmt fixed3 m)) ms)"

definition report_key :: "string option \<Rightarrow> string" where
  "report_key p = (case p of None \<Rightarrow> ''default'' | Some s \<Rightarrow> if s = [] then ''default'' else s)"

definition report_dict ::
  "(rat \<Rightarrow> string) \<Rightarrow> (rat \<Rightarrow> string) \<Rightarrow> (string option \<times> entity list) list \<Rightarrow> (string, pyval) dict" where
  "report_dict isofmt fixed3 ms = dict_update [] (map (\<lambda>(p, rs). (report_key p, report_list isofmt fixed3 rs)) ms)"

text \<open>A report by pipeline shows every pipeline, when their names do not become equal.\<close>

lemma report_complete:
  assumes "distinct (map (report_key \<circ> fst) ms)" and "(p, rs) \<in> set ms"
  shows "dict_get (report_dict isofmt fixed3 ms) (report_key p) = Some (report_list isofmt fixed3 rs)"
proof -
  let ?e = "map (\<lambda>(p, rs). (report_key p, report_list isofmt fixed3 rs)) ms"
  have "map fst ?e = map (report_key \<circ> fst) ms" by auto
  then have "dict_ok ?e" using assms(1) unfolding dict_ok_def by metis
  moreover have "(report_key p, report_list isofmt fixed3 rs) \<in> set ?e" using assms(2) by auto
  ultimately show ?thesis
    by (simp add: report_dict_def dict_update_fresh dict_ok_def map_of_eq_Some_iff)
qed

lemma report_collision:
  "dict_get (report_dict isofmt fixed3 [(None, rs), (Some ''default'', rs')]) ''default'' = Some (report_list isofmt fixed3 rs')"
  by (simp add: report_dict_def report_key_def)

section \<open>Metrics of a batch\<close>

text \<open>\<open>add_pipeline_metrics\<close> calls \<open>publish_batch_pipeline_metrics\<close> of each publisher; \<open>None\<close> is a publisher without this
  method, which raises \<open>AttributeError\<close>. Exceptions are logged: the list of what was raised.\<close>

fun add_pipeline_metrics :: "('m \<Rightarrow> ('w, pyval, unit) action) option list \<Rightarrow> 'm \<Rightarrow> 'w \<Rightarrow> pyval list \<times> 'w" where
  "add_pipeline_metrics [] m w = ([], w)"
| "add_pipeline_metrics (None # ps) m w = (case add_pipeline_metrics ps m w of (es, w') \<Rightarrow> (PExc AttributeError [] # es, w'))"
| "add_pipeline_metrics (Some pub # ps) m w =
     (case pub m w of
        (Inl e, w1) \<Rightarrow> (case add_pipeline_metrics ps m w1 of (es, w2) \<Rightarrow> (e # es, w2))
      | (Inr _, w1) \<Rightarrow> add_pipeline_metrics ps m w1)"

text \<open>No publisher of the package has the method, so the metrics of a batch are never published.\<close>

lemma batch_metrics_unpublished:
  "add_pipeline_metrics (replicate n None) m w = (replicate n (PExc AttributeError []), w)"
  by (induction n) simp_all

section \<open>Collectors\<close>

text \<open>\<open>register_collectors\<close>; the collectors are the listeners 0, 1 and 2, and \<open>ctx\<close> is the class of contexts.\<close>

definition register_collectors :: "sender \<Rightarrow> signal \<times> signal \<times> signal \<Rightarrow> signal \<times> signal \<times> signal" where
  "register_collectors ctx bus =
     (case bus of (init_sg, end_sg, retry_sg) \<Rightarrow>
        (connect (Some ctx) 0 init_sg, connect (Some ctx) 1 end_sg, connect (Some ctx) 2 retry_sg))"

text \<open>What the collector reads from the arguments of a signal: the number of the process and of the pipeline are among the arguments of none of the
  three signals, so metrics are never attributed to a pipeline, and the logger of batches keeps one entry.\<close>

lemma no_pipeline_in_signals:
  assumes "n \<in> {''event_execution_init'', ''event_execution_end'', ''event_execution_retry''}"
  shows "\<exists>args. dict_get signal_declarations n = Some args \<and> ''pipeline_id'' \<notin> set args \<and> ''process_id'' \<notin> set args"
  using assms by (auto simp: signal_declarations_def)

section \<open>Constructors of publishers\<close>

record es_publisher =
  es_hosts :: "string list"
  index_prefix :: string

definition mk_es_publisher :: "bool \<Rightarrow> string list \<Rightarrow> string option \<Rightarrow> exc_class + es_publisher" where
  "mk_es_publisher installed hosts prefix =
     (if \<not> installed then Inl ImportError
      else Inr \<lparr>es_hosts = hosts, index_prefix = (case prefix of None \<Rightarrow> ''event-pipeline-metrics'' | Some p \<Rightarrow> p)\<rparr>)"

record grafana_publisher =
  gf_headers :: "(string, string) dict"
  gf_base_url :: string
  gf_org_slug :: string

definition mk_grafana_publisher :: "bool \<Rightarrow> (string, string) dict \<Rightarrow> string \<Rightarrow> string \<Rightarrow> string option \<Rightarrow> exc_class + grafana_publisher" where
  "mk_grafana_publisher installed headers api_key org_slug region =
     (if \<not> installed then Inl ImportError
      else Inr \<lparr>gf_headers = dict_update headers [(''Authorization'', ''Bearer '' @ api_key), (''Content-Type'', ''application/json'')],
                gf_base_url = ''https://grafana-'' @ (case region of None \<Rightarrow> ''prod-us-east-0'' | Some r \<Rightarrow> r) @ ''.grafana.net/api/v1/metrics'',
                gf_org_slug = org_slug\<rparr>)"

lemma grafana_authorized:
  "mk_grafana_publisher True headers key slug region = Inr g \<Longrightarrow> dict_get (gf_headers g) ''Authorization'' = Some (''Bearer '' @ key)"
  by (auto simp: mk_grafana_publisher_def dict_simps)

end
